(* ===== verification/Prelude.thy ===== *)
theory Prelude imports Main "HOL-Library.Word" begin

text \<open>
  Shared vocabulary of the development: the machine types of the C code, the fact
  collections the component theories fill, and the generic lemmas on words and lists that
  their proofs use.

  \<^item> \<open>u64\<close>, \<open>u32\<close>, \<open>u16\<close>, \<open>u8\<close> are the code's \<open>uint64_t\<close>, \<open>uint32_t\<close>, \<open>uint16_t\<close> and
    \<open>unsigned char\<close>; their arithmetic wraps as it does in C.
  \<^item> A C function that returns 0 or a negative error code returns an \<open>int\<close>; what it
    writes through its pointers is returned beside that code.
\<close>

type_synonym u64 = "64 word"
type_synonym u32 = "32 word"
type_synonym u16 = "16 word"
type_synonym u8 = "8 word"

text \<open>\<open>struct ltfs_timespec\<close>: seconds and nanoseconds.\<close>

record ltfs_timespec =
  tv_sec :: int
  tv_nsec :: int

named_theorems ext_defs \<open>definitions of the extent list operations\<close>
named_theorems host_simps \<open>the host file system when no call fails\<close>
named_theorems tape_defs \<open>definitions of the tape layer operations\<close>

section \<open>Words\<close>

lemma unat_add_nowrap:
  fixes a b :: "'a::len word"
  assumes "unat a + unat b < 2 ^ LENGTH('a)"
  shows "unat (a + b) = unat a + unat b"
  using assms by (simp add: unat_word_ariths)

lemma unat_sub_le:
  fixes a b :: "'a::len word"
  assumes "b \<le> a"
  shows "unat (a - b) = unat a - unat b"
  using assms by (simp add: unat_sub)

lemma u64_less_bound: "unat (a :: u64) < 2 ^ 64"
  using unsigned_less [of a] by simp

lemma u32_less_bound: "unat (a :: u32) < 2 ^ 32"
  using unsigned_less [of a] by simp

lemma unat_ucast_u32_u64 [simp]: "unat (ucast (a :: u32) :: u64) = unat a"
proof -
  have "unat a < 2 ^ 32" using unsigned_less [of a] by simp
  then show ?thesis by (simp add: unsigned_ucast_eq take_bit_nat_eq_self)
qed

lemma unat_ucast_u64_u32:
  assumes "unat (a :: u64) < 2 ^ 32"
  shows "unat (ucast a :: u32) = unat a"
  using assms by (simp add: unsigned_ucast_eq take_bit_nat_eq_self)

lemma of_nat_unat_u64: "of_nat (unat (a :: u64)) = a"
  by (metis of_nat_unat ucast_id)

section \<open>Maps and lists\<close>

lemma restrict_map_add_distrib: "(m ++ n) |` A = (m |` A) ++ (n |` A)"
  by (auto simp: fun_eq_iff restrict_map_def map_add_def split: option.splits)

lemma sorted_wrt_middle:
  assumes "sorted_wrt P (xs @ zs)"
    and "\<And>x. x \<in> set xs \<Longrightarrow> P x y" and "\<And>z. z \<in> set zs \<Longrightarrow> P y z"
  shows "sorted_wrt P (xs @ y # zs)"
  using assms by (auto simp: sorted_wrt_append)

end
