(* ===== verification/Errors.thy ===== *)
theory Errors imports Prelude begin

text \<open>
  The return codes of \<open>src/ltfs/src/libltfs/ltfs_error.h\<close>, one abbreviation for each macro.
  The code returns them negated (\<open>-LTFS_NO_SPACE\<close>); 0 (\<open>DEVICE_GOOD\<close>) and positive values
  are successes. \<open>NEED_REVAL\<close> and \<open>IS_UNEXPECTED_MOVE\<close> are the two predicates of
  \<open>src/ltfs/src/libltfs/tape.h\<close> on such codes.
\<close>

abbreviation LTFS_ERR_MIN :: int where "LTFS_ERR_MIN \<equiv> 1000"
abbreviation LTFS_NULL_ARG :: int where "LTFS_NULL_ARG \<equiv> 1000"
abbreviation LTFS_NO_MEMORY :: int where "LTFS_NO_MEMORY \<equiv> 1001"
abbreviation LTFS_MUTEX_INVALID :: int where "LTFS_MUTEX_INVALID \<equiv> 1002"
abbreviation LTFS_MUTEX_UNLOCKED :: int where "LTFS_MUTEX_UNLOCKED \<equiv> 1003"
abbreviation LTFS_BAD_DEVICE_DATA :: int where "LTFS_BAD_DEVICE_DATA \<equiv> 1004"
abbreviation LTFS_BAD_PARTNUM :: int where "LTFS_BAD_PARTNUM \<equiv> 1005"
abbreviation LTFS_LIBXML2_FAILURE :: int where "LTFS_LIBXML2_FAILURE \<equiv> 1006"
abbreviation LTFS_DEVICE_UNREADY :: int where "LTFS_DEVICE_UNREADY \<equiv> 1007"
abbreviation LTFS_NO_MEDIUM :: int where "LTFS_NO_MEDIUM \<equiv> 1008"
abbreviation LTFS_LARGE_BLOCKSIZE :: int where "LTFS_LARGE_BLOCKSIZE \<equiv> 1009"
abbreviation LTFS_BAD_LOCATE :: int where "LTFS_BAD_LOCATE \<equiv> 1010"
abbreviation LTFS_NOT_PARTITIONED :: int where "LTFS_NOT_PARTITIONED \<equiv> 1011"
abbreviation LTFS_LABEL_INVALID :: int where "LTFS_LABEL_INVALID \<equiv> 1012"
abbreviation LTFS_LABEL_MISMATCH :: int where "LTFS_LABEL_MISMATCH \<equiv> 1013"
abbreviation LTFS_INDEX_INVALID :: int where "LTFS_INDEX_INVALID \<equiv> 1014"
abbreviation LTFS_INCONSISTENT :: int where "LTFS_INCONSISTENT \<equiv> 1015"
abbreviation LTFS_UNSUPPORTED_MEDIUM :: int where "LTFS_UNSUPPORTED_MEDIUM \<equiv> 1016"
abbreviation LTFS_GENERATION_MISMATCH :: int where "LTFS_GENERATION_MISMATCH \<equiv> 1017"
abbreviation LTFS_MAM_CACHE_INVALID :: int where "LTFS_MAM_CACHE_INVALID \<equiv> 1018"
abbreviation LTFS_INDEX_CACHE_INVALID :: int where "LTFS_INDEX_CACHE_INVALID \<equiv> 1019"
abbreviation LTFS_POLICY_EMPTY_RULE :: int where "LTFS_POLICY_EMPTY_RULE \<equiv> 1020"
abbreviation LTFS_MUTEX_INIT :: int where "LTFS_MUTEX_INIT \<equiv> 1021"
abbreviation LTFS_BAD_ARG :: int where "LTFS_BAD_ARG \<equiv> 1022"
abbreviation LTFS_NAMETOOLONG :: int where "LTFS_NAMETOOLONG \<equiv> 1023"
abbreviation LTFS_NO_DENTRY :: int where "LTFS_NO_DENTRY \<equiv> 1024"
abbreviation LTFS_INVALID_PATH :: int where "LTFS_INVALID_PATH \<equiv> 1025"
abbreviation LTFS_INVALID_SRC_PATH :: int where "LTFS_INVALID_SRC_PATH \<equiv> 1026"
abbreviation LTFS_DENTRY_EXISTS :: int where "LTFS_DENTRY_EXISTS \<equiv> 1027"
abbreviation LTFS_DIRNOTEMPTY :: int where "LTFS_DIRNOTEMPTY \<equiv> 1028"
abbreviation LTFS_UNLINKROOT :: int where "LTFS_UNLINKROOT \<equiv> 1029"
abbreviation LTFS_DIRMOVE :: int where "LTFS_DIRMOVE \<equiv> 1030"
abbreviation LTFS_RENAMELOOP :: int where "LTFS_RENAMELOOP \<equiv> 1031"
abbreviation LTFS_SMALL_BLOCK :: int where "LTFS_SMALL_BLOCK \<equiv> 1032"
abbreviation LTFS_ISDIRECTORY :: int where "LTFS_ISDIRECTORY \<equiv> 1033"
abbreviation LTFS_EOD_MISSING_MEDIUM :: int where "LTFS_EOD_MISSING_MEDIUM \<equiv> 1034"
abbreviation LTFS_BOTH_EOD_MISSING :: int where "LTFS_BOTH_EOD_MISSING \<equiv> 1035"
abbreviation LTFS_UNEXPECTED_VALUE :: int where "LTFS_UNEXPECTED_VALUE \<equiv> 1036"
abbreviation LTFS_UNSUPPORTED :: int where "LTFS_UNSUPPORTED \<equiv> 1037"
abbreviation LTFS_NO_XATTR :: int where "LTFS_NO_XATTR \<equiv> 1040"
abbreviation LTFS_SIG_HANDLER_ERR :: int where "LTFS_SIG_HANDLER_ERR \<equiv> 1041"
abbreviation LTFS_INTERRUPTED :: int where "LTFS_INTERRUPTED \<equiv> 1042"
abbreviation LTFS_UNSUPPORTED_INDEX_VERSION :: int where "LTFS_UNSUPPORTED_INDEX_VERSION \<equiv> 1043"
abbreviation LTFS_ICU_ERROR :: int where "LTFS_ICU_ERROR \<equiv> 1044"
abbreviation LTFS_PLUGIN_LOAD :: int where "LTFS_PLUGIN_LOAD \<equiv> 1045"
abbreviation LTFS_PLUGIN_UNLOAD :: int where "LTFS_PLUGIN_UNLOAD \<equiv> 1046"
abbreviation LTFS_RDONLY_XATTR :: int where "LTFS_RDONLY_XATTR \<equiv> 1047"
abbreviation LTFS_XATTR_EXISTS :: int where "LTFS_XATTR_EXISTS \<equiv> 1048"
abbreviation LTFS_SMALL_BUFFER :: int where "LTFS_SMALL_BUFFER \<equiv> 1049"
abbreviation LTFS_RDONLY_VOLUME :: int where "LTFS_RDONLY_VOLUME \<equiv> 1050"
abbreviation LTFS_NO_SPACE :: int where "LTFS_NO_SPACE \<equiv> 1051"
abbreviation LTFS_LARGE_XATTR :: int where "LTFS_LARGE_XATTR \<equiv> 1052"
abbreviation LTFS_NO_INDEX :: int where "LTFS_NO_INDEX \<equiv> 1053"
abbreviation LTFS_XATTR_NAMESPACE :: int where "LTFS_XATTR_NAMESPACE \<equiv> 1054"
abbreviation LTFS_CONFIG_INVALID :: int where "LTFS_CONFIG_INVALID \<equiv> 1055"
abbreviation LTFS_PLUGIN_INCOMPLETE :: int where "LTFS_PLUGIN_INCOMPLETE \<equiv> 1056"
abbreviation LTFS_NO_PLUGIN :: int where "LTFS_NO_PLUGIN \<equiv> 1057"
abbreviation LTFS_POLICY_INVALID :: int where "LTFS_POLICY_INVALID \<equiv> 1058"
abbreviation LTFS_ISFILE :: int where "LTFS_ISFILE \<equiv> 1059"
abbreviation LTFS_UNRESOLVED_VOLUME :: int where "LTFS_UNRESOLVED_VOLUME \<equiv> 1060"
abbreviation LTFS_POLICY_IMMUTABLE :: int where "LTFS_POLICY_IMMUTABLE \<equiv> 1061"
abbreviation LTFS_SMALL_BLOCKSIZE :: int where "LTFS_SMALL_BLOCKSIZE \<equiv> 1062"
abbreviation LTFS_BARCODE_LENGTH :: int where "LTFS_BARCODE_LENGTH \<equiv> 1063"
abbreviation LTFS_BARCODE_INVALID :: int where "LTFS_BARCODE_INVALID \<equiv> 1064"
abbreviation LTFS_RESOURCE_SHORTAGE :: int where "LTFS_RESOURCE_SHORTAGE \<equiv> 1065"
abbreviation LTFS_DEVICE_FENCED :: int where "LTFS_DEVICE_FENCED \<equiv> 1066"
abbreviation LTFS_REVAL_RUNNING :: int where "LTFS_REVAL_RUNNING \<equiv> 1067"
abbreviation LTFS_REVAL_FAILED :: int where "LTFS_REVAL_FAILED \<equiv> 1068"
abbreviation LTFS_SLOT_FULL :: int where "LTFS_SLOT_FULL \<equiv> 1069"
abbreviation LTFS_SLOT_SHORTAGE :: int where "LTFS_SLOT_SHORTAGE \<equiv> 1070"
abbreviation LTFS_CHANGER_ERROR :: int where "LTFS_CHANGER_ERROR \<equiv> 1071"
abbreviation LTFS_UNEXPECTED_TAPE :: int where "LTFS_UNEXPECTED_TAPE \<equiv> 1072"
abbreviation LTFS_NO_HOMESLOT :: int where "LTFS_NO_HOMESLOT \<equiv> 1073"
abbreviation LTFS_MOVE_ACTIVE_CART :: int where "LTFS_MOVE_ACTIVE_CART \<equiv> 1074"
abbreviation LTFS_NO_IE_SLOT :: int where "LTFS_NO_IE_SLOT \<equiv> 1075"
abbreviation LTFS_INVALID_SLOT :: int where "LTFS_INVALID_SLOT \<equiv> 1076"
abbreviation LTFS_UNSUPPORTED_CART :: int where "LTFS_UNSUPPORTED_CART \<equiv> 1077"
abbreviation LTFS_CART_STUCKED :: int where "LTFS_CART_STUCKED \<equiv> 1078"
abbreviation LTFS_OP_NOT_ALLOWED :: int where "LTFS_OP_NOT_ALLOWED \<equiv> 1079"
abbreviation LTFS_OP_TO_DUP :: int where "LTFS_OP_TO_DUP \<equiv> 1080"
abbreviation LTFS_OP_TO_NON_SUP :: int where "LTFS_OP_TO_NON_SUP \<equiv> 1081"
abbreviation LTFS_OP_TO_INACC :: int where "LTFS_OP_TO_INACC \<equiv> 1082"
abbreviation LTFS_OP_TO_UNFMT :: int where "LTFS_OP_TO_UNFMT \<equiv> 1083"
abbreviation LTFS_OP_TO_INV :: int where "LTFS_OP_TO_INV \<equiv> 1084"
abbreviation LTFS_OP_TO_ERR :: int where "LTFS_OP_TO_ERR \<equiv> 1085"
abbreviation LTFS_OP_TO_CRIT :: int where "LTFS_OP_TO_CRIT \<equiv> 1086"
abbreviation LTFS_OP_TO_CLN :: int where "LTFS_OP_TO_CLN \<equiv> 1087"
abbreviation LTFS_OP_TO_RO :: int where "LTFS_OP_TO_RO \<equiv> 1088"
abbreviation LTFS_ALREADY_FS_INC :: int where "LTFS_ALREADY_FS_INC \<equiv> 1089"
abbreviation LTFS_NOT_IN_FS :: int where "LTFS_NOT_IN_FS \<equiv> 1090"
abbreviation LTFS_FS_CART_TO_IE :: int where "LTFS_FS_CART_TO_IE \<equiv> 1091"
abbreviation LTFS_OP_TO_UNKN :: int where "LTFS_OP_TO_UNKN \<equiv> 1092"
abbreviation LTFS_DRV_LOCKED :: int where "LTFS_DRV_LOCKED \<equiv> 1093"
abbreviation LTFS_DRV_ALRDY_ADDED :: int where "LTFS_DRV_ALRDY_ADDED \<equiv> 1094"
abbreviation LTFS_FORCE_INVENTORY :: int where "LTFS_FORCE_INVENTORY \<equiv> 1095"
abbreviation LTFS_INVENTORY_FAILED :: int where "LTFS_INVENTORY_FAILED \<equiv> 1096"
abbreviation LTFS_RESTART_OPERATION :: int where "LTFS_RESTART_OPERATION \<equiv> 1097"
abbreviation LTFS_NO_TARGET_DRIVE :: int where "LTFS_NO_TARGET_DRIVE \<equiv> 1098"
abbreviation LTFS_NO_DCACHE_FSTYPE :: int where "LTFS_NO_DCACHE_FSTYPE \<equiv> 1099"
abbreviation LTFS_IMAGE_EXISTED :: int where "LTFS_IMAGE_EXISTED \<equiv> 1100"
abbreviation LTFS_IMAGE_MOUNTED :: int where "LTFS_IMAGE_MOUNTED \<equiv> 1101"
abbreviation LTFS_IMAGE_NOT_MOUNTED :: int where "LTFS_IMAGE_NOT_MOUNTED \<equiv> 1102"
abbreviation LTFS_MTAB_NOREGULAR :: int where "LTFS_MTAB_NOREGULAR \<equiv> 1103"
abbreviation LTFS_MTAB_OPEN :: int where "LTFS_MTAB_OPEN \<equiv> 1104"
abbreviation LTFS_MTAB_LOCK :: int where "LTFS_MTAB_LOCK \<equiv> 1105"
abbreviation LTFS_MTAB_SEEK :: int where "LTFS_MTAB_SEEK \<equiv> 1106"
abbreviation LTFS_MTAB_UPDATE :: int where "LTFS_MTAB_UPDATE \<equiv> 1107"
abbreviation LTFS_MTAB_FLUSH :: int where "LTFS_MTAB_FLUSH \<equiv> 1108"
abbreviation LTFS_MTAB_UNLOCK :: int where "LTFS_MTAB_UNLOCK \<equiv> 1109"
abbreviation LTFS_MTAB_CLOSE :: int where "LTFS_MTAB_CLOSE \<equiv> 1110"
abbreviation LTFS_MTAB_COPY :: int where "LTFS_MTAB_COPY \<equiv> 1111"
abbreviation LTFS_MTAB_TEMP_OPEN :: int where "LTFS_MTAB_TEMP_OPEN \<equiv> 1112"
abbreviation LTFS_MTAB_TEMP_SEEK :: int where "LTFS_MTAB_TEMP_SEEK \<equiv> 1113"
abbreviation LTFS_DCACHE_CREATION_FAIL :: int where "LTFS_DCACHE_CREATION_FAIL \<equiv> 1114"
abbreviation LTFS_DCACHE_UNSUPPORTED :: int where "LTFS_DCACHE_UNSUPPORTED \<equiv> 1115"
abbreviation LTFS_DCACHE_EXTRA_SPACE :: int where "LTFS_DCACHE_EXTRA_SPACE \<equiv> 1116"
abbreviation LTFS_KEY_NOT_FOUND :: int where "LTFS_KEY_NOT_FOUND \<equiv> 1117"
abbreviation LTFS_INVALID_SEQUENCE :: int where "LTFS_INVALID_SEQUENCE \<equiv> 1118"
abbreviation LTFS_RDONLY_ROOT :: int where "LTFS_RDONLY_ROOT \<equiv> 1119"
abbreviation LTFS_SYMLINK_CONFLICT :: int where "LTFS_SYMLINK_CONFLICT \<equiv> 1120"
abbreviation LTFS_NETWORK_INIT_FAIL :: int where "LTFS_NETWORK_INIT_FAIL \<equiv> 1121"
abbreviation LTFS_DRIVE_SHORTAGE :: int where "LTFS_DRIVE_SHORTAGE \<equiv> 1122"
abbreviation LTFS_INVALID_VOLSER :: int where "LTFS_INVALID_VOLSER \<equiv> 1123"
abbreviation LTFS_LESS_SPACE :: int where "LTFS_LESS_SPACE \<equiv> 1124"
abbreviation LTFS_WRITE_PROTECT :: int where "LTFS_WRITE_PROTECT \<equiv> 1125"
abbreviation LTFS_WRITE_ERROR :: int where "LTFS_WRITE_ERROR \<equiv> 1126"
abbreviation LTFS_UNEXPECTED_BARCODE :: int where "LTFS_UNEXPECTED_BARCODE \<equiv> 1127"
abbreviation LTFS_STRING_CONVERSION :: int where "LTFS_STRING_CONVERSION \<equiv> 1128"
abbreviation LTFS_SESSION_INIT_FAIL :: int where "LTFS_SESSION_INIT_FAIL \<equiv> 1129"
abbreviation LTFS_MESSAGE_INVALID :: int where "LTFS_MESSAGE_INVALID \<equiv> 1130"
abbreviation LTFS_PASSWORD_INVALID :: int where "LTFS_PASSWORD_INVALID \<equiv> 1131"
abbreviation LTFS_NOT_AUTHENTICATERD :: int where "LTFS_NOT_AUTHENTICATERD \<equiv> 1132"
abbreviation LTFS_WORM_DEEP_RECOVERY :: int where "LTFS_WORM_DEEP_RECOVERY \<equiv> 1133"
abbreviation LTFS_WORM_ROLLBACK :: int where "LTFS_WORM_ROLLBACK \<equiv> 1134"
abbreviation LTFS_NONWORM_SALVAGE :: int where "LTFS_NONWORM_SALVAGE \<equiv> 1135"
abbreviation LTFS_FORMATTED :: int where "LTFS_FORMATTED \<equiv> 1136"
abbreviation LTFS_RULES_WORM :: int where "LTFS_RULES_WORM \<equiv> 1137"
abbreviation LTFS_BAD_BLOCKSIZE :: int where "LTFS_BAD_BLOCKSIZE \<equiv> 1138"
abbreviation LTFS_BAD_VOLNAME :: int where "LTFS_BAD_VOLNAME \<equiv> 1139"
abbreviation LTFS_BAD_RULES :: int where "LTFS_BAD_RULES \<equiv> 1140"
abbreviation LTFS_GEN_NEEDED :: int where "LTFS_GEN_NEEDED \<equiv> 1141"
abbreviation LTFS_BAD_GENERATION :: int where "LTFS_BAD_GENERATION \<equiv> 1142"
abbreviation LTFS_NO_ROLLBACK_TARGET :: int where "LTFS_NO_ROLLBACK_TARGET \<equiv> 1143"
abbreviation LTFS_MANY_INDEXES :: int where "LTFS_MANY_INDEXES \<equiv> 1144"
abbreviation LTFS_SALVAGE_NOT_NEEDED :: int where "LTFS_SALVAGE_NOT_NEEDED \<equiv> 1145"
abbreviation LTFS_LOGICAL_WRITE_PROTECT :: int where "LTFS_LOGICAL_WRITE_PROTECT \<equiv> 1146"
abbreviation LTFS_POS_SUSPECT_BOP :: int where "LTFS_POS_SUSPECT_BOP \<equiv> 1147"
abbreviation LTFS_CARTRIDGE_NOT_FOUND :: int where "LTFS_CARTRIDGE_NOT_FOUND \<equiv> 1150"
abbreviation LTFS_CACHE_LOCK_ERR :: int where "LTFS_CACHE_LOCK_ERR \<equiv> 1151"
abbreviation LTFS_CACHE_UNLOCK_ERR :: int where "LTFS_CACHE_UNLOCK_ERR \<equiv> 1152"
abbreviation LTFS_CREPO_FILE_ERR :: int where "LTFS_CREPO_FILE_ERR \<equiv> 1153"
abbreviation LTFS_CREPO_READ_ERR :: int where "LTFS_CREPO_READ_ERR \<equiv> 1154"
abbreviation LTFS_CREPO_WRITE_ERR :: int where "LTFS_CREPO_WRITE_ERR \<equiv> 1155"
abbreviation LTFS_CREPO_INVALID_OP :: int where "LTFS_CREPO_INVALID_OP \<equiv> 1156"
abbreviation LTFS_FILE_ERR :: int where "LTFS_FILE_ERR \<equiv> 1157"
abbreviation LTFS_CARTRIDGE_IN_USE :: int where "LTFS_CARTRIDGE_IN_USE \<equiv> 1158"
abbreviation LTFS_NO_LOCK_ENTRY :: int where "LTFS_NO_LOCK_ENTRY \<equiv> 1159"
abbreviation LTFS_MOUNT_ERR :: int where "LTFS_MOUNT_ERR \<equiv> 1160"
abbreviation LTFS_NO_DEVICE :: int where "LTFS_NO_DEVICE \<equiv> 1161"
abbreviation LTFS_XATTR_ERR :: int where "LTFS_XATTR_ERR \<equiv> 1162"
abbreviation LTFS_FTW_ERR :: int where "LTFS_FTW_ERR \<equiv> 1163"
abbreviation LTFS_TIME_ERR :: int where "LTFS_TIME_ERR \<equiv> 1164"
abbreviation LTFS_NOT_BLOCK_DEVICE :: int where "LTFS_NOT_BLOCK_DEVICE \<equiv> 1165"
abbreviation LTFS_QUOTA_EXCEEDED :: int where "LTFS_QUOTA_EXCEEDED \<equiv> 1166"
abbreviation LTFS_TOO_MANY_OPEN_FILES :: int where "LTFS_TOO_MANY_OPEN_FILES \<equiv> 1167"
abbreviation LTFS_LINKDIR_EXISTS :: int where "LTFS_LINKDIR_EXISTS \<equiv> 1168"
abbreviation LTFS_NO_DMAP_ENTRY :: int where "LTFS_NO_DMAP_ENTRY \<equiv> 1169"
abbreviation LTFS_RECOVERABLE_FILE_ERR :: int where "LTFS_RECOVERABLE_FILE_ERR \<equiv> 1170"
abbreviation LTFS_NO_DCACHE_SPC :: int where "LTFS_NO_DCACHE_SPC \<equiv> 1171"
abbreviation LTFS_CREPO_UNAVAILABLE :: int where "LTFS_CREPO_UNAVAILABLE \<equiv> 1172"
abbreviation LTFS_CREPO_OUT_OF_SYNC :: int where "LTFS_CREPO_OUT_OF_SYNC \<equiv> 1173"
abbreviation LTFS_NODE_STATUS_ERR :: int where "LTFS_NODE_STATUS_ERR \<equiv> 1174"
abbreviation LTFS_OUT_OF_SYNC :: int where "LTFS_OUT_OF_SYNC \<equiv> 1175"
abbreviation LTFS_CACHE_SYNC_FAILED :: int where "LTFS_CACHE_SYNC_FAILED \<equiv> 1176"
abbreviation LTFS_DCACHE_SYNC_FAILED :: int where "LTFS_DCACHE_SYNC_FAILED \<equiv> 1177"
abbreviation LTFS_CREPOS_SYNC_FAILED :: int where "LTFS_CREPOS_SYNC_FAILED \<equiv> 1178"
abbreviation LTFS_NO_MULTINODE_CONFIG :: int where "LTFS_NO_MULTINODE_CONFIG \<equiv> 1179"
abbreviation LTFS_MULTINODE_FILE_ERR :: int where "LTFS_MULTINODE_FILE_ERR \<equiv> 1180"
abbreviation LTFS_CACHE_DISCARDED :: int where "LTFS_CACHE_DISCARDED \<equiv> 1181"
abbreviation LTFS_LONG_WRITE_LOCK :: int where "LTFS_LONG_WRITE_LOCK \<equiv> 1182"
abbreviation LTFS_INCOMPATIBLE_CACHE :: int where "LTFS_INCOMPATIBLE_CACHE \<equiv> 1183"
abbreviation LTFS_DCACHE_NOT_INITIALIZED :: int where "LTFS_DCACHE_NOT_INITIALIZED \<equiv> 1184"
abbreviation LTFS_CONFIG_FILE_WLOCKED :: int where "LTFS_CONFIG_FILE_WLOCKED \<equiv> 1185"
abbreviation LTFS_CREATE_QUEUE :: int where "LTFS_CREATE_QUEUE \<equiv> 1186"
abbreviation LTFS_FORK_ERROR :: int where "LTFS_FORK_ERROR \<equiv> 1187"
abbreviation LTFS_NOACK :: int where "LTFS_NOACK \<equiv> 1188"
abbreviation LTFS_NODE_DETECT_FAIL :: int where "LTFS_NODE_DETECT_FAIL \<equiv> 1189"
abbreviation LTFS_INVALID_MESSAGE :: int where "LTFS_INVALID_MESSAGE \<equiv> 1190"
abbreviation LTFS_NODE_DEGATE_FAIL :: int where "LTFS_NODE_DEGATE_FAIL \<equiv> 1191"
abbreviation LTFS_CLUSTER_MRSW_FAIL :: int where "LTFS_CLUSTER_MRSW_FAIL \<equiv> 1192"
abbreviation LTFS_VOLUME_LOCKED :: int where "LTFS_VOLUME_LOCKED \<equiv> 1300"
abbreviation LTFS_VOLUME_WRITEERRLOCKED :: int where "LTFS_VOLUME_WRITEERRLOCKED \<equiv> 1301"
abbreviation LTFS_VOLUME_PERMLOCKED :: int where "LTFS_VOLUME_PERMLOCKED \<equiv> 1302"
abbreviation LTFS_VOLUME_DP_WRITEERRLOCKED :: int where "LTFS_VOLUME_DP_WRITEERRLOCKED \<equiv> 1303"
abbreviation LTFS_VOLUME_IP_WRITEERRLOCKED :: int where "LTFS_VOLUME_IP_WRITEERRLOCKED \<equiv> 1304"
abbreviation LTFS_ERR_MAX :: int where "LTFS_ERR_MAX \<equiv> 19999"
abbreviation DEVICE_GOOD :: int where "DEVICE_GOOD \<equiv> 0"
abbreviation EDEV_ERR_MIN :: int where "EDEV_ERR_MIN \<equiv> 20000"
abbreviation EDEV_NO_SENSE :: int where "EDEV_NO_SENSE \<equiv> 20000"
abbreviation EDEV_OVERRUN :: int where "EDEV_OVERRUN \<equiv> 20002"
abbreviation EDEV_UNDERRUN :: int where "EDEV_UNDERRUN \<equiv> 20003"
abbreviation EDEV_FILEMARK_DETECTED :: int where "EDEV_FILEMARK_DETECTED \<equiv> 20004"
abbreviation EDEV_EARLY_WARNING :: int where "EDEV_EARLY_WARNING \<equiv> 20005"
abbreviation EDEV_BOP_DETECTED :: int where "EDEV_BOP_DETECTED \<equiv> 20006"
abbreviation EDEV_PROG_EARLY_WARNING :: int where "EDEV_PROG_EARLY_WARNING \<equiv> 20007"
abbreviation EDEV_CLEANING_CART :: int where "EDEV_CLEANING_CART \<equiv> 20008"
abbreviation EDEV_VOLTAG_NOT_READABLE :: int where "EDEV_VOLTAG_NOT_READABLE \<equiv> 20009"
abbreviation EDEV_LOCATION_NOT_PRESENT :: int where "EDEV_LOCATION_NOT_PRESENT \<equiv> 20010"
abbreviation EDEV_MEDIA_PRESENSE_UNKNOWN :: int where "EDEV_MEDIA_PRESENSE_UNKNOWN \<equiv> 20011"
abbreviation EDEV_SLOT_UNKNOWN_STATE :: int where "EDEV_SLOT_UNKNOWN_STATE \<equiv> 20012"
abbreviation EDEV_DRIVE_NOT_PRESENT :: int where "EDEV_DRIVE_NOT_PRESENT \<equiv> 20013"
abbreviation EDEV_RECORD_NOT_FOUND :: int where "EDEV_RECORD_NOT_FOUND \<equiv> 20014"
abbreviation EDEV_INSUFFICIENT_TIME :: int where "EDEV_INSUFFICIENT_TIME \<equiv> 20015"
abbreviation EDEV_CLEANING_REQUIRED :: int where "EDEV_CLEANING_REQUIRED \<equiv> 20098"
abbreviation EDEV_RECOVERED_ERROR :: int where "EDEV_RECOVERED_ERROR \<equiv> 20100"
abbreviation EDEV_MODE_PARAMETER_ROUNDED :: int where "EDEV_MODE_PARAMETER_ROUNDED \<equiv> 20101"
abbreviation EDEV_DEGRADED_MEDIA :: int where "EDEV_DEGRADED_MEDIA \<equiv> 20198"
abbreviation EDEV_NOT_READY :: int where "EDEV_NOT_READY \<equiv> 20200"
abbreviation EDEV_NOT_REPORTABLE :: int where "EDEV_NOT_REPORTABLE \<equiv> 20201"
abbreviation EDEV_BECOMING_READY :: int where "EDEV_BECOMING_READY \<equiv> 20202"
abbreviation EDEV_NEED_INITIALIZE :: int where "EDEV_NEED_INITIALIZE \<equiv> 20203"
abbreviation EDEV_MANUAL_INTERVENTION :: int where "EDEV_MANUAL_INTERVENTION \<equiv> 20204"
abbreviation EDEV_OPERATION_IN_PROGRESS :: int where "EDEV_OPERATION_IN_PROGRESS \<equiv> 20205"
abbreviation EDEV_OFFLINE :: int where "EDEV_OFFLINE \<equiv> 20206"
abbreviation EDEV_DOOR_OPEN :: int where "EDEV_DOOR_OPEN \<equiv> 20207"
abbreviation EDEV_OVER_TEMPERATURE :: int where "EDEV_OVER_TEMPERATURE \<equiv> 20208"
abbreviation EDEV_NO_MEDIUM :: int where "EDEV_NO_MEDIUM \<equiv> 20209"
abbreviation EDEV_NOT_SELF_CONFIGURED_YET :: int where "EDEV_NOT_SELF_CONFIGURED_YET \<equiv> 20210"
abbreviation EDEV_PARAMETER_VALUE_REJECTED :: int where "EDEV_PARAMETER_VALUE_REJECTED \<equiv> 20211"
abbreviation EDEV_CLEANING_IN_PROGRESS :: int where "EDEV_CLEANING_IN_PROGRESS \<equiv> 20297"
abbreviation EDEV_IE_OPEN :: int where "EDEV_IE_OPEN \<equiv> 20298"
abbreviation EDEV_MEDIUM_MIN :: int where "EDEV_MEDIUM_MIN \<equiv> 20300"
abbreviation EDEV_MEDIUM_ERROR :: int where "EDEV_MEDIUM_ERROR \<equiv> 20300"
abbreviation EDEV_RW_PERM :: int where "EDEV_RW_PERM \<equiv> 20301"
abbreviation EDEV_CM_PERM :: int where "EDEV_CM_PERM \<equiv> 20302"
abbreviation EDEV_MEDIUM_FORMAT_ERROR :: int where "EDEV_MEDIUM_FORMAT_ERROR \<equiv> 20303"
abbreviation EDEV_MEDIUM_FORMAT_CORRUPTED :: int where "EDEV_MEDIUM_FORMAT_CORRUPTED \<equiv> 20304"
abbreviation EDEV_INTEGRITY_CHECK :: int where "EDEV_INTEGRITY_CHECK \<equiv> 20305"
abbreviation EDEV_LOAD_UNLOAD_ERROR :: int where "EDEV_LOAD_UNLOAD_ERROR \<equiv> 20306"
abbreviation EDEV_CLEANING_FALIURE :: int where "EDEV_CLEANING_FALIURE \<equiv> 20307"
abbreviation EDEV_READ_PERM :: int where "EDEV_READ_PERM \<equiv> 20308"
abbreviation EDEV_WRITE_PERM :: int where "EDEV_WRITE_PERM \<equiv> 20309"
abbreviation EDEV_MEDIUM_MAX :: int where "EDEV_MEDIUM_MAX \<equiv> 20399"
abbreviation EDEV_HARDWARE_MIN :: int where "EDEV_HARDWARE_MIN \<equiv> 20400"
abbreviation EDEV_HARDWARE_ERROR :: int where "EDEV_HARDWARE_ERROR \<equiv> 20400"
abbreviation EDEV_LBP_WRITE_ERROR :: int where "EDEV_LBP_WRITE_ERROR \<equiv> 20401"
abbreviation EDEV_LBP_READ_ERROR :: int where "EDEV_LBP_READ_ERROR \<equiv> 20402"
abbreviation EDEV_HARDWARE_MAX :: int where "EDEV_HARDWARE_MAX \<equiv> 20499"
abbreviation EDEV_ILLEGAL_REQUEST :: int where "EDEV_ILLEGAL_REQUEST \<equiv> 20500"
abbreviation EDEV_INVALID_FIELD_CDB :: int where "EDEV_INVALID_FIELD_CDB \<equiv> 20501"
abbreviation EDEV_DEST_FULL :: int where "EDEV_DEST_FULL \<equiv> 20502"
abbreviation EDEV_SRC_EMPTY :: int where "EDEV_SRC_EMPTY \<equiv> 20503"
abbreviation EDEV_MAGAZINE_INACCESSIBLE :: int where "EDEV_MAGAZINE_INACCESSIBLE \<equiv> 20504"
abbreviation EDEV_INVALID_ADDRESS :: int where "EDEV_INVALID_ADDRESS \<equiv> 20505"
abbreviation EDEV_MEDIUM_LOCKED :: int where "EDEV_MEDIUM_LOCKED \<equiv> 20506"
abbreviation EDEV_UA_MIN :: int where "EDEV_UA_MIN \<equiv> 20600"
abbreviation EDEV_UNIT_ATTENTION :: int where "EDEV_UNIT_ATTENTION \<equiv> 20600"
abbreviation EDEV_MEDIUM_MAY_BE_CHANGED :: int where "EDEV_MEDIUM_MAY_BE_CHANGED \<equiv> 20601"
abbreviation EDEV_IE_ACCESSED :: int where "EDEV_IE_ACCESSED \<equiv> 20602"
abbreviation EDEV_POR_OR_BUS_RESET :: int where "EDEV_POR_OR_BUS_RESET \<equiv> 20603"
abbreviation EDEV_CONFIGURE_CHANGED :: int where "EDEV_CONFIGURE_CHANGED \<equiv> 20604"
abbreviation EDEV_COMMAND_CLEARED :: int where "EDEV_COMMAND_CLEARED \<equiv> 20605"
abbreviation EDEV_MEDIUM_REMOVAL_REQ :: int where "EDEV_MEDIUM_REMOVAL_REQ \<equiv> 20606"
abbreviation EDEV_MEDIA_REMOVAL_PREV :: int where "EDEV_MEDIA_REMOVAL_PREV \<equiv> 20607"
abbreviation EDEV_DOOR_CLOSED :: int where "EDEV_DOOR_CLOSED \<equiv> 20608"
abbreviation EDEV_UA_MAX :: int where "EDEV_UA_MAX \<equiv> 20699"
abbreviation EDEV_DATA_PROTECT :: int where "EDEV_DATA_PROTECT \<equiv> 20700"
abbreviation EDEV_WRITE_PROTECTED :: int where "EDEV_WRITE_PROTECTED \<equiv> 20701"
abbreviation EDEV_WRITE_PROTECTED_WORM :: int where "EDEV_WRITE_PROTECTED_WORM \<equiv> 20702"
abbreviation EDEV_WRITE_PROTECTED_OPERATOR :: int where "EDEV_WRITE_PROTECTED_OPERATOR \<equiv> 20703"
abbreviation EDEV_BLANK_CHECK :: int where "EDEV_BLANK_CHECK \<equiv> 20800"
abbreviation EDEV_EOD_DETECTED :: int where "EDEV_EOD_DETECTED \<equiv> 20801"
abbreviation EDEV_EOD_NOT_FOUND :: int where "EDEV_EOD_NOT_FOUND \<equiv> 20802"
abbreviation EDEV_ABORTED_COMMAND :: int where "EDEV_ABORTED_COMMAND \<equiv> 21100"
abbreviation EDEV_OVERLAPPED :: int where "EDEV_OVERLAPPED \<equiv> 21101"
abbreviation EDEV_TIMEOUT :: int where "EDEV_TIMEOUT \<equiv> 21102"
abbreviation EDEV_OVERFLOW :: int where "EDEV_OVERFLOW \<equiv> 21300"
abbreviation EDEV_CRYPTO_ERROR :: int where "EDEV_CRYPTO_ERROR \<equiv> 21600"
abbreviation EDEV_KEY_SERVICE_ERROR :: int where "EDEV_KEY_SERVICE_ERROR \<equiv> 21601"
abbreviation EDEV_KEY_CHANGE_DETECTED :: int where "EDEV_KEY_CHANGE_DETECTED \<equiv> 21602"
abbreviation EDEV_KEY_REQUIRED :: int where "EDEV_KEY_REQUIRED \<equiv> 21603"
abbreviation EDEV_INTERNAL_ERROR :: int where "EDEV_INTERNAL_ERROR \<equiv> 21700"
abbreviation EDEV_DRIVER_ERROR :: int where "EDEV_DRIVER_ERROR \<equiv> 21701"
abbreviation EDEV_HOST_ERROR :: int where "EDEV_HOST_ERROR \<equiv> 21702"
abbreviation EDEV_TARGET_ERROR :: int where "EDEV_TARGET_ERROR \<equiv> 21703"
abbreviation EDEV_NO_MEMORY :: int where "EDEV_NO_MEMORY \<equiv> 21704"
abbreviation EDEV_UNSUPPORTED_FUNCTION :: int where "EDEV_UNSUPPORTED_FUNCTION \<equiv> 21705"
abbreviation EDEV_PARAMETER_NOT_FOUND :: int where "EDEV_PARAMETER_NOT_FOUND \<equiv> 21706"
abbreviation EDEV_CANNOT_GET_SENSE :: int where "EDEV_CANNOT_GET_SENSE \<equiv> 21707"
abbreviation EDEV_INVALID_ARG :: int where "EDEV_INVALID_ARG \<equiv> 21708"
abbreviation EDEV_DUMP_EIO :: int where "EDEV_DUMP_EIO \<equiv> 21709"
abbreviation EDEV_DEVICE_BUSY :: int where "EDEV_DEVICE_BUSY \<equiv> 21710"
abbreviation EDEV_DEVICE_UNOPENABLE :: int where "EDEV_DEVICE_UNOPENABLE \<equiv> 21711"
abbreviation EDEV_DEVICE_UNSUPPORTABLE :: int where "EDEV_DEVICE_UNSUPPORTABLE \<equiv> 21712"
abbreviation EDEV_INVALID_LICENSE :: int where "EDEV_INVALID_LICENSE \<equiv> 21713"
abbreviation EDEV_UNSUPPORTED_FIRMWARE :: int where "EDEV_UNSUPPORTED_FIRMWARE \<equiv> 21714"
abbreviation EDEV_UNKNOWN :: int where "EDEV_UNKNOWN \<equiv> 29998"
abbreviation EDEV_VENDOR_UNIQUE :: int where "EDEV_VENDOR_UNIQUE \<equiv> 29999"

definition NEED_REVAL :: "int \<Rightarrow> bool" where
  "NEED_REVAL ret \<longleftrightarrow> ret = - EDEV_POR_OR_BUS_RESET \<or> ret = - EDEV_MEDIUM_MAY_BE_CHANGED"

definition IS_UNEXPECTED_MOVE :: "int \<Rightarrow> bool" where
  "IS_UNEXPECTED_MOVE ret \<longleftrightarrow> ret = - EDEV_MEDIUM_REMOVAL_REQ"

end
