(* ===== verification/TapeOps.thy ===== *)
theory TapeOps imports Errors begin

unbundle bit_operations_syntax

text \<open>
  What every tape backend shares (\<open>src/ltfs/src/libltfs/tape_ops.h\<close>): the tape position,
  the kinds of space and format commands, the cartridge memory pages the code uses, and the
  big endian conversions of \<open>src/ltfs/src/libltfs/ltfs_endian.h\<close>.
\<close>

record tc_position =
  block :: u64
  filemarks :: u64
  partition :: u32
  early_warning :: bool
  programmable_early_warning :: bool

abbreviation TAPE_BLOCK_MAX :: u64 where "TAPE_BLOCK_MAX \<equiv> 0xFFFFFFFFFFFFFFFF"

datatype tc_space_type =
  TC_SPACE_EOD | TC_SPACE_FM_F | TC_SPACE_FM_B | TC_SPACE_F | TC_SPACE_B

datatype tc_format_type =
  TC_FORMAT_DEFAULT | TC_FORMAT_PARTITION | TC_FORMAT_DEST_PART | TC_FORMAT_MAX

record tc_remaining_cap =
  remaining_p0 :: u64
  remaining_p1 :: u64
  max_p0 :: u64
  max_p1 :: u64

record tc_drive_param =
  max_blksize :: u32
  write_protect_switch :: bool
  logical_write_protect :: bool

text \<open>The states of the volume lock attribute.\<close>

datatype mam_lockval =
    UNLOCKED_MAM | LOCKED_MAM | PWE_MAM | PERMLOCKED_MAM | DPPWE_MAM | IPPWE_MAM | DP_IP_PWE_MAM
  | NOLOCK_MAM

abbreviation TC_MAM_PAGE_HEADER_SIZE :: nat where "TC_MAM_PAGE_HEADER_SIZE \<equiv> 5"
abbreviation TC_MAM_PAGE_VCR :: u16 where "TC_MAM_PAGE_VCR \<equiv> 0x0009"
abbreviation TC_MAM_PAGE_VCR_SIZE :: u16 where "TC_MAM_PAGE_VCR_SIZE \<equiv> 4"
abbreviation TC_MAM_PAGE_EWSTATE :: u16 where "TC_MAM_PAGE_EWSTATE \<equiv> 0x1500"
abbreviation TC_MAM_PAGE_EWSTATE_LEN :: nat where "TC_MAM_PAGE_EWSTATE_LEN \<equiv> 4"
abbreviation TC_MAM_VOL_LOCK_STATE :: u16 where "TC_MAM_VOL_LOCK_STATE \<equiv> 0x1623"
abbreviation TC_MAM_VOL_LOCK_STATE_LEN :: nat where "TC_MAM_VOL_LOCK_STATE_LEN \<equiv> 1"
abbreviation TC_MAM_PAGE_COHERENCY :: u16 where "TC_MAM_PAGE_COHERENCY \<equiv> 0x080C"
abbreviation TC_MAM_PAGE_COHERENCY_SIZE :: u16 where "TC_MAM_PAGE_COHERENCY_SIZE \<equiv> 0x46"
abbreviation TC_MAM_PAGE_APP_NAME :: u16 where "TC_MAM_PAGE_APP_NAME \<equiv> 0x0801"
abbreviation TC_MAM_PAGE_APP_NAME_SIZE :: nat where "TC_MAM_PAGE_APP_NAME_SIZE \<equiv> 0x20"
abbreviation TC_MP_DEV_CONFIG_EXT :: u8 where "TC_MP_DEV_CONFIG_EXT \<equiv> 0x10"
abbreviation TC_MP_DEV_CONFIG_EXT_SIZE :: nat where "TC_MP_DEV_CONFIG_EXT_SIZE \<equiv> 48"
abbreviation TC_MP_MEDIUM_PARTITION :: u8 where "TC_MP_MEDIUM_PARTITION \<equiv> 0x11"
abbreviation TC_MP_MEDIUM_PARTITION_SIZE :: nat where "TC_MP_MEDIUM_PARTITION_SIZE \<equiv> 32"
abbreviation EWSTATE_CLEAR :: int where "EWSTATE_CLEAR \<equiv> 0"
abbreviation EWSTATE_SET :: int where "EWSTATE_SET \<equiv> 1"
abbreviation EOD_GOOD :: int where "EOD_GOOD \<equiv> 0"
abbreviation EOD_MISSING :: int where "EOD_MISSING \<equiv> 1"
abbreviation EOD_UNKNOWN :: int where "EOD_UNKNOWN \<equiv> 2"

section \<open>Big endian conversions\<close>

definition ltfs_u16tobe :: "u16 \<Rightarrow> u8 list" where
  "ltfs_u16tobe x = [ucast (drop_bit 8 x), ucast x]"

definition ltfs_u32tobe :: "u32 \<Rightarrow> u8 list" where
  "ltfs_u32tobe x = [ucast (drop_bit 24 x), ucast (drop_bit 16 x), ucast (drop_bit 8 x), ucast x]"

definition ltfs_u64tobe :: "u64 \<Rightarrow> u8 list" where
  "ltfs_u64tobe x =
     ltfs_u32tobe (ucast (drop_bit 32 x AND 0xffffffff)) @ ltfs_u32tobe (ucast (x AND 0xffffffff))"

definition ltfs_betou16 :: "(nat \<Rightarrow> u8) \<Rightarrow> u16" where
  "ltfs_betou16 buf = push_bit 8 (ucast (buf 0)) OR ucast (buf 1)"

definition ltfs_betou32 :: "(nat \<Rightarrow> u8) \<Rightarrow> u32" where
  "ltfs_betou32 buf =
     push_bit 24 (ucast (buf 0)) OR push_bit 16 (ucast (buf 1)) OR push_bit 8 (ucast (buf 2)) OR
     ucast (buf 3)"

definition ltfs_betou64 :: "(nat \<Rightarrow> u8) \<Rightarrow> u64" where
  "ltfs_betou64 buf =
     push_bit 32 (ucast (ltfs_betou32 buf)) + ucast (ltfs_betou32 (\<lambda>i. buf (i + 4)))"

lemma bytes_of_u16: "push_bit 8 (ucast (ucast (drop_bit 8 x) :: u8)) OR ucast (ucast x :: u8) = (x :: u16)"
  by (rule bit_eqI) (auto simp: bit_simps)

lemma bytes_of_u32:
  "push_bit 24 (ucast (ucast (drop_bit 24 x) :: u8)) OR push_bit 16 (ucast (ucast (drop_bit 16 x) :: u8)) OR
   push_bit 8 (ucast (ucast (drop_bit 8 x) :: u8)) OR ucast (ucast x :: u8) = (x :: u32)"
proof (rule bit_eqI)
  fix n assume "possible_bit TYPE(32 word) n"
  then have "n < 32" by simp
  then consider "n < 8" | "8 \<le> n \<and> n < 16" | "16 \<le> n \<and> n < 24" | "24 \<le> n \<and> n < 32"
    by fastforce
  then show "bit ((push_bit 24 (ucast (ucast (drop_bit 24 x) :: u8)) :: u32)
      OR push_bit 16 (ucast (ucast (drop_bit 16 x) :: u8))
      OR push_bit 8 (ucast (ucast (drop_bit 8 x) :: u8)) OR ucast (ucast x :: u8)) n = bit x n"
    by cases (auto simp: bit_simps)
qed

lemma mask_u32: "(0xffffffff :: u64) = mask 32"
  by (simp add: mask_eq_exp_minus_1)

lemma betou16_u16tobe: "ltfs_betou16 (\<lambda>i. ltfs_u16tobe x ! i) = x"
  using bytes_of_u16 by (simp add: ltfs_betou16_def ltfs_u16tobe_def)

lemma betou32_u32tobe: "ltfs_betou32 (\<lambda>i. ltfs_u32tobe x ! i) = x"
  using bytes_of_u32 by (simp add: ltfs_betou32_def ltfs_u32tobe_def)

lemma u32tobe_length [simp]: "length (ltfs_u32tobe x) = 4"
  by (simp add: ltfs_u32tobe_def)

lemma betou64_u64tobe: "ltfs_betou64 (\<lambda>i. ltfs_u64tobe x ! i) = x"
proof -
  let ?hi = "ucast (drop_bit 32 x AND 0xffffffff) :: u32"
  let ?lo = "ucast (x AND 0xffffffff) :: u32"
  have hi: "ltfs_betou32 (\<lambda>i. ltfs_u64tobe x ! i) = ?hi"
    using betou32_u32tobe [of ?hi] by (simp add: ltfs_betou32_def ltfs_u64tobe_def nth_append)
  have lo: "ltfs_betou32 (\<lambda>i. ltfs_u64tobe x ! (i + 4)) = ?lo"
    using betou32_u32tobe [of ?lo] by (simp add: ltfs_betou32_def ltfs_u64tobe_def nth_append)
  have "push_bit 32 (ucast ?hi) AND ucast ?lo = (0 :: u64)"
    unfolding mask_u32 by (rule bit_eqI) (auto simp: bit_simps)
  then have "push_bit 32 (ucast ?hi) + ucast ?lo = (push_bit 32 (ucast ?hi) OR ucast ?lo :: u64)"
    by (simp add: disjunctive_add_eq_or)
  also have "\<dots> = x"
    unfolding mask_u32 by (rule bit_eqI) (auto simp: bit_simps)
  finally show ?thesis by (simp add: ltfs_betou64_def hi lo)
qed

end
