(* ===== verification/TapeLayer.thy ===== *)
theory TapeLayer imports TapeOps begin

text \<open>
  The tape layer (\<open>src/ltfs/src/libltfs/tape.c\<close>): what LTFS keeps about its drive, and the
  operations it reaches the drive through. The drive is a backend, that is a state of some
  type \<open>'b\<close> and a table of operations on it (\<open>struct tape_ops\<close>). The pointers to the table and
  to the backend's data are set and cleared together, so they are one optional field here; a
  function that looks at them returns the code's error value when they are null, and the few that
  do not look return \<open>- LTFS_NULL_ARG\<close>.

  Conditional code is that of the build of this repository (\<open>build.sh\<close>: \<open>HPE_mingw_BUILD\<close> and
  \<open>GENERIC_OEM_BUILD\<close> are defined). The calls to the mutexes of the device are left out except in \<open>tape_device_lock\<close> and
  \<open>tape_device_unlock\<close>; so are messages and calls of \<open>sleep\<close>. A loop that may run for ever
  because the backend keeps asking for a retry returns \<open>None\<close> then.
\<close>

section \<open>The device\<close>

datatype partition_status = PART_WRITABLE | PART_LESS_SPACE | PART_NO_SPACE

text \<open>
  The backend operations the layer uses. An operation takes its arguments, the backend's data and,
  if the C function has it, the caller's position; it returns its result code and the new
  values. The arguments that only tell a drive how to do its work are left out: the immediate bit
  of a filemark write, the hint that a read may meet a short block, the format type of an
  attribute update (always \<open>TC_FORMAT_DEST_PART\<close>) and the names a format may record. \<open>op_load\<close> and \<open>op_loadunload\<close> may fail to return.
\<close>

record 'b tape_ops =
  op_reserve_unit :: "'b \<Rightarrow> int \<times> 'b"
  op_release_unit :: "'b \<Rightarrow> int \<times> 'b"
  op_prevent_medium_removal :: "'b \<Rightarrow> int \<times> 'b"
  op_allow_medium_removal :: "'b \<Rightarrow> int \<times> 'b"
  op_test_unit_ready :: "'b \<Rightarrow> int \<times> 'b"
  op_read :: "nat \<Rightarrow> 'b \<Rightarrow> tc_position \<Rightarrow> int \<times> u8 list \<times> 'b \<times> tc_position"
  op_write :: "u8 list \<Rightarrow> 'b \<Rightarrow> tc_position \<Rightarrow> int \<times> 'b \<times> tc_position"
  op_writefm :: "nat \<Rightarrow> 'b \<Rightarrow> tc_position \<Rightarrow> int \<times> 'b \<times> tc_position"
  op_rewind :: "'b \<Rightarrow> tc_position \<Rightarrow> int \<times> 'b \<times> tc_position"
  op_locate :: "tc_position \<Rightarrow> 'b \<Rightarrow> tc_position \<Rightarrow> int \<times> 'b \<times> tc_position"
  op_space :: "u64 \<Rightarrow> tc_space_type \<Rightarrow> 'b \<Rightarrow> tc_position \<Rightarrow> int \<times> 'b \<times> tc_position"
  op_erase :: "bool \<Rightarrow> 'b \<Rightarrow> tc_position \<Rightarrow> int \<times> 'b \<times> tc_position"
  op_load :: "'b \<Rightarrow> tc_position \<Rightarrow> (int \<times> 'b \<times> tc_position) option"
  op_unload :: "'b \<Rightarrow> tc_position \<Rightarrow> int \<times> 'b \<times> tc_position"
  op_loadunload :: "bool \<Rightarrow> bool \<Rightarrow> 'b \<Rightarrow> tc_position \<Rightarrow> (int \<times> 'b \<times> tc_position) option"
  op_readpos :: "'b \<Rightarrow> tc_position \<Rightarrow> int \<times> 'b \<times> tc_position"
  op_setcap :: "u16 \<Rightarrow> 'b \<Rightarrow> int \<times> 'b"
  op_format :: "tc_format_type \<Rightarrow> 'b \<Rightarrow> int \<times> 'b"
  op_remaining_capacity :: "'b \<Rightarrow> tc_remaining_cap \<Rightarrow> int \<times> tc_remaining_cap"
  op_modesense :: "u8 \<Rightarrow> u8 \<Rightarrow> nat \<Rightarrow> 'b \<Rightarrow> int \<times> u8 list"
  op_modeselect :: "u8 list \<Rightarrow> 'b \<Rightarrow> int \<times> 'b"
  op_read_attribute :: "u32 \<Rightarrow> u16 \<Rightarrow> nat \<Rightarrow> 'b \<Rightarrow> int \<times> u8 list \<times> 'b"
  op_write_attribute :: "u32 \<Rightarrow> u8 list \<Rightarrow> 'b \<Rightarrow> int \<times> 'b"
  op_allow_overwrite :: "tc_position \<Rightarrow> 'b \<Rightarrow> int \<times> 'b"
  op_set_compression :: "bool \<Rightarrow> 'b \<Rightarrow> tc_position \<Rightarrow> int \<times> 'b \<times> tc_position"
  op_set_default :: "'b \<Rightarrow> int \<times> 'b"
  op_get_tape_alert :: "'b \<Rightarrow> int \<times> u64"
  op_get_parameters :: "'b \<Rightarrow> int \<times> tc_drive_param"
  op_get_eod_status :: "'b \<Rightarrow> u32 \<Rightarrow> int"
  op_set_key :: "u8 list option \<Rightarrow> u8 list option \<Rightarrow> 'b \<Rightarrow> int \<times> 'b"
  op_get_keyalias :: "'b \<Rightarrow> int \<times> u8 list"
  op_update_mam_attr :: "string option \<Rightarrow> u16 \<Rightarrow> string option \<Rightarrow> mam_lockval \<Rightarrow> 'b \<Rightarrow> int \<times> 'b"
  op_close :: "'b \<Rightarrow> int"

record 'b device_data =
  position :: tc_position
  append_pos :: "u32 \<Rightarrow> u64"
  dev_max_block_size :: u32
  partition_space :: "u32 \<Rightarrow> partition_status"
  write_protect :: bool
  write_error :: bool
  dev_reserved :: bool
  dev_medium_locked :: bool
  physical_write_protect :: bool
  fence :: bool
  append_only_mode :: bool
  previous_exist :: ltfs_timespec
  backend :: "('b tape_ops \<times> 'b) option"
  backend_mutex :: bool
  is_key_set :: bool

text \<open>
  \<open>is_key_set\<close> is the static variable of that name. \<open>tape_device_alloc\<close> clears the
  whole structure.
\<close>

definition tape_device_alloc :: "bool \<Rightarrow> 'b device_data" where
  "tape_device_alloc key_set =
     \<lparr>position = \<lparr>block = 0, filemarks = 0, partition = 0, early_warning = False,
        programmable_early_warning = False\<rparr>,
      append_pos = (\<lambda>_. 0), dev_max_block_size = 0, partition_space = (\<lambda>_. PART_WRITABLE),
      write_protect = False, write_error = False, dev_reserved = False,
      dev_medium_locked = False, physical_write_protect = False, fence = False,
      append_only_mode = False, previous_exist = \<lparr>tv_sec = 0, tv_nsec = 0\<rparr>, backend = None,
      backend_mutex = False, is_key_set = key_set\<rparr>"

text \<open>
  Calling the backend: \<open>on_backend\<close> for operations without a position, \<open>on_drive\<close> for those that
  fill the cached position of the device. The first argument is the result when there is no
  backend.
\<close>

definition on_backend ::
    "int \<Rightarrow> ('b tape_ops \<Rightarrow> 'b \<Rightarrow> int \<times> 'b) \<Rightarrow> 'b device_data \<Rightarrow> int \<times> 'b device_data" where
  "on_backend err f dev =
     (case backend dev of
        None \<Rightarrow> (err, dev)
      | Some (ops, b) \<Rightarrow> (case f ops b of (ret, b) \<Rightarrow> (ret, dev\<lparr>backend := Some (ops, b)\<rparr>)))"

definition on_drive ::
    "int \<Rightarrow> ('b tape_ops \<Rightarrow> 'b \<Rightarrow> tc_position \<Rightarrow> int \<times> 'b \<times> tc_position) \<Rightarrow>
     'b device_data \<Rightarrow> int \<times> 'b device_data" where
  "on_drive err f dev =
     (case backend dev of
        None \<Rightarrow> (err, dev)
      | Some (ops, b) \<Rightarrow>
          (case f ops b (position dev) of
             (ret, b, pos) \<Rightarrow> (ret, dev\<lparr>backend := Some (ops, b), position := pos\<rparr>)))"

text \<open>\<open>do ... while (NEED_REVAL(ret))\<close>\<close>

partial_function (option) retry_reval :: "('s \<Rightarrow> int \<times> 's) \<Rightarrow> 's \<Rightarrow> (int \<times> 's) option" where
  "retry_reval f s =
     (case f s of (ret, s') \<Rightarrow> if NEED_REVAL ret then retry_reval f s' else Some (ret, s'))"

section \<open>Locking and fencing\<close>

text \<open>
  The first argument is the result of \<open>ltfs_mutex_lock\<close> or \<open>ltfs_mutex_unlock\<close>;
  \<open>backend_mutex\<close> says whether the caller holds the mutex.
\<close>

definition tape_device_lock :: "int \<Rightarrow> 'b device_data \<Rightarrow> int \<times> 'b device_data" where
  "tape_device_lock ret dev =
     (if ret \<noteq> 0 then (- LTFS_MUTEX_INVALID, dev)
      else if fence dev then (- LTFS_DEVICE_FENCED, dev\<lparr>backend_mutex := False\<rparr>)
      else (ret, dev\<lparr>backend_mutex := True\<rparr>))"

abbreviation EPERM :: int where "EPERM \<equiv> 1"

definition tape_device_unlock :: "int \<Rightarrow> 'b device_data \<Rightarrow> int \<times> 'b device_data" where
  "tape_device_unlock ret dev =
     (if ret = 0 then (0, dev\<lparr>backend_mutex := False\<rparr>)
      else if ret = EPERM then (- LTFS_MUTEX_UNLOCKED, dev)
      else (- LTFS_MUTEX_INVALID, dev))"

definition tape_start_fence :: "'b device_data \<Rightarrow> int \<times> 'b device_data" where
  "tape_start_fence dev = (0, dev\<lparr>fence := True\<rparr>)"

definition tape_release_fence :: "'b device_data \<Rightarrow> int \<times> 'b device_data" where
  "tape_release_fence dev = (0, dev\<lparr>fence := False\<rparr>)"

section \<open>Reservation and medium removal\<close>

definition tape_reserve_device :: "'b device_data \<Rightarrow> (int \<times> 'b device_data) option" where
  "tape_reserve_device dev =
     (if backend dev = None then Some (- LTFS_NULL_ARG, dev)
      else if dev_reserved dev then Some (0, dev)
      else case retry_reval (on_backend (- LTFS_NULL_ARG) op_reserve_unit) dev of
        None \<Rightarrow> None
      | Some (ret, dev) \<Rightarrow>
          (if ret \<noteq> 0 then Some (if ret < 0 then ret else - ret, dev)
           else Some (ret, dev\<lparr>dev_reserved := True\<rparr>)))"

definition tape_release_device :: "'b device_data \<Rightarrow> 'b device_data option" where
  "tape_release_device dev =
     (if backend dev = None then Some dev
      else if dev_reserved dev then
        (case retry_reval (on_backend (- LTFS_NULL_ARG) op_release_unit) dev of
           None \<Rightarrow> None
         | Some (ret, dev) \<Rightarrow> Some (dev\<lparr>dev_reserved := (ret \<noteq> 0)\<rparr>))
      else Some dev)"

definition tape_prevent_medium_removal :: "'b device_data \<Rightarrow> (int \<times> 'b device_data) option" where
  "tape_prevent_medium_removal dev =
     (if backend dev = None then Some (- LTFS_NULL_ARG, dev)
      else if dev_medium_locked dev then Some (0, dev)
      else case retry_reval (on_backend (- LTFS_NULL_ARG) op_prevent_medium_removal) dev of
        None \<Rightarrow> None
      | Some (ret, dev) \<Rightarrow>
          (if ret \<noteq> 0 then Some (if ret < 0 then ret else - ret, dev)
           else Some (ret, dev\<lparr>dev_medium_locked := True\<rparr>)))"

definition tape_allow_medium_removal :: "bool \<Rightarrow> 'b device_data \<Rightarrow> 'b device_data option" where
  "tape_allow_medium_removal force_release dev =
     (if backend dev = None then Some dev
      else if dev_medium_locked dev \<or> force_release then
        (case retry_reval (on_backend (- LTFS_NULL_ARG) op_allow_medium_removal) dev of
           None \<Rightarrow> None
         | Some (ret, dev) \<Rightarrow> Some (dev\<lparr>dev_medium_locked := (ret \<noteq> 0)\<rparr>))
      else Some dev)"

definition raw_tape_test_unit_ready :: "'b device_data \<Rightarrow> int \<times> 'b device_data" where
  "raw_tape_test_unit_ready dev = on_backend (- LTFS_NULL_ARG) op_test_unit_ready dev"

text \<open>
  \<open>timer_sub\<close> of \<open>arch/time_internal.h\<close>: a difference with a non-negative number of
  nanoseconds. The first argument of \<open>tape_test_unit_ready\<close> is the current time.
\<close>

definition timer_sub :: "ltfs_timespec \<Rightarrow> ltfs_timespec \<Rightarrow> ltfs_timespec" where
  "timer_sub a b =
     (let sec = tv_sec a - tv_sec b; nsec = tv_nsec a - tv_nsec b
      in if nsec < 0 then \<lparr>tv_sec = sec - 1, tv_nsec = nsec + 1000000000\<rparr>
         else \<lparr>tv_sec = sec, tv_nsec = nsec\<rparr>)"

definition tape_test_unit_ready :: "ltfs_timespec \<Rightarrow> 'b device_data \<Rightarrow> int \<times> 'b device_data" where
  "tape_test_unit_ready ts_now dev =
     (if tv_sec (timer_sub ts_now (previous_exist dev)) = 0 then (0, dev)
      else case raw_tape_test_unit_ready dev of
        (ret, dev) \<Rightarrow> (ret, dev\<lparr>previous_exist := ts_now\<rparr>))"

definition tape_get_capacity :: "'b device_data \<Rightarrow> tc_remaining_cap \<Rightarrow> int \<times> tc_remaining_cap" where
  "tape_get_capacity dev cap =
     (case backend dev of None \<Rightarrow> (- LTFS_NULL_ARG, cap)
      | Some (ops, b) \<Rightarrow> op_remaining_capacity ops b cap)"

definition tape_set_compression :: "bool \<Rightarrow> 'b device_data \<Rightarrow> int \<times> 'b device_data" where
  "tape_set_compression use_compression dev =
     on_drive (- LTFS_NULL_ARG) (\<lambda>ops. op_set_compression ops use_compression) dev"


section \<open>Append positions and read-only state\<close>

definition tape_get_append_position :: "u32 \<Rightarrow> 'b device_data \<Rightarrow> int \<times> u64 option" where
  "tape_get_append_position prt dev =
     (if 1 < prt then (- LTFS_BAD_PARTNUM, None) else (0, Some (append_pos dev prt)))"

definition tape_set_append_position :: "u32 \<Rightarrow> u64 \<Rightarrow> 'b device_data \<Rightarrow> int \<times> 'b device_data" where
  "tape_set_append_position prt blk dev =
     (if 1 < prt then (- LTFS_BAD_PARTNUM, dev)
      else (0, dev\<lparr>append_pos := (append_pos dev)(prt := blk)\<rparr>))"

definition tape_read_only :: "u32 \<Rightarrow> 'b device_data \<Rightarrow> int" where
  "tape_read_only prt dev =
     (if write_protect dev then - LTFS_WRITE_PROTECT
      else if write_error dev then - LTFS_WRITE_ERROR
      else case partition_space dev prt of
        PART_WRITABLE \<Rightarrow> 0
      | PART_LESS_SPACE \<Rightarrow> - LTFS_LESS_SPACE
      | PART_NO_SPACE \<Rightarrow> - LTFS_NO_SPACE)"

definition tape_force_read_only :: "'b device_data \<Rightarrow> int \<times> 'b device_data" where
  "tape_force_read_only dev = (0, dev\<lparr>write_protect := True\<rparr>)"

definition tape_get_parameters :: "'b device_data \<Rightarrow> int \<times> tc_drive_param" where
  "tape_get_parameters dev =
     (case backend dev of
        None \<Rightarrow> (- LTFS_NULL_ARG,
          \<lparr>max_blksize = 0, write_protect_switch = False, logical_write_protect = False\<rparr>)
      | Some (ops, b) \<Rightarrow> op_get_parameters ops b)"

definition tape_get_max_blocksize :: "'b device_data \<Rightarrow> int \<times> u32" where
  "tape_get_max_blocksize dev =
     (case tape_get_parameters dev of
        (ret, param) \<Rightarrow> if ret < 0 then (ret, 0) else (0, max_blksize param))"

definition tape_logically_read_only :: "'b device_data \<Rightarrow> int" where
  "tape_logically_read_only dev =
     (case tape_get_parameters dev of
        (ret, param) \<Rightarrow>
          if ret < 0 then ret
          else if logical_write_protect param then - LTFS_LOGICAL_WRITE_PROTECT else ret)"

definition tape_get_physically_write_protected :: "'b device_data \<Rightarrow> int" where
  "tape_get_physically_write_protected dev =
     (case tape_get_parameters dev of
        (ret, param) \<Rightarrow>
          if ret < 0 then ret else if write_protect_switch param then 1 else ret)"

section \<open>Moving\<close>

definition tape_rewind :: "'b device_data \<Rightarrow> int \<times> 'b device_data" where
  "tape_rewind dev = on_drive (- LTFS_NULL_ARG) op_rewind dev"

text \<open>The space flags after a locate.\<close>

definition note_warnings :: "'b device_data \<Rightarrow> 'b device_data" where
  "note_warnings dev =
     (let p = partition (position dev);
          dev = (if early_warning (position dev)
                 then dev\<lparr>partition_space := (partition_space dev)(p := PART_NO_SPACE)\<rparr> else dev)
      in if partition_space dev p \<noteq> PART_NO_SPACE \<and> programmable_early_warning (position dev)
         then dev\<lparr>partition_space := (partition_space dev)(p := PART_LESS_SPACE)\<rparr> else dev)"

definition tape_seek :: "tc_position \<Rightarrow> 'b device_data \<Rightarrow> int \<times> 'b device_data" where
  "tape_seek pos dev =
     (if backend dev = None then (- LTFS_NULL_ARG, dev)
      else
        case (if partition pos = partition (position dev) \<and> block pos = block (position dev)
              then (0, dev)
              else case on_drive (- LTFS_NULL_ARG) (\<lambda>ops. op_locate ops pos) dev of
                (ret, dev) \<Rightarrow> (ret, if ret < 0 then dev else note_warnings dev)) of
          (ret, dev) \<Rightarrow>
            if ret = 0 \<and> (partition (position dev) \<noteq> partition pos \<or>
                (block pos \<noteq> TAPE_BLOCK_MAX \<and> block pos \<noteq> block (position dev)))
            then (- LTFS_BAD_LOCATE, dev) else (ret, dev))"

definition seek_to :: "u32 \<Rightarrow> u64 \<Rightarrow> tc_position" where
  "seek_to prt blk = \<lparr>block = blk, filemarks = 0, partition = prt, early_warning = False,
     programmable_early_warning = False\<rparr>"

definition tape_seek_eod :: "u32 \<Rightarrow> 'b device_data \<Rightarrow> int \<times> 'b device_data" where
  "tape_seek_eod prt dev =
     (if backend dev = None then (- LTFS_NULL_ARG, dev)
      else if 1 < prt then (- LTFS_BAD_PARTNUM, dev)
      else case on_drive (- LTFS_NULL_ARG) (\<lambda>ops. op_locate ops (seek_to prt TAPE_BLOCK_MAX)) dev of
        (ret, dev) \<Rightarrow>
          if ret < 0 then (ret, dev)
          else if prt \<noteq> partition (position dev) then (- LTFS_BAD_LOCATE, dev)
          else
            let dev = note_warnings dev
            in (0, dev\<lparr>append_pos := (append_pos dev)(prt := block (position dev))\<rparr>))"

text \<open>The caller of \<open>tape_seek_append_position\<close> passes the partition 0 or 1.\<close>

definition tape_seek_append_position :: "u32 \<Rightarrow> bool \<Rightarrow> 'b device_data \<Rightarrow> int \<times> 'b device_data" where
  "tape_seek_append_position prt unlock_write dev =
     (let new_pos = seek_to prt (if append_pos dev prt = 0 then TAPE_BLOCK_MAX else append_pos dev prt)
      in case tape_seek new_pos dev of
        (ret, dev) \<Rightarrow>
          if ret < 0 then (ret, dev)
          else
            (case (if unlock_write \<and> append_only_mode dev \<and> block new_pos \<noteq> TAPE_BLOCK_MAX
                   then on_backend (- LTFS_NULL_ARG)
                          (\<lambda>ops. op_allow_overwrite ops (position dev)) dev
                   else (ret, dev)) of
               (ret, dev) \<Rightarrow>
                 (ret, if append_pos dev prt = 0
                       then dev\<lparr>append_pos := (append_pos dev)(prt := block (position dev))\<rparr>
                       else dev)))"

definition tape_get_position :: "'b device_data \<Rightarrow> int \<times> tc_position" where
  "tape_get_position dev = (0, position dev)"

definition tape_update_position :: "'b device_data \<Rightarrow> int \<times> tc_position option \<times> 'b device_data" where
  "tape_update_position dev =
     (case on_drive (- LTFS_NULL_ARG) op_readpos dev of
        (ret, dev) \<Rightarrow> if ret < 0 then (ret, None, dev) else (0, Some (position dev), dev))"

definition tape_spacefm :: "int \<Rightarrow> 'b device_data \<Rightarrow> int \<times> 'b device_data" where
  "tape_spacefm count dev =
     on_drive (- LTFS_NULL_ARG)
       (\<lambda>ops. if 0 < count then op_space ops (of_int count) TC_SPACE_FM_F
              else op_space ops (of_int (- count)) TC_SPACE_FM_B) dev"

definition tape_locate_next_index :: "'b device_data \<Rightarrow> int \<times> 'b device_data" where
  "tape_locate_next_index dev = tape_spacefm 1 dev"

definition tape_locate_previous_index :: "'b device_data \<Rightarrow> int \<times> 'b device_data" where
  "tape_locate_previous_index dev =
     (case tape_spacefm (- 4) dev of (ret, dev) \<Rightarrow> if ret = 0 then tape_spacefm 1 dev else (ret, dev))"

definition tape_locate_first_index :: "u32 \<Rightarrow> 'b device_data \<Rightarrow> int \<times> 'b device_data" where
  "tape_locate_first_index prt dev =
     (case tape_seek (seek_to prt 4) dev of
        (ret, dev) \<Rightarrow> if ret = 0 then tape_spacefm 1 dev else (ret, dev))"

definition tape_locate_last_index :: "u32 \<Rightarrow> 'b device_data \<Rightarrow> int \<times> 'b device_data" where
  "tape_locate_last_index prt dev =
     (case tape_seek_eod prt dev of
        (ret, dev) \<Rightarrow>
          if ret \<noteq> 0 then (ret, dev)
          else case tape_spacefm (- 2) dev of
            (ret, dev) \<Rightarrow> if ret = 0 then tape_spacefm 1 dev else (ret, dev))"


section \<open>Cartridge memory\<close>

text \<open>
  \<open>attr_read\<close> and \<open>attr_write\<close> are the calls of \<open>read_attribute\<close> and \<open>write_attribute\<close>; what a
  failing read leaves in the buffer is not looked at, and bytes a short read does not reach
  are zero.
\<close>

definition attr_read :: "u32 \<Rightarrow> u16 \<Rightarrow> nat \<Rightarrow> 'b device_data \<Rightarrow> int \<times> u8 list \<times> 'b device_data" where
  "attr_read prt attr n dev =
     (case backend dev of
        None \<Rightarrow> (- LTFS_NULL_ARG, [], dev)
      | Some (ops, b) \<Rightarrow>
          (case op_read_attribute ops prt attr n b of
             (ret, buf, b) \<Rightarrow> (ret, buf, dev\<lparr>backend := Some (ops, b)\<rparr>)))"

definition attr_write :: "u32 \<Rightarrow> u8 list \<Rightarrow> 'b device_data \<Rightarrow> int \<times> 'b device_data" where
  "attr_write prt buf dev =
     on_backend (- LTFS_NULL_ARG) (\<lambda>ops. op_write_attribute ops prt buf) dev"

text \<open>A buffer of \<open>n\<close> bytes after a read into it that may have been short.\<close>

definition padded :: "nat \<Rightarrow> u8 list \<Rightarrow> nat \<Rightarrow> u8" where
  "padded n buf i = (if i < length buf then buf ! i else 0)"

definition UINT64_MAX :: u64 where "UINT64_MAX = 0xFFFFFFFFFFFFFFFF"

definition tape_get_volume_change_reference :: "'b device_data \<Rightarrow> int \<times> u64 \<times> 'b device_data" where
  "tape_get_volume_change_reference dev =
     (case attr_read 0 TC_MAM_PAGE_VCR (unat TC_MAM_PAGE_VCR_SIZE + TC_MAM_PAGE_HEADER_SIZE) dev of
        (ret, buf, dev) \<Rightarrow>
          if ret = 0 then
            (let vcr = ltfs_betou32 (\<lambda>i. padded 9 buf (5 + i))
             in (ret, if vcr = 0xFFFFFFFF then UINT64_MAX else ucast vcr, dev))
          else (ret, UINT64_MAX, dev))"

record tc_coherency =
  volume_change_ref :: u64
  coh_count :: u64
  set_id :: u64
  uuid :: "u8 list"
  version :: u8

definition char_byte :: "char \<Rightarrow> u8" where
  "char_byte c = of_nat (of_char c)"

definition bytes_of :: "string \<Rightarrow> u8 list" where
  "bytes_of s = map char_byte s"

definition buf_from :: "(nat \<Rightarrow> u8) \<Rightarrow> nat \<Rightarrow> nat \<Rightarrow> u8 list" where
  "buf_from buf i n = map buf [i ..< i + n]"

text \<open>
  \<open>None\<close> in the second component: the structure is left as it was, or only half filled.
  The comparison with \<open>LTFS\<close> includes the terminating zero.
\<close>

definition tape_get_cart_coherency ::
    "u32 \<Rightarrow> 'b device_data \<Rightarrow> int \<times> tc_coherency option \<times> 'b device_data" where
  "tape_get_cart_coherency prt dev =
     (case attr_read prt TC_MAM_PAGE_COHERENCY
             (unat TC_MAM_PAGE_COHERENCY_SIZE + TC_MAM_PAGE_HEADER_SIZE) dev of
        (ret, read_buf, dev) \<Rightarrow>
          if ret \<noteq> 0 then (ret, None, dev)
          else
            let buf = padded 75 read_buf;
                attr = ltfs_betou16 buf;
                len = ltfs_betou16 (\<lambda>i. buf (3 + i));
                vcr_size = buf 5;
                client_len = ltfs_betou16 (\<lambda>i. buf (30 + i))
            in if attr \<noteq> TC_MAM_PAGE_COHERENCY then (- LTFS_UNEXPECTED_VALUE, None, dev)
               else if len \<noteq> TC_MAM_PAGE_COHERENCY_SIZE then (- LTFS_UNEXPECTED_VALUE, None, dev)
               else if vcr_size \<noteq> 8 then (- LTFS_UNEXPECTED_VALUE, None, dev)
               else if client_len \<noteq> 42 \<and> client_len \<noteq> 43 then (- LTFS_UNEXPECTED_VALUE, None, dev)
               else if buf_from buf 32 5 \<noteq> bytes_of ''LTFS'' @ [0] then (- LTFS_UNEXPECTED_VALUE, None, dev)
               else (ret, Some \<lparr>volume_change_ref = ltfs_betou64 (\<lambda>i. buf (6 + i)),
                                coh_count = ltfs_betou64 (\<lambda>i. buf (14 + i)),
                                set_id = ltfs_betou64 (\<lambda>i. buf (22 + i)),
                                uuid = buf_from buf 37 37, version = buf 74\<rparr>, dev))"

definition coherency_page :: "tc_coherency \<Rightarrow> u8 list" where
  "coherency_page coh =
     ltfs_u16tobe TC_MAM_PAGE_COHERENCY @ [0] @ ltfs_u16tobe TC_MAM_PAGE_COHERENCY_SIZE @ [8] @
     ltfs_u64tobe (volume_change_ref coh) @ ltfs_u64tobe (coh_count coh) @ ltfs_u64tobe (set_id coh) @
     [0, 43] @ bytes_of ''LTFS'' @ [0] @ take 37 (uuid coh) @ [version coh]"

definition tape_set_cart_coherency ::
    "u32 \<Rightarrow> tc_coherency \<Rightarrow> 'b device_data \<Rightarrow> int \<times> 'b device_data" where
  "tape_set_cart_coherency prt coh dev = attr_write prt (coherency_page coh) dev"

definition tape_check_eod_status :: "u32 \<Rightarrow> 'b device_data \<Rightarrow> int" where
  "tape_check_eod_status prt dev =
     (let ret = (case backend dev of None \<Rightarrow> - LTFS_NULL_ARG | Some (ops, b) \<Rightarrow> op_get_eod_status ops b prt)
      in if ret = - EDEV_UNSUPPORTED_FUNCTION then EOD_UNKNOWN
         else if ret = EOD_GOOD \<or> ret = EOD_MISSING \<or> ret = EOD_UNKNOWN then ret
         else EOD_UNKNOWN)"

definition tape_get_ewstate :: "'b device_data \<Rightarrow> int \<times> 'b device_data" where
  "tape_get_ewstate dev =
     (case attr_read 0 TC_MAM_PAGE_EWSTATE (TC_MAM_PAGE_EWSTATE_LEN + TC_MAM_PAGE_HEADER_SIZE) dev of
        (status, read_buf, dev) \<Rightarrow>
          let b = padded 9 read_buf
          in (if status < 0 then 0
              else if b 0 = 0x15 \<and> b 1 = 0x00 \<and> b 5 = 0x48 \<and> b 6 = 0x50 \<and> b 7 = 0x45
              then uint (b 8) else EWSTATE_CLEAR, dev))"

definition tape_set_ewstate :: "int \<Rightarrow> 'b device_data \<Rightarrow> int \<times> 'b device_data" where
  "tape_set_ewstate ewstate dev =
     attr_write 0 [0x15, 0x00, 0, 0, of_nat TC_MAM_PAGE_EWSTATE_LEN, 0x48, 0x50, 0x45, of_int ewstate] dev"

definition tape_remove_ewstate :: "'b device_data \<Rightarrow> int \<times> 'b device_data" where
  "tape_remove_ewstate dev = attr_write 0 [0x15, 0x00, 0, 0, 0] dev"

text \<open>The case \<open>TC_MAM_VOL_LOCK_STATE\<close> of \<open>tape_get_MAMattributes\<close>.\<close>

definition lock_state_of :: "u8 \<Rightarrow> mam_lockval" where
  "lock_state_of c =
     (if c = 0 then UNLOCKED_MAM else if c = 1 then LOCKED_MAM else if c = 2 then PWE_MAM
      else if c = 3 then PERMLOCKED_MAM else if c = 4 then DPPWE_MAM else if c = 5 then IPPWE_MAM
      else if c = 6 then DP_IP_PWE_MAM else NOLOCK_MAM)"

definition tape_get_lock_state :: "u32 \<Rightarrow> 'b device_data \<Rightarrow> int \<times> mam_lockval \<times> 'b device_data" where
  "tape_get_lock_state prt dev =
     (case attr_read prt TC_MAM_VOL_LOCK_STATE (TC_MAM_VOL_LOCK_STATE_LEN + TC_MAM_PAGE_HEADER_SIZE) dev of
        (status, buf, dev) \<Rightarrow>
          if status = 0 then (0, lock_state_of (padded 6 buf 5), dev) else (status, NOLOCK_MAM, dev))"

definition tape_update_mam_attributes ::
    "string option \<Rightarrow> u16 \<Rightarrow> string option \<Rightarrow> mam_lockval \<Rightarrow>
     'b device_data \<Rightarrow> int \<times> 'b device_data" where
  "tape_update_mam_attributes usr_def_vol_name attribute_id usr_def_barcode lockbit dev =
     on_backend (- LTFS_NULL_ARG)
       (\<lambda>ops. op_update_mam_attr ops usr_def_vol_name attribute_id usr_def_barcode lockbit) dev"

definition tape_check_unformat_ok :: "'b device_data \<Rightarrow> int \<times> 'b device_data" where
  "tape_check_unformat_ok dev =
     (case attr_read 0 TC_MAM_PAGE_APP_NAME (TC_MAM_PAGE_APP_NAME_SIZE + TC_MAM_PAGE_HEADER_SIZE) dev of
        (ret, buf, dev) \<Rightarrow> (if ret \<noteq> 0 then - 1000 else 0, dev))"


section \<open>Writing and reading\<close>

text \<open>What a failing write does to the volume lock attribute.\<close>

definition note_write_error :: "bool \<Rightarrow> 'b device_data \<Rightarrow> 'b device_data" where
  "note_write_error is_index_part dev =
     (case tape_get_lock_state 0 dev of
        (_, lock, dev) \<Rightarrow>
          if lock \<noteq> LOCKED_MAM \<and> lock \<noteq> PERMLOCKED_MAM then
            snd (tape_update_mam_attributes None TC_MAM_VOL_LOCK_STATE None
                  (if is_index_part then (if lock \<noteq> DPPWE_MAM then IPPWE_MAM else DP_IP_PWE_MAM)
                   else (if lock \<noteq> IPPWE_MAM then DPPWE_MAM else DP_IP_PWE_MAM)) dev)
          else dev)"

abbreviation here :: "'b device_data \<Rightarrow> u32" where
  "here dev \<equiv> partition (position dev)"

definition tape_write ::
    "u8 list \<Rightarrow> bool \<Rightarrow> bool \<Rightarrow> bool \<Rightarrow> 'b device_data \<Rightarrow> int \<times> 'b device_data" where
  "tape_write buf is_index_part ignore_less ignore_nospc dev =
     (if backend dev = None then (- LTFS_NULL_ARG, dev)
      else if write_protect dev then (- LTFS_WRITE_PROTECT, dev)
      else if write_error dev then (- LTFS_WRITE_ERROR, dev)
      else if partition_space dev (here dev) = PART_NO_SPACE \<and> \<not> ignore_nospc
        then (- LTFS_NO_SPACE, dev)
      else if partition_space dev (here dev) = PART_LESS_SPACE \<and> \<not> ignore_less
        then (- LTFS_LESS_SPACE, dev)
      else if unat (dev_max_block_size dev) < length buf then (- LTFS_LARGE_BLOCKSIZE, dev)
      else case on_drive (- LTFS_NULL_ARG) (\<lambda>ops. op_write ops buf) dev of
        (ret, dev) \<Rightarrow>
          if ret < 0 then
            (ret, if NEED_REVAL ret then dev
                  else note_write_error is_index_part (dev\<lparr>write_error := True\<rparr>))
          else
            (let (count, dev) =
               (if early_warning (position dev) then
                  (if ignore_nospc then int (length buf) else - LTFS_NO_SPACE,
                   snd (tape_set_ewstate EWSTATE_SET
                     (dev\<lparr>partition_space := (partition_space dev)(here dev := PART_NO_SPACE)\<rparr>)))
                else if programmable_early_warning (position dev) then
                  (if ignore_less then int (length buf) else - LTFS_LESS_SPACE,
                   dev\<lparr>partition_space := (partition_space dev)(here dev := PART_LESS_SPACE)\<rparr>)
                else (int (length buf), dev))
             in (count, dev\<lparr>append_pos := (append_pos dev)(here dev := block (position dev))\<rparr>)))"

definition tape_write_filemark ::
    "u8 \<Rightarrow> bool \<Rightarrow> bool \<Rightarrow> 'b device_data \<Rightarrow> int \<times> 'b device_data" where
  "tape_write_filemark count ignore_less ignore_nospc dev =
     (if backend dev = None then (- LTFS_NULL_ARG, dev)
      else if write_protect dev then (- LTFS_WRITE_PROTECT, dev)
      else if write_error dev then (- LTFS_WRITE_ERROR, dev)
      else if partition_space dev (here dev) = PART_NO_SPACE \<and> \<not> ignore_nospc
        then (- LTFS_NO_SPACE, dev)
      else if partition_space dev (here dev) = PART_LESS_SPACE \<and> \<not> ignore_less
        then (- LTFS_LESS_SPACE, dev)
      else case on_drive (- LTFS_NULL_ARG) (\<lambda>ops. op_writefm ops (unat count)) dev of
        (ret, dev) \<Rightarrow>
          if ret < 0 then (ret, if NEED_REVAL ret then dev else dev\<lparr>write_error := True\<rparr>)
          else
            (let (ret, dev) =
               (if early_warning (position dev) then
                  (if ignore_nospc then ret else - LTFS_NO_SPACE,
                   dev\<lparr>partition_space := (partition_space dev)(here dev := PART_NO_SPACE)\<rparr>)
                else if programmable_early_warning (position dev) then
                  (if ignore_less then ret else - LTFS_LESS_SPACE,
                   dev\<lparr>partition_space := (partition_space dev)(here dev := PART_LESS_SPACE)\<rparr>)
                else (ret, dev))
             in (ret, dev\<lparr>append_pos := (append_pos dev)(here dev := block (position dev))\<rparr>)))"

text \<open>
  Data keys. The key manager is a function from a key alias to a result, the alias and the
  key; \<open>None\<close> is a null \<open>kmi_handle\<close>.
\<close>

type_synonym kmi = "(u8 list \<Rightarrow> int \<times> u8 list \<times> u8 list option) option"

definition tape_set_key ::
    "u8 list option \<Rightarrow> u8 list option \<Rightarrow> 'b device_data \<Rightarrow> int \<times> 'b device_data" where
  "tape_set_key keyalias key dev =
     (case backend dev of None \<Rightarrow> (- LTFS_NULL_ARG, dev) | Some (ops, b) \<Rightarrow>
        (case (if key = None then (0, b, seek_to 0 0) else op_readpos ops b (seek_to 0 0)) of
           (ret, b, pos) \<Rightarrow>
             let dev = dev\<lparr>backend := Some (ops, b)\<rparr>
             in if ret < 0 then (ret, dev)
                else
                  let dev = (if key = None then dev else dev\<lparr>is_key_set := True\<rparr>)
                  in case on_backend (- LTFS_NULL_ARG) (\<lambda>ops. op_set_key ops keyalias key) dev of
                       (ret, dev) \<Rightarrow>
                         (ret, if 0 \<le> ret \<and> block pos \<noteq> 0 then snd (tape_force_read_only dev) else dev)))"

definition tape_clear_key :: "kmi \<Rightarrow> 'b device_data \<Rightarrow> int \<times> 'b device_data" where
  "tape_clear_key kmi_handle dev =
     (if kmi_handle \<noteq> None \<or> is_key_set dev then tape_set_key None None dev else (0, dev))"

definition tape_get_keyalias :: "'b device_data \<Rightarrow> int \<times> u8 list" where
  "tape_get_keyalias dev =
     (case backend dev of None \<Rightarrow> (- LTFS_NULL_ARG, []) | Some (ops, b) \<Rightarrow> op_get_keyalias ops b)"

definition read_once :: "nat \<Rightarrow> 'b device_data \<Rightarrow> int \<times> u8 list \<times> 'b device_data" where
  "read_once count dev =
     (case backend dev of None \<Rightarrow> (- LTFS_BAD_DEVICE_DATA, [], dev) | Some (ops, b) \<Rightarrow>
        (case op_read ops count b (position dev) of
           (ret, buf, b, pos) \<Rightarrow> (ret, buf, dev\<lparr>backend := Some (ops, b), position := pos\<rparr>)))"

definition tape_read :: "nat \<Rightarrow> kmi \<Rightarrow> 'b device_data \<Rightarrow> int \<times> u8 list \<times> 'b device_data" where
  "tape_read count kmi_handle dev =
     (case read_once count dev of
        (ret, buf, dev) \<Rightarrow>
          (case kmi_handle of
             None \<Rightarrow> (ret, buf, dev)
           | Some get_key \<Rightarrow>
               if ret \<noteq> - EDEV_CRYPTO_ERROR \<and> ret \<noteq> - EDEV_KEY_REQUIRED then (ret, buf, dev)
               else (case tape_get_keyalias dev of
                 (tmp, keyalias) \<Rightarrow>
                   if tmp < 0 then (ret, buf, dev)
                   else (case get_key keyalias of
                     (tmp, keyalias, key) \<Rightarrow>
                       if tmp < 0 \<or> key = None then (ret, buf, dev)
                       else (case tape_set_key (Some keyalias) key dev of
                         (tmp, dev) \<Rightarrow>
                           if tmp < 0 then (ret, buf, dev) else read_once count dev)))))"

definition tape_erase :: "bool \<Rightarrow> 'b device_data \<Rightarrow> int \<times> 'b device_data" where
  "tape_erase long_erase dev = on_drive (- LTFS_NULL_ARG) (\<lambda>ops. op_erase ops long_erase) dev"

definition tape_reset_capacity :: "'b device_data \<Rightarrow> int \<times> 'b device_data" where
  "tape_reset_capacity dev =
     (case on_drive (- LTFS_NULL_ARG) (\<lambda>ops. op_locate ops (seek_to 0 0)) dev of
        (ret, dev) \<Rightarrow>
          if ret < 0 then (ret, dev)
          else case on_backend (- LTFS_NULL_ARG) (\<lambda>ops. op_setcap ops 0xFFFF) dev of
            (ret, dev) \<Rightarrow>
              if ret < 0 then (ret, dev) else (0, snd (raw_tape_test_unit_ready dev)))"


section \<open>Loading, opening and formatting\<close>

definition on_load ::
    "('b tape_ops \<Rightarrow> 'b \<Rightarrow> tc_position \<Rightarrow> (int \<times> 'b \<times> tc_position) option) \<Rightarrow>
     'b device_data \<Rightarrow> (int \<times> 'b device_data) option" where
  "on_load f dev =
     (case backend dev of
        None \<Rightarrow> Some (- LTFS_NULL_ARG, dev)
      | Some (ops, b) \<Rightarrow>
          (case f ops b (position dev) of
             None \<Rightarrow> None
           | Some (ret, b, pos) \<Rightarrow> Some (ret, dev\<lparr>backend := Some (ops, b), position := pos\<rparr>)))"

definition sense_page :: "u8 \<Rightarrow> u8 \<Rightarrow> nat \<Rightarrow> 'b device_data \<Rightarrow> int \<times> u8 list" where
  "sense_page page subpage n dev =
     (case backend dev of
        None \<Rightarrow> (- LTFS_NULL_ARG, replicate n 0)
      | Some (ops, b) \<Rightarrow>
          (case op_modesense ops page subpage n b of (ret, buf) \<Rightarrow> (ret, map (padded n buf) [0..<n])))"

definition select_page :: "u8 list \<Rightarrow> 'b device_data \<Rightarrow> int \<times> 'b device_data" where
  "select_page buf dev = on_backend (- LTFS_NULL_ARG) (\<lambda>ops. op_modeselect ops buf) dev"

text \<open>\<open>for (i = 0; i < n && ret < 0; i++)\<close> around the readiness test.\<close>

fun test_ready_tries :: "nat \<Rightarrow> int \<Rightarrow> 'b device_data \<Rightarrow> int \<times> 'b device_data" where
  "test_ready_tries 0 ret dev = (ret, dev)"
| "test_ready_tries (Suc n) ret dev =
     (if ret < 0 then case raw_tape_test_unit_ready dev of (ret, dev) \<Rightarrow> test_ready_tries n ret dev
      else (ret, dev))"

definition tape_enable_append_only_mode ::
    "bool \<Rightarrow> 'b device_data \<Rightarrow> (int \<times> 'b device_data) option" where
  "tape_enable_append_only_mode enable dev =
     (if backend dev = None then Some (- LTFS_NULL_ARG, dev)
      else case test_ready_tries 3 (- 1) dev of (ret, dev) \<Rightarrow>
        let loaded = (ret = 0)
        in case sense_page TC_MP_DEV_CONFIG_EXT 1 TC_MP_DEV_CONFIG_EXT_SIZE dev of (ret, page) \<Rightarrow>
        if ret < 0 then Some (ret, dev)
        else
          let reload = (loaded \<and> \<not> enable \<and> page ! 21 AND 0xF0 = 0x10)
          in case (if reload then on_load (\<lambda>ops. op_loadunload ops False True) dev
                   else if loaded \<and> enable then
                     map_option (\<lambda>(ret, dev).
                         (if ret = - EDEV_MEDIUM_FORMAT_ERROR then - LTFS_UNSUPPORTED_MEDIUM else ret, dev))
                       (on_load op_load dev)
                   else Some (0, dev)) of
               None \<Rightarrow> None
             | Some (ret, dev) \<Rightarrow>
                 if ret < 0 then Some (ret, dev)
                 else
                   let page = page[0 := 0, 1 := 0, 16 := page ! 16 AND 0x7F,
                         21 := (page ! 21 AND 0x0F) OR (if enable then 0x10 else 0)]
                   in case select_page page dev of (ret, dev) \<Rightarrow>
                      if ret < 0 then Some (ret, dev)
                      else case (if reload then on_load (\<lambda>ops. op_loadunload ops True False) dev
                                 else Some (ret, dev)) of
                        None \<Rightarrow> None
                      | Some (ret, dev) \<Rightarrow>
                          if reload \<and> ret < 0 then Some (ret, dev)
                          else Some (0, dev\<lparr>append_only_mode := enable\<rparr>))"

definition tape_get_append_only_mode_setting :: "'b device_data \<Rightarrow> int \<times> bool option \<times> 'b device_data" where
  "tape_get_append_only_mode_setting dev =
     (case sense_page TC_MP_DEV_CONFIG_EXT 1 TC_MP_DEV_CONFIG_EXT_SIZE dev of (ret, page) \<Rightarrow>
        if ret < 0 then (ret, None, dev)
        else
          let enabled = (drop_bit 4 (page ! 21) AND 0x0F \<noteq> 0)
          in (0, Some enabled, dev\<lparr>append_only_mode := enabled\<rparr>))"

definition tape_set_pews :: "bool \<Rightarrow> 'b device_data \<Rightarrow> int \<times> 'b device_data" where
  "tape_set_pews set_value dev =
     (case tape_get_capacity dev \<lparr>remaining_p0 = 0, remaining_p1 = 0, max_p0 = 0, max_p1 = 0\<rparr> of
        (ret, cap) \<Rightarrow>
          if ret < 0 then (ret, dev)
          else
            let half_of_max_p0 = max_p0 cap div 2;
                pews = (if set_value then (if half_of_max_p0 < 0xFFFF then ucast half_of_max_p0 else 0xFFFF)
                        else 0 :: u16)
            in case sense_page TC_MP_DEV_CONFIG_EXT 1 TC_MP_DEV_CONFIG_EXT_SIZE dev of (ret, page) \<Rightarrow>
               if ret < 0 then (ret, dev)
               else select_page
                      (page[0 := 0, 1 := 0, 16 := page ! 16 AND 0x7F,
                            22 := ucast (drop_bit 8 pews AND 0xFF), 23 := ucast (pews AND 0xFF)]) dev)"

definition tape_get_pews :: "'b device_data \<Rightarrow> int \<times> u16" where
  "tape_get_pews dev =
     (case sense_page TC_MP_DEV_CONFIG_EXT 1 TC_MP_DEV_CONFIG_EXT_SIZE dev of (ret, page) \<Rightarrow>
        if ret < 0 then (ret, 0)
        else (0, push_bit 8 (ucast (page ! 22)) OR ucast (page ! 23)))"

fun loadable_tries :: "nat \<Rightarrow> int \<Rightarrow> 'b device_data \<Rightarrow> int \<times> 'b device_data" where
  "loadable_tries 0 ret dev = (ret, dev)"
| "loadable_tries (Suc n) ret dev =
     (if 0 \<le> ret then (ret, dev)
      else case raw_tape_test_unit_ready dev of (ret, dev) \<Rightarrow>
        if ret = DEVICE_GOOD \<or> ret = - EDEV_NEED_INITIALIZE then (DEVICE_GOOD, dev)
        else if ret = - EDEV_NO_MEDIUM then (- LTFS_NO_MEDIUM, dev)
        else if ret \<in> {- EDEV_BECOMING_READY, - EDEV_NOT_SELF_CONFIGURED_YET,
                       - EDEV_MEDIUM_MAY_BE_CHANGED, - EDEV_POR_OR_BUS_RESET,
                       - EDEV_CONFIGURE_CHANGED}
        then loadable_tries n ret dev
        else (ret, dev))"

definition tape_is_cartridge_loadable :: "'b device_data \<Rightarrow> int \<times> 'b device_data" where
  "tape_is_cartridge_loadable dev = loadable_tries 300 (- EDEV_UNKNOWN) dev"

text \<open>
  The first loop of \<open>tape_wait_device_ready\<close>: it ends by giving up, by asking for a load and a
  new start, or by falling through to the second loop with the last result.
\<close>

datatype ready_outcome = GiveUp int | LoadNow | Polled int

definition any_cleaning_media :: u64 where
  "any_cleaning_media = 0x0020000000000000 OR 0x0000040000000000 OR 0x0000020000000000 OR 0x0000000000000400"

definition cleaning_media :: "'b device_data \<Rightarrow> bool" where
  "cleaning_media dev =
     (case backend dev of None \<Rightarrow> False
      | Some (ops, b) \<Rightarrow> (case op_get_tape_alert ops b of
          (ret, alert) \<Rightarrow> 0 \<le> ret \<and> alert AND any_cleaning_media \<noteq> 0))"

fun ready_tries :: "nat \<Rightarrow> int \<Rightarrow> 'b device_data \<Rightarrow> ready_outcome \<times> 'b device_data" where
  "ready_tries 0 ret dev = (Polled ret, dev)"
| "ready_tries (Suc n) ret dev =
     (if 0 \<le> ret then (Polled ret, dev)
      else case raw_tape_test_unit_ready dev of (ret, dev) \<Rightarrow>
        if ret = - EDEV_NEED_INITIALIZE \<or> ret = - EDEV_BECOMING_READY
        then (if cleaning_media dev then GiveUp ret else LoadNow, dev)
        else if ret = - LTFS_NULL_ARG then (GiveUp ret, dev)
        else ready_tries n ret dev)"

definition IS_MEDIUM_ERROR :: "int \<Rightarrow> bool" where
  "IS_MEDIUM_ERROR e \<longleftrightarrow> EDEV_MEDIUM_MIN \<le> e \<and> e \<le> EDEV_MEDIUM_MAX"

definition IS_HARDWARE_ERROR :: "int \<Rightarrow> bool" where
  "IS_HARDWARE_ERROR e \<longleftrightarrow> EDEV_HARDWARE_MIN \<le> e \<and> e \<le> EDEV_HARDWARE_MAX"

fun poll_ready :: "nat \<Rightarrow> int \<Rightarrow> 'b device_data \<Rightarrow> int \<times> 'b device_data" where
  "poll_ready 0 ret dev = (ret, dev)"
| "poll_ready (Suc n) ret dev =
     (if 0 \<le> ret then (ret, dev)
      else case raw_tape_test_unit_ready dev of (ret, dev) \<Rightarrow>
        if ret = DEVICE_GOOD \<or> ret = - EDEV_NO_MEDIUM \<or> ret = - EDEV_DRIVER_ERROR \<or>
           IS_MEDIUM_ERROR (- ret) \<or> IS_HARDWARE_ERROR (- ret)
        then (ret, dev)
        else poll_ready n ret dev)"

text \<open>The load command, repeated while the drive reports a reset or a changed medium.\<close>

partial_function (option) load_retry :: "'b device_data \<Rightarrow> (int \<times> 'b device_data) option" where
  "load_retry dev =
     Option.bind (on_load op_load dev)
       (\<lambda>(ret, dev). if NEED_REVAL ret then load_retry dev else Some (ret, dev))"

text \<open>
  The space left on a partition after a load. \<open>pews\<close> is the programmable early warning size
  plus 10, computed in 16 bits.
\<close>

definition space_status :: "tc_remaining_cap \<Rightarrow> u64 \<Rightarrow> u16 \<Rightarrow> partition_status" where
  "space_status cap remaining pews =
     (if max_p0 cap \<noteq> 0 \<and> max_p1 cap \<noteq> 0 \<and> remaining = 0 then PART_NO_SPACE
      else if remaining \<le> ucast pews then PART_LESS_SPACE
      else PART_WRITABLE)"

text \<open>\<open>tape_load_tape\<close> from \<open>tape_clear_key\<close> on.\<close>

definition load_parameters :: "kmi \<Rightarrow> 'b device_data \<Rightarrow> int \<times> 'b device_data" where
  "load_parameters kmi_handle dev =
     (case tape_clear_key kmi_handle dev of (ret, dev) \<Rightarrow>
      if ret < 0 then (ret, dev)
      else case tape_get_capacity dev \<lparr>remaining_p0 = 0, remaining_p1 = 0, max_p0 = 0, max_p1 = 0\<rparr> of
        (ret, cap) \<Rightarrow>
      if ret < 0 then (ret, dev)
      else case tape_get_parameters dev of (ret, param) \<Rightarrow>
      if ret < 0 then (ret, dev)
      else
        let dev = dev\<lparr>dev_max_block_size := max_blksize param\<rparr>
        in case tape_get_pews dev of (ret, pews) \<Rightarrow>
      if ret < 0 then (ret, dev)
      else
        let pews = pews + 10;
            dev = dev\<lparr>physical_write_protect := write_protect_switch param,
              write_protect := (write_protect_switch param \<or> logical_write_protect param),
              write_error := False,
              partition_space := (partition_space dev)
                (0 := space_status cap (remaining_p0 cap) pews,
                 1 := space_status cap (remaining_p1 cap) pews)\<rparr>
        in case tape_get_ewstate dev of (ret, dev) \<Rightarrow>
          (0, if ret = EWSTATE_SET
              then dev\<lparr>partition_space := (partition_space dev)(1 := PART_NO_SPACE)\<rparr>
              else if ret = EWSTATE_CLEAR
              then dev\<lparr>position := (position dev)\<lparr>early_warning := False\<rparr>,
                       partition_space := (partition_space dev)(0 := PART_WRITABLE, 1 := PART_WRITABLE)\<rparr>
              else dev))"

text \<open>
  \<open>tape_load_tape\<close> and \<open>tape_wait_device_ready\<close> call each other for as long as the drive
  asks for an initialisation: the first argument bounds the calls, \<open>None\<close> when it is used
  up.
\<close>

fun tape_load_tape :: "nat \<Rightarrow> kmi \<Rightarrow> 'b device_data \<Rightarrow> (int \<times> 'b device_data) option"
and tape_wait_device_ready :: "nat \<Rightarrow> kmi \<Rightarrow> 'b device_data \<Rightarrow> (int \<times> 'b device_data) option"
where
  "tape_load_tape 0 kmi_handle dev = None"
| "tape_load_tape (Suc n) kmi_handle dev =
     (if backend dev = None then Some (- LTFS_NULL_ARG, dev)
      else case tape_is_cartridge_loadable dev of (ret, dev) \<Rightarrow>
      if ret < 0 then Some (ret, dev)
      else case load_retry dev of
        None \<Rightarrow> None
      | Some (ret, dev) \<Rightarrow>
      if ret = - EDEV_NO_MEDIUM then Some (- LTFS_NO_MEDIUM, dev)
      else if ret < 0
      then Some (if ret = - EDEV_MEDIUM_FORMAT_ERROR then - LTFS_UNSUPPORTED_MEDIUM else ret, dev)
      else
        let dev = dev\<lparr>append_pos := (append_pos dev)(0 := 0, 1 := 0)\<rparr>
        in case tape_wait_device_ready n kmi_handle dev of
        None \<Rightarrow> None
      | Some (ret, dev) \<Rightarrow>
      if ret < 0 then Some (- LTFS_DEVICE_UNREADY, dev)
      else case tape_prevent_medium_removal dev of
        None \<Rightarrow> None
      | Some (ret, dev) \<Rightarrow>
      if ret < 0 then Some (ret, dev)
      else case on_drive (- LTFS_NULL_ARG) op_readpos dev of (ret, dev) \<Rightarrow>
      if ret < 0 then Some (ret, dev)
      else case on_backend (- LTFS_NULL_ARG) op_set_default dev of (ret, dev) \<Rightarrow>
      if ret < 0 then Some (ret, dev)
      else Some (load_parameters kmi_handle dev))"
| "tape_wait_device_ready 0 kmi_handle dev = None"
| "tape_wait_device_ready (Suc n) kmi_handle dev =
     (case ready_tries 3 (- EDEV_UNKNOWN) dev of
        (GiveUp ret, dev) \<Rightarrow> Some (ret, dev)
      | (Polled ret, dev) \<Rightarrow> Some (poll_ready 30 ret dev)
      | (LoadNow, dev) \<Rightarrow>
          (case tape_load_tape n kmi_handle dev of
             None \<Rightarrow> None
           | Some (_, dev) \<Rightarrow> tape_wait_device_ready n kmi_handle dev))"


definition tape_unload_tape :: "'b device_data \<Rightarrow> (int \<times> 'b device_data) option" where
  "tape_unload_tape dev =
     (if backend dev = None then Some (- LTFS_NULL_ARG, dev)
      else
        let dev = dev\<lparr>previous_exist := \<lparr>tv_sec = 0, tv_nsec = 0\<rparr>\<rparr>
        in case tape_allow_medium_removal False dev of
        None \<Rightarrow> None
      | Some dev \<Rightarrow>
     (case retry_reval tape_rewind dev of
        None \<Rightarrow> None
      | Some (_, dev) \<Rightarrow>
     (case retry_reval (on_drive (- LTFS_NULL_ARG) op_unload) dev of
        None \<Rightarrow> None
      | Some (_, dev) \<Rightarrow> tape_enable_append_only_mode False dev)))"

text \<open>\<open>_tape_device_close\<close>; the results of the steps are ignored.\<close>

definition tape_device_close :: "kmi \<Rightarrow> bool \<Rightarrow> bool \<Rightarrow> 'b device_data \<Rightarrow> 'b device_data option" where
  "tape_device_close kmi_handle skip_aom_setting force_release dev =
     (case tape_allow_medium_removal force_release (snd (tape_clear_key kmi_handle dev)) of
        None \<Rightarrow> None
      | Some dev \<Rightarrow>
     (case (if skip_aom_setting then Some dev
            else map_option snd (tape_enable_append_only_mode False dev)) of
        None \<Rightarrow> None
      | Some dev \<Rightarrow>
     (case tape_release_device dev of
        None \<Rightarrow> None
      | Some dev \<Rightarrow>
          Some (dev\<lparr>backend := None, previous_exist := \<lparr>tv_sec = 0, tv_nsec = 0\<rparr>\<rparr>))))"

fun reserve_tries :: "nat \<Rightarrow> int \<Rightarrow> 'b device_data \<Rightarrow> (int \<times> 'b device_data) option" where
  "reserve_tries 0 ret dev = Some (ret, dev)"
| "reserve_tries (Suc n) ret dev =
     (if ret < 0 then
        (case tape_reserve_device dev of
           None \<Rightarrow> None
         | Some (ret, dev) \<Rightarrow> reserve_tries n ret dev)
      else Some (ret, dev))"

text \<open>
  \<open>tape_device_open\<close> with the table of operations of the backend (none of them null) and what
  its \<open>open\<close> returns: a code and, when it is not negative, its data.
\<close>

definition tape_device_open ::
    "'b tape_ops \<Rightarrow> int \<Rightarrow> 'b \<Rightarrow> kmi \<Rightarrow> 'b device_data \<Rightarrow> (int \<times> 'b device_data) option" where
  "tape_device_open ops open_ret b kmi_handle dev =
     (if open_ret < 0 then Some (open_ret, dev\<lparr>backend := None\<rparr>)
      else case reserve_tries 3 (- 1) (dev\<lparr>backend := Some (ops, b)\<rparr>) of
        None \<Rightarrow> None
      | Some (ret, dev) \<Rightarrow>
          if ret < 0 then
            map_option (\<lambda>dev. (ret, dev\<lparr>backend := None\<rparr>)) (tape_device_close kmi_handle False False dev)
          else
            map_option (\<lambda>dev. (ret, if ret \<noteq> 0 then dev\<lparr>backend := None\<rparr> else dev))
              (tape_allow_medium_removal True dev))"

text \<open>The medium partition page \<open>tape_format\<close> sends.\<close>

definition partition_page :: "u32 \<Rightarrow> u8 list \<Rightarrow> u8 list" where
  "partition_page index_part page =
     (let page = page[0 := 0, 1 := 0, 19 := 1, 20 := 0x20 OR (page ! 20 AND 0x1F)]
      in if index_part = 1 then page[24 := 0xFF, 25 := 0xFF, 26 := 0, 27 := 1]
         else page[24 := 0, 25 := 1, 26 := 0xFF, 27 := 0xFF])"

text \<open>
  The page length the drive reports may be anything up to \<open>2\<^sup>1\<^sup>6 + 1\<close>; what lies behind the
  36 bytes of the buffer is not modelled.
\<close>

definition tape_format :: "u32 \<Rightarrow> 'b device_data \<Rightarrow> (int \<times> 'b device_data) option" where
  "tape_format index_part dev =
     (case on_load op_load dev of
        None \<Rightarrow> None
      | Some (ret, dev) \<Rightarrow>
      if ret < 0 then Some (ret, dev)
      else case sense_page TC_MP_MEDIUM_PARTITION 0 TC_MP_MEDIUM_PARTITION_SIZE dev of (ret, sensed) \<Rightarrow>
      if ret < 0 then Some (ret, dev)
      else
        let pagelen = unat (sensed ! 0) * 256 + unat (sensed ! 1) + 2;
            dev = snd (select_page (take pagelen (partition_page index_part (sensed @ replicate 4 0))) dev)
        in case on_backend (- LTFS_NULL_ARG) (\<lambda>ops. op_format ops TC_FORMAT_DEST_PART) dev of (ret, dev) \<Rightarrow>
      if ret < 0 then Some (ret, dev)
      else case tape_set_ewstate EWSTATE_CLEAR dev of (_, dev) \<Rightarrow>
        Some (0, dev\<lparr>partition_space := (partition_space dev)(0 := PART_WRITABLE, 1 := PART_WRITABLE)\<rparr>))"

definition tape_unformat :: "'b device_data \<Rightarrow> (int \<times> 'b device_data) option" where
  "tape_unformat dev =
     (case on_load op_load dev of
        None \<Rightarrow> None
      | Some (ret, dev) \<Rightarrow>
      if ret < 0 then Some (ret, dev)
      else case on_backend (- LTFS_NULL_ARG) (\<lambda>ops. op_format ops TC_FORMAT_DEFAULT) dev of (ret, dev) \<Rightarrow>
      if ret < 0 then Some (ret, dev)
      else case tape_remove_ewstate dev of (_, dev) \<Rightarrow>
        Some (0, dev\<lparr>partition_space := (partition_space dev)(0 := PART_WRITABLE, 1 := PART_WRITABLE)\<rparr>))"

text \<open>
  The read loop of \<open>tape_recover_eod_status\<close> ends at the first error; \<open>None\<close> if there is none.
  The tests for an interruption by the user are left out.
\<close>

partial_function (option) read_to_error ::
    "nat \<Rightarrow> kmi \<Rightarrow> 'b device_data \<Rightarrow> (int \<times> 'b device_data) option" where
  "read_to_error count kmi_handle dev =
     (case tape_read count kmi_handle dev of
        (ret, _, dev) \<Rightarrow> if ret < 0 then Some (ret, dev) else read_to_error count kmi_handle dev)"

definition tape_recover_eod_status :: "nat \<Rightarrow> kmi \<Rightarrow> 'b device_data \<Rightarrow> (int \<times> 'b device_data) option" where
  "tape_recover_eod_status n kmi_handle dev =
     (case tape_get_max_blocksize dev of (ret, recover_block_size) \<Rightarrow>
      if ret < 0 then Some (ret, dev)
      else case read_to_error (unat recover_block_size) kmi_handle dev of
        None \<Rightarrow> None
      | Some (_, dev) \<Rightarrow>
     (case backend dev of
        None \<Rightarrow> Some (- LTFS_NULL_ARG, dev)
      | Some (ops, b) \<Rightarrow>
     (case op_readpos ops b (seek_to 0 0) of (ret, b, eod_pos) \<Rightarrow>
      let dev = dev\<lparr>backend := Some (ops, b)\<rparr>
      in if ret < 0 then Some (ret, dev)
      else
        let eod_pos = eod_pos\<lparr>block := block eod_pos - 1\<rparr>
        in case tape_load_tape n kmi_handle dev of
        None \<Rightarrow> None
      | Some (ret, dev) \<Rightarrow>
      if ret < 0 then Some (ret, dev)
      else case tape_seek eod_pos dev of (ret, dev) \<Rightarrow>
      if ret < 0 then Some (ret, dev)
      else Some (tape_erase False dev))))"

end
