(* ===== verification/TapeImage.thy ===== *)
theory TapeImage imports TapeOps begin

text \<open>
  The contract of a tape drive, as the comments of \<open>struct tape_ops\<close> in
  \<open>src/ltfs/src/libltfs/tape_ops.h\<close> state it: two partitions, each a list of data blocks and
  filemarks, and a head in front of one of them. A write replaces what follows the head, a
  read passes one item, a locate stops at the end of the data at the latest.
\<close>

datatype tape_item = Data "u8 list" | Filemark

record tape_image =
  items :: "u32 \<Rightarrow> tape_item list"
  head_part :: u32
  head_block :: nat
  block_limit :: nat
  zone :: "u32 \<Rightarrow> nat option"
  p_zone :: "u32 \<Rightarrow> nat option"

abbreviation head_items :: "tape_image \<Rightarrow> tape_item list" where
  "head_items t \<equiv> items t (head_part t)"

definition count_fm :: "tape_item list \<Rightarrow> nat" where
  "count_fm xs = length (filter (\<lambda>x. x = Filemark) xs)"

text \<open>
  \<open>block_limit\<close> bounds the size of a block; the early warning zone and the programmable
  one of a partition start at a block, or there is none.
\<close>

definition in_zone :: "nat option \<Rightarrow> nat \<Rightarrow> bool" where
  "in_zone z b = (case z of None \<Rightarrow> False | Some n \<Rightarrow> n \<le> b)"

abbreviation warned :: "tape_image \<Rightarrow> bool" where
  "warned t \<equiv> in_zone (zone t (head_part t)) (head_block t)"

abbreviation p_warned :: "tape_image \<Rightarrow> bool" where
  "p_warned t \<equiv> in_zone (p_zone t (head_part t)) (head_block t)"

text \<open>What the drive does to its tapes.\<close>

definition img_append :: "tape_item \<Rightarrow> tape_image \<Rightarrow> tape_image" where
  "img_append x t = t\<lparr>items := (items t)(head_part t := take (head_block t) (head_items t) @ [x]),
                      head_block := Suc (head_block t)\<rparr>"

definition img_move :: "u32 \<Rightarrow> nat \<Rightarrow> tape_image \<Rightarrow> tape_image" where
  "img_move p b t = t\<lparr>head_part := p, head_block := min b (length (items t p))\<rparr>"

definition img_cut :: "tape_image \<Rightarrow> tape_image" where
  "img_cut t = t\<lparr>items := (items t)(head_part t := take (head_block t) (head_items t))\<rparr>"

text \<open>The number of items up to and including the \<open>n\<close>-th filemark.\<close>

fun skip_fm :: "nat \<Rightarrow> tape_item list \<Rightarrow> nat option" where
  "skip_fm 0 xs = Some 0"
| "skip_fm (Suc n) [] = None"
| "skip_fm (Suc n) (Filemark # xs) = map_option Suc (skip_fm n xs)"
| "skip_fm (Suc n) (Data d # xs) = map_option Suc (skip_fm (Suc n) xs)"

lemma count_fm_simps [simp]:
  "count_fm [] = 0" "count_fm (xs @ ys) = count_fm xs + count_fm ys"
  "count_fm (x # xs) = (if x = Filemark then 1 else 0) + count_fm xs"
  by (simp_all add: count_fm_def)

abbreviation img_at :: "u32 \<Rightarrow> nat \<Rightarrow> tape_image \<Rightarrow> tape_image" where
  "img_at p b t \<equiv> t\<lparr>head_part := p, head_block := b\<rparr>"

definition img_blank :: "tape_image \<Rightarrow> tape_image" where
  "img_blank t = t\<lparr>items := (\<lambda>_. []), head_part := 0, head_block := 0\<rparr>"

definition img_fm_forward :: "nat \<Rightarrow> tape_image \<Rightarrow> nat" where
  "img_fm_forward n t =
     (case skip_fm n (drop (head_block t) (head_items t)) of
        Some k \<Rightarrow> head_block t + k | None \<Rightarrow> length (head_items t))"

definition img_fm_back :: "nat \<Rightarrow> tape_image \<Rightarrow> nat" where
  "img_fm_back n t =
     (case skip_fm n (rev (take (head_block t) (head_items t))) of
        Some k \<Rightarrow> head_block t - k | None \<Rightarrow> 0)"

lemma head_part_funpow [simp]: "head_part ((img_append x ^^ n) t) = head_part t"
  by (induction n) (simp_all add: img_append_def)

lemma head_block_funpow [simp]: "head_block ((img_append x ^^ n) t) = head_block t + n"
  by (induction n) (simp_all add: img_append_def)

text \<open>Spacing over filemarks.\<close>

lemma skip_fm_bounds: "skip_fm n xs = Some k \<Longrightarrow> k \<le> length xs"
  by (induction n xs arbitrary: k rule: skip_fm.induct) auto

lemma skip_fm_pos: "skip_fm (Suc n) xs = Some k \<Longrightarrow> 0 < k"
  by (cases xs rule: list.exhaust; cases "hd xs") auto


end
