(* ===== verification/TapeDrive.thy ===== *)
theory TapeDrive imports TapeLayer TapeImage begin

text \<open>
  The tape layer over a drive that keeps the contract of \<open>struct tape_ops\<close>: the locale
  \<open>tape_drive\<close> states the contract for a table of operations and a relation between the
  drive's data and the tapes in it; the lemmas of the locale say what the functions of
  \<open>src/ltfs/src/libltfs/tape.c\<close> do to the tapes.
\<close>

definition mounted ::
    "'b tape_ops \<Rightarrow> ('b \<Rightarrow> tape_image \<Rightarrow> bool) \<Rightarrow> (tc_position \<Rightarrow> 'b \<Rightarrow> bool) \<Rightarrow>
     'b device_data \<Rightarrow> tape_image \<Rightarrow> bool" where
  "mounted ops repr at_head dev t \<longleftrightarrow>
     (\<exists>b. backend dev = Some (ops, b) \<and> repr b t \<and> at_head (position dev) b)"

text \<open>No early warning is pending, and none is due at block \<open>n\<close> of partition \<open>p\<close>.\<close>

definition calm :: "'b device_data \<Rightarrow> bool" where
  "calm dev \<longleftrightarrow> \<not> early_warning (position dev) \<and> \<not> programmable_early_warning (position dev)"

definition has_room :: "tape_image \<Rightarrow> u32 \<Rightarrow> nat \<Rightarrow> bool" where
  "has_room t p n \<longleftrightarrow> \<not> in_zone (zone t p) n \<and> \<not> in_zone (p_zone t p) n"

definition same_flags :: "'b device_data \<Rightarrow> 'b device_data \<Rightarrow> bool" where
  "same_flags dev dev' \<longleftrightarrow>
     write_protect dev' = write_protect dev \<and> write_error dev' = write_error dev \<and>
     dev_max_block_size dev' = dev_max_block_size dev \<and>
     partition_space dev' = partition_space dev \<and> append_only_mode dev' = append_only_mode dev \<and>
     fence dev' = fence dev"

definition writable :: "'b device_data \<Rightarrow> u32 \<Rightarrow> bool" where
  "writable dev p \<longleftrightarrow> tape_read_only p dev = 0"

lemma same_flags_refl [simp]: "same_flags dev dev"
  by (simp add: same_flags_def)

lemma same_flags_trans: "same_flags a b \<Longrightarrow> same_flags b c \<Longrightarrow> same_flags a c"
  by (simp add: same_flags_def)

lemma same_flags_writable: "same_flags a b \<Longrightarrow> writable b p = writable a p"
  by (simp add: same_flags_def writable_def tape_read_only_def)

text \<open>The same for a device whose append position may have moved on one partition.\<close>

definition same_elsewhere :: "u32 \<Rightarrow> 'b device_data \<Rightarrow> 'b device_data \<Rightarrow> bool" where
  "same_elsewhere p dev dev' \<longleftrightarrow>
     same_flags dev dev' \<and> (\<forall>q. q \<noteq> p \<longrightarrow> append_pos dev' q = append_pos dev q)"

lemma same_elsewhere_refl [simp]: "same_elsewhere p dev dev"
  by (simp add: same_elsewhere_def)

lemma same_elsewhere_trans: "same_elsewhere p a b \<Longrightarrow> same_elsewhere p b c \<Longrightarrow> same_elsewhere p a c"
  using same_flags_trans by (auto simp: same_elsewhere_def)

lemma same_elsewhere_flags: "same_elsewhere p a b \<Longrightarrow> same_flags a b"
  by (simp add: same_elsewhere_def)

lemma same_elsewhere_update:
  "same_flags a b \<Longrightarrow> append_pos b = (append_pos a)(p := x) \<Longrightarrow> same_elsewhere p a b"
  by (simp add: same_elsewhere_def)

lemma same_elsewhere_keep: "same_flags a b \<Longrightarrow> append_pos b = append_pos a \<Longrightarrow> same_elsewhere p a b"
  by (simp add: same_elsewhere_def)

lemma in_zone_mono: "m \<le> n \<Longrightarrow> in_zone z m \<Longrightarrow> in_zone z n"
  by (auto simp: in_zone_def split: option.splits)

lemma has_room_mono: "m \<le> n \<Longrightarrow> has_room t p n \<Longrightarrow> has_room t p m"
  using in_zone_mono unfolding has_room_def by blast

lemma writable_cases:
  "writable dev p \<longleftrightarrow> \<not> write_protect dev \<and> \<not> write_error dev \<and> partition_space dev p = PART_WRITABLE"
  by (auto simp: writable_def tape_read_only_def split: partition_status.splits)

lemma seek_to_simps [simp]:
  "partition (seek_to p b) = p" "block (seek_to p b) = b"
  by (simp_all add: seek_to_def)

section \<open>Pages of the cartridge memory\<close>

text \<open>A page with one attribute, whose length field is right.\<close>

definition single_attribute :: "u8 list \<Rightarrow> bool" where
  "single_attribute buf \<longleftrightarrow>
     5 \<le> length buf \<and> length buf = unat (ltfs_betou16 (\<lambda>i. buf ! (3 + i))) + 5"

definition attribute_id :: "u8 list \<Rightarrow> u16" where
  "attribute_id buf = ltfs_betou16 (\<lambda>i. buf ! i)"

lemma betou64_cong: "(\<And>i. i < 8 \<Longrightarrow> f i = g i) \<Longrightarrow> ltfs_betou64 f = ltfs_betou64 g"
  by (simp add: ltfs_betou64_def ltfs_betou32_def)

lemma u64tobe_length [simp]: "length (ltfs_u64tobe x) = 8"
  by (simp add: ltfs_u64tobe_def)

lemma u16tobe_length [simp]: "length (ltfs_u16tobe x) = 2"
  by (simp add: ltfs_u16tobe_def)

lemma betou64_middle:
  assumes "length pre = k"
  shows "ltfs_betou64 (\<lambda>i. (pre @ ltfs_u64tobe x @ post) ! (k + i)) = x"
proof -
  have "ltfs_betou64 (\<lambda>i. (pre @ ltfs_u64tobe x @ post) ! (k + i)) = ltfs_betou64 (\<lambda>i. ltfs_u64tobe x ! i)"
    using assms by (intro betou64_cong) (auto simp: nth_append)
  then show ?thesis by (simp add: betou64_u64tobe)
qed

lemma map_nth_segment:
  "a + n \<le> length xs \<Longrightarrow> map (\<lambda>i. xs ! i) [a..<a + n] = take n (drop a xs)"
  by (rule nth_equalityI) simp_all

lemma coherency_page_length:
  "length (uuid coh) = 37 \<Longrightarrow> length (coherency_page coh) = 75"
  by (simp add: coherency_page_def bytes_of_def)

lemma coherency_page_head:
  "coherency_page coh = [8, 0x0C, 0, 0, 0x46, 8] @ ltfs_u64tobe (volume_change_ref coh) @
     ltfs_u64tobe (coh_count coh) @ ltfs_u64tobe (set_id coh) @ [0, 43] @ bytes_of ''LTFS'' @ [0] @
     take 37 (uuid coh) @ [version coh]"
  by (simp add: coherency_page_def ltfs_u16tobe_def)

lemma coherency_page_fields:
  assumes len: "length (uuid coh) = 37"
  defines "pg \<equiv> coherency_page coh"
  shows "ltfs_betou64 (\<lambda>i. pg ! (6 + i)) = volume_change_ref coh"
    and "ltfs_betou64 (\<lambda>i. pg ! (14 + i)) = coh_count coh"
    and "ltfs_betou64 (\<lambda>i. pg ! (22 + i)) = set_id coh"
    and "pg ! 30 = 0" and "pg ! 31 = 43"
    and "map (\<lambda>i. pg ! i) [32..<37] = bytes_of ''LTFS'' @ [0]"
    and "map (\<lambda>i. pg ! i) [37..<74] = uuid coh"
    and "pg ! 74 = version coh"
proof -
  let ?h = "[8, 0x0C, 0, 0, 0x46, 8] :: u8 list"
  let ?v = "ltfs_u64tobe (volume_change_ref coh)" and ?c = "ltfs_u64tobe (coh_count coh)"
  let ?s = "ltfs_u64tobe (set_id coh)" and ?l = "bytes_of ''LTFS'' @ [0]"
  have pg: "pg = ?h @ ?v @ ?c @ ?s @ [0, 43] @ ?l @ uuid coh @ [version coh]"
    using len by (simp add: pg_def coherency_page_head)
  show "ltfs_betou64 (\<lambda>i. pg ! (6 + i)) = volume_change_ref coh"
    unfolding pg by (rule betou64_middle) simp
  show "ltfs_betou64 (\<lambda>i. pg ! (14 + i)) = coh_count coh"
    using betou64_middle [of "?h @ ?v" 14 "coh_count coh"] by (simp add: pg)
  show "ltfs_betou64 (\<lambda>i. pg ! (22 + i)) = set_id coh"
    using betou64_middle [of "?h @ ?v @ ?c" 22 "set_id coh"] by (simp add: pg)
  have drop30: "drop 30 pg = [0, 43] @ ?l @ uuid coh @ [version coh]"
    by (simp add: pg)
  have length: "length pg = 75" using len coherency_page_length by (simp add: pg_def)
  have nth: "pg ! (30 + i) = ([0, 43] @ ?l @ uuid coh @ [version coh]) ! i" for i
    using nth_drop [of 30 pg i] drop30 length by simp
  show "pg ! 30 = 0" using nth [of 0] by simp
  show "pg ! 31 = 43" using nth [of 1] by simp
  have "drop 32 pg = ?l @ uuid coh @ [version coh]"
    using arg_cong [OF drop30, of "drop 2"] by simp
  then show "map (\<lambda>i. pg ! i) [32..<37] = ?l"
    using map_nth_segment [of 32 5 pg] length by (simp add: bytes_of_def)
  have "drop 37 pg = uuid coh @ [version coh]"
    using arg_cong [OF drop30, of "drop 7"] by (simp add: bytes_of_def)
  then show "map (\<lambda>i. pg ! i) [37..<74] = uuid coh"
    using map_nth_segment [of 37 37 pg] length len by simp
  show "pg ! 74 = version coh"
    using nth [of 44] len by (simp add: nth_append bytes_of_def)
qed

section \<open>The contract\<close>

locale tape_drive =
  fixes ops :: "'b tape_ops"
    and repr :: "'b \<Rightarrow> tape_image \<Rightarrow> bool"
    and at_head :: "tc_position \<Rightarrow> 'b \<Rightarrow> bool"
  assumes head_position: "repr b t \<Longrightarrow> at_head pos b \<Longrightarrow>
      partition pos = head_part t \<and> block pos = of_nat (head_block t)"
    and head_bounds: "repr b t \<Longrightarrow> (head_part t = 0 \<or> head_part t = 1) \<and>
      head_block t \<le> length (head_items t)"
    and tape_bound: "repr b t \<Longrightarrow> p = 0 \<or> p = 1 \<Longrightarrow> length (items t p) < 2 ^ 64 - 1"
    and write_block: "repr b t \<Longrightarrow> at_head pos b \<Longrightarrow> buf \<noteq> [] \<Longrightarrow> length buf \<le> block_limit t \<Longrightarrow>
      Suc (head_block t) < 2 ^ 64 - 1 \<Longrightarrow>
      \<exists>b' pos'. op_write ops buf b pos = (int (length buf), b', pos') \<and>
        repr b' (img_append (Data buf) t) \<and> at_head pos' b' \<and>
        (early_warning pos' \<longleftrightarrow> early_warning pos \<or> warned (img_append (Data buf) t)) \<and>
        (programmable_early_warning pos' \<longrightarrow>
           programmable_early_warning pos \<or> p_warned (img_append (Data buf) t))"
    and write_marks: "repr b t \<Longrightarrow> at_head pos b \<Longrightarrow> 0 < n \<Longrightarrow> head_block t + n < 2 ^ 64 - 1 \<Longrightarrow>
      \<exists>b' pos'. op_writefm ops n b pos = (0, b', pos') \<and>
        repr b' ((img_append Filemark ^^ n) t) \<and> at_head pos' b' \<and>
        (early_warning pos' \<longleftrightarrow> early_warning pos \<or> warned ((img_append Filemark ^^ n) t)) \<and>
        (programmable_early_warning pos' \<longrightarrow>
           programmable_early_warning pos \<or> p_warned ((img_append Filemark ^^ n) t))"
    and read_end: "repr b t \<Longrightarrow> at_head pos b \<Longrightarrow> head_block t = length (head_items t) \<Longrightarrow>
      op_read ops n b pos = (- EDEV_EOD_DETECTED, [], b, pos)"
    and read_item: "repr b t \<Longrightarrow> at_head pos b \<Longrightarrow> head_block t < length (head_items t) \<Longrightarrow>
      \<exists>b' pos' d. op_read ops n b pos = (int (length d), d, b', pos') \<and>
        d = (case head_items t ! head_block t of Data d \<Rightarrow> take n d | Filemark \<Rightarrow> []) \<and>
        repr b' (t\<lparr>head_block := Suc (head_block t)\<rparr>) \<and> at_head pos' b' \<and>
        early_warning pos' = early_warning pos \<and>
        programmable_early_warning pos' = programmable_early_warning pos"
    and locate: "repr b t \<Longrightarrow> partition dest = 0 \<or> partition dest = 1 \<Longrightarrow>
      \<exists>b' pos'. op_locate ops dest b pos = (0, b', pos') \<and>
        repr b' (img_move (partition dest) (unat (block dest)) t) \<and> at_head pos' b' \<and>
        (early_warning pos' \<longrightarrow>
          early_warning pos \<or> warned (img_move (partition dest) (unat (block dest)) t)) \<and>
        (programmable_early_warning pos' \<longrightarrow> programmable_early_warning pos \<or>
          p_warned (img_move (partition dest) (unat (block dest)) t))"
    and allow_overwrite: "repr b t \<Longrightarrow> at_head pos b \<Longrightarrow>
      \<exists>b'. op_allow_overwrite ops dest b = (0, b') \<and> repr b' t \<and> at_head pos b'"
begin

abbreviation ready :: "'b device_data \<Rightarrow> tape_image \<Rightarrow> bool" where
  "ready \<equiv> mounted ops repr at_head"

lemma ready_position:
  assumes "ready dev t"
  shows "partition (position dev) = head_part t" "unat (block (position dev)) = head_block t"
    "block (position dev) = of_nat (head_block t)"
    "head_part t = 0 \<or> head_part t = 1" "head_block t \<le> length (head_items t)"
    "length (head_items t) < 2 ^ 64 - 1"
proof -
  obtain b where b: "repr b t" "at_head (position dev) b"
    using assms by (auto simp: mounted_def)
  show "head_part t = 0 \<or> head_part t = 1" "head_block t \<le> length (head_items t)"
    using head_bounds [OF b(1)] by simp_all
  then show "length (head_items t) < 2 ^ 64 - 1" using tape_bound [OF b(1)] by simp
  then show "partition (position dev) = head_part t" "block (position dev) = of_nat (head_block t)"
    "unat (block (position dev)) = head_block t"
    using head_position [OF b] head_bounds [OF b(1)] by (simp_all add: unat_of_nat)
qed

lemma seek_ready:
  assumes dev: "ready dev t" "calm dev" and p: "p = 0 \<or> p = 1" and n: "n \<le> length (items t p)"
    and room: "has_room t p n"
    and blk: "blk = of_nat n \<or> n = length (items t p) \<and> blk = TAPE_BLOCK_MAX"
  obtains dev' where "tape_seek (seek_to p blk) dev = (0, dev')" "ready dev' (img_at p n t)"
    "calm dev'" "same_flags dev dev'" "append_pos dev' = append_pos dev"
proof -
  obtain b where b: "backend dev = Some (ops, b)" "repr b t" "at_head (position dev) b"
    using dev(1) by (auto simp: mounted_def)
  have bound: "length (items t p) < 2 ^ 64 - 1" by (rule tape_bound [OF b(2) p])
  have max: "unat TAPE_BLOCK_MAX = 2 ^ 64 - 1" by simp
  have blk_n: "min (unat blk) (length (items t p)) = n"
    using blk n bound max by (auto simp: unat_of_nat)
  show thesis
  proof (cases "p = partition (position dev) \<and> blk = block (position dev)")
    case True
    then have here: "p = head_part t" "unat blk = head_block t"
      using ready_position [OF dev(1)] by auto
    then have "n = head_block t" using blk_n ready_position(5) [OF dev(1)] by simp
    then have "img_at p n t = t" using here by simp
    moreover have "tape_seek (seek_to p blk) dev = (0, dev)"
      using b(1) True by (simp add: tape_seek_def)
    ultimately show thesis using dev by (intro that [of dev]) simp_all
  next
    case False
    obtain b' pos' where loc: "op_locate ops (seek_to p blk) b (position dev) = (0, b', pos')"
      "repr b' (img_at p n t)" "at_head pos' b'"
      "early_warning pos' \<longrightarrow> early_warning (position dev) \<or> warned (img_at p n t)"
      "programmable_early_warning pos' \<longrightarrow>
         programmable_early_warning (position dev) \<or> p_warned (img_at p n t)"
      using locate [OF b(2), of "seek_to p blk" "position dev"] p blk_n by (auto simp: img_move_def)
    define dev' where "dev' = dev\<lparr>backend := Some (ops, b'), position := pos'\<rparr>"
    have ready': "ready dev' (img_at p n t)" using loc by (simp add: mounted_def dev'_def)
    have calm': "calm dev'"
      using loc(4,5) dev(2) room by (auto simp: calm_def has_room_def dev'_def)
    then have "note_warnings dev' = dev'" by (simp add: note_warnings_def calm_def)
    moreover have "on_drive (- LTFS_NULL_ARG) (\<lambda>ops. op_locate ops (seek_to p blk)) dev = (0, dev')"
      using b(1) loc(1) by (simp add: on_drive_def dev'_def)
    moreover have "blk \<noteq> TAPE_BLOCK_MAX \<Longrightarrow> block (position dev') = blk"
      using blk ready_position(3) [OF ready'] by auto
    ultimately have "tape_seek (seek_to p blk) dev = (0, dev')"
      using b(1) False ready_position(1) [OF ready'] by (auto simp: tape_seek_def)
    then show thesis
      using ready' calm' by (intro that [of dev']) (simp_all add: same_flags_def dev'_def)
  qed
qed

lemma write_ready:
  assumes dev: "ready dev t" "calm dev" "writable dev (head_part t)"
    and buf: "buf \<noteq> []" "length buf \<le> block_limit t" "length buf \<le> unat (dev_max_block_size dev)"
    and room: "has_room t (head_part t) (Suc (head_block t))" "Suc (head_block t) < 2 ^ 64 - 1"
  obtains dev' where "tape_write buf ip il ins dev = (int (length buf), dev')"
    "ready dev' (img_append (Data buf) t)" "calm dev'" "same_flags dev dev'"
    "append_pos dev' = (append_pos dev)(head_part t := of_nat (Suc (head_block t)))"
proof -
  let ?t = "img_append (Data buf) t"
  obtain b where b: "backend dev = Some (ops, b)" "repr b t" "at_head (position dev) b"
    using dev(1) by (auto simp: mounted_def)
  obtain b' pos' where w: "op_write ops buf b (position dev) = (int (length buf), b', pos')"
    "repr b' ?t" "at_head pos' b'"
    "early_warning pos' \<longleftrightarrow> early_warning (position dev) \<or> warned ?t"
    "programmable_early_warning pos' \<longrightarrow> programmable_early_warning (position dev) \<or> p_warned ?t"
    using write_block [OF b(2,3) buf(1,2) room(2)] by auto
  define dev1 where "dev1 = dev\<lparr>backend := Some (ops, b'), position := pos'\<rparr>"
  have ready1: "ready dev1 ?t" using w by (simp add: mounted_def dev1_def)
  have img: "head_part ?t = head_part t" "head_block ?t = Suc (head_block t)" "zone ?t = zone t"
    "p_zone ?t = p_zone t" by (simp_all add: img_append_def)
  have calm1: "calm dev1"
    using w(4,5) dev(2) room(1) by (auto simp: calm_def has_room_def dev1_def img)
  define dev' where "dev' = dev1\<lparr>append_pos :=
      (append_pos dev)(head_part t := of_nat (Suc (head_block t)))\<rparr>"
  have "tape_write buf ip il ins dev = (int (length buf), dev')"
    using b(1) dev(3) buf calm1 w(1) ready_position [OF dev(1)] ready_position [OF ready1]
    by (simp add: tape_write_def writable_cases on_drive_def dev1_def dev'_def calm_def img)
  then show thesis
    using ready1 calm1
    by (intro that [of dev']) (simp_all add: same_flags_def dev'_def dev1_def mounted_def calm_def)
qed

lemma read_ready:
  assumes dev: "ready dev t" and inside: "head_block t < length (head_items t)"
  obtains dev' d where "tape_read n kmi dev = (int (length d), d, dev')"
    "d = (case head_items t ! head_block t of Data d \<Rightarrow> take n d | Filemark \<Rightarrow> [])"
    "ready dev' (t\<lparr>head_block := Suc (head_block t)\<rparr>)" "calm dev' = calm dev"
    "same_flags dev dev'" "append_pos dev' = append_pos dev"
proof -
  obtain b where b: "backend dev = Some (ops, b)" "repr b t" "at_head (position dev) b"
    using dev by (auto simp: mounted_def)
  obtain b' pos' d where r: "op_read ops n b (position dev) = (int (length d), d, b', pos')"
    "d = (case head_items t ! head_block t of Data d \<Rightarrow> take n d | Filemark \<Rightarrow> [])"
    "repr b' (t\<lparr>head_block := Suc (head_block t)\<rparr>)" "at_head pos' b'"
    "early_warning pos' = early_warning (position dev)"
    "programmable_early_warning pos' = programmable_early_warning (position dev)"
    using read_item [OF b(2,3) inside] by blast
  define dev' where "dev' = dev\<lparr>backend := Some (ops, b'), position := pos'\<rparr>"
  have once: "read_once n dev = (int (length d), d, dev')"
    using b(1) r(1) by (simp add: read_once_def dev'_def)
  have "tape_read n kmi dev = (int (length d), d, dev')"
    using once by (cases kmi) (simp_all add: tape_read_def)
  then show thesis
    using r by (intro that [of d dev']) (simp_all add: mounted_def calm_def same_flags_def dev'_def)
qed

text \<open>
  Where \<open>tape_seek_append_position\<close> goes: the recorded position, or the end of the data if none
  is recorded.
\<close>

lemma seek_append_ready:
  assumes dev: "ready dev t" "calm dev" and p: "p = 0 \<or> p = 1"
    and n: "n = (if append_pos dev p = 0 then length (items t p) else unat (append_pos dev p))"
    and inside: "n \<le> length (items t p)" and room: "has_room t p n"
  obtains dev' where "tape_seek_append_position p unlock_write dev = (0, dev')"
    "ready dev' (img_at p n t)" "calm dev'" "same_flags dev dev'"
    "append_pos dev' = (append_pos dev)(p := of_nat n)"
proof -
  let ?blk = "if append_pos dev p = 0 then TAPE_BLOCK_MAX else append_pos dev p"
  have blk: "?blk = of_nat n \<or> n = length (items t p) \<and> ?blk = TAPE_BLOCK_MAX"
    using n by (auto simp: of_nat_unat_u64 simp del: of_nat_unat)
  obtain dev1 where dev1: "tape_seek (seek_to p ?blk) dev = (0, dev1)" "ready dev1 (img_at p n t)"
    "calm dev1" "same_flags dev dev1" "append_pos dev1 = append_pos dev"
    by (rule seek_ready [OF dev p inside room blk]) simp
  obtain b where b: "backend dev1 = Some (ops, b)" "repr b (img_at p n t)" "at_head (position dev1) b"
    using dev1(2) by (auto simp: mounted_def)
  obtain b' where b': "op_allow_overwrite ops (position dev1) b = (0, b')"
    "repr b' (img_at p n t)" "at_head (position dev1) b'"
    using allow_overwrite [OF b(2,3)] by blast
  define dev2 where "dev2 = (if unlock_write \<and> append_only_mode dev1 \<and> ?blk \<noteq> TAPE_BLOCK_MAX
      then dev1\<lparr>backend := Some (ops, b')\<rparr> else dev1)"
  have ready2: "ready dev2 (img_at p n t)" using b' dev1(2) by (simp add: dev2_def mounted_def)
  have same: "position dev2 = position dev1" "append_pos dev2 = append_pos dev"
    "same_flags dev1 dev2" using dev1(5) by (simp_all add: dev2_def same_flags_def)
  have pos: "block (position dev1) = of_nat n"
    using ready_position(3) [OF dev1(2)] by simp
  define dev' where "dev' = dev2\<lparr>append_pos := (append_pos dev)(p := of_nat n)\<rparr>"
  have keep: "(append_pos dev)(p := of_nat n) = append_pos dev" if "append_pos dev p \<noteq> 0"
    using that n by (auto simp: of_nat_unat_u64 simp del: of_nat_unat)
  have "tape_seek_append_position p unlock_write dev = (0, dev')"
    using dev1(1) b(1) b'(1) same pos keep dev1(5)
    by (auto simp: tape_seek_append_position_def Let_def on_backend_def dev2_def dev'_def)
  then show thesis
    using ready2 same dev1(3) same_flags_trans [OF dev1(4) same(3)]
    by (intro that [of dev']) (simp_all add: dev'_def mounted_def calm_def same_flags_def)
qed

lemma write_filemark_ready:
  assumes dev: "ready dev t" "calm dev" "writable dev (head_part t)" and n: "0 < n"
    and room: "has_room t (head_part t) (head_block t + unat n)" "head_block t + unat n < 2 ^ 64 - 1"
  obtains dev' where "tape_write_filemark n il ins dev = (0, dev')"
    "ready dev' ((img_append Filemark ^^ unat n) t)" "calm dev'" "same_flags dev dev'"
    "append_pos dev' = (append_pos dev)(head_part t := of_nat (head_block t + unat n))"
proof -
  let ?t = "(img_append Filemark ^^ unat n) t"
  obtain b where b: "backend dev = Some (ops, b)" "repr b t" "at_head (position dev) b"
    using dev(1) by (auto simp: mounted_def)
  have n0: "0 < unat n" using n by (simp add: word_less_nat_alt)
  obtain b' pos' where w: "op_writefm ops (unat n) b (position dev) = (0, b', pos')"
    "repr b' ?t" "at_head pos' b'"
    "early_warning pos' \<longleftrightarrow> early_warning (position dev) \<or> warned ?t"
    "programmable_early_warning pos' \<longrightarrow> programmable_early_warning (position dev) \<or> p_warned ?t"
    using write_marks [OF b(2,3) n0 room(2)] by auto
  define dev1 where "dev1 = dev\<lparr>backend := Some (ops, b'), position := pos'\<rparr>"
  have ready1: "ready dev1 ?t" using w by (simp add: mounted_def dev1_def)
  have zones: "zone ((img_append Filemark ^^ k) t) = zone t \<and>
      p_zone ((img_append Filemark ^^ k) t) = p_zone t" for k
    by (induction k) (simp_all add: img_append_def)
  have calm1: "calm dev1"
    using w(4,5) dev(2) room(1) zones [of "unat n"] by (auto simp: calm_def has_room_def dev1_def)
  define dev' where "dev' = dev1\<lparr>append_pos :=
      (append_pos dev)(head_part t := of_nat (head_block t + unat n))\<rparr>"
  have "tape_write_filemark n il ins dev = (0, dev')"
    using b(1) dev(3) calm1 w(1) ready_position [OF dev(1)] ready_position [OF ready1]
    by (simp add: tape_write_filemark_def writable_cases on_drive_def dev1_def dev'_def calm_def)
  then show thesis
    using ready1 calm1
    by (intro that [of dev']) (simp_all add: same_flags_def dev'_def dev1_def mounted_def calm_def)
qed

end


section \<open>A drive with a cartridge memory\<close>

locale tape_drive_memory = tape_drive +
  assumes attribute: "repr b t \<Longrightarrow> at_head pos b \<Longrightarrow> single_attribute buf \<Longrightarrow>
      \<exists>b'. op_write_attribute ops p buf b = (0, b') \<and> repr b' t \<and> at_head pos b' \<and>
        (\<forall>n. op_read_attribute ops p (attribute_id buf) n b' = (0, take n buf, b'))"
begin

lemma attr_ready:
  assumes dev: "ready dev t" and buf: "single_attribute buf"
  obtains dev' where "attr_write p buf dev = (0, dev')" "ready dev' t" "same_flags dev dev'"
    "append_pos dev' = append_pos dev" "position dev' = position dev"
    "\<And>n. attr_read p (attribute_id buf) n dev' = (0, take n buf, dev')"
proof -
  obtain b where b: "backend dev = Some (ops, b)" "repr b t" "at_head (position dev) b"
    using dev by (auto simp: mounted_def)
  obtain b' where b': "op_write_attribute ops p buf b = (0, b')" "repr b' t"
    "at_head (position dev) b'" "\<And>n. op_read_attribute ops p (attribute_id buf) n b' = (0, take n buf, b')"
    using attribute [OF b(2,3) buf] by blast
  define dev' where "dev' = dev\<lparr>backend := Some (ops, b')\<rparr>"
  have "attr_write p buf dev = (0, dev')" using b(1) b'(1) by (simp add: attr_write_def on_backend_def dev'_def)
  then show thesis
    using b' by (intro that [of dev']) (simp_all add: mounted_def same_flags_def dev'_def attr_read_def)
qed

lemma coherency_ready:
  assumes dev: "ready dev t" and len: "length (uuid coh) = 37"
  obtains dev' where "tape_set_cart_coherency p coh dev = (0, dev')"
    "tape_get_cart_coherency p dev' = (0, Some coh, dev')" "ready dev' t" "same_flags dev dev'"
    "append_pos dev' = append_pos dev" "position dev' = position dev"
proof -
  let ?pg = "coherency_page coh"
  have head: "?pg ! 0 = 8" "?pg ! 1 = 0x0C" "?pg ! 3 = 0" "?pg ! 4 = 0x46" "?pg ! 5 = 8"
    by (simp_all add: coherency_page_head)
  have length: "length ?pg = 75" by (rule coherency_page_length [OF len])
  have attr: "attribute_id ?pg = TC_MAM_PAGE_COHERENCY"
    using head by (simp add: attribute_id_def ltfs_betou16_def)
  have single: "single_attribute ?pg"
    using head length by (simp add: single_attribute_def ltfs_betou16_def)
  obtain dev' where dev': "attr_write p ?pg dev = (0, dev')" "ready dev' t" "same_flags dev dev'"
    "append_pos dev' = append_pos dev" "position dev' = position dev"
    "\<And>n. attr_read p (attribute_id ?pg) n dev' = (0, take n ?pg, dev')"
    by (rule attr_ready [OF dev single]) blast
  have pad: "padded 75 ?pg i = ?pg ! i" if "i < 75" for i
    using that length by (simp add: padded_def)
  have pad64: "ltfs_betou64 (\<lambda>i. padded 75 ?pg (k + i)) = ltfs_betou64 (\<lambda>i. ?pg ! (k + i))" if "k < 68" for k
    using that pad by (intro betou64_cong) simp
  have seg: "buf_from (padded 75 ?pg) k n = map (\<lambda>i. ?pg ! i) [k..<k + n]" if "k + n \<le> 75" for k n
    using that pad by (simp add: buf_from_def)
  note fields = coherency_page_fields [OF len]
  have "tape_get_cart_coherency p dev' = (0, Some coh, dev')"
    using dev'(6) [of 75] length attr head fields seg [of 32 5] seg [of 37 37]
    by (simp add: tape_get_cart_coherency_def pad pad64 ltfs_betou16_def)
  then show thesis
    using dev' by (intro that [of dev']) (simp_all add: tape_set_cart_coherency_def)
qed

lemma ewstate_ready:
  assumes dev: "ready dev t" and w: "0 \<le> w" "w < 256"
  obtains dev' where "tape_set_ewstate w dev = (0, dev')" "tape_get_ewstate dev' = (w, dev')"
    "ready dev' t" "same_flags dev dev'"
proof -
  let ?pg = "[0x15, 0x00, 0, 0, 4, 0x48, 0x50, 0x45, of_int w] :: u8 list"
  have attr: "attribute_id ?pg = TC_MAM_PAGE_EWSTATE" by (simp add: attribute_id_def ltfs_betou16_def)
  have single: "single_attribute ?pg" by (simp add: single_attribute_def ltfs_betou16_def)
  obtain dev' where dev': "attr_write 0 ?pg dev = (0, dev')" "ready dev' t" "same_flags dev dev'"
    "\<And>n. attr_read 0 (attribute_id ?pg) n dev' = (0, take n ?pg, dev')"
    by (rule attr_ready [OF dev single]) blast
  have "uint (of_int w :: u8) = w" using w by (simp add: uint_word_of_int_eq take_bit_int_eq_self)
  then have "tape_get_ewstate dev' = (w, dev')"
    using dev'(4) [of 9] attr by (simp add: tape_get_ewstate_def padded_def)
  then show thesis
    using dev' by (intro that [of dev']) (simp_all add: tape_set_ewstate_def)
qed

end

section \<open>A drive that can space back over a filemark\<close>

locale tape_drive_marks = tape_drive +
  assumes space_back: "repr b t \<Longrightarrow> at_head pos b \<Longrightarrow> 0 < head_block t \<Longrightarrow>
      head_items t ! (head_block t - 1) = Filemark \<Longrightarrow>
      \<exists>b' pos'. op_space ops 1 TC_SPACE_FM_B b pos = (0, b', pos') \<and>
        repr b' (t\<lparr>head_block := head_block t - 1\<rparr>) \<and> at_head pos' b'"
begin

lemma space_back_ready:
  assumes "ready dev t" "0 < head_block t" "head_items t ! (head_block t - 1) = Filemark"
  obtains dev' where "tape_spacefm (- 1) dev = (0, dev')"
    "ready dev' (t\<lparr>head_block := head_block t - 1\<rparr>)"
proof -
  obtain b where b: "backend dev = Some (ops, b)" "repr b t" "at_head (position dev) b"
    using assms(1) by (auto simp: mounted_def)
  obtain b' pos' where "op_space ops 1 TC_SPACE_FM_B b (position dev) = (0, b', pos')"
    "repr b' (t\<lparr>head_block := head_block t - 1\<rparr>)" "at_head pos' b'"
    using space_back [OF b(2,3) assms(2,3)] by blast
  then show thesis
    using b(1) by (intro that [of "dev\<lparr>backend := Some (ops, b'), position := pos'\<rparr>"])
      (simp_all add: tape_spacefm_def on_drive_def mounted_def)
qed

end

end
