(* ===== verification/IndexStream.thy ===== *)
theory IndexStream imports TapeDrive begin

text \<open>
  The index as a stream of bytes: the callbacks through which libxml2 writes an index document to
  the tape (\<open>src/ltfs/src/libltfs/xml_writer.c\<close>) and reads one from it
  (\<open>src/ltfs/src/libltfs/xml_reader.c\<close>), with their contexts of
  \<open>src/ltfs/src/libltfs/xml.h\<close>.

  A buffer of a context is the list of its valid bytes: \<open>out_buf\<close> is the first \<open>buf_used\<close> bytes of
  the output buffer, \<open>in_buf\<close> the \<open>buf_used\<close> bytes of the input buffer from \<open>buf_start\<close> on. A loop
  that need not end (with a buffer of size 0) returns \<open>None\<close> then.
\<close>

section \<open>Output\<close>

record xml_output_tape =
  out_size :: u32
  out_buf :: "u8 list"
  out_index_part :: bool

text \<open>
  The loop of the write callback: fill the buffer, write it, go on while more than one buffer is
  left. The result has the bytes left in the buffer.
\<close>

partial_function (option) flush_blocks ::
    "u32 \<Rightarrow> bool \<Rightarrow> u8 list \<Rightarrow> u8 list \<Rightarrow> 'b device_data \<Rightarrow> (int \<times> u8 list \<times> 'b device_data) option" where
  "flush_blocks bsize is_index_part buf rest dev =
     (let copy_count = unat (bsize - of_nat (length buf))
      in case tape_write (buf @ take copy_count rest) is_index_part True True dev of (ret, dev) \<Rightarrow>
        if ret < 0 then Some (- 1, buf, dev)
        else
          let rest = drop copy_count rest
          in if unat bsize < length rest then flush_blocks bsize is_index_part [] rest dev
             else Some (0, rest, dev))"

definition xml_output_tape_write_callback ::
    "xml_output_tape \<Rightarrow> u8 list \<Rightarrow> 'b device_data \<Rightarrow> (int \<times> xml_output_tape \<times> 'b device_data) option" where
  "xml_output_tape_write_callback ctx buffer dev =
     (if buffer = [] then Some (0, ctx, dev)
      else if of_nat (length (out_buf ctx)) + of_nat (length buffer) < out_size ctx
      then Some (int (length buffer), ctx\<lparr>out_buf := out_buf ctx @ buffer\<rparr>, dev)
      else
        map_option (\<lambda>(ret, buf, dev).
            (if ret < 0 then - 1 else int (length buffer), ctx\<lparr>out_buf := buf\<rparr>, dev))
          (flush_blocks (out_size ctx) (out_index_part ctx) (out_buf ctx) buffer dev))"

definition xml_output_tape_close_callback ::
    "xml_output_tape \<Rightarrow> 'b device_data \<Rightarrow> int \<times> 'b device_data" where
  "xml_output_tape_close_callback ctx dev =
     (if out_buf ctx \<noteq> [] then
        (case tape_write (out_buf ctx) (out_index_part ctx) True True dev of
           (ret, dev) \<Rightarrow> (if ret < 0 then - 1 else 0, dev))
      else (0, dev))"

text \<open>
  What libxml2 does with the callback: it hands over the document in pieces and stops at the
  first failure.
\<close>

fun write_pieces ::
    "u8 list list \<Rightarrow> xml_output_tape \<Rightarrow> 'b device_data \<Rightarrow> (bool \<times> xml_output_tape \<times> 'b device_data) option"
where
  "write_pieces [] ctx dev = Some (True, ctx, dev)"
| "write_pieces (piece # pieces) ctx dev =
     (case xml_output_tape_write_callback ctx piece dev of
        None \<Rightarrow> None
      | Some (ret, ctx, dev) \<Rightarrow>
          if ret < 0 then Some (False, ctx, dev) else write_pieces pieces ctx dev)"

section \<open>Input\<close>

record xml_input_tape =
  current_pos :: u64
  eod_pos :: u64
  saw_small_block :: bool
  saw_file_mark :: bool
  in_size :: u32
  in_buf :: "u8 list"
  in_blocksize :: u32
  in_kmi :: kmi

text \<open>
  After a short block: a filemark is passed back over, behind a record a filemark is looked for.
  \<open>mem\<close> says whether the buffer for that can be allocated. The second component of the result
  is false when the callback fails.
\<close>

definition step_back ::
    "xml_input_tape \<Rightarrow> 'b device_data \<Rightarrow> bool \<times> xml_input_tape \<times> 'b device_data" where
  "step_back ctx dev =
     (case tape_spacefm (- 1) dev of (ret, dev) \<Rightarrow> (0 \<le> ret, ctx\<lparr>saw_file_mark := True\<rparr>, dev))"

definition note_small_block ::
    "bool \<Rightarrow> int \<Rightarrow> xml_input_tape \<Rightarrow> 'b device_data \<Rightarrow> bool \<times> xml_input_tape \<times> 'b device_data" where
  "note_small_block mem nread ctx dev =
     (let ctx = ctx\<lparr>saw_small_block := True\<rparr>
      in if nread = 0 then step_back ctx dev
         else if eod_pos ctx = 0 \<or> 0 < eod_pos ctx \<and> current_pos ctx < eod_pos ctx then
           (if \<not> mem then (False, ctx, dev)
            else case tape_read (unat (in_blocksize ctx)) (in_kmi ctx) dev of (nr2, _, dev) \<Rightarrow>
              if nr2 < 0 then (False, ctx, dev)
              else if nr2 = 0 then step_back ctx dev
              else (True, ctx, dev))
         else (True, ctx, dev))"

text \<open>The loop of the read callback: \<open>saved\<close> is what is in the caller's buffer already.\<close>

partial_function (option) read_blocks ::
    "bool \<Rightarrow> u8 list \<Rightarrow> nat \<Rightarrow> xml_input_tape \<Rightarrow> 'b device_data \<Rightarrow>
     (int \<times> u8 list \<times> xml_input_tape \<times> 'b device_data) option" where
  "read_blocks mem saved remaining ctx dev =
     (if remaining = 0 \<or> 0 < eod_pos ctx \<and> current_pos ctx = eod_pos ctx \<or> saw_small_block ctx
      then Some (int (length saved), saved, ctx, dev)
      else case tape_read (unat (in_size ctx)) (in_kmi ctx) dev of (nread, buf, dev) \<Rightarrow>
        let ctx = ctx\<lparr>current_pos := current_pos ctx + 1\<rparr>
        in if nread < 0 then Some (- 1, [], ctx, dev)
           else case (if nread < uint (in_size ctx) then note_small_block mem nread ctx dev
                      else (True, ctx, dev)) of
             (ok, ctx, dev) \<Rightarrow>
               if \<not> ok then Some (- 1, [], ctx, dev)
               else if nread < int remaining
               then read_blocks mem (saved @ buf) (remaining - nat nread) ctx dev
               else Some (int (length saved + remaining), saved @ take remaining buf,
                          ctx\<lparr>in_buf := drop remaining buf\<rparr>, dev))"

definition xml_input_tape_read_callback ::
    "bool \<Rightarrow> xml_input_tape \<Rightarrow> nat \<Rightarrow> 'b device_data \<Rightarrow>
     (int \<times> u8 list \<times> xml_input_tape \<times> 'b device_data) option" where
  "xml_input_tape_read_callback mem ctx len dev =
     (if len = 0 then Some (0, [], ctx, dev)
      else if len \<le> length (in_buf ctx)
      then Some (int len, take len (in_buf ctx), ctx\<lparr>in_buf := drop len (in_buf ctx)\<rparr>, dev)
      else read_blocks mem (in_buf ctx) (len - length (in_buf ctx)) (ctx\<lparr>in_buf := []\<rparr>) dev)"

text \<open>What libxml2 does with the callback: it asks for pieces of the sizes \<open>lens\<close>.\<close>

fun read_pieces ::
    "bool \<Rightarrow> nat list \<Rightarrow> xml_input_tape \<Rightarrow> 'b device_data \<Rightarrow>
     (u8 list \<times> xml_input_tape \<times> 'b device_data) option" where
  "read_pieces mem [] ctx dev = Some ([], ctx, dev)"
| "read_pieces mem (len # lens) ctx dev =
     (case xml_input_tape_read_callback mem ctx len dev of
        None \<Rightarrow> None
      | Some (ret, bytes, ctx, dev) \<Rightarrow>
          if ret < 0 then None
          else map_option (\<lambda>(more, rest). (bytes @ more, rest)) (read_pieces mem lens ctx dev))"


section \<open>Appending blocks\<close>

text \<open>A document on the tape: every block is full, except that the last may be short, and none is empty.\<close>

definition full_blocks :: "nat \<Rightarrow> u8 list list \<Rightarrow> bool" where
  "full_blocks n bs \<longleftrightarrow>
     (\<forall>b \<in> set bs. b \<noteq> [] \<and> length b \<le> n) \<and> (\<forall>b \<in> set (butlast bs). length b = n)"

lemma full_blocks_simps [simp]:
  "full_blocks n []"
  "full_blocks n (b # bs) \<longleftrightarrow> b \<noteq> [] \<and> length b \<le> n \<and> (bs = [] \<or> length b = n \<and> full_blocks n bs)"
  by (auto simp: full_blocks_def)

lemma full_blocks_append:
  "\<forall>b \<in> set bs. length b = n \<Longrightarrow> 0 < n \<Longrightarrow> length b \<le> n \<Longrightarrow>
     full_blocks n (bs @ (if b = [] then [] else [b]))"
  by (induction bs) auto

abbreviation img_blocks :: "u8 list list \<Rightarrow> tape_image \<Rightarrow> tape_image" where
  "img_blocks bs t \<equiv> fold (\<lambda>b. img_append (Data b)) bs t"

lemma img_blocks_fields [simp]:
  "head_part (img_blocks bs t) = head_part t" "head_block (img_blocks bs t) = head_block t + length bs"
  "block_limit (img_blocks bs t) = block_limit t" "zone (img_blocks bs t) = zone t"
  "p_zone (img_blocks bs t) = p_zone t"
  by (induction bs arbitrary: t) (simp_all add: img_append_def)

lemma has_room_blocks [simp]: "has_room (img_blocks bs t) p n = has_room t p n"
  by (simp add: has_room_def)

lemma img_blocks_items:
  "head_block t \<le> length (head_items t) \<Longrightarrow>
   items (img_blocks bs t) p =
     (if p = head_part t \<and> bs \<noteq> [] then take (head_block t) (head_items t) @ map Data bs
      else items t p)"
  by (induction bs arbitrary: t) (auto simp: img_append_def)

context tape_drive
begin

lemma flush_blocks_ready:
  assumes "ready dev t" "calm dev" "writable dev (head_part t)"
    and "0 < unat n" "unat n \<le> block_limit t" "unat n \<le> unat (dev_max_block_size dev)"
    and "length buf \<le> unat n" "unat n \<le> length buf + length rest"
    and "has_room t (head_part t) (head_block t + (length buf + length rest) div unat n)"
    and "head_block t + (length buf + length rest) div unat n < 2 ^ 64 - 1"
  shows "\<exists>ws rest' dev'. flush_blocks n ip buf rest dev = Some (0, rest', dev') \<and>
    concat ws @ rest' = buf @ rest \<and> (\<forall>w \<in> set ws. length w = unat n) \<and> length rest' \<le> unat n \<and>
    ready dev' (img_blocks ws t) \<and> calm dev' \<and> same_elsewhere (head_part t) dev dev'"
  using assms
proof (induction "length buf + length rest" arbitrary: buf rest dev t rule: less_induct)
  case less
  let ?k = "unat (n - of_nat (length buf))"
  let ?b = "buf @ take ?k rest" and ?r = "drop ?k rest"
  have "(of_nat (length buf) :: u32) \<le> n"
    using less.prems(7) by (simp add: word_le_nat_alt unat_of_nat le_less_trans [OF mod_less_eq_dividend])
  moreover have "unat (of_nat (length buf) :: u32) = length buf"
    using less.prems(7) u32_less_bound [of n] by (simp add: unat_of_nat)
  ultimately have k: "?k = unat n - length buf" by (simp add: unat_sub)
  have b: "length ?b = unat n" using less.prems(7,8) by (simp add: k)
  have total: "length ?r + unat n = length buf + length rest" using less.prems(7,8) by (simp add: k)
  then have div: "(length buf + length rest) div unat n = Suc (length ?r div unat n)"
    using less.prems(4) by (metis div_add_self2 plus_1_eq_Suc add.commute less_not_refl2)
  obtain dev1 where w: "tape_write ?b ip True True dev = (int (length ?b), dev1)"
    "ready dev1 (img_append (Data ?b) t)" "calm dev1" "same_flags dev dev1"
    "append_pos dev1 = (append_pos dev)(head_part t := of_nat (Suc (head_block t)))"
    by (rule write_ready [OF less.prems(1-3), of ?b ip True True])
       (use less.prems b div has_room_mono [OF _ less.prems(9), of "Suc (head_block t)"] in auto)
  have w1: "tape_write ?b ip True True dev = (int (unat n), dev1)" using w(1) by (simp only: b)
  have w4: "same_elsewhere (head_part t) dev dev1" by (rule same_elsewhere_update [OF w(4,5)])
  show ?case
  proof (cases "unat n < length ?r")
    case False
    then show ?thesis
      using w(2,3) w1 w4 b by (intro exI [of _ "[?b]"] exI [of _ ?r] exI [of _ dev1])
        (simp add: flush_blocks.simps [of n ip buf] Let_def)
  next
    case True
    let ?t1 = "img_append (Data ?b) t"
    have t1: "head_part ?t1 = head_part t" "head_block ?t1 = Suc (head_block t)"
      "block_limit ?t1 = block_limit t" "has_room ?t1 p m = has_room t p m" for p m
      by (simp_all add: img_append_def has_room_def)
    have "writable dev1 (head_part ?t1)" "dev_max_block_size dev1 = dev_max_block_size dev"
      using w(4) less.prems(3) same_flags_writable [OF w(4)] t1 by (simp_all add: same_flags_def)
    then have "\<exists>ws rest' dev'. flush_blocks n ip [] ?r dev1 = Some (0, rest', dev') \<and>
      concat ws @ rest' = [] @ ?r \<and> (\<forall>w \<in> set ws. length w = unat n) \<and> length rest' \<le> unat n \<and>
      ready dev' (img_blocks ws ?t1) \<and> calm dev' \<and> same_elsewhere (head_part ?t1) dev1 dev'"
      by (intro less.hyps [of "[]" ?r dev1 ?t1])
         (use less.prems(4-6,9,10) w(2,3) True total div t1 in simp_all)
    then obtain ws rest' dev' where "flush_blocks n ip [] ?r dev1 = Some (0, rest', dev')"
      "concat ws @ rest' = ?r" "\<forall>w \<in> set ws. length w = unat n" "length rest' \<le> unat n"
      "ready dev' (img_blocks ws ?t1)" "calm dev'" "same_elsewhere (head_part t) dev1 dev'"
      using t1(1) by auto
    then show ?thesis
      using w1 b True same_elsewhere_trans [OF w4]
      by (intro exI [of _ "?b # ws"] exI [of _ rest'] exI [of _ dev'])
        (simp add: flush_blocks.simps [of n ip buf] Let_def)
  qed
qed

lemma write_callback_ready:
  assumes "ready dev t" "calm dev" "writable dev (head_part t)"
    and "0 < unat (out_size ctx)" "unat (out_size ctx) \<le> block_limit t"
    and "unat (out_size ctx) \<le> unat (dev_max_block_size dev)"
    and "length (out_buf ctx) \<le> unat (out_size ctx)" "length piece < 2 ^ 31" "unat (out_size ctx) < 2 ^ 31"
    and "has_room t (head_part t)
      (head_block t + (length (out_buf ctx) + length piece) div unat (out_size ctx))"
    and "head_block t + (length (out_buf ctx) + length piece) div unat (out_size ctx) < 2 ^ 64 - 1"
  shows "\<exists>ws rest dev'. xml_output_tape_write_callback ctx piece dev =
      Some (int (length piece), ctx\<lparr>out_buf := rest\<rparr>, dev') \<and>
    concat ws @ rest = out_buf ctx @ piece \<and> (\<forall>w \<in> set ws. length w = unat (out_size ctx)) \<and>
    length rest \<le> unat (out_size ctx) \<and>
    ready dev' (img_blocks ws t) \<and> calm dev' \<and> same_elsewhere (head_part t) dev dev'"
proof -
  let ?l = "length (out_buf ctx) + length piece"
  have fit: "of_nat (length (out_buf ctx)) + of_nat (length piece) < out_size ctx \<longleftrightarrow> ?l < unat (out_size ctx)"
    using assms(7-9) by (simp add: word_less_nat_alt unat_word_ariths unat_of_nat)
  show ?thesis
  proof (cases "piece = [] \<or> ?l < unat (out_size ctx)")
    case True
    then show ?thesis using assms(1,2,7) fit
      by (intro exI [of _ "[]"] exI [of _ "out_buf ctx @ piece"] exI [of _ dev])
        (auto simp: xml_output_tape_write_callback_def)
  next
    case False
    then have "unat (out_size ctx) \<le> ?l" by simp
    from flush_blocks_ready [OF assms(1-7) this assms(10,11), of "out_index_part ctx"]
    obtain ws rest dev' where "flush_blocks (out_size ctx) (out_index_part ctx) (out_buf ctx) piece dev =
        Some (0, rest, dev')" "concat ws @ rest = out_buf ctx @ piece"
      "\<forall>w \<in> set ws. length w = unat (out_size ctx)" "length rest \<le> unat (out_size ctx)"
      "ready dev' (img_blocks ws t)" "calm dev'" "same_elsewhere (head_part t) dev dev'" by blast
    then show ?thesis using False fit
      by (intro exI [of _ ws] exI [of _ rest] exI [of _ dev'])
        (simp add: xml_output_tape_write_callback_def)
  qed
qed

lemma write_pieces_ready:
  assumes "ready dev t" "calm dev" "writable dev (head_part t)"
    and "0 < unat (out_size ctx)" "unat (out_size ctx) \<le> block_limit t"
    and "unat (out_size ctx) \<le> unat (dev_max_block_size dev)" "unat (out_size ctx) < 2 ^ 31"
    and "length (out_buf ctx) \<le> unat (out_size ctx)" "\<forall>piece \<in> set pieces. length piece < 2 ^ 31"
    and "has_room t (head_part t)
      (head_block t + (length (out_buf ctx) + length (concat pieces)) div unat (out_size ctx))"
    and "head_block t + (length (out_buf ctx) + length (concat pieces)) div unat (out_size ctx) < 2 ^ 64 - 1"
  shows "\<exists>ws rest dev'. write_pieces pieces ctx dev = Some (True, ctx\<lparr>out_buf := rest\<rparr>, dev') \<and>
    concat ws @ rest = out_buf ctx @ concat pieces \<and> (\<forall>w \<in> set ws. length w = unat (out_size ctx)) \<and>
    length rest \<le> unat (out_size ctx) \<and>
    ready dev' (img_blocks ws t) \<and> calm dev' \<and> same_elsewhere (head_part t) dev dev'"
  using assms
proof (induction pieces arbitrary: ctx dev t)
  case Nil
  then show ?case by (intro exI [of _ "[]"] exI [of _ "out_buf ctx"] exI [of _ dev]) simp
next
  case (Cons piece pieces)
  let ?n = "unat (out_size ctx)" and ?l = "length (out_buf ctx) + length piece"
  have le: "?l div ?n \<le> (length (out_buf ctx) + length (concat (piece # pieces))) div ?n"
    by (rule div_le_mono) simp
  have "\<exists>ws rest dev'. xml_output_tape_write_callback ctx piece dev =
      Some (int (length piece), ctx\<lparr>out_buf := rest\<rparr>, dev') \<and>
    concat ws @ rest = out_buf ctx @ piece \<and> (\<forall>w \<in> set ws. length w = ?n) \<and>
    length rest \<le> ?n \<and> ready dev' (img_blocks ws t) \<and> calm dev' \<and> same_elsewhere (head_part t) dev dev'"
    by (rule write_callback_ready [OF Cons.prems(1-6,8)])
       (use Cons.prems(7,9,11) le has_room_mono [OF _ Cons.prems(10), of "head_block t + ?l div ?n"]
        in simp_all)
  then obtain ws rest dev1 where 1: "xml_output_tape_write_callback ctx piece dev =
      Some (int (length piece), ctx\<lparr>out_buf := rest\<rparr>, dev1)"
    "concat ws @ rest = out_buf ctx @ piece" "\<forall>w \<in> set ws. length w = ?n" "length rest \<le> ?n"
    "ready dev1 (img_blocks ws t)" "calm dev1" "same_elsewhere (head_part t) dev dev1" by blast
  have "length (concat ws) = ?n * length ws"
    using 1(3) by (induction ws) (simp_all add: algebra_simps)
  then have len: "?n * length ws + length rest = ?l"
    using arg_cong [OF 1(2), of length] by simp
  then have "length (out_buf ctx) + length (concat (piece # pieces)) =
      length rest + length (concat pieces) + length ws * ?n"
    by (simp add: mult.commute)
  then have "(length (out_buf ctx) + length (concat (piece # pieces))) div ?n =
      length ws + (length rest + length (concat pieces)) div ?n"
    using Cons.prems(4) by (simp only: div_mult_self1 [of ?n])
  note bound = this
  have dev1: "writable dev1 (head_part t)" "dev_max_block_size dev1 = dev_max_block_size dev"
    using 1(7) Cons.prems(3) same_flags_writable [OF same_elsewhere_flags [OF 1(7)]]
    by (simp_all add: same_elsewhere_def same_flags_def)
  have "\<exists>ws' rest' dev'. write_pieces pieces (ctx\<lparr>out_buf := rest\<rparr>) dev1 =
      Some (True, ctx\<lparr>out_buf := rest, out_buf := rest'\<rparr>, dev') \<and>
    concat ws' @ rest' = out_buf (ctx\<lparr>out_buf := rest\<rparr>) @ concat pieces \<and>
    (\<forall>w \<in> set ws'. length w = unat (out_size (ctx\<lparr>out_buf := rest\<rparr>))) \<and>
    length rest' \<le> unat (out_size (ctx\<lparr>out_buf := rest\<rparr>)) \<and>
    ready dev' (img_blocks ws' (img_blocks ws t)) \<and> calm dev' \<and>
    same_elsewhere (head_part (img_blocks ws t)) dev1 dev'"
    by (rule Cons.IH) (use 1(4-6) Cons.prems(4-7,9-11) dev1 bound in \<open>simp_all add: add.assoc\<close>)
  then obtain ws' rest' dev' where 2: "write_pieces pieces (ctx\<lparr>out_buf := rest\<rparr>) dev1 =
      Some (True, ctx\<lparr>out_buf := rest'\<rparr>, dev')"
    "concat ws' @ rest' = rest @ concat pieces" "\<forall>w \<in> set ws'. length w = ?n" "length rest' \<le> ?n"
    "ready dev' (img_blocks ws' (img_blocks ws t))" "calm dev'" "same_elsewhere (head_part t) dev1 dev'"
    by auto
  show ?case
    using 1 2 same_elsewhere_trans [OF 1(7) 2(7)]
    by (intro exI [of _ "ws @ ws'"] exI [of _ rest'] exI [of _ dev']) auto
qed

text \<open>Writing a whole document: all its pieces and the last partial block.\<close>

lemma write_document_ready:
  assumes "ready dev t" "calm dev" "writable dev (head_part t)"
    and "0 < unat (out_size ctx)" "unat (out_size ctx) \<le> block_limit t"
    and "unat (out_size ctx) \<le> unat (dev_max_block_size dev)" "unat (out_size ctx) < 2 ^ 31"
    and "out_buf ctx = []" "\<forall>piece \<in> set pieces. length piece < 2 ^ 31"
    and "has_room t (head_part t) (Suc (head_block t + length (concat pieces) div unat (out_size ctx)))"
    and "Suc (head_block t + length (concat pieces) div unat (out_size ctx)) < 2 ^ 64 - 1"
  shows "\<exists>bs ctx' dev1 dev2. write_pieces pieces ctx dev = Some (True, ctx', dev1) \<and>
    xml_output_tape_close_callback ctx' dev1 = (0, dev2) \<and>
    full_blocks (unat (out_size ctx)) bs \<and> concat bs = concat pieces \<and>
    length bs \<le> Suc (length (concat pieces) div unat (out_size ctx)) \<and>
    ready dev2 (img_blocks bs t) \<and> calm dev2 \<and> same_elsewhere (head_part t) dev dev2"
proof -
  let ?n = "unat (out_size ctx)"
  have room: "has_room t (head_part t) (head_block t + length (concat pieces) div ?n)"
    by (rule has_room_mono [OF _ assms(10)]) simp
  obtain ws rest dev1 where 1: "write_pieces pieces ctx dev = Some (True, ctx\<lparr>out_buf := rest\<rparr>, dev1)"
    "concat ws @ rest = concat pieces" "\<forall>w \<in> set ws. length w = ?n" "length rest \<le> ?n"
    "ready dev1 (img_blocks ws t)" "calm dev1" "same_elsewhere (head_part t) dev dev1"
    using write_pieces_ready [OF assms(1-7) _ assms(9)] room assms(8,11) by auto
  let ?bs = "ws @ (if rest = [] then [] else [rest])"
  have "length (concat ws) = ?n * length ws"
    using 1(3) by (induction ws) (simp_all add: algebra_simps)
  then have "?n * length ws \<le> length (concat pieces)"
    using arg_cong [OF 1(2), of length] by simp
  then have ws: "length ws \<le> length (concat pieces) div ?n"
    using assms(4) by (simp add: less_eq_div_iff_mult_less_eq mult.commute)
  have blocks: "full_blocks ?n ?bs" by (rule full_blocks_append [OF 1(3) assms(4) 1(4)])
  have dev1: "writable dev1 (head_part t)" "dev_max_block_size dev1 = dev_max_block_size dev"
    using 1(7) assms(3) same_flags_writable [OF same_elsewhere_flags [OF 1(7)]]
    by (simp_all add: same_elsewhere_def same_flags_def)
  show ?thesis
  proof (cases "rest = []")
    case True
    then show ?thesis using 1 blocks ws
      by (intro exI [of _ ws] exI [of _ "ctx\<lparr>out_buf := rest\<rparr>"] exI [of _ dev1])
        (simp add: xml_output_tape_close_callback_def)
  next
    case False
    have room1: "has_room t (head_part t) (Suc (head_block t + length ws))"
      by (rule has_room_mono [OF _ assms(10)]) (use ws in simp)
    obtain dev2 where "tape_write rest (out_index_part ctx) True True dev1 = (int (length rest), dev2)"
      "ready dev2 (img_append (Data rest) (img_blocks ws t))" "calm dev2" "same_flags dev1 dev2"
      "append_pos dev2 = (append_pos dev1)(head_part t := of_nat (Suc (head_block (img_blocks ws t))))"
      by (rule write_ready [OF 1(5,6), of rest "out_index_part ctx" True True])
         (use dev1 False 1(4) assms(5,6,11) ws room1 in auto)
    moreover have "same_elsewhere (head_part t) dev1 dev2"
      by (rule same_elsewhere_update) (use calculation in simp_all)
    ultimately show ?thesis using 1 blocks ws False same_elsewhere_trans [OF 1(7)]
      by (intro exI [of _ ?bs] exI [of _ "ctx\<lparr>out_buf := rest\<rparr>"] exI [of _ dev1] exI [of _ dev2])
        (simp add: xml_output_tape_close_callback_def)
  qed
qed

end


section \<open>Reading a document back\<close>

lemma read_blocks_small:
  "saw_small_block ctx \<Longrightarrow> read_blocks mem saved remaining ctx dev = Some (int (length saved), saved, ctx, dev)"
  by (subst read_blocks.simps) simp

lemma read_blocks_step:
  assumes "remaining \<noteq> 0" "\<not> saw_small_block ctx" "\<not> (0 < eod_pos ctx \<and> current_pos ctx = eod_pos ctx)"
  shows "read_blocks mem saved remaining ctx dev =
    (case tape_read (unat (in_size ctx)) (in_kmi ctx) dev of (nread, buf, dev) \<Rightarrow>
        let ctx = ctx\<lparr>current_pos := current_pos ctx + 1\<rparr>
        in if nread < 0 then Some (- 1, [], ctx, dev)
           else case (if nread < uint (in_size ctx) then note_small_block mem nread ctx dev
                      else (True, ctx, dev)) of
             (ok, ctx, dev) \<Rightarrow>
               if \<not> ok then Some (- 1, [], ctx, dev)
               else if nread < int remaining
               then read_blocks mem (saved @ buf) (remaining - nat nread) ctx dev
               else Some (int (length saved + remaining), saved @ take remaining buf,
                          ctx\<lparr>in_buf := drop remaining buf\<rparr>, dev))"
proof -
  have "\<not> (remaining = 0 \<or> 0 < eod_pos ctx \<and> current_pos ctx = eod_pos ctx \<or> saw_small_block ctx)"
    using assms by blast
  then show ?thesis by (subst read_blocks.simps) (simp only: if_False)
qed

context tape_drive_marks
begin

text \<open>
  Reading of a document whose filemark stands at block \<open>e\<close>: \<open>data\<close> is still to be delivered. Either
  the end has been seen and the head is on the filemark, or the rest of the blocks lies
  between the head and it.
\<close>

definition reading :: "tape_image \<Rightarrow> nat \<Rightarrow> xml_input_tape \<Rightarrow> 'a device_data \<Rightarrow> u8 list \<Rightarrow> bool" where
  "reading t e ctx dev data \<longleftrightarrow>
     0 < unat (in_size ctx) \<and> e < length (head_items t) \<and> head_items t ! e = Filemark \<and>
     (if saw_small_block ctx
      then saw_file_mark ctx \<and> ready dev (t\<lparr>head_block := e\<rparr>) \<and> data = in_buf ctx
      else \<exists>k bs. ready dev (t\<lparr>head_block := k\<rparr>) \<and> k + length bs = e \<and>
        (\<forall>i < length bs. head_items t ! (k + i) = Data (bs ! i)) \<and>
        full_blocks (unat (in_size ctx)) bs \<and> data = in_buf ctx @ concat bs \<and>
        (eod_pos ctx = 0 \<or> unat (current_pos ctx) = k \<and> e < unat (eod_pos ctx)))"

lemma reading_open:
  assumes "ready dev (t\<lparr>head_block := k\<rparr>)" "k + length bs = e"
    and "\<forall>i < length bs. head_items t ! (k + i) = Data (bs ! i)"
    and "e < length (head_items t)" "head_items t ! e = Filemark"
    and "0 < unat (in_size ctx)" "full_blocks (unat (in_size ctx)) bs" "\<not> saw_small_block ctx"
    and "eod_pos ctx = 0 \<or> unat (current_pos ctx) = k \<and> e < unat (eod_pos ctx)"
    and "data = in_buf ctx @ concat bs"
  shows "reading t e ctx dev data"
  unfolding reading_def using assms by (simp only: if_False) blast

lemma step_back_ready:
  assumes "ready dev (t\<lparr>head_block := Suc e\<rparr>)" "e < length (head_items t)" "head_items t ! e = Filemark"
  obtains dev' where "step_back ctx dev = (True, ctx\<lparr>saw_file_mark := True\<rparr>, dev')"
    "ready dev' (t\<lparr>head_block := e\<rparr>)"
proof -
  obtain dev' where "tape_spacefm (- 1) dev = (0, dev')" "ready dev' (t\<lparr>head_block := Suc e, head_block := Suc e - 1\<rparr>)"
    using space_back_ready [OF assms(1)] assms(3) by auto
  then show thesis by (intro that [of dev']) (simp_all add: step_back_def)
qed

lemma read_blocks_ready:
  assumes "ready dev (t\<lparr>head_block := k\<rparr>)" "k + length bs = e"
    and "\<forall>i < length bs. head_items t ! (k + i) = Data (bs ! i)"
    and "e < length (head_items t)" "head_items t ! e = Filemark"
    and "0 < unat (in_size ctx)" "full_blocks (unat (in_size ctx)) bs"
    and "\<not> saw_small_block ctx" "in_buf ctx = []"
    and "eod_pos ctx = 0 \<or> unat (current_pos ctx) = k \<and> e < unat (eod_pos ctx)"
  shows "\<exists>ctx' dev'. read_blocks True saved remaining ctx dev =
      Some (int (length (saved @ take remaining (concat bs))), saved @ take remaining (concat bs), ctx', dev') \<and>
    reading t e ctx' dev' (drop remaining (concat bs))"
  using assms
proof (induction bs arbitrary: k ctx dev saved remaining)
  case Nil
  have here: "head_block (t\<lparr>head_block := k\<rparr>) < length (head_items (t\<lparr>head_block := k\<rparr>))"
    using Nil.prems by simp
  have not_eod: "\<not> (0 < eod_pos ctx \<and> current_pos ctx = eod_pos ctx)" using Nil.prems by auto
  show ?case
  proof (cases "remaining = 0")
    case True
    then show ?thesis
      using reading_open [OF Nil.prems(1-8,10)] Nil.prems(9)
      by (intro exI [of _ ctx] exI [of _ dev]) (simp add: read_blocks.simps [of _ _ _ ctx])
  next
    case False
    obtain dev1 d where r: "tape_read (unat (in_size ctx)) (in_kmi ctx) dev = (int (length d), d, dev1)"
      "d = (case head_items t ! k of Data d \<Rightarrow> take (unat (in_size ctx)) d | Filemark \<Rightarrow> [])"
      "ready dev1 (t\<lparr>head_block := Suc k\<rparr>)"
      by (rule read_ready [OF Nil.prems(1) here, of "unat (in_size ctx)" "in_kmi ctx"]) simp
    let ?c = "ctx\<lparr>current_pos := current_pos ctx + 1, saw_small_block := True, saw_file_mark := True\<rparr>"
    obtain dev2 where s: "step_back (ctx\<lparr>current_pos := current_pos ctx + 1, saw_small_block := True\<rparr>) dev1 =
        (True, ?c, dev2)" "ready dev2 (t\<lparr>head_block := k\<rparr>)"
      by (rule step_back_ready [OF r(3), of "ctx\<lparr>current_pos := current_pos ctx + 1, saw_small_block := True\<rparr>"])
         (use Nil.prems(2,4,5) in simp_all)
    have "d = []" using r(2) Nil.prems by simp
    moreover have "0 < uint (in_size ctx)" using Nil.prems(6) by (metis of_nat_0_less_iff of_nat_unat uint_nat)
    ultimately have "read_blocks True saved remaining ctx dev = Some (int (length saved), saved, ?c, dev2)"
      using r(1) s(1) False
      by (simp add: read_blocks_step [OF False Nil.prems(8) not_eod] Let_def note_small_block_def
          read_blocks_small)
    moreover have "reading t e ?c dev2 []"
      using Nil.prems s(2) by (simp add: reading_def)
    ultimately show ?thesis by simp
  qed
next
  case (Cons b bs)
  let ?n = "unat (in_size ctx)"
  have at: "head_items t ! k = Data b" using Cons.prems(3) by auto
  have later: "\<forall>i < length bs. head_items t ! (Suc k + i) = Data (bs ! i)"
  proof (intro allI impI)
    fix i assume "i < length bs"
    then show "head_items t ! (Suc k + i) = Data (bs ! i)"
      using Cons.prems(3) [rule_format, of "Suc i"] by simp
  qed
  have here: "head_block (t\<lparr>head_block := k\<rparr>) < length (head_items (t\<lparr>head_block := k\<rparr>))"
    using Cons.prems by simp
  have not_eod: "\<not> (0 < eod_pos ctx \<and> current_pos ctx = eod_pos ctx)" using Cons.prems(2,10) by auto
  have b: "b \<noteq> []" "length b \<le> ?n" using Cons.prems(7) by simp_all
  show ?case
  proof (cases "remaining = 0")
    case True
    then show ?thesis
      using reading_open [OF Cons.prems(1-8,10)] Cons.prems(9)
      by (intro exI [of _ ctx] exI [of _ dev]) (simp add: read_blocks.simps [of _ _ _ ctx])
  next
    case False
    let ?c = "ctx\<lparr>current_pos := current_pos ctx + 1\<rparr>"
    note step = read_blocks_step [OF False Cons.prems(8) not_eod]
    obtain dev1 d where r0: "tape_read ?n (in_kmi ctx) dev = (int (length d), d, dev1)"
      "d = (case head_items t ! k of Data d \<Rightarrow> take ?n d | Filemark \<Rightarrow> [])"
      "ready dev1 (t\<lparr>head_block := Suc k\<rparr>)"
      by (rule read_ready [OF Cons.prems(1) here, of ?n "in_kmi ctx"]) simp
    have "d = b" using r0(2) at b(2) by simp
    then have r: "tape_read ?n (in_kmi ctx) dev = (int (length b), b, dev1)"
      "ready dev1 (t\<lparr>head_block := Suc k\<rparr>)" using r0 by simp_all
    have pos: "eod_pos ctx = 0 \<or> unat (current_pos ctx + 1) = Suc k \<and> e < unat (eod_pos ctx)"
      using Cons.prems(2,10) u64_less_bound [of "eod_pos ctx"] by (auto simp: unat_add_nowrap)
    show ?thesis
    proof (cases "length b = ?n")
      case True
      have full: "\<not> int (length b) < uint (in_size ctx)" using True by (simp only: uint_nat less_irrefl not_False_eq_True)
      have rec: "\<exists>ctx' dev'. read_blocks True saved' remaining' ?c dev1 =
          Some (int (length (saved' @ take remaining' (concat bs))), saved' @ take remaining' (concat bs), ctx', dev') \<and>
        reading t e ctx' dev' (drop remaining' (concat bs))" for saved' remaining'
      proof (rule Cons.IH [OF r(2) _ later Cons.prems(4,5)])
        show "Suc k + length bs = e" using Cons.prems(2) by simp
        show "0 < unat (in_size ?c)" using Cons.prems(6) by simp
        show "full_blocks (unat (in_size ?c)) bs" using Cons.prems(7) by auto
        show "\<not> saw_small_block ?c" "in_buf ?c = []" using Cons.prems(8,9) by simp_all
        show "eod_pos ?c = 0 \<or> unat (current_pos ?c) = Suc k \<and> e < unat (eod_pos ?c)"
          using pos by simp
      qed
      show ?thesis
      proof (cases "length b < remaining")
        case True
        then show ?thesis
          using rec [of "saved @ b" "remaining - length b"] r(1) full
          by (simp add: step Let_def)
      next
        case short: False
        let ?c1 = "?c\<lparr>in_buf := drop remaining b\<rparr>"
        have "read_blocks True saved remaining ctx dev =
            Some (int (length saved + remaining), saved @ take remaining b, ?c1, dev1)"
          using r(1) full short by (simp add: step Let_def)
        moreover have "reading t e ?c1 dev1 (drop remaining (concat (b # bs)))"
          by (rule reading_open [OF r(2) _ later Cons.prems(4,5)])
             (use Cons.prems(2,6-8) pos short in auto)
        ultimately show ?thesis using short by simp
      qed
    next
      case False
      then have last: "bs = []" "length b < ?n" using Cons.prems(7) by auto
      let ?c1 = "?c\<lparr>saw_small_block := True\<rparr>"
      have fm: "Suc k = e" using Cons.prems(2) last(1) by simp
      have here1: "head_block (t\<lparr>head_block := Suc k\<rparr>) < length (head_items (t\<lparr>head_block := Suc k\<rparr>))"
        using Cons.prems(4) fm by simp
      obtain dev2 d where r2: "tape_read (unat (in_blocksize ctx)) (in_kmi ctx) dev1 = (int (length d), d, dev2)"
        "d = (case head_items t ! e of Data d \<Rightarrow> take (unat (in_blocksize ctx)) d | Filemark \<Rightarrow> [])"
        "ready dev2 (t\<lparr>head_block := Suc e\<rparr>)"
        by (rule read_ready [OF r(2) here1, of "unat (in_blocksize ctx)" "in_kmi ctx"]) (use fm in simp)
      have d: "d = []" using r2(2) Cons.prems(5) by simp
      obtain dev3 where s: "step_back ?c1 dev2 = (True, ?c1\<lparr>saw_file_mark := True\<rparr>, dev3)"
        "ready dev3 (t\<lparr>head_block := e\<rparr>)"
        by (rule step_back_ready [OF r2(3) Cons.prems(4,5), of ?c1])
      have look: "eod_pos ctx = 0 \<or> 0 < eod_pos ctx \<and> current_pos ctx + 1 < eod_pos ctx"
        using pos fm by (auto simp: word_less_nat_alt word_neq_0_conv)
      have note1: "note_small_block True (int (length b)) ?c dev1 = (True, ?c1\<lparr>saw_file_mark := True\<rparr>, dev3)"
        using r2(1) d s(1) b(1) look by (simp add: note_small_block_def Let_def)
      have short: "int (length b) < uint (in_size ctx)" using last(2) by (simp only: uint_nat of_nat_less_iff)
      let ?c2 = "?c1\<lparr>saw_file_mark := True\<rparr>"
      show ?thesis
      proof (cases "length b < remaining")
        case True
        have "read_blocks True saved remaining ctx dev = Some (int (length (saved @ b)), saved @ b, ?c2, dev3)"
          using r(1) note1 short True by (simp add: step Let_def read_blocks_small)
        moreover have "reading t e ?c2 dev3 []"
          using Cons.prems(4-6,9) s(2) by (simp add: reading_def)
        ultimately show ?thesis using True last(1) by simp
      next
        case big: False
        let ?c3 = "?c2\<lparr>in_buf := drop remaining b\<rparr>"
        have "read_blocks True saved remaining ctx dev =
            Some (int (length saved + remaining), saved @ take remaining b, ?c3, dev3)"
          using r(1) note1 short big by (simp add: step Let_def)
        moreover have "reading t e ?c3 dev3 (drop remaining b)"
          using Cons.prems(4-6) s(2) by (simp add: reading_def)
        ultimately show ?thesis using big last(1) by simp
      qed
    qed
  qed
qed

lemma reading_callback:
  assumes "reading t e ctx dev data"
  shows "\<exists>ctx' dev'. xml_input_tape_read_callback True ctx len dev =
      Some (int (length (take len data)), take len data, ctx', dev') \<and> reading t e ctx' dev' (drop len data)"
proof (cases "len \<le> length (in_buf ctx)")
  case True
  have "\<exists>more. data = in_buf ctx @ more"
    using assms by (cases "saw_small_block ctx") (auto simp: reading_def)
  then have "take len data = take len (in_buf ctx)" "length (take len (in_buf ctx)) = len"
    "reading t e (ctx\<lparr>in_buf := drop len (in_buf ctx)\<rparr>) dev (drop len data)"
    using True assms by (auto simp: reading_def)
  then show ?thesis
    using True assms by (cases "len = 0") (auto simp: xml_input_tape_read_callback_def)
next
  case False
  then have call: "xml_input_tape_read_callback True ctx len dev =
      read_blocks True (in_buf ctx) (len - length (in_buf ctx)) (ctx\<lparr>in_buf := []\<rparr>) dev"
    by (simp add: xml_input_tape_read_callback_def)
  show ?thesis
  proof (cases "saw_small_block ctx")
    case True
    then have "data = in_buf ctx" "reading t e (ctx\<lparr>in_buf := []\<rparr>) dev []"
      using assms by (simp_all add: reading_def)
    then show ?thesis using True False by (simp add: call read_blocks_small)
  next
    case small: False
    obtain k bs where k: "ready dev (t\<lparr>head_block := k\<rparr>)" "k + length bs = e"
      "\<forall>i < length bs. head_items t ! (k + i) = Data (bs ! i)" "full_blocks (unat (in_size ctx)) bs"
      "data = in_buf ctx @ concat bs" "eod_pos ctx = 0 \<or> unat (current_pos ctx) = k \<and> e < unat (eod_pos ctx)"
      "e < length (head_items t)" "head_items t ! e = Filemark" "0 < unat (in_size ctx)"
      using assms small unfolding reading_def by auto
    show ?thesis
      using read_blocks_ready [OF k(1-3,7,8), of "ctx\<lparr>in_buf := []\<rparr>" "in_buf ctx" "len - length (in_buf ctx)"]
        k(4-6,9) small False
      by (simp add: call)
  qed
qed

lemma reading_pieces:
  assumes "reading t e ctx dev data"
  shows "\<exists>ctx' dev'. read_pieces True lens ctx dev = Some (take (sum_list lens) data, ctx', dev') \<and>
    reading t e ctx' dev' (drop (sum_list lens) data)"
  using assms
proof (induction lens arbitrary: ctx dev data)
  case Nil
  then show ?case by simp
next
  case (Cons len lens)
  obtain ctx1 dev1 where 1: "xml_input_tape_read_callback True ctx len dev =
      Some (int (length (take len data)), take len data, ctx1, dev1)" "reading t e ctx1 dev1 (drop len data)"
    using reading_callback [OF Cons.prems] by blast
  obtain ctx2 dev2 where 2: "read_pieces True lens ctx1 dev1 =
      Some (take (sum_list lens) (drop len data), ctx2, dev2)"
    "reading t e ctx2 dev2 (drop (sum_list lens) (drop len data))"
    using Cons.IH [OF 1(2)] by blast
  have "0 \<le> int (length (take len data))" by simp
  then show ?case using 1(1) 2 by (simp add: take_add add.commute)
qed

text \<open>A document is read in full, and an empty answer means that the head is on its filemark.\<close>

lemma reading_end:
  assumes "reading t e ctx dev []"
  shows "\<exists>ctx' dev'. xml_input_tape_read_callback True ctx (Suc len) dev = Some (0, [], ctx', dev') \<and>
    saw_file_mark ctx' \<and> ready dev' (t\<lparr>head_block := e\<rparr>)"
proof -
  have empty: "in_buf ctx = []" using assms by (auto simp: reading_def split: if_splits)
  have call: "xml_input_tape_read_callback True ctx (Suc len) dev = read_blocks True [] (Suc len) ctx dev"
    using empty by (cases ctx) (simp add: xml_input_tape_read_callback_def)
  show ?thesis
  proof (cases "saw_small_block ctx")
    case True
    then show ?thesis using assms by (simp add: call read_blocks_small reading_def)
  next
    case small: False
    obtain k bs where k: "ready dev (t\<lparr>head_block := k\<rparr>)" "k + length bs = e"
      "full_blocks (unat (in_size ctx)) bs" "concat bs = []"
      "eod_pos ctx = 0 \<or> unat (current_pos ctx) = k \<and> e < unat (eod_pos ctx)"
      "e < length (head_items t)" "head_items t ! e = Filemark" "0 < unat (in_size ctx)"
      using assms small unfolding reading_def by auto
    have bs: "bs = []" using k(3,4) by (cases bs) auto
    have not_eod: "\<not> (0 < eod_pos ctx \<and> current_pos ctx = eod_pos ctx)" using k(2,5) bs by auto
    have here: "head_block (t\<lparr>head_block := k\<rparr>) < length (head_items (t\<lparr>head_block := k\<rparr>))"
      using k(2,6) bs by simp
    obtain dev1 d where r: "tape_read (unat (in_size ctx)) (in_kmi ctx) dev = (int (length d), d, dev1)"
      "d = (case head_items t ! k of Data d \<Rightarrow> take (unat (in_size ctx)) d | Filemark \<Rightarrow> [])"
      "ready dev1 (t\<lparr>head_block := Suc k\<rparr>)"
      by (rule read_ready [OF k(1) here, of "unat (in_size ctx)" "in_kmi ctx"]) simp
    let ?c1 = "ctx\<lparr>current_pos := current_pos ctx + 1, saw_small_block := True\<rparr>"
    obtain dev2 where s: "step_back ?c1 dev1 = (True, ?c1\<lparr>saw_file_mark := True\<rparr>, dev2)"
      "ready dev2 (t\<lparr>head_block := e\<rparr>)"
      by (rule step_back_ready [where t = t and e = e and dev = dev1 and ctx = ?c1]) (use r(3) k(2,6,7) bs in simp_all)
    have "d = []" using r(2) k(2,7) bs by simp
    moreover have "0 < uint (in_size ctx)" using k(8) by (metis of_nat_0_less_iff of_nat_unat uint_nat)
    ultimately show ?thesis
      using r(1) s by (simp add: call read_blocks_step [OF _ small not_eod] Let_def note_small_block_def
          read_blocks_small)
  qed
qed

text \<open>A document that follows \<open>k\<close> items and is closed by a filemark is found by a seek to block \<open>k\<close>.\<close>

lemma read_document_ready:
  assumes "ready dev t" "calm dev" "p = 0 \<or> p = 1" "has_room t p k"
    and "items t p = pre @ map Data bs @ Filemark # post" "k = length pre"
    and "full_blocks (unat (in_size inp)) bs" "0 < unat (in_size inp)"
    and "eod_pos inp = 0" "\<not> saw_small_block inp" "in_buf inp = []"
  shows "\<exists>dev1. tape_seek (seek_to p (of_nat k)) dev = (0, dev1) \<and> ready dev1 (img_at p k t) \<and>
    (\<exists>inp' dev2. read_pieces True lens inp dev1 = Some (take (sum_list lens) (concat bs), inp', dev2))"
proof -
  obtain dev1 where k: "tape_seek (seek_to p (of_nat k)) dev = (0, dev1)" "ready dev1 (img_at p k t)"
    by (rule seek_ready [OF assms(1,2,3) _ assms(4), of "of_nat k"]) (use assms(5,6) in simp_all)
  have "reading (img_at p k t) (k + length bs) inp dev1 (concat bs)"
  proof (rule reading_open [where k = k and bs = bs])
    show "ready dev1 (img_at p k t\<lparr>head_block := k\<rparr>)" using k(2) by simp
    show "\<forall>i < length bs. head_items (img_at p k t) ! (k + i) = Data (bs ! i)"
      using assms(5,6) by (simp add: nth_append)
    show "k + length bs < length (head_items (img_at p k t))" using assms(5,6) by simp
    show "head_items (img_at p k t) ! (k + length bs) = Filemark"
      using assms(5,6) by (simp add: nth_append)
  qed (use assms in simp_all)
  then show ?thesis using k reading_pieces by blast
qed

end

end
