(* ===== verification/HostFiles.thy ===== *)
theory HostFiles imports TapeOps begin

text \<open>
  The part of the host's file system the file backend
  (\<open>src/ltfs/src/tape_drivers/generic/file/filedebug_tc.c\<close>) works on. A record of the
  emulated tape is a file named after its partition, its block number and one of the
  suffixes \<open>R\<close> (data record), \<open>F\<close> (filemark) and \<open>E\<close> (end of data); an attribute of the
  cartridge memory is a file named after its partition and number.

  The library calls of the code (\<open>asprintf\<close>, \<open>open\<close>, \<open>close\<close>, \<open>read\<close>, \<open>write\<close>, \<open>unlink\<close>)
  may fail. Which of them do is read off the list \<open>faults\<close>: every call takes the next
  element and fails if it is \<open>True\<close>; past its end no call fails. Writes to a file are
  never short.
\<close>

datatype host_file =
    RecordFile string u32 u64 char
  | AttrFile string u32 u16

text \<open>
  \<open>first_line\<close> is what \<open>fgets\<close> finds in a regular file (\<open>None\<close>: the file cannot be
  opened; the empty string: nothing to read), \<open>is_dir\<close> whether \<open>stat\<close> finds a directory.
\<close>

record host =
  files :: "host_file \<rightharpoonup> u8 list"
  first_line :: "string \<rightharpoonup> string"
  is_dir :: "string \<Rightarrow> bool"
  faults :: "bool list"

definition host_call :: "host \<Rightarrow> bool \<times> host" where
  "host_call h = (case faults h of [] \<Rightarrow> (False, h) | f # fs \<Rightarrow> (f, h\<lparr>faults := fs\<rparr>))"

datatype open_result = OpenError | NoEntry | Opened

definition host_open :: "host_file \<Rightarrow> host \<Rightarrow> open_result \<times> host" where
  "host_open n h =
     (case host_call h of
        (True, h) \<Rightarrow> (OpenError, h)
      | (False, h) \<Rightarrow> (if files h n = None then NoEntry else Opened, h))"

text \<open>\<open>open\<close> with \<open>O_CREAT | O_TRUNC\<close>; the result says whether it succeeded.\<close>

definition host_create :: "host_file \<Rightarrow> host \<Rightarrow> bool \<times> host" where
  "host_create n h =
     (case host_call h of
        (True, h) \<Rightarrow> (False, h)
      | (False, h) \<Rightarrow> (True, h\<lparr>files := (files h)(n \<mapsto> [])\<rparr>))"

definition host_write :: "host_file \<Rightarrow> u8 list \<Rightarrow> host \<Rightarrow> bool \<times> host" where
  "host_write n buf h =
     (case host_call h of
        (True, h) \<Rightarrow> (False, h)
      | (False, h) \<Rightarrow> (True, h\<lparr>files := (files h)(n \<mapsto> buf)\<rparr>))"

definition host_read :: "host_file \<Rightarrow> nat \<Rightarrow> host \<Rightarrow> u8 list option \<times> host" where
  "host_read n count h =
     (case host_call h of
        (True, h) \<Rightarrow> (None, h)
      | (False, h) \<Rightarrow> (map_option (take count) (files h n), h))"

definition host_close :: "host \<Rightarrow> bool \<times> host" where
  "host_close h = (case host_call h of (f, h) \<Rightarrow> (\<not> f, h))"

text \<open>\<open>unlink\<close>; a missing file counts as success, as in the code.\<close>

definition host_unlink :: "host_file \<Rightarrow> host \<Rightarrow> bool \<times> host" where
  "host_unlink n h =
     (case host_call h of
        (True, h) \<Rightarrow> (False, h)
      | (False, h) \<Rightarrow> (True, h\<lparr>files := (files h)(n := None)\<rparr>))"

text \<open>\<open>asprintf\<close> of a file name; \<open>None\<close> when it runs out of memory.\<close>

definition host_asprintf :: "host_file \<Rightarrow> host \<Rightarrow> host_file option \<times> host" where
  "host_asprintf n h = (case host_call h of (f, h) \<Rightarrow> (if f then None else Some n, h))"

section \<open>A host whose calls do not fail\<close>

lemma host_call_ok [host_simps]: "faults h = [] \<Longrightarrow> host_call h = (False, h)"
  by (simp add: host_call_def)

lemma host_open_ok [host_simps]:
  "faults h = [] \<Longrightarrow> host_open n h = (if files h n = None then NoEntry else Opened, h)"
  by (simp add: host_open_def host_call_ok)

lemma host_create_ok [host_simps]:
  "faults h = [] \<Longrightarrow> host_create n h = (True, h\<lparr>files := (files h)(n \<mapsto> [])\<rparr>)"
  by (simp add: host_create_def host_call_ok)

lemma host_write_ok [host_simps]:
  "faults h = [] \<Longrightarrow> host_write n buf h = (True, h\<lparr>files := (files h)(n \<mapsto> buf)\<rparr>)"
  by (simp add: host_write_def host_call_ok)

lemma host_read_ok [host_simps]:
  "faults h = [] \<Longrightarrow> host_read n count h = (map_option (take count) (files h n), h)"
  by (simp add: host_read_def host_call_ok)

lemma host_close_ok [host_simps]: "faults h = [] \<Longrightarrow> host_close h = (True, h)"
  by (simp add: host_close_def host_call_ok)

lemma host_unlink_ok [host_simps]:
  "faults h = [] \<Longrightarrow> host_unlink n h = (True, h\<lparr>files := (files h)(n := None)\<rparr>)"
  by (simp add: host_unlink_def host_call_ok)

lemma host_asprintf_ok [host_simps]: "faults h = [] \<Longrightarrow> host_asprintf n h = (Some n, h)"
  by (simp add: host_asprintf_def host_call_ok)

end
