(* ===== verification/FileTape.thy ===== *)
theory FileTape imports HostFiles begin

text \<open>
  The file backend of LTFS, which emulates a two-partition tape in a directory:
  \<open>src/ltfs/src/tape_drivers/generic/file/filedebug_tc.c\<close>. One definition for each backend
  operation and helper of that file. An operation takes the backend's private data and,
  when the C function has it, the caller's \<open>struct tc_position\<close>, and returns the return
  code and their new values. Messages are left out.
\<close>

abbreviation MISSING_EOD :: u64 where "MISSING_EOD \<equiv> 0xFFFFFFFFFFFFFFFF"
abbreviation MAX_PARTITIONS :: u32 where "MAX_PARTITIONS \<equiv> 2"

record filedebug_data =
  device_reserved :: bool
  medium_locked :: bool
  current_position :: tc_position
  max_block_size :: u32
  filename :: "string option"
  dirbase :: "string option"
  dirname :: "string option"
  ready :: bool
  last_block :: "u32 \<Rightarrow> u64"
  eod :: "u32 \<Rightarrow> u64"
  partitions :: int
  write_pass_prev :: u64
  write_pass :: u64
  emulate_readonly :: int
  p0_warning :: u32
  p1_warning :: u32
  p0_p_warning :: u32
  p1_p_warning :: u32
  fd_host :: host

abbreviation cur_part :: "filedebug_data \<Rightarrow> u32" where
  "cur_part s \<equiv> partition (current_position s)"

abbreviation cur_block :: "filedebug_data \<Rightarrow> u64" where
  "cur_block s \<equiv> block (current_position s)"

abbreviation cur_fm :: "filedebug_data \<Rightarrow> u64" where
  "cur_fm s \<equiv> filemarks (current_position s)"

abbreviation set_pos :: "(tc_position \<Rightarrow> tc_position) \<Rightarrow> filedebug_data \<Rightarrow> filedebug_data" where
  "set_pos f s \<equiv> s\<lparr>current_position := f (current_position s)\<rparr>"

text \<open>A host call made from a backend state.\<close>

definition on_host :: "(host \<Rightarrow> 'a \<times> host) \<Rightarrow> filedebug_data \<Rightarrow> 'a \<times> filedebug_data" where
  "on_host f s = (case f (fd_host s) of (r, h) \<Rightarrow> (r, s\<lparr>fd_host := h\<rparr>))"

text \<open>\<open>printf\<close> prints a null directory name as \<open>(null)\<close>.\<close>

definition dir_of :: "filedebug_data \<Rightarrow> string" where
  "dir_of s = (case dirname s of Some d \<Rightarrow> d | None \<Rightarrow> ''(null)'')"

section \<open>Records as files\<close>

definition filedebug_make_filename ::
    "u32 \<Rightarrow> u64 \<Rightarrow> char \<Rightarrow> filedebug_data \<Rightarrow> host_file option \<times> filedebug_data" where
  "filedebug_make_filename part pos type s =
     on_host (host_asprintf (RecordFile (dir_of s) part pos type)) s"

definition filedebug_make_current_filename ::
    "char \<Rightarrow> filedebug_data \<Rightarrow> host_file option \<times> filedebug_data" where
  "filedebug_make_current_filename type s =
     filedebug_make_filename (cur_part s) (cur_block s) type s"

definition filedebug_make_attrname ::
    "u32 \<Rightarrow> u16 \<Rightarrow> filedebug_data \<Rightarrow> host_file option \<times> filedebug_data" where
  "filedebug_make_attrname part attr s = on_host (host_asprintf (AttrFile (dir_of s) part attr)) s"

text \<open>Replacing the last character of a record file's name.\<close>

fun with_suffix :: "char \<Rightarrow> host_file \<Rightarrow> host_file" where
  "with_suffix c (RecordFile d p b _) = RecordFile d p b c"
| "with_suffix c (AttrFile d p i) = AttrFile d p i"

definition filedebug_check_file :: "host_file \<Rightarrow> filedebug_data \<Rightarrow> int \<times> filedebug_data" where
  "filedebug_check_file fname s =
     (case on_host (host_open fname) s of
        (OpenError, s) \<Rightarrow> (- EDEV_RW_PERM, s)
      | (NoEntry, s) \<Rightarrow> (0, s)
      | (Opened, s) \<Rightarrow>
          (case on_host host_close s of
             (False, s) \<Rightarrow> (- EDEV_RW_PERM, s)
           | (True, s) \<Rightarrow> (1, s)))"

fun unlink_suffixes :: "char list \<Rightarrow> host_file \<Rightarrow> filedebug_data \<Rightarrow> int \<times> filedebug_data" where
  "unlink_suffixes [] fname s = (DEVICE_GOOD, s)"
| "unlink_suffixes (c # cs) fname s =
     (case on_host (host_unlink (with_suffix c fname)) s of
        (False, s) \<Rightarrow> (- EDEV_RW_PERM, s)
      | (True, s) \<Rightarrow> unlink_suffixes cs fname s)"

definition filedebug_remove_record ::
    "u32 \<Rightarrow> u64 \<Rightarrow> filedebug_data \<Rightarrow> int \<times> filedebug_data" where
  "filedebug_remove_record part blknum s =
     (case filedebug_make_filename part blknum (CHR ''.'') s of
        (None, s) \<Rightarrow> (- EDEV_NO_MEMORY, s)
      | (Some fname, s) \<Rightarrow> unlink_suffixes ''RFE'' fname s)"

definition filedebug_remove_current_record :: "filedebug_data \<Rightarrow> int \<times> filedebug_data" where
  "filedebug_remove_current_record s = filedebug_remove_record (cur_part s) (cur_block s) s"

text \<open>The removal loop of \<open>_filedebug_write_eod\<close> over the blocks behind the new mark.\<close>

fun remove_records :: "u32 \<Rightarrow> u64 list \<Rightarrow> filedebug_data \<Rightarrow> int \<times> filedebug_data" where
  "remove_records part [] s = (DEVICE_GOOD, s)"
| "remove_records part (i # is) s =
     (case filedebug_remove_record part i s of
        (ret, s) \<Rightarrow> if ret < 0 then (ret, s) else remove_records part is s)"

definition blocks_between :: "u64 \<Rightarrow> u64 \<Rightarrow> u64 list" where
  "blocks_between lo hi = map of_nat [unat lo ..< unat hi + 1]"

definition filedebug_write_eod :: "filedebug_data \<Rightarrow> int \<times> filedebug_data" where
  "filedebug_write_eod s =
     (let remove_extra_rec = (eod s (cur_part s) \<noteq> MISSING_EOD)
      in case filedebug_remove_current_record s of
        (ret, s) \<Rightarrow> if ret < 0 then (ret, s) else
       (case filedebug_make_current_filename (CHR ''E'') s of
          (None, s) \<Rightarrow> (- EDEV_NO_MEMORY, s)
        | (Some fname, s) \<Rightarrow>
            (case on_host (host_create fname) s of
               (False, s) \<Rightarrow> (- EDEV_RW_PERM, s)
             | (True, s) \<Rightarrow>
            (case on_host host_close s of
               (False, s) \<Rightarrow> (- EDEV_RW_PERM, s)
             | (True, s) \<Rightarrow>
            (case (if remove_extra_rec
                   then remove_records (cur_part s)
                          (blocks_between (cur_block s + 1) (eod s (cur_part s))) s
                   else (DEVICE_GOOD, s)) of
               (ret, s) \<Rightarrow> if ret < 0 then (ret, s) else
                 (DEVICE_GOOD,
                  s\<lparr>last_block := (last_block s)(cur_part s := cur_block s - 1),
                    eod := (eod s)(cur_part s := cur_block s)\<rparr>))))))"

text \<open>
  Counting the filemarks before the current block, as \<open>filedebug_locate\<close> and
  \<open>filedebug_space\<close> do: an error of a check is ignored, a failed name is not.
\<close>

fun count_filemarks ::
    "u64 list \<Rightarrow> u64 \<Rightarrow> filedebug_data \<Rightarrow> u64 option \<times> filedebug_data" where
  "count_filemarks [] count_fm s = (Some count_fm, s)"
| "count_filemarks (i # is) count_fm s =
     (case filedebug_make_filename (cur_part s) i (CHR ''F'') s of
        (None, s) \<Rightarrow> (None, s)
      | (Some fname, s) \<Rightarrow>
          (case filedebug_check_file fname s of
             (rc, s) \<Rightarrow> count_filemarks is (if rc = 1 then count_fm + 1 else count_fm) s))"

definition blocks_before :: "u64 \<Rightarrow> u64 list" where
  "blocks_before b = map of_nat [0 ..< unat b]"

text \<open>
  The early warning flags of \<open>filedebug_writefm\<close>, \<open>filedebug_locate\<close> and
  \<open>filedebug_space\<close>; \<open>filedebug_write\<close> raises the programmable one only at the exact block.
\<close>

definition set_early_warning :: "filedebug_data \<Rightarrow> tc_position \<Rightarrow> tc_position" where
  "set_early_warning s pos =
     (if p0_warning s \<noteq> 0 \<and> cur_part s = 0 \<and> ucast (p0_warning s) \<le> cur_block s
      then pos\<lparr>early_warning := True\<rparr>
      else if p1_warning s \<noteq> 0 \<and> cur_part s = 1 \<and> ucast (p1_warning s) \<le> cur_block s
      then pos\<lparr>early_warning := True\<rparr> else pos)"

definition set_p_warning :: "filedebug_data \<Rightarrow> tc_position \<Rightarrow> tc_position" where
  "set_p_warning s pos =
     (if p0_p_warning s \<noteq> 0 \<and> cur_part s = 0 \<and> ucast (p0_p_warning s) \<le> cur_block s
      then pos\<lparr>programmable_early_warning := True\<rparr>
      else if p1_p_warning s \<noteq> 0 \<and> cur_part s = 1 \<and> ucast (p1_p_warning s) \<le> cur_block s
      then pos\<lparr>programmable_early_warning := True\<rparr> else pos)"

definition set_p_warning_at :: "filedebug_data \<Rightarrow> tc_position \<Rightarrow> tc_position" where
  "set_p_warning_at s pos =
     (if p0_p_warning s \<noteq> 0 \<and> cur_part s = 0 \<and> cur_block s = ucast (p0_p_warning s)
      then pos\<lparr>programmable_early_warning := True\<rparr>
      else if p1_p_warning s \<noteq> 0 \<and> cur_part s = 1 \<and> cur_block s = ucast (p1_p_warning s)
      then pos\<lparr>programmable_early_warning := True\<rparr> else pos)"

section \<open>Cartridge memory\<close>

definition filedebug_read_attribute ::
    "u32 \<Rightarrow> u16 \<Rightarrow> nat \<Rightarrow> filedebug_data \<Rightarrow> int \<times> u8 list \<times> filedebug_data" where
  "filedebug_read_attribute part attr nbytes s =
     (case filedebug_make_attrname part attr s of
        (None, s) \<Rightarrow> (- EDEV_NO_MEMORY, [], s)
      | (Some fname, s) \<Rightarrow>
          (case on_host (host_open fname) s of
             (OpenError, s) \<Rightarrow> (- EDEV_CM_PERM, [], s)
           | (NoEntry, s) \<Rightarrow> (- EDEV_CM_PERM, [], s)
           | (Opened, s) \<Rightarrow>
               (case on_host (host_read fname nbytes) s of
                  (None, s) \<Rightarrow> (- EDEV_CM_PERM, [], snd (on_host host_close s))
                | (Some buf, s) \<Rightarrow> (DEVICE_GOOD, buf, snd (on_host host_close s)))))"

text \<open>
  \<open>buf\<close> is the memory the pointer points to: the loop may look at bytes past its \<open>nbytes\<close>. The
  argument \<open>i\<close> is the loop counter.
\<close>

function write_attributes ::
    "u32 \<Rightarrow> (nat \<Rightarrow> u8) \<Rightarrow> nat \<Rightarrow> nat \<Rightarrow> filedebug_data \<Rightarrow> int \<times> filedebug_data" where
  "write_attributes part buf nbytes i s =
     (if i < nbytes then
        (let attr = ltfs_betou16 (\<lambda>k. buf (i + k));
             attr_size = ltfs_betou16 (\<lambda>k. buf (i + 3 + k))
         in case filedebug_make_attrname part attr s of
              (None, s) \<Rightarrow> (- EDEV_NO_MEMORY, s)
            | (Some fname, s) \<Rightarrow>
                (case on_host (host_create fname) s of
                   (False, s) \<Rightarrow> (- EDEV_CM_PERM, s)
                 | (True, s) \<Rightarrow>
                     (case on_host (host_write fname (map buf [0..<nbytes])) s of
                        (False, s) \<Rightarrow> (- EDEV_CM_PERM, snd (on_host host_close s))
                      | (True, s) \<Rightarrow>
                          write_attributes part buf nbytes (i + (unat attr_size + 5))
                            (snd (on_host host_close s)))))
      else (DEVICE_GOOD, s))"
  by pat_completeness auto
termination
  by (relation "measure (\<lambda>(part, buf, nbytes, i, s). nbytes - i)") auto

declare write_attributes.simps [simp del]

definition filedebug_write_attribute ::
    "u32 \<Rightarrow> (nat \<Rightarrow> u8) \<Rightarrow> nat \<Rightarrow> filedebug_data \<Rightarrow> int \<times> filedebug_data" where
  "filedebug_write_attribute part buf nbytes s = write_attributes part buf nbytes 0 s"

definition set_wp :: "u64 \<Rightarrow> filedebug_data \<Rightarrow> int \<times> filedebug_data" where
  "set_wp wp s =
     (let wp_data = ltfs_u16tobe TC_MAM_PAGE_VCR @ [0] @ ltfs_u16tobe TC_MAM_PAGE_VCR_SIZE @
                    ltfs_u32tobe (ucast wp)
      in filedebug_write_attribute 0 (\<lambda>i. wp_data ! i) (length wp_data) s)"

definition get_wp :: "filedebug_data \<Rightarrow> int \<times> u64 \<times> filedebug_data" where
  "get_wp s =
     (case filedebug_read_attribute 0 TC_MAM_PAGE_VCR 9 s of
        (ret, buf, s) \<Rightarrow>
          (if ret = 0
           then (ret, ucast (ltfs_betou32 (\<lambda>i. (buf @ replicate 9 0) ! (5 + i))), s)
           else case set_wp 1 s of (ret, s) \<Rightarrow> (ret, 0, s)))"

section \<open>Reading and writing\<close>

definition filedebug_read ::
    "nat \<Rightarrow> filedebug_data \<Rightarrow> tc_position \<Rightarrow> int \<times> u8 list \<times> filedebug_data \<times> tc_position" where
  "filedebug_read count s pos =
     (if \<not> ready s then (- EDEV_NOT_READY, [], s, pos)
      else if eod s (cur_part s) = cur_block s then (- EDEV_EOD_DETECTED, [], s, pos)
      else case filedebug_make_current_filename (CHR ''E'') s of
        (None, s) \<Rightarrow> (- EDEV_NO_MEMORY, [], s, pos)
      | (Some fname, s) \<Rightarrow>
     (case filedebug_check_file fname s of (ret, s) \<Rightarrow>
      if ret < 0 then (ret, [], s, pos)
      else if 0 < ret then (- EDEV_EOD_NOT_FOUND, [], s, pos)
      else
     (case filedebug_check_file (with_suffix (CHR ''F'') fname) s of (ret, s) \<Rightarrow>
      if ret < 0 then (ret, [], s, pos)
      else if 0 < ret then
        (let s = set_pos (\<lambda>p. p\<lparr>block := block p + 1, filemarks := filemarks p + 1\<rparr>) s
         in (0, [], s, pos\<lparr>block := cur_block s, filemarks := cur_fm s\<rparr>))
      else
     (case filedebug_check_file (with_suffix (CHR ''R'') fname) s of (ret, s) \<Rightarrow>
      if ret < 0 then (ret, [], s, pos)
      else if 0 < ret then
        (case on_host (host_open (with_suffix (CHR ''R'') fname)) s of
           (OpenError, s) \<Rightarrow> (- EDEV_RW_PERM, [], s, pos)
         | (NoEntry, s) \<Rightarrow> (- EDEV_RW_PERM, [], s, pos)
         | (Opened, s) \<Rightarrow>
             (case on_host (host_read (with_suffix (CHR ''R'') fname) count) s of
                (None, s) \<Rightarrow> (- EDEV_RW_PERM, [], snd (on_host host_close s), pos)
              | (Some buf, s) \<Rightarrow>
                  (case on_host host_close s of
                     (False, s) \<Rightarrow> (- EDEV_RW_PERM, buf, s, pos)
                   | (True, s) \<Rightarrow>
                       (let s = set_pos (\<lambda>p. p\<lparr>block := block p + 1\<rparr>) s
                        in (int (length buf), buf, s, pos\<lparr>block := cur_block s\<rparr>)))))
      else (- EDEV_RW_PERM, [], s, pos)))))"

text \<open>The buffer is not null here; its length is \<open>count\<close>.\<close>

definition bump_write_pass :: "filedebug_data \<Rightarrow> int \<times> filedebug_data" where
  "bump_write_pass s =
     (if write_pass_prev s = write_pass s
      then (let s = s\<lparr>write_pass := write_pass s + 1\<rparr> in set_wp (write_pass s) s)
      else (0, s))"

definition filedebug_write ::
    "u8 list \<Rightarrow> filedebug_data \<Rightarrow> tc_position \<Rightarrow> int \<times> filedebug_data \<times> tc_position" where
  "filedebug_write buf s pos =
     (if \<not> ready s then (- EDEV_NOT_READY, s, pos)
      else if buf = [] then (0, s, pos)
      else if unat (max_block_size s) < length buf then (- EDEV_INVALID_ARG, s, pos)
      else case filedebug_remove_current_record s of (rc, s) \<Rightarrow>
      if rc < 0 then (rc, s, pos)
      else (case bump_write_pass s of (rc, s) \<Rightarrow>
      if rc < 0 then (rc, s, pos)
      else (case filedebug_make_current_filename (CHR ''R'') s of
        (None, s) \<Rightarrow> (- EDEV_NO_MEMORY, s, pos)
      | (Some fname, s) \<Rightarrow>
     (case on_host (host_create fname) s of
        (False, s) \<Rightarrow> (- EDEV_RW_PERM, s, pos)
      | (True, s) \<Rightarrow>
     (case on_host (host_write fname buf) s of
        (False, s) \<Rightarrow> (- EDEV_RW_PERM, snd (on_host host_close s), pos)
      | (True, s) \<Rightarrow>
     (case on_host host_close s of
        (False, s) \<Rightarrow> (- EDEV_RW_PERM, s, pos)
      | (True, s) \<Rightarrow>
     (let s = set_pos (\<lambda>p. p\<lparr>block := block p + 1\<rparr>) s;
          pos = pos\<lparr>block := cur_block s\<rparr>
      in case filedebug_write_eod s of (rc, s) \<Rightarrow>
         if rc < 0 then (rc, s, pos)
         else (int (length buf), s, set_p_warning_at s (set_early_warning s pos)))))))))"

fun write_filemarks ::
    "nat \<Rightarrow> filedebug_data \<Rightarrow> tc_position \<Rightarrow> int \<times> filedebug_data \<times> tc_position" where
  "write_filemarks 0 s pos = (DEVICE_GOOD, s, pos)"
| "write_filemarks (Suc n) s pos =
     (case filedebug_remove_current_record s of (rc, s) \<Rightarrow>
      if rc < 0 then (rc, s, pos)
      else (case filedebug_make_current_filename (CHR ''F'') s of
        (None, s) \<Rightarrow> (- EDEV_NO_MEMORY, s, pos)
      | (Some fname, s) \<Rightarrow>
     (case on_host (host_create fname) s of
        (False, s) \<Rightarrow> (- EDEV_RW_PERM, s, pos)
      | (True, s) \<Rightarrow>
     (case on_host host_close s of
        (False, s) \<Rightarrow> (- EDEV_RW_PERM, s, pos)
      | (True, s) \<Rightarrow>
     (let s = set_pos (\<lambda>p. p\<lparr>block := block p + 1, filemarks := filemarks p + 1\<rparr>) s;
          pos = pos\<lparr>block := cur_block s, filemarks := cur_fm s\<rparr>
      in case filedebug_write_eod s of (rc, s) \<Rightarrow>
         if rc < 0 then (rc, s, pos) else write_filemarks n s pos)))))"

definition filedebug_writefm ::
    "nat \<Rightarrow> filedebug_data \<Rightarrow> tc_position \<Rightarrow> int \<times> filedebug_data \<times> tc_position" where
  "filedebug_writefm count s pos =
     (if \<not> ready s then (- EDEV_NOT_READY, s, pos)
      else if count = 0 then (DEVICE_GOOD, s, pos)
      else case bump_write_pass s of (rc, s) \<Rightarrow>
      if rc < 0 then (rc, s, pos)
      else (case write_filemarks count s pos of (rc, s, pos) \<Rightarrow>
      if rc < 0 then (rc, s, pos)
      else (rc, s, set_p_warning s (set_early_warning s pos))))"

section \<open>Moving the head\<close>

definition filedebug_rewind ::
    "filedebug_data \<Rightarrow> tc_position \<Rightarrow> int \<times> filedebug_data \<times> tc_position" where
  "filedebug_rewind s pos =
     (if \<not> ready s then (- EDEV_NOT_READY, s, pos)
      else
        let s = set_pos (\<lambda>p. p\<lparr>block := 0, filemarks := 0\<rparr>) s
        in (DEVICE_GOOD, s,
            pos\<lparr>block := cur_block s, filemarks := 0, early_warning := False,
                programmable_early_warning := False\<rparr>))"

definition filedebug_locate ::
    "tc_position \<Rightarrow> filedebug_data \<Rightarrow> tc_position \<Rightarrow> int \<times> filedebug_data \<times> tc_position" where
  "filedebug_locate dest s pos =
     (if \<not> ready s then (- EDEV_NOT_READY, s, pos)
      else if MAX_PARTITIONS \<le> partition dest then (- EDEV_INVALID_ARG, s, pos)
      else
        let s = set_pos (\<lambda>p. p\<lparr>partition := partition dest\<rparr>) s;
            b = (if eod s (partition dest) = MISSING_EOD \<and>
                    last_block s (partition dest) < block dest
                 then last_block s (partition dest) + 1
                 else if eod s (partition dest) < block dest
                 then eod s (partition dest)
                 else block dest);
            s = set_pos (\<lambda>p. p\<lparr>block := b\<rparr>) s;
            pos = pos\<lparr>partition := cur_part s, block := cur_block s\<rparr>
        in case count_filemarks (blocks_before (cur_block s)) 0 s of
             (None, s) \<Rightarrow> (- EDEV_NO_MEMORY, s, pos)
           | (Some count_fm, s) \<Rightarrow>
               (let s = set_pos (\<lambda>p. p\<lparr>filemarks := count_fm\<rparr>) s;
                    pos = pos\<lparr>filemarks := cur_fm s\<rparr>
                in (0, s, set_p_warning s (set_early_warning s pos))))"

text \<open>
  Spacing over filemarks and records. Both loops stop: forwards, the block number meets
  the end of data of the partition after at most \<open>2\<^sup>6\<^sup>4\<close> steps; backwards, it reaches 0.
\<close>

lemma on_host_frame [simp]:
  "on_host f s = (r, s') \<Longrightarrow> current_position s' = current_position s"
  "on_host f s = (r, s') \<Longrightarrow> eod s' = eod s"
  "on_host f s = (r, s') \<Longrightarrow> last_block s' = last_block s"
  by (auto simp: on_host_def split: prod.splits)

lemma check_file_frame:
  "filedebug_check_file n s = (r, s') \<Longrightarrow>
     current_position s' = current_position s \<and> eod s' = eod s \<and> last_block s' = last_block s"
  by (auto simp: filedebug_check_file_def split: prod.splits open_result.splits bool.splits)

lemma make_current_filename_frame:
  "filedebug_make_current_filename c s = (r, s') \<Longrightarrow>
     current_position s' = current_position s \<and> eod s' = eod s \<and> last_block s' = last_block s"
  by (auto simp: filedebug_make_current_filename_def filedebug_make_filename_def)

definition space_measure :: "bool \<Rightarrow> filedebug_data \<Rightarrow> nat" where
  "space_measure back s =
     (if back then unat (cur_block s) else unat (eod s (cur_part s) - cur_block s))"

lemma space_measure_forward:
  assumes "cur_block s \<noteq> eod s (cur_part s)"
  shows "space_measure False (set_pos (\<lambda>p. p\<lparr>block := block p + 1\<rparr>) s) < space_measure False s"
proof -
  have "eod s (cur_part s) - cur_block s \<noteq> 0" using assms by simp
  then have "unat (eod s (cur_part s) - cur_block s - 1) < unat (eod s (cur_part s) - cur_block s)"
    by (simp add: unat_minus_one unat_gt_0)
  then show ?thesis by (simp add: space_measure_def diff_diff_eq)
qed

lemma space_measure_back:
  assumes "cur_block s \<noteq> 0"
  shows "space_measure True (set_pos (\<lambda>p. p\<lparr>block := block p - 1\<rparr>) s) < space_measure True s"
  using assms by (simp add: space_measure_def unat_minus_one unat_gt_0)

function space_fm_loop ::
    "u64 \<Rightarrow> bool \<Rightarrow> u64 \<Rightarrow> filedebug_data \<Rightarrow> int \<times> filedebug_data" where
  "space_fm_loop count back fm_count s =
     (if \<not> back \<and> cur_block s = eod s (cur_part s) then (- EDEV_EOD_DETECTED, s)
      else if \<not> back \<and> cur_block s = last_block s (cur_part s) + 1 then (- EDEV_RW_PERM, s)
      else (case filedebug_make_current_filename (CHR ''F'') s of
        (None, s1) \<Rightarrow> (- EDEV_NO_MEMORY, s1)
      | (Some fname, s1) \<Rightarrow>
     (case filedebug_check_file fname s1 of (ret, s2) \<Rightarrow>
      if ret < 0 then (ret, s2)
      else if 0 < ret \<and> fm_count + 1 = count then
        (if back then (DEVICE_GOOD, s2)
         else (DEVICE_GOOD, set_pos (\<lambda>p. p\<lparr>block := block p + 1\<rparr>) s2))
      else
        (let fm_count' = (if 0 < ret then fm_count + 1 else fm_count)
         in if back then
              (if cur_block s2 = 0 then (- EDEV_BOP_DETECTED, s2)
               else space_fm_loop count back fm_count' (set_pos (\<lambda>p. p\<lparr>block := block p - 1\<rparr>) s2))
            else space_fm_loop count back fm_count' (set_pos (\<lambda>p. p\<lparr>block := block p + 1\<rparr>) s2)))))"
  by pat_completeness auto
termination
proof (relation "measure (\<lambda>(count, back, fm_count, s). space_measure back s)", goal_cases)
  case 1
  show ?case by simp
next
  case (2 count bk fm s nm s1 fname ret s2 fm')
  have same: "current_position s2 = current_position s"
    using check_file_frame [OF sym, OF 2(5)] make_current_filename_frame [OF sym, OF 2(3)] by simp
  have "space_measure True (set_pos (\<lambda>p. p\<lparr>block := block p - 1\<rparr>) s2) < space_measure True s2"
    using 2 by (intro space_measure_back) simp
  then show ?case using 2 same by (simp add: space_measure_def)
next
  case (3 count bk fm s nm s1 fname ret s2 fm')
  have same: "current_position s2 = current_position s" "eod s2 = eod s"
    using check_file_frame [OF sym, OF 3(5)] make_current_filename_frame [OF sym, OF 3(3)]
    by simp_all
  have "space_measure False (set_pos (\<lambda>p. p\<lparr>block := block p + 1\<rparr>) s2) < space_measure False s2"
    using 3 same by (intro space_measure_forward) simp
  then show ?case using 3 same by (simp add: space_measure_def)
qed

declare space_fm_loop.simps [simp del]

definition filedebug_space_fm ::
    "u64 \<Rightarrow> bool \<Rightarrow> filedebug_data \<Rightarrow> int \<times> filedebug_data" where
  "filedebug_space_fm count back s =
     (if count = 0 then (DEVICE_GOOD, s)
      else space_fm_loop count back 0
             (if back \<and> 0 < cur_block s
              then set_pos (\<lambda>p. p\<lparr>block := block p - 1\<rparr>) s else s))"

function space_rec_loop ::
    "u64 \<Rightarrow> bool \<Rightarrow> u64 \<Rightarrow> filedebug_data \<Rightarrow> int \<times> filedebug_data" where
  "space_rec_loop count back rec_count s =
     (if \<not> back \<and> cur_block s = eod s (cur_part s) then (- EDEV_EOD_DETECTED, s)
      else if \<not> back \<and> cur_block s = last_block s (cur_part s) + 1 then (- EDEV_RW_PERM, s)
      else (case filedebug_make_current_filename (CHR ''F'') s of
        (None, s1) \<Rightarrow> (- EDEV_NO_MEMORY, s1)
      | (Some fname, s1) \<Rightarrow>
     (case filedebug_check_file fname s1 of (ret, s2) \<Rightarrow>
      if ret < 0 then (ret, s2)
      else if 0 < ret \<and> (\<not> back \<or> 0 < rec_count) then
        (- EDEV_RW_PERM, if back then s2 else set_pos (\<lambda>p. p\<lparr>block := block p + 1\<rparr>) s2)
      else if back then
        (if cur_block s2 = 0 then (- EDEV_BOP_DETECTED, s2)
         else if rec_count + 1 = count then
           (DEVICE_GOOD, set_pos (\<lambda>p. p\<lparr>block := block p - 1\<rparr>) s2)
         else space_rec_loop count back (rec_count + 1)
                (set_pos (\<lambda>p. p\<lparr>block := block p - 1\<rparr>) s2))
      else if rec_count + 1 = count then
        (DEVICE_GOOD, set_pos (\<lambda>p. p\<lparr>block := block p + 1\<rparr>) s2)
      else space_rec_loop count back (rec_count + 1)
             (set_pos (\<lambda>p. p\<lparr>block := block p + 1\<rparr>) s2))))"
  by pat_completeness auto
termination
proof (relation "measure (\<lambda>(count, back, rec_count, s). space_measure back s)", goal_cases)
  case 1
  show ?case by simp
next
  case (2 count bk rc s nm s1 fname ret s2)
  have same: "current_position s2 = current_position s"
    using check_file_frame [OF sym, OF 2(5)] make_current_filename_frame [OF sym, OF 2(3)] by simp
  have "space_measure True (set_pos (\<lambda>p. p\<lparr>block := block p - 1\<rparr>) s2) < space_measure True s2"
    using 2 by (intro space_measure_back) simp
  then show ?case using 2 same by (simp add: space_measure_def)
next
  case (3 count bk rc s nm s1 fname ret s2)
  have same: "current_position s2 = current_position s" "eod s2 = eod s"
    using check_file_frame [OF sym, OF 3(5)] make_current_filename_frame [OF sym, OF 3(3)]
    by simp_all
  have "space_measure False (set_pos (\<lambda>p. p\<lparr>block := block p + 1\<rparr>) s2) < space_measure False s2"
    using 3 same by (intro space_measure_forward) simp
  then show ?case using 3 same by (simp add: space_measure_def)
qed

declare space_rec_loop.simps [simp del]

definition filedebug_space_rec ::
    "u64 \<Rightarrow> bool \<Rightarrow> filedebug_data \<Rightarrow> int \<times> filedebug_data" where
  "filedebug_space_rec count back s =
     (if count = 0 then (DEVICE_GOOD, s) else space_rec_loop count back 0 s)"

text \<open>
  The commands of \<open>filedebug_space\<close> up to the update of the caller's position. The first
  component tells the early returns of the switch from its breaks.
\<close>

definition space_command ::
    "u64 \<Rightarrow> tc_space_type \<Rightarrow> filedebug_data \<Rightarrow> bool \<times> int \<times> filedebug_data" where
  "space_command count type s =
     (case type of
        TC_SPACE_EOD \<Rightarrow>
          (let s = set_pos (\<lambda>p. p\<lparr>block := eod s (partition p)\<rparr>) s
           in if cur_block s = MISSING_EOD then (True, - EDEV_RW_PERM, s) else (False, 0, s))
      | TC_SPACE_FM_F \<Rightarrow>
          (if cur_block s = MISSING_EOD then (True, - EDEV_RW_PERM, s)
           else (False, filedebug_space_fm count False s))
      | TC_SPACE_FM_B \<Rightarrow>
          (if cur_block s = MISSING_EOD then (True, - EDEV_RW_PERM, s)
           else (False, filedebug_space_fm count True s))
      | TC_SPACE_F \<Rightarrow>
          (if cur_block s = MISSING_EOD then (True, - EDEV_RW_PERM, s)
           else (False, filedebug_space_rec count False s))
      | TC_SPACE_B \<Rightarrow>
          (if cur_block s = MISSING_EOD then (True, - EDEV_RW_PERM, s)
           else (False, filedebug_space_rec count True s)))"

definition filedebug_space ::
    "u64 \<Rightarrow> tc_space_type \<Rightarrow> filedebug_data \<Rightarrow> tc_position \<Rightarrow> int \<times> filedebug_data \<times> tc_position" where
  "filedebug_space count type s pos =
     (if \<not> ready s then (- EDEV_NOT_READY, s, pos)
      else case space_command count type s of
        (True, rc, s) \<Rightarrow> (rc, s, pos)
      | (False, rc, s) \<Rightarrow>
          (let pos = pos\<lparr>block := cur_block s\<rparr>
           in case count_filemarks (blocks_before (cur_block s)) 0 s of
                (None, s) \<Rightarrow> (- EDEV_NO_MEMORY, s, pos)
              | (Some count_fm, s) \<Rightarrow>
                  (let s = set_pos (\<lambda>p. p\<lparr>filemarks := count_fm\<rparr>) s;
                       pos = pos\<lparr>filemarks := cur_fm s\<rparr>
                   in (rc, s, set_p_warning s (set_early_warning s pos)))))"

definition filedebug_readpos ::
    "filedebug_data \<Rightarrow> tc_position \<Rightarrow> int \<times> filedebug_data \<times> tc_position" where
  "filedebug_readpos s pos =
     (if \<not> ready s then (- EDEV_NOT_READY, s, pos)
      else (DEVICE_GOOD, s,
            pos\<lparr>partition := cur_part s, block := cur_block s, filemarks := cur_fm s\<rparr>))"

section \<open>Erasing and formatting\<close>

definition filedebug_erase ::
    "filedebug_data \<Rightarrow> tc_position \<Rightarrow> int \<times> filedebug_data \<times> tc_position" where
  "filedebug_erase s pos =
     (if \<not> ready s then (- EDEV_NOT_READY, s, pos)
      else
        let pos = pos\<lparr>block := cur_block s, filemarks := cur_fm s\<rparr>
        in case filedebug_write_eod s of (ret, s) \<Rightarrow> (ret, s, pos))"

text \<open>The two calls of \<open>filedebug_erase\<close> whose results the callers ignore.\<close>

definition erase_both :: "filedebug_data \<Rightarrow> filedebug_data" where
  "erase_both s =
     (let s = set_pos (\<lambda>p. p\<lparr>partition := 1, block := 0\<rparr>) s;
          s = (case filedebug_erase s (current_position s) of (_, s, _) \<Rightarrow> s);
          s = set_pos (\<lambda>p. p\<lparr>partition := 0, block := 0\<rparr>) s
      in (case filedebug_erase s (current_position s) of (_, s, _) \<Rightarrow> s))"

definition filedebug_setcap :: "filedebug_data \<Rightarrow> int \<times> filedebug_data" where
  "filedebug_setcap s =
     (if cur_part s \<noteq> 0 \<or> cur_block s \<noteq> 0 then (- EDEV_ILLEGAL_REQUEST, s)
      else (DEVICE_GOOD, erase_both (s\<lparr>partitions := 1\<rparr>)))"

definition filedebug_format :: "tc_format_type \<Rightarrow> filedebug_data \<Rightarrow> int \<times> filedebug_data" where
  "filedebug_format format s =
     (if cur_part s \<noteq> 0 \<or> cur_block s \<noteq> 0 then (- EDEV_ILLEGAL_REQUEST, s)
      else case format of
        TC_FORMAT_DEFAULT \<Rightarrow> (DEVICE_GOOD, erase_both (s\<lparr>partitions := 1\<rparr>))
      | TC_FORMAT_PARTITION \<Rightarrow> (DEVICE_GOOD, erase_both (s\<lparr>partitions := 2\<rparr>))
      | TC_FORMAT_DEST_PART \<Rightarrow> (DEVICE_GOOD, erase_both (s\<lparr>partitions := 2\<rparr>))
      | TC_FORMAT_MAX \<Rightarrow> (- EDEV_INVALID_ARG, s))"

section \<open>Opening and loading\<close>

text \<open>
  \<open>dirname\<close> of the C library: the path up to its last component, \<open>.\<close> if there is no
  slash and \<open>/\<close> for the root.
\<close>

definition strip_slashes :: "string \<Rightarrow> string" where
  "strip_slashes p = rev (dropWhile (\<lambda>c. c = CHR ''/'') (rev p))"

definition posix_dirname :: "string \<Rightarrow> string" where
  "posix_dirname p =
     (let q = strip_slashes p;
          r = rev (dropWhile (\<lambda>c. c \<noteq> CHR ''/'') (rev q));
          d = strip_slashes r
      in if p = [] then ''.''
         else if q = [] then ''/''
         else if r = [] then ''.''
         else if d = [] then ''/''
         else d)"

text \<open>
  \<open>filedebug_open\<close> allocates the state (\<open>calloc\<close>, so every field starts at zero), asks
  whether the name is a regular file (which then points to the directory) or a directory,
  and copies the names. The argument \<open>host\<close> is the world before the call.
\<close>

definition fresh_state :: "host \<Rightarrow> filedebug_data" where
  "fresh_state h =
     \<lparr>device_reserved = False, medium_locked = False,
      current_position = \<lparr>block = 0, filemarks = 0, partition = 0, early_warning = False,
        programmable_early_warning = False\<rparr>,
      max_block_size = 0, filename = None, dirbase = None, dirname = None, ready = False,
      last_block = (\<lambda>_. 0), eod = (\<lambda>_. 0), partitions = 0, write_pass_prev = 0,
      write_pass = 0, emulate_readonly = 0, p0_warning = 0, p1_warning = 0, p0_p_warning = 0,
      p1_p_warning = 0, fd_host = h\<rparr>"

definition filedebug_open :: "string \<Rightarrow> host \<Rightarrow> int \<times> filedebug_data option \<times> host" where
  "filedebug_open name h =
     (case host_call h of
        (True, h) \<Rightarrow> (- EDEV_NO_MEMORY, None, h)
      | (False, h) \<Rightarrow>
     (case host_call h of (stat_failed, h) \<Rightarrow>
      if \<not> stat_failed \<and> first_line h name \<noteq> None then
        (case host_call h of
           (True, h) \<Rightarrow> (- EDEV_NO_MEMORY, None, h)
         | (False, h) \<Rightarrow>
        (case host_call h of
           (True, h) \<Rightarrow> (- EDEV_NO_MEMORY, None, h)
         | (False, h) \<Rightarrow>
        (case host_call h of
           (True, h) \<Rightarrow> (- EDEV_NO_MEMORY, None, h)
         | (False, h) \<Rightarrow>
             (0, Some ((fresh_state h)\<lparr>filename := Some name,
                         dirbase := Some (posix_dirname name),
                         max_block_size := 16 * 1024 * 1024\<rparr>), h))))
      else if stat_failed \<or> \<not> is_dir h name then (- LTFS_INVALID_SRC_PATH, None, h)
      else
        (case host_call h of
           (True, h) \<Rightarrow> (- EDEV_NO_MEMORY, None, h)
         | (False, h) \<Rightarrow>
             (0, Some ((fresh_state h)\<lparr>dirname := Some name,
                         max_block_size := 16 * 1024 * 1024\<rparr>), h))))"

text \<open>
  The three checks of one round of \<open>filedebug_search_eod\<close>: an error stops them.
\<close>

fun check_suffixes ::
    "char list \<Rightarrow> host_file \<Rightarrow> int list \<Rightarrow> filedebug_data \<Rightarrow> int \<times> int list \<times> filedebug_data" where
  "check_suffixes [] fname f s = (0, f, s)"
| "check_suffixes (c # cs) fname f s =
     (case filedebug_check_file (with_suffix c fname) s of
        (ret, s) \<Rightarrow> if ret < 0 then (ret, f, s) else check_suffixes cs fname (f @ [ret]) s)"

text \<open>
  The search loop. The first argument counts the rounds left; \<open>None\<close> when none is left,
  which for the \<open>2\<^sup>6\<^sup>4\<close> rounds it is called with means that the block number has gone
  through all its values without the loop ending.
\<close>

fun search_eod_loop ::
    "nat \<Rightarrow> bool \<Rightarrow> bool \<Rightarrow> bool \<Rightarrow> filedebug_data \<Rightarrow> (int \<times> bool \<times> filedebug_data) option" where
  "search_eod_loop n f0 f1 f2 s =
     (if (f0 \<or> f1) \<and> \<not> f2 then
        (if n = 0 then None
         else case filedebug_make_current_filename (CHR ''.'') s of
           (None, s) \<Rightarrow> Some (- EDEV_NO_MEMORY, f2, s)
         | (Some fname, s) \<Rightarrow>
             (case check_suffixes ''RFE'' fname [] s of
                (ret, f, s) \<Rightarrow>
                  if ret < 0 then Some (ret, f2, s)
                  else search_eod_loop (n - 1) (f ! 0 \<noteq> 0) (f ! 1 \<noteq> 0) (f ! 2 \<noteq> 0)
                         (set_pos (\<lambda>p. p\<lparr>block := block p + 1\<rparr>) s)))
      else Some (0, f2, s))"

declare search_eod_loop.simps [simp del]

definition filedebug_search_eod ::
    "u32 \<Rightarrow> filedebug_data \<Rightarrow> (int \<times> filedebug_data) option" where
  "filedebug_search_eod part s =
     (case search_eod_loop (2 ^ 64) True True False
             (set_pos (\<lambda>p. p\<lparr>partition := part, block := 0\<rparr>) s) of
        None \<Rightarrow> None
      | Some (ret, f2, s) \<Rightarrow>
          if ret < 0 then Some (ret, s)
          else
            (let s = set_pos (\<lambda>p. p\<lparr>block := block p - 1\<rparr>) s
             in if \<not> f2 \<and> cur_block s \<noteq> 0
                then Some (DEVICE_GOOD,
                       s\<lparr>last_block := (last_block s)(cur_part s := cur_block s),
                         eod := (eod s)(cur_part s := MISSING_EOD)\<rparr>)
                else (case filedebug_write_eod s of
                        (ret, s) \<Rightarrow> Some (if ret < 0 then ret else DEVICE_GOOD, s))))"

text \<open>
  The first half of \<open>filedebug_load\<close>: the directory of a state opened on a regular file is
  read off that file. \<open>fgets\<close> reads at most 1023 characters.
\<close>

definition resolve_link :: "filedebug_data \<Rightarrow> int \<times> filedebug_data" where
  "resolve_link s =
     (case filename s of
        None \<Rightarrow> (0, s)
      | Some fname \<Rightarrow>
          (case on_host host_call s of (failed, s) \<Rightarrow>
           if failed then (- EDEV_INTERNAL_ERROR, s)
           else (case first_line (fd_host s) fname of
              None \<Rightarrow> (- EDEV_INTERNAL_ERROR, s)
            | Some text \<Rightarrow>
                let line = take 1023 text
                in if line = [] then (- EDEV_INTERNAL_ERROR, s)
                   else
                     let dirlink = (if last line = CHR 0x0A then butlast line else line)
                     in if dirlink = ''empty'' then (- EDEV_NO_MEDIUM, s)
                        else (case on_host host_call s of
                          (True, s) \<Rightarrow> (- EDEV_INTERNAL_ERROR, s\<lparr>dirname := None\<rparr>)
                        | (False, s) \<Rightarrow>
                            (let d = (case dirbase s of Some b \<Rightarrow> b | None \<Rightarrow> ''(null)'')
                                       @ ''/'' @ dirlink;
                                 s = s\<lparr>dirname := Some d\<rparr>
                             in case on_host host_call s of (stat_failed, s) \<Rightarrow>
                                if stat_failed \<or> \<not> is_dir (fd_host s) d
                                then (- EDEV_NO_MEDIUM, s) else (0, s))))))"

definition filedebug_load ::
    "filedebug_data \<Rightarrow> tc_position \<Rightarrow> (int \<times> filedebug_data \<times> tc_position) option" where
  "filedebug_load s pos =
     (if ready s then Some (DEVICE_GOOD, s, pos)
      else case resolve_link s of (ret, s) \<Rightarrow>
      if ret < 0 then Some (ret, s, pos)
      else (case filedebug_search_eod 0 (s\<lparr>ready := True\<rparr>) of
        None \<Rightarrow> None
      | Some (ret, s) \<Rightarrow>
      if ret < 0 then Some (- EDEV_INTERNAL_ERROR, s, pos)
      else (case filedebug_search_eod 1 s of
        None \<Rightarrow> None
      | Some (ret, s) \<Rightarrow>
      if ret < 0 then Some (- EDEV_INTERNAL_ERROR, s, pos)
      else
        let s = (set_pos (\<lambda>p. p\<lparr>partition := 0, block := 0, filemarks := 0\<rparr>) s)
                  \<lparr>partitions := 2\<rparr>;
            pos = pos\<lparr>partition := cur_part s, block := cur_block s, filemarks := cur_fm s\<rparr>
        in case get_wp s of (ret, wp, s) \<Rightarrow>
           if ret \<noteq> 0 then Some (- EDEV_INTERNAL_ERROR, s, pos)
           else Some (DEVICE_GOOD, s\<lparr>write_pass_prev := wp, write_pass := wp\<rparr>, pos))))"

definition filedebug_unload ::
    "filedebug_data \<Rightarrow> tc_position \<Rightarrow> int \<times> filedebug_data \<times> tc_position" where
  "filedebug_unload s pos =
     (let s = (set_pos (\<lambda>p. p\<lparr>partition := 0, block := 0, filemarks := 0\<rparr>) s)\<lparr>ready := False\<rparr>
      in (DEVICE_GOOD, s,
          pos\<lparr>partition := cur_part s, block := cur_block s, filemarks := cur_fm s\<rparr>))"

definition filedebug_loadunload ::
    "bool \<Rightarrow> bool \<Rightarrow> filedebug_data \<Rightarrow> tc_position \<Rightarrow> (int \<times> filedebug_data \<times> tc_position) option" where
  "filedebug_loadunload load hold s pos =
     (if load then filedebug_load s pos else Some (filedebug_unload s pos))"

section \<open>Device state\<close>

definition filedebug_test_unit_ready :: "filedebug_data \<Rightarrow> int" where
  "filedebug_test_unit_ready s = (if \<not> ready s then - EDEV_NEED_INITIALIZE else DEVICE_GOOD)"

definition filedebug_remaining_capacity ::
    "filedebug_data \<Rightarrow> tc_remaining_cap \<Rightarrow> int \<times> tc_remaining_cap" where
  "filedebug_remaining_capacity s cap =
     (if \<not> ready s then (DEVICE_GOOD, cap)
      else
        let cap = cap\<lparr>remaining_p0 := 6 * 1024, max_p0 := 6 * 1024\<rparr>
        in (DEVICE_GOOD,
            if partitions s = 2 then cap\<lparr>remaining_p1 := 6 * 1024, max_p1 := 6 * 1024\<rparr>
            else cap\<lparr>remaining_p1 := 0, max_p1 := 0\<rparr>))"

definition filedebug_reserve_unit :: "filedebug_data \<Rightarrow> int \<times> filedebug_data" where
  "filedebug_reserve_unit s =
     (if device_reserved s then (- EDEV_ILLEGAL_REQUEST, s)
      else (DEVICE_GOOD, s\<lparr>device_reserved := True\<rparr>))"

definition filedebug_release_unit :: "filedebug_data \<Rightarrow> int \<times> filedebug_data" where
  "filedebug_release_unit s = (DEVICE_GOOD, s\<lparr>device_reserved := False\<rparr>)"

definition filedebug_prevent_medium_removal :: "filedebug_data \<Rightarrow> int \<times> filedebug_data" where
  "filedebug_prevent_medium_removal s =
     (if \<not> ready s then (- EDEV_NOT_READY, s) else (DEVICE_GOOD, s\<lparr>medium_locked := True\<rparr>))"

definition filedebug_allow_medium_removal :: "filedebug_data \<Rightarrow> int \<times> filedebug_data" where
  "filedebug_allow_medium_removal s =
     (if \<not> ready s then (- EDEV_NOT_READY, s) else (DEVICE_GOOD, s\<lparr>medium_locked := False\<rparr>))"

definition filedebug_get_eod_status :: "filedebug_data \<Rightarrow> u32 \<Rightarrow> int" where
  "filedebug_get_eod_status s part = (if eod s part = MISSING_EOD then EOD_MISSING else EOD_GOOD)"

definition filedebug_set_compression ::
    "bool \<Rightarrow> filedebug_data \<Rightarrow> tc_position \<Rightarrow> int \<times> filedebug_data \<times> tc_position" where
  "filedebug_set_compression enable s pos =
     (if \<not> ready s then (- EDEV_NOT_READY, s, pos)
      else (DEVICE_GOOD, s, pos\<lparr>block := cur_block s, filemarks := cur_fm s\<rparr>))"

definition filedebug_get_parameters :: "filedebug_data \<Rightarrow> int \<times> tc_drive_param" where
  "filedebug_get_parameters s =
     (DEVICE_GOOD,
      \<lparr>max_blksize = 4 * 1024 * 1024, write_protect_switch = (emulate_readonly s \<noteq> 0),
       logical_write_protect = False\<rparr>)"

definition filedebug_allow_overwrite :: "tc_position \<Rightarrow> filedebug_data \<Rightarrow> int \<times> filedebug_data" where
  "filedebug_allow_overwrite pos s = (DEVICE_GOOD, s)"

definition filedebug_update_mam_attr ::
    "string option \<Rightarrow> u16 \<Rightarrow> string option \<Rightarrow> mam_lockval \<Rightarrow> filedebug_data \<Rightarrow> int \<times> filedebug_data" where
  "filedebug_update_mam_attr vol_name attribute_id barcode_name lockbit s = (DEVICE_GOOD, s)"

end
