(* ===== verification/FileTapeSpec.thy ===== *)
theory FileTapeSpec imports FileTape TapeImage begin

text \<open>
  What the file backend promises: as long as no call of the host fails, the directory holds
  two tapes, each a list of data blocks and filemarks, and every operation does to the list
  under the head what the comments of \<open>src/ltfs/src/libltfs/tape_ops.h\<close> ask of a drive.
\<close>

section \<open>The helpers when no host call fails\<close>

abbreviation files_of :: "filedebug_data \<Rightarrow> host_file \<rightharpoonup> u8 list" where
  "files_of s \<equiv> files (fd_host s)"

abbreviation set_files :: "(host_file \<rightharpoonup> u8 list) \<Rightarrow> filedebug_data \<Rightarrow> filedebug_data" where
  "set_files fs s \<equiv> s\<lparr>fd_host := (fd_host s)\<lparr>files := fs\<rparr>\<rparr>"

definition no_faults :: "filedebug_data \<Rightarrow> bool" where
  "no_faults s \<longleftrightarrow> faults (fd_host s) = []"

lemma no_faults_simps [simp]:
  "no_faults (s\<lparr>fd_host := h\<rparr>) \<longleftrightarrow> faults h = []"
  "faults (fd_host s) = [] \<longleftrightarrow> no_faults s"
  "no_faults (s\<lparr>current_position := p\<rparr>) = no_faults s"
  "no_faults (s\<lparr>write_pass := w\<rparr>) = no_faults s"
  "no_faults (s\<lparr>write_pass_prev := w\<rparr>) = no_faults s"
  "no_faults (s\<lparr>partitions := n\<rparr>) = no_faults s"
  "no_faults (s\<lparr>last_block := l\<rparr>) = no_faults s"
  "no_faults (s\<lparr>eod := l\<rparr>) = no_faults s"
  "no_faults (s\<lparr>ready := r\<rparr>) = no_faults s"
  "no_faults (s\<lparr>device_reserved := r\<rparr>) = no_faults s"
  "no_faults (s\<lparr>medium_locked := r\<rparr>) = no_faults s"
  by (simp_all add: no_faults_def)

lemma dir_of_simps [simp]:
  "dir_of (s\<lparr>fd_host := h\<rparr>) = dir_of s"
  "dir_of (s\<lparr>current_position := p\<rparr>) = dir_of s"
  "dir_of (s\<lparr>write_pass := w\<rparr>) = dir_of s"
  "dir_of (s\<lparr>write_pass_prev := w\<rparr>) = dir_of s"
  "dir_of (s\<lparr>partitions := n\<rparr>) = dir_of s"
  "dir_of (s\<lparr>last_block := l\<rparr>) = dir_of s"
  "dir_of (s\<lparr>eod := l\<rparr>) = dir_of s"
  "dir_of (s\<lparr>ready := r\<rparr>) = dir_of s"
  "dir_of (s\<lparr>device_reserved := r\<rparr>) = dir_of s"
  "dir_of (s\<lparr>medium_locked := r\<rparr>) = dir_of s"
  by (simp_all add: dir_of_def)

named_theorems quiet \<open>closed forms of the helpers when no host call fails\<close>

lemma on_host_quiet [quiet]:
  assumes "no_faults s"
  shows "on_host (host_asprintf n) s = (Some n, s)"
    and "on_host (host_open n) s = (if files_of s n = None then NoEntry else Opened, s)"
    and "on_host (host_create n) s = (True, set_files ((files_of s)(n \<mapsto> [])) s)"
    and "on_host (host_write n buf) s = (True, set_files ((files_of s)(n \<mapsto> buf)) s)"
    and "on_host (host_read n count) s = (map_option (take count) (files_of s n), s)"
    and "on_host host_close s = (True, s)"
    and "on_host (host_unlink n) s = (True, set_files ((files_of s)(n := None)) s)"
  using assms by (simp_all add: on_host_def host_simps)

lemma make_filename_quiet [quiet]:
  "no_faults s \<Longrightarrow> filedebug_make_filename p b c s = (Some (RecordFile (dir_of s) p b c), s)"
  by (simp add: filedebug_make_filename_def quiet)

lemma make_current_filename_quiet [quiet]:
  "no_faults s \<Longrightarrow> filedebug_make_current_filename c s =
     (Some (RecordFile (dir_of s) (cur_part s) (cur_block s) c), s)"
  by (simp add: filedebug_make_current_filename_def quiet)

lemma make_attrname_quiet [quiet]:
  "no_faults s \<Longrightarrow> filedebug_make_attrname p a s = (Some (AttrFile (dir_of s) p a), s)"
  by (simp add: filedebug_make_attrname_def quiet)

lemma check_file_quiet [quiet]:
  "no_faults s \<Longrightarrow> filedebug_check_file n s = (if files_of s n = None then 0 else 1, s)"
  by (simp add: filedebug_check_file_def quiet)

definition del_record ::
    "string \<Rightarrow> u32 \<Rightarrow> u64 set \<Rightarrow> (host_file \<rightharpoonup> u8 list) \<Rightarrow> host_file \<rightharpoonup> u8 list" where
  "del_record d p B fs n =
     (case n of
        RecordFile d' p' b c \<Rightarrow>
          (if d' = d \<and> p' = p \<and> b \<in> B \<and> c \<in> {CHR ''R'', CHR ''F'', CHR ''E''} then None else fs n)
      | AttrFile _ _ _ \<Rightarrow> fs n)"

lemma remove_record_quiet [quiet]:
  assumes "no_faults s"
  shows "filedebug_remove_record p b s = (0, set_files (del_record (dir_of s) p {b} (files_of s)) s)"
proof -
  have "(files_of s)(RecordFile (dir_of s) p b CHR ''R'' := None,
          RecordFile (dir_of s) p b CHR ''F'' := None, RecordFile (dir_of s) p b CHR ''E'' := None)
        = del_record (dir_of s) p {b} (files_of s)"
    by (auto simp: del_record_def fun_eq_iff split: host_file.splits)
  then show ?thesis
    using assms by (simp add: filedebug_remove_record_def quiet)
qed

lemma del_record_del_record:
  "del_record d p A (del_record d p B fs) = del_record d p (A \<union> B) fs"
  by (auto simp: del_record_def fun_eq_iff split: host_file.splits)

lemma remove_records_quiet [quiet]:
  "no_faults s \<Longrightarrow>
     remove_records p bs s = (0, set_files (del_record (dir_of s) p (set bs) (files_of s)) s)"
proof (induction bs arbitrary: s)
  case Nil
  have "del_record (dir_of s) p {} (files_of s) = files_of s"
    by (auto simp: del_record_def fun_eq_iff split: host_file.splits)
  then show ?case by simp
next
  case (Cons b bs)
  then show ?case by (simp add: quiet del_record_del_record Un_commute)
qed

lemma set_blocks_between: "set (blocks_between lo hi) = {b. lo \<le> b \<and> b \<le> hi}"
proof -
  have "b \<in> set (blocks_between lo hi)" if "lo \<le> b" "b \<le> hi" for b
    unfolding blocks_between_def set_map using that
    by (intro image_eqI [of _ _ "unat b"]) (auto simp: word_le_nat_alt)
  moreover have "lo \<le> b \<and> b \<le> hi" if mem: "b \<in> set (blocks_between lo hi)" for b
  proof -
    obtain n where n: "b = of_nat n" "unat lo \<le> n" "n \<le> unat hi"
      using mem by (auto simp: blocks_between_def)
    then have "unat b = n"
      using u64_less_bound [of hi] by (simp add: unat_of_nat)
    then show ?thesis using n by (simp add: word_le_nat_alt)
  qed
  ultimately show ?thesis by auto
qed

lemma missing_eod: "MISSING_EOD = - 1"
  by simp

definition overwritten :: "filedebug_data \<Rightarrow> u64 set" where
  "overwritten s = {b. b = cur_block s \<or>
     (eod s (cur_part s) \<noteq> MISSING_EOD \<and> cur_block s < b \<and> b \<le> eod s (cur_part s))}"

definition eod_files :: "filedebug_data \<Rightarrow> host_file \<rightharpoonup> u8 list" where
  "eod_files s =
     (del_record (dir_of s) (cur_part s) (overwritten s) (files_of s))
       (RecordFile (dir_of s) (cur_part s) (cur_block s) CHR ''E'' \<mapsto> [])"

lemma write_eod_quiet [quiet]:
  assumes "no_faults s" "cur_block s \<noteq> MISSING_EOD"
  shows "filedebug_write_eod s =
    (0, (set_files (eod_files s) s)
          \<lparr>last_block := (last_block s)(cur_part s := cur_block s - 1),
           eod := (eod s)(cur_part s := cur_block s)\<rparr>)"
proof -
  let ?E = "RecordFile (dir_of s) (cur_part s) (cur_block s) CHR ''E''"
  have next_block: "cur_block s + 1 \<le> b \<longleftrightarrow> cur_block s < b" for b
    using assms(2) inc_less_eq_iff [of "cur_block s" b] missing_eod by simp
  have "(del_record (dir_of s) (cur_part s) B
          ((del_record (dir_of s) (cur_part s) A fs)(?E \<mapsto> [])) =
        (del_record (dir_of s) (cur_part s) (A \<union> B) fs)(?E \<mapsto> []))" 
    if "cur_block s \<notin> B" for A B fs
    using that by (auto simp: del_record_def fun_eq_iff split: host_file.splits)
  note this [of "{b. cur_block s < b \<and> b \<le> eod s (cur_part s)}" "{cur_block s}" "files_of s"]
  moreover have "{cur_block s} \<union> {b. cur_block s < b \<and> b \<le> eod s (cur_part s)} = overwritten s"
    if "eod s (cur_part s) \<noteq> MISSING_EOD"
    using that by (auto simp: overwritten_def)
  moreover have "overwritten s = {cur_block s}" if "eod s (cur_part s) = MISSING_EOD"
    using that by (auto simp: overwritten_def)
  ultimately show ?thesis
    using assms(1)
    by (auto simp: filedebug_write_eod_def filedebug_remove_current_record_def Let_def quiet
        set_blocks_between next_block eod_files_def)
qed


lemma set_wp_quiet [quiet]:
  assumes "no_faults s"
  shows "\<exists>v. set_wp w s = (0, set_files ((files_of s)(AttrFile (dir_of s) 0 9 \<mapsto> v)) s)"
proof -
  let ?buf = "\<lambda>i. (ltfs_u16tobe TC_MAM_PAGE_VCR @ [0] @ ltfs_u16tobe TC_MAM_PAGE_VCR_SIZE @
                 ltfs_u32tobe (ucast w)) ! i"
  have "ltfs_betou16 (\<lambda>k. ?buf (0 + k)) = 9" "ltfs_betou16 (\<lambda>k. ?buf (0 + 3 + k)) = 4"
    by (simp_all add: ltfs_betou16_def ltfs_u16tobe_def nth_append)
  then have "set_wp w s = (0, set_files ((files_of s)(AttrFile (dir_of s) 0 9 \<mapsto> map ?buf [0..<9])) s)"
    using assms
    by (simp add: set_wp_def filedebug_write_attribute_def Let_def ltfs_u16tobe_def
        write_attributes.simps [of _ _ _ 0] write_attributes.simps [of _ _ 9 9] quiet)
  then show ?thesis by blast
qed


lemma bump_write_pass_quiet:
  assumes "no_faults s"
  obtains w v where "bump_write_pass s =
    (0, set_files ((files_of s)(AttrFile (dir_of s) 0 9 := v)) (s\<lparr>write_pass := w\<rparr>))"
proof (cases "write_pass_prev s = write_pass s")
  case True
  obtain v where "set_wp (write_pass s + 1) (s\<lparr>write_pass := write_pass s + 1\<rparr>) =
      (0, set_files ((files_of s)(AttrFile (dir_of s) 0 9 \<mapsto> v)) (s\<lparr>write_pass := write_pass s + 1\<rparr>))"
    using set_wp_quiet [of "s\<lparr>write_pass := write_pass s + 1\<rparr>"] assms by auto
  then show thesis
    using True by (intro that) (simp add: bump_write_pass_def)
next
  case False
  then show thesis
    using that [of "files_of s (AttrFile (dir_of s) 0 9)" "write_pass s"]
    by (simp add: bump_write_pass_def)
qed

section \<open>The tapes a directory holds\<close>

definition zone_of :: "u32 \<Rightarrow> nat option" where
  "zone_of w = (if w = 0 then None else Some (unat w))"

definition rec_file :: "filedebug_data \<Rightarrow> u32 \<Rightarrow> u64 \<Rightarrow> char \<Rightarrow> u8 list option" where
  "rec_file s p b c = files_of s (RecordFile (dir_of s) p b c)"

definition record_of :: "tape_item list \<Rightarrow> u64 \<Rightarrow> u8 list option" where
  "record_of xs b =
     (if unat b < length xs then (case xs ! unat b of Data d \<Rightarrow> Some d | Filemark \<Rightarrow> None) else None)"

definition fm_at :: "tape_item list \<Rightarrow> u64 \<Rightarrow> bool" where
  "fm_at xs b \<longleftrightarrow> unat b < length xs \<and> xs ! unat b = Filemark"

text \<open>
  The files of one partition hold the items: block \<open>b\<close> has a data file or a filemark file as
  the item at \<open>b\<close> says, the end of data file stands behind the last item, and no other
  record file exists.
\<close>

definition holds :: "filedebug_data \<Rightarrow> u32 \<Rightarrow> tape_item list \<Rightarrow> bool" where
  "holds s p xs \<longleftrightarrow>
     length xs < 2 ^ 64 - 1 \<and> eod s p = of_nat (length xs) \<and> last_block s p = eod s p - 1 \<and>
     (\<forall>b. rec_file s p b CHR ''R'' = record_of xs b) \<and>
     (\<forall>b. rec_file s p b CHR ''F'' \<noteq> None \<longleftrightarrow> fm_at xs b) \<and>
     (\<forall>b. rec_file s p b CHR ''E'' \<noteq> None \<longleftrightarrow> b = eod s p)"

definition represents :: "filedebug_data \<Rightarrow> tape_image \<Rightarrow> bool" where
  "represents s t \<longleftrightarrow>
     no_faults s \<and> ready s \<and> holds s 0 (items t 0) \<and> holds s 1 (items t 1) \<and>
     cur_part s = head_part t \<and> head_part t \<in> {0, 1} \<and> unat (cur_block s) = head_block t \<and>
     head_block t \<le> length (head_items t) \<and>
     cur_fm s = of_nat (count_fm (take (head_block t) (head_items t))) \<and>
     unat (max_block_size s) = block_limit t \<and>
     zone_of (p0_warning s) = zone t 0 \<and> zone_of (p1_warning s) = zone t 1 \<and>
     zone_of (p0_p_warning s) = p_zone t 0 \<and> zone_of (p1_p_warning s) = p_zone t 1"

text \<open>The caller's position is the position of the head.\<close>

definition mirrors :: "tc_position \<Rightarrow> filedebug_data \<Rightarrow> bool" where
  "mirrors pos s \<longleftrightarrow>
     partition pos = cur_part s \<and> block pos = cur_block s \<and> filemarks pos = cur_fm s"

abbreviation suffixes :: "char set" where
  "suffixes \<equiv> {CHR ''R'', CHR ''F'', CHR ''E''}"

lemma holds_cong:
  assumes "\<And>b c. c \<in> suffixes \<Longrightarrow> rec_file s' p b c = rec_file s p b c" "eod s' p = eod s p"
    "last_block s' p = last_block s p"
  shows "holds s' p xs = holds s p xs"
  using assms by (simp add: holds_def)

lemma holds_eod:
  "holds s p xs \<Longrightarrow> unat (eod s p) = length xs" "holds s p xs \<Longrightarrow> eod s p \<noteq> MISSING_EOD"
proof -
  assume "holds s p xs"
  then have *: "length xs < 2 ^ 64 - 1" "eod s p = of_nat (length xs)" by (simp_all add: holds_def)
  then show 1: "unat (eod s p) = length xs" by (simp add: unat_of_nat)
  show "eod s p \<noteq> MISSING_EOD"
  proof
    assume "eod s p = MISSING_EOD"
    then have "unat (eod s p) = unat MISSING_EOD" by simp
    then show False using 1 * by simp
  qed
qed


lemma holds_files:
  assumes "holds s p xs"
  shows "rec_file s p b CHR ''R'' = record_of xs b"
    and "rec_file s p b CHR ''F'' = None \<longleftrightarrow> \<not> fm_at xs b"
    and "rec_file s p b CHR ''E'' = None \<longleftrightarrow> b \<noteq> eod s p"
  using assms unfolding holds_def by blast+

lemma holds_beyond:
  assumes "holds s p xs" "eod s p < b" "c \<in> suffixes"
  shows "rec_file s p b c = None"
proof -
  have "length xs < unat b"
    using assms(2) holds_eod(1) [OF assms(1)] by (simp add: word_less_nat_alt)
  then have "record_of xs b = None" "\<not> fm_at xs b"
    by (simp_all add: record_of_def fm_at_def)
  then show ?thesis
    using assms(2,3) holds_files [OF assms(1), of b] by auto
qed

definition item_file :: "tape_item option \<Rightarrow> char \<Rightarrow> u8 list option" where
  "item_file x c =
     (case x of None \<Rightarrow> None
      | Some (Data d) \<Rightarrow> if c = CHR ''R'' then Some d else None
      | Some Filemark \<Rightarrow> if c = CHR ''F'' then Some [] else None)"

lemma holds_splice:
  assumes "holds s p xs" "n \<le> length xs" "n + length ys < 2 ^ 64 - 1"
    and "eod s' p = of_nat (n + length ys)" "last_block s' p = eod s' p - 1"
    and below: "\<And>b c. unat b < n \<Longrightarrow> c \<in> suffixes \<Longrightarrow> rec_file s' p b c = rec_file s p b c"
    and above: "\<And>b c. n \<le> unat b \<Longrightarrow> c \<in> suffixes \<Longrightarrow>
      rec_file s' p b c =
        (if unat b < n + length ys then item_file (Some (ys ! (unat b - n))) c
         else if b = eod s' p \<and> c = CHR ''E'' then Some [] else None)"
  shows "holds s' p (take n xs @ ys)"
proof -
  let ?zs = "take n xs @ ys"
  have len: "length ?zs = n + length ys" using assms(2) by simp
  have eod: "unat (eod s' p) = n + length ys"
    using assms(3,4) by (simp add: unat_of_nat del: of_nat_add)
  have ps: "eod s p = of_nat (length xs)" "length xs < 2 ^ 64 - 1"
      "rec_file s p b CHR ''R'' = record_of xs b"
      "rec_file s p b CHR ''F'' \<noteq> None \<longleftrightarrow> fm_at xs b"
      "rec_file s p b CHR ''E'' \<noteq> None \<longleftrightarrow> b = eod s p" for b
    using assms(1) by (simp_all add: holds_def)
  have nth_low: "?zs ! i = xs ! i" if "i < n" for i
    using that assms(2) by (simp add: nth_append)
  have nth_high: "?zs ! i = ys ! (i - n)" if "n \<le> i" for i
    using that assms(2) by (simp add: nth_append)
  have "rec_file s' p b CHR ''R'' = record_of ?zs b" for b
  proof (cases "unat b < n")
    case True
    then show ?thesis using below ps(3) assms(2) by (simp add: record_of_def nth_low)
  next
    case False
    then show ?thesis
      using above [of b "CHR ''R''"] assms(2)
      by (auto simp: record_of_def nth_high item_file_def split: tape_item.splits)
  qed
  moreover have "rec_file s' p b CHR ''F'' \<noteq> None \<longleftrightarrow> fm_at ?zs b" for b
  proof (cases "unat b < n")
    case True
    then show ?thesis using below ps(4) assms(2) by (simp add: fm_at_def nth_low)
  next
    case False
    then show ?thesis
      using above [of b "CHR ''F''"] assms(2)
      by (auto simp: fm_at_def nth_high item_file_def split: tape_item.splits)
  qed
  moreover have "rec_file s' p b CHR ''E'' \<noteq> None \<longleftrightarrow> b = eod s' p" for b
  proof (cases "unat b < n")
    case True
    have "unat (eod s p) = length xs" using ps(1,2) by (simp add: unat_of_nat)
    then have "b \<noteq> eod s p" using True assms(2) by auto
    moreover have "b \<noteq> eod s' p" using True eod by auto
    ultimately show ?thesis using True below ps(5) by simp
  next
    case False
    then show ?thesis
      using above [of b "CHR ''E''"] eod
      by (auto simp: item_file_def split: tape_item.splits)
  qed
  ultimately show ?thesis
    using assms(3,4,5) len by (simp add: holds_def)
qed


definition same_config :: "filedebug_data \<Rightarrow> filedebug_data \<Rightarrow> bool" where
  "same_config s s' \<longleftrightarrow>
     no_faults s' = no_faults s \<and> ready s' = ready s \<and> dir_of s' = dir_of s \<and>
     max_block_size s' = max_block_size s \<and> p0_warning s' = p0_warning s \<and>
     p1_warning s' = p1_warning s \<and> p0_p_warning s' = p0_p_warning s \<and>
     p1_p_warning s' = p1_p_warning s \<and> emulate_readonly s' = emulate_readonly s"

lemma represents_append:
  assumes rep: "represents s t" and room: "Suc (head_block t) < 2 ^ 64 - 1"
    and s': "same_config s s'" "cur_part s' = cur_part s" "cur_block s' = cur_block s + 1"
      "cur_fm s' = cur_fm s + (if x = Filemark then 1 else 0)"
      "eod s' = (eod s)(cur_part s := cur_block s + 1)"
      "last_block s' = (last_block s)(cur_part s := cur_block s)"
    and files: "\<And>q b c. c \<in> suffixes \<Longrightarrow> rec_file s' q b c =
      (if q = cur_part s \<and> b = cur_block s then item_file (Some x) c
       else if q = cur_part s \<and> b = cur_block s + 1 then (if c = CHR ''E'' then Some [] else None)
       else if q = cur_part s \<and> cur_block s < b \<and> b \<le> eod s (cur_part s) then None
       else rec_file s q b c)"
  shows "represents s' (img_append x t)"
proof -
  let ?p = "cur_part s" and ?n = "head_block t"
  let ?xs = "items t ?p"
  have rep': "cur_part s = head_part t" "?p = 0 \<or> ?p = 1" "unat (cur_block s) = ?n"
      "?n \<le> length ?xs" "cur_fm s = of_nat (count_fm (take ?n ?xs))" "holds s ?p ?xs"
    using rep by (auto simp: represents_def)
  have next_block: "unat (cur_block s + 1) = Suc ?n"
    using room rep'(3) by (simp add: unat_add_nowrap)
  have head: "holds s' ?p (take ?n ?xs @ [x])"
  proof (rule holds_splice [OF rep'(6) rep'(4)])
    show "?n + length [x] < 2 ^ 64 - 1" using room by simp
    have "cur_block s = of_nat ?n" using rep'(3) by (metis of_nat_unat ucast_id)
    then show "eod s' ?p = of_nat (?n + length [x])" using s'(5) by simp
    show "last_block s' ?p = eod s' ?p - 1" using s'(5,6) by simp
    show "rec_file s' ?p b c = rec_file s ?p b c" if "unat b < ?n" "c \<in> suffixes" for b c
    proof -
      have "b \<noteq> cur_block s" "b \<noteq> cur_block s + 1" "\<not> cur_block s < b"
        using that(1) rep'(3) next_block by (auto simp: word_less_nat_alt)
      then show ?thesis using files [OF that(2)] by simp
    qed
    show "rec_file s' ?p b c =
        (if unat b < ?n + length [x] then item_file (Some ([x] ! (unat b - ?n))) c
         else if b = eod s' ?p \<and> c = CHR ''E'' then Some [] else None)"
      if low: "?n \<le> unat b" and c: "c \<in> suffixes" for b c
    proof -
      consider "b = cur_block s" | "b = cur_block s + 1" "b \<noteq> cur_block s"
        | "cur_block s < b" "b \<noteq> cur_block s + 1" "b \<noteq> cur_block s"
        using low rep'(3) by (metis word_le_nat_alt order_le_less)
      then show ?thesis
      proof cases
        case 1
        then show ?thesis using files [OF c] rep'(3) by simp
      next
        case 2
        then show ?thesis using files [OF c] next_block s'(5) by simp
      next
        case 3
        have "unat b \<noteq> Suc ?n" using 3(2) next_block by (simp add: word_unat_eq_iff)
        then have "\<not> unat b < ?n + length [x]" using 3(1) rep'(3) by (simp add: word_less_nat_alt)
        moreover have "rec_file s' ?p b c = None"
          using files [OF c, of ?p b] 3 holds_beyond [OF rep'(6), of b c] c by (auto simp: not_le)
        ultimately show ?thesis using 3 s'(5) by simp
      qed
    qed
  qed
  have other: "holds s' q (items t q)" if "q \<noteq> ?p" "holds s q (items t q)" for q
    using that files s'(5,6) holds_cong [of s' q s] by simp
  have "holds s' 0 (items (img_append x t) 0)" "holds s' 1 (items (img_append x t) 1)"
    using head other rep rep'(1,2) by (auto simp: represents_def img_append_def)
  moreover have "take (Suc ?n) (take ?n ?xs @ [x]) = take ?n ?xs @ [x]"
    using rep'(4) by simp
  ultimately show ?thesis
    using s' rep rep' next_block by (auto simp: represents_def img_append_def same_config_def)
qed


lemma set_early_warning_represents:
  assumes "represents s t"
  shows "set_early_warning s pos = pos\<lparr>early_warning := early_warning pos \<or> warned t\<rparr>"
    and "set_p_warning s pos =
      pos\<lparr>programmable_early_warning := programmable_early_warning pos \<or> p_warned t\<rparr>"
    and "set_p_warning_at s pos =
      pos\<lparr>programmable_early_warning := programmable_early_warning pos \<or>
           p_zone t (head_part t) = Some (head_block t)\<rparr>"
proof -
  have block: "ucast w \<le> cur_block s \<longleftrightarrow> unat w \<le> head_block t"
      "cur_block s = ucast w \<longleftrightarrow> unat w = head_block t" for w :: u32
    using assms by (auto simp: represents_def word_le_nat_alt word_unat_eq_iff)
  have "head_part t = 0 \<or> head_part t = 1" and part: "cur_part s = head_part t"
    and zones: "zone t 0 = zone_of (p0_warning s)" "zone t 1 = zone_of (p1_warning s)"
      "p_zone t 0 = zone_of (p0_p_warning s)" "p_zone t 1 = zone_of (p1_p_warning s)"
    using assms by (auto simp: represents_def)
  then show "set_early_warning s pos = pos\<lparr>early_warning := early_warning pos \<or> warned t\<rparr>"
    "set_p_warning s pos =
      pos\<lparr>programmable_early_warning := programmable_early_warning pos \<or> p_warned t\<rparr>"
    "set_p_warning_at s pos =
      pos\<lparr>programmable_early_warning := programmable_early_warning pos \<or>
           p_zone t (head_part t) = Some (head_block t)\<rparr>"
    by (auto simp: set_early_warning_def set_p_warning_def set_p_warning_at_def block in_zone_def
        zone_of_def)
qed

lemma rec_file_simps [simp]:
  "rec_file (s\<lparr>current_position := p\<rparr>) = rec_file s"
  "rec_file (s\<lparr>write_pass := w\<rparr>) = rec_file s"
  "rec_file (s\<lparr>write_pass_prev := w\<rparr>) = rec_file s"
  "rec_file (s\<lparr>partitions := n\<rparr>) = rec_file s"
  "rec_file (s\<lparr>last_block := l\<rparr>) = rec_file s"
  "rec_file (s\<lparr>eod := l\<rparr>) = rec_file s"
  "rec_file (s\<lparr>ready := r\<rparr>) = rec_file s"
  "rec_file (s\<lparr>fd_host := h\<rparr>) = (\<lambda>p b c. files h (RecordFile (dir_of s) p b c))"
  by (auto simp: rec_file_def fun_eq_iff)

lemma del_record_record:
  "del_record d p B fs (RecordFile d' q b c) =
     (if d' = d \<and> q = p \<and> b \<in> B \<and> c \<in> suffixes then None else fs (RecordFile d' q b c))"
  "del_record d p B fs (AttrFile d' q i) = fs (AttrFile d' q i)"
  by (simp_all add: del_record_def)

lemma eod_files_record:
  assumes "c \<in> suffixes"
  shows "eod_files s (RecordFile (dir_of s) q b c) =
    (if q = cur_part s \<and> b = cur_block s then (if c = CHR ''E'' then Some [] else None)
     else if q = cur_part s \<and> eod s (cur_part s) \<noteq> MISSING_EOD \<and> cur_block s < b \<and>
             b \<le> eod s (cur_part s) then None
     else rec_file s q b c)"
  using assms
  by (cases "q = cur_part s"; cases "b = cur_block s")
     (auto simp: eod_files_def del_record_record rec_file_def overwritten_def)

lemma if_shift:
  assumes "\<not> (B \<and> C)" "L \<longleftrightarrow> C \<or> L'" "B \<Longrightarrow> \<not> L"
  shows "(if A \<and> C then x else if A \<and> L' \<and> M then None else if A \<and> B then y else z) =
         (if A \<and> B then y else if A \<and> C then x else if A \<and> L \<and> M then None else z)"
  using assms by auto

lemma advance_represents:
  assumes rep: "represents s t" and room: "Suc (head_block t) < 2 ^ 64 - 1"
    and s3: "same_config s s3" "cur_part s3 = cur_part s" "cur_block s3 = cur_block s + 1"
      "cur_fm s3 = cur_fm s + (if x = Filemark then 1 else 0)" "eod s3 = eod s"
      "last_block s3 = last_block s"
    and files: "\<And>q b c. c \<in> suffixes \<Longrightarrow> rec_file s3 q b c =
      (if q = cur_part s \<and> b = cur_block s then item_file (Some x) c else rec_file s q b c)"
  obtains s4 where "filedebug_write_eod s3 = (0, s4)" and "represents s4 (img_append x t)"
    and "current_position s4 = current_position s3" and "write_pass s4 = write_pass s3"
proof -
  let ?p = "cur_part s" and ?b = "cur_block s"
  have quiet_s: "no_faults s" and blk: "unat ?b = head_block t"
    using rep by (auto simp: represents_def)
  have nb: "unat (?b + 1) = Suc (head_block t)"
    using room blk by (simp add: unat_add_nowrap)
  have nb_ne: "?b + 1 \<noteq> MISSING_EOD" "?b \<noteq> MISSING_EOD" "?b + 1 \<noteq> ?b" "\<not> ?b + 1 < ?b"
    using nb blk room by (auto simp: word_less_nat_alt word_unat_eq_iff)
  have eod_known: "eod s ?p \<noteq> MISSING_EOD"
    using rep holds_eod(2) by (auto simp: represents_def)
  define s4 where "s4 = (set_files (eod_files s3) s3)
      \<lparr>last_block := (last_block s)(?p := ?b), eod := (eod s)(?p := ?b + 1)\<rparr>"
  have quiet_s3: "no_faults s3" using s3(1) quiet_s by (simp add: same_config_def)
  then have "filedebug_write_eod s3 = (0, s4)"
    using nb_ne s3 by (simp add: write_eod_quiet s4_def)
  moreover have "represents s4 (img_append x t)"
  proof (rule represents_append [OF rep room])
    show "same_config s s4"
      using s3(1) quiet_s3 by (simp add: same_config_def s4_def)
    fix q b c assume c: "c \<in> suffixes"
    have 4: "rec_file s4 q b c =
        (if q = ?p \<and> b = ?b + 1 then (if c = CHR ''E'' then Some [] else None)
         else if q = ?p \<and> ?b + 1 < b \<and> b \<le> eod s ?p then None
         else rec_file s3 q b c)"
      using eod_files_record [OF c, of s3 q b] s3 eod_known by (simp add: s4_def)
    have "?b < b \<longleftrightarrow> b = ?b + 1 \<or> ?b + 1 < b"
      using inc_less_eq_iff [of ?b b] nb_ne by (auto simp: le_less missing_eod)
    then show "rec_file s4 q b c =
      (if q = ?p \<and> b = ?b then item_file (Some x) c
       else if q = ?p \<and> b = ?b + 1 then (if c = CHR ''E'' then Some [] else None)
       else if q = ?p \<and> ?b < b \<and> b \<le> eod s ?p then None else rec_file s q b c)"
      unfolding 4 files [OF c] using nb_ne by (intro if_shift) auto
  qed (use s3 in \<open>simp_all add: s4_def\<close>)
  ultimately show thesis by (rule that) (simp_all add: s4_def)
qed

lemma write_represents:
  assumes rep: "represents s t" and pos: "mirrors pos s"
    and buf: "buf \<noteq> []" "length buf \<le> block_limit t" and room: "Suc (head_block t) < 2 ^ 64 - 1"
  obtains s' pos' where "filedebug_write buf s pos = (int (length buf), s', pos')"
    and "represents s' (img_append (Data buf) t)" and "mirrors pos' s'"
    and "early_warning pos' \<longleftrightarrow> early_warning pos \<or> warned (img_append (Data buf) t)"
    and "programmable_early_warning pos' \<longleftrightarrow> programmable_early_warning pos \<or>
           p_zone t (head_part t) = Some (Suc (head_block t))"
proof -
  let ?d = "dir_of s" and ?p = "cur_part s" and ?b = "cur_block s"
  have quiet_s: "no_faults s" and ready: "ready s"
    and limit: "length buf \<le> unat (max_block_size s)"
    using rep buf by (auto simp: represents_def)
  define s1 where "s1 = set_files (del_record ?d ?p {?b} (files_of s)) s"
  obtain w v where bump: "bump_write_pass s1 =
      (0, set_files ((files_of s1)(AttrFile (dir_of s1) 0 9 := v)) (s1\<lparr>write_pass := w\<rparr>))"
    by (rule bump_write_pass_quiet [of s1]) (simp_all add: s1_def quiet_s)
  define s2 where "s2 = set_files ((files_of s1)(AttrFile ?d 0 9 := v)) (s1\<lparr>write_pass := w\<rparr>)"
  define R where "R = RecordFile ?d ?p ?b CHR ''R''"
  define s3 where "s3 = set_pos (\<lambda>p. p\<lparr>block := ?b + 1\<rparr>) (set_files ((files_of s2)(R \<mapsto> buf)) s2)"
  define pos4 where "pos4 = pos\<lparr>block := ?b + 1\<rparr>"
  have s2: "no_faults s2" "dir_of s2 = ?d" "current_position s2 = current_position s"
    by (simp_all add: s2_def s1_def quiet_s)
  obtain s4 where s4: "filedebug_write_eod s3 = (0, s4)" "represents s4 (img_append (Data buf) t)"
    "current_position s4 = current_position s3"
  proof (rule advance_represents [OF rep room, of s3 "Data buf"])
    show "same_config s s3" by (simp add: same_config_def s3_def s2_def s1_def)
    fix q b c assume "c \<in> suffixes"
    then show "rec_file s3 q b c =
        (if q = ?p \<and> b = ?b then item_file (Some (Data buf)) c else rec_file s q b c)"
      by (auto simp: s3_def s2_def s1_def R_def del_record_record rec_file_def item_file_def)
  qed (simp_all add: s3_def s2_def s1_def)
  have "filedebug_remove_current_record s = (0, s1)"
    using quiet_s by (simp add: filedebug_remove_current_record_def quiet s1_def)
  moreover have "bump_write_pass s1 = (0, s2)"
    using bump by (simp add: s2_def s1_def)
  moreover have "s3 = set_pos (\<lambda>p. p\<lparr>block := block p + 1\<rparr>) (set_files ((files_of s2)(R \<mapsto> buf)) s2)"
    using s2 by (simp add: s3_def)
  ultimately have result: "filedebug_write buf s pos =
      (int (length buf), s4, set_p_warning_at s4 (set_early_warning s4 pos4))"
    using ready buf(1) limit s2 s4(1)
    by (simp add: filedebug_write_def quiet pos4_def flip: R_def)
  have head: "head_part (img_append x t) = head_part t" "head_block (img_append x t) = Suc (head_block t)"
    "p_zone (img_append x t) = p_zone t" for x
    by (simp_all add: img_append_def)
  have "mirrors pos4 s4"
    using pos s4(3) by (simp add: mirrors_def pos4_def s3_def s2_def s1_def)
  then show thesis
    using set_early_warning_represents [OF s4(2)] head
    by (intro that [OF result s4(2)]) (simp_all add: mirrors_def pos4_def)
qed


lemma write_filemarks_represents:
  assumes "represents s t" "mirrors pos s" "head_block t + n < 2 ^ 64 - 1"
  obtains s' pos' where "write_filemarks n s pos = (0, s', pos')"
    and "represents s' ((img_append Filemark ^^ n) t)" and "mirrors pos' s'"
    and "early_warning pos' = early_warning pos"
    and "programmable_early_warning pos' = programmable_early_warning pos"
  using assms
proof (induction n arbitrary: s t pos thesis)
  case 0
  then show thesis by simp
next
  case (Suc n)
  let ?d = "dir_of s" and ?p = "cur_part s" and ?b = "cur_block s"
  have quiet_s: "no_faults s" and ready: "ready s"
    using Suc.prems(2) by (auto simp: represents_def)
  define s1 where "s1 = set_files (del_record ?d ?p {?b} (files_of s)) s"
  define F where "F = RecordFile ?d ?p ?b CHR ''F''"
  define s3 where "s3 = set_pos (\<lambda>p. p\<lparr>block := block p + 1, filemarks := filemarks p + 1\<rparr>)
      (set_files ((files_of s1)(F \<mapsto> [])) s1)"
  define pos3 where "pos3 = pos\<lparr>block := cur_block s3, filemarks := cur_fm s3\<rparr>"
  have s1: "no_faults s1" "dir_of s1 = ?d" "current_position s1 = current_position s"
    by (simp_all add: s1_def quiet_s)
  have room: "Suc (head_block t) < 2 ^ 64 - 1" using Suc.prems(4) by simp
  obtain s4 where s4: "filedebug_write_eod s3 = (0, s4)" "represents s4 (img_append Filemark t)"
    "current_position s4 = current_position s3"
  proof (rule advance_represents [OF Suc.prems(2) room, of s3 Filemark])
    show "same_config s s3" by (simp add: same_config_def s3_def s1_def)
    fix q b c assume "c \<in> suffixes"
    then show "rec_file s3 q b c =
        (if q = ?p \<and> b = ?b then item_file (Some Filemark) c else rec_file s q b c)"
      by (auto simp: s3_def s1_def F_def del_record_record rec_file_def item_file_def)
  qed (simp_all add: s3_def s1_def)
  have "mirrors pos3 s4"
    using Suc.prems(3) s4(3) by (simp add: mirrors_def pos3_def s3_def s1_def)
  moreover have "head_block (img_append Filemark t) + n < 2 ^ 64 - 1"
    using Suc.prems(4) by (simp add: img_append_def)
  ultimately obtain s' pos' where s': "write_filemarks n s4 pos3 = (0, s', pos')"
    "represents s' ((img_append Filemark ^^ n) (img_append Filemark t))" "mirrors pos' s'"
    "early_warning pos' = early_warning pos3"
    "programmable_early_warning pos' = programmable_early_warning pos3"
    using Suc.IH [OF _ s4(2)] by blast
  have "filedebug_remove_current_record s = (0, s1)"
    using quiet_s by (simp add: filedebug_remove_current_record_def quiet s1_def)
  then have "write_filemarks (Suc n) s pos = (0, s', pos')"
    using s1 s4(1) s3_def s'(1) by (simp add: quiet pos3_def flip: F_def)
  then show thesis
    by (rule Suc.prems(1) [of s' pos']) (use s' in \<open>simp_all add: pos3_def funpow_swap1\<close>)
qed

lemma writefm_represents:
  assumes rep: "represents s t" and pos: "mirrors pos s" and room: "head_block t + n < 2 ^ 64 - 1"
    and n: "0 < n"
  obtains s' pos' where "filedebug_writefm n s pos = (0, s', pos')"
    and "represents s' ((img_append Filemark ^^ n) t)" and "mirrors pos' s'"
    and "early_warning pos' \<longleftrightarrow> early_warning pos \<or> warned ((img_append Filemark ^^ n) t)"
    and "programmable_early_warning pos' \<longleftrightarrow>
           programmable_early_warning pos \<or> p_warned ((img_append Filemark ^^ n) t)"
proof -
  let ?t = "(img_append Filemark ^^ n) t"
  have quiet_s: "no_faults s" and ready: "ready s" using rep by (auto simp: represents_def)
  obtain w v where bump: "bump_write_pass s =
      (0, set_files ((files_of s)(AttrFile (dir_of s) 0 9 := v)) (s\<lparr>write_pass := w\<rparr>))"
    by (rule bump_write_pass_quiet [OF quiet_s])
  define s1 where "s1 = set_files ((files_of s)(AttrFile (dir_of s) 0 9 := v)) (s\<lparr>write_pass := w\<rparr>)"
  have "rec_file s1 = rec_file s" by (simp add: s1_def fun_eq_iff, simp add: rec_file_def)
  then have "represents s1 t"
    using rep by (simp add: represents_def holds_def) (simp add: s1_def)
  moreover have "mirrors pos s1" using pos by (simp add: mirrors_def s1_def)
  ultimately obtain s' pos' where s': "write_filemarks n s1 pos = (0, s', pos')"
    "represents s' ?t" "mirrors pos' s'" "early_warning pos' = early_warning pos"
    "programmable_early_warning pos' = programmable_early_warning pos"
    using write_filemarks_represents [of s1 t pos n] room by blast
  have "bump_write_pass s = (0, s1)" using bump by (simp only: s1_def)
  then have result: "filedebug_writefm n s pos = (0, s', set_p_warning s' (set_early_warning s' pos'))"
    using ready n s'(1) by (simp add: filedebug_writefm_def)
  show thesis
    using set_early_warning_represents [OF s'(2)] s'
    by (intro that [OF result s'(2)]) (simp_all add: mirrors_def)
qed


section \<open>Reading and moving\<close>

lemma representsD:
  assumes "represents s t"
  shows "no_faults s" "ready s" "cur_part s = head_part t" "unat (cur_block s) = head_block t"
    "head_block t \<le> length (head_items t)" "holds s (head_part t) (head_items t)"
    "cur_fm s = of_nat (count_fm (take (head_block t) (head_items t)))"
    "head_part t = 0 \<or> head_part t = 1"
  using assms by (auto simp: represents_def)

lemma represents_holds: "represents s t \<Longrightarrow> p = 0 \<or> p = 1 \<Longrightarrow> holds s p (items t p)"
  by (auto simp: represents_def)

lemma represents_move:
  assumes rep: "represents s t" and p: "p = 0 \<or> p = 1" and b: "unat b \<le> length (items t p)"
    and pos: "partition q = p" "block q = b" "filemarks q = of_nat (count_fm (take (unat b) (items t p)))"
  shows "represents (s\<lparr>current_position := q\<rparr>) (img_at p (unat b) t)"
  using assms by (auto simp: represents_def holds_def)

lemma count_filemarks_quiet:
  "no_faults s \<Longrightarrow> count_filemarks bs c s =
     (Some (c + of_nat (length (filter (\<lambda>b. rec_file s (cur_part s) b CHR ''F'' \<noteq> None) bs))), s)"
  by (induction bs arbitrary: c) (simp_all add: quiet rec_file_def add.assoc)

lemma count_fm_blocks:
  assumes "n \<le> length xs" "length xs < 2 ^ 64"
  shows "length (filter (fm_at xs) (map of_nat [0..<n])) = count_fm (take n xs)"
  using assms(1)
proof (induction n)
  case (Suc n)
  then have "fm_at xs (of_nat n) \<longleftrightarrow> xs ! n = Filemark"
    using assms(2) by (simp add: fm_at_def unat_of_nat)
  then show ?case
    using Suc by (simp add: take_Suc_conv_app_nth)
qed simp

lemma count_filemarks_before:
  assumes "no_faults s" "holds s (cur_part s) xs" "unat b \<le> length xs"
  shows "count_filemarks (blocks_before b) 0 s = (Some (of_nat (count_fm (take (unat b) xs))), s)"
proof -
  have "(\<lambda>b. rec_file s (cur_part s) b CHR ''F'' \<noteq> None) = fm_at xs"
    using holds_files(2) [OF assms(2)] by auto
  then show ?thesis
    using assms count_fm_blocks [of "unat b" xs]
    by (simp add: count_filemarks_quiet blocks_before_def holds_def)
qed

lemma read_represents:
  assumes rep: "represents s t" and pos: "mirrors pos s"
  shows "head_block t = length (head_items t) \<Longrightarrow>
      filedebug_read n s pos = (- EDEV_EOD_DETECTED, [], s, pos)"
    and "head_block t < length (head_items t) \<Longrightarrow>
      \<exists>s' pos' d. filedebug_read n s pos = (int (length d), d, s', pos') \<and>
        d = (case head_items t ! head_block t of Data d \<Rightarrow> take n d | Filemark \<Rightarrow> []) \<and>
        represents s' (t\<lparr>head_block := Suc (head_block t)\<rparr>) \<and> mirrors pos' s' \<and>
        early_warning pos' = early_warning pos \<and>
        programmable_early_warning pos' = programmable_early_warning pos"
proof -
  note [simp] = representsD(1-4) [OF rep]
  have holds: "holds s (head_part t) (head_items t)" by (rule representsD(6) [OF rep])
  have eod: "unat (eod s (head_part t)) = length (head_items t)" by (rule holds_eod(1) [OF holds])
  {
    assume "head_block t = length (head_items t)"
    then have "eod s (head_part t) = cur_block s" using eod by (simp add: word_unat_eq_iff)
    then show "filedebug_read n s pos = (- EDEV_EOD_DETECTED, [], s, pos)"
      by (simp add: filedebug_read_def)
  }
  assume inside: "head_block t < length (head_items t)"
  have not_eod: "eod s (head_part t) \<noteq> cur_block s" using eod inside by auto
  have nb: "unat (cur_block s + 1) = Suc (head_block t)"
    using inside holds by (simp add: unat_add_nowrap holds_def)
  let ?x = "head_items t ! head_block t"
  let ?name = "RecordFile (dir_of s) (head_part t) (cur_block s)"
  have E: "files_of s (?name CHR ''E'') = None"
    and F: "files_of s (?name CHR ''F'') = None \<longleftrightarrow> ?x \<noteq> Filemark"
    and R: "files_of s (?name CHR ''R'') = (case ?x of Data d \<Rightarrow> Some d | Filemark \<Rightarrow> None)"
    using holds_files [OF holds, of "cur_block s"] not_eod inside
    by (auto simp: rec_file_def fm_at_def record_of_def)
  have fm: "cur_fm s + (if ?x = Filemark then 1 else 0) =
      of_nat (count_fm (take (Suc (head_block t)) (head_items t)))"
    using representsD(7) [OF rep] inside by (simp add: take_Suc_conv_app_nth)
  define s' where "s' = set_pos (\<lambda>p. p\<lparr>block := cur_block s + 1,
      filemarks := cur_fm s + (if ?x = Filemark then 1 else 0)\<rparr>) s"
  define pos' where "pos' = pos\<lparr>block := cur_block s', filemarks := cur_fm s'\<rparr>"
  have "represents s' (img_at (head_part t) (unat (cur_block s + 1)) t)"
    unfolding s'_def
    by (rule represents_move [OF rep representsD(8) [OF rep]])
       (use inside nb fm in \<open>simp_all del: count_fm_simps add: add.commute\<close>)
  then have "represents s' (t\<lparr>head_block := Suc (head_block t)\<rparr>)" using nb by simp
  moreover have "mirrors pos' s'" using pos by (simp add: mirrors_def pos'_def s'_def)
  moreover have "filedebug_read n s pos =
      (let d = (case ?x of Data d \<Rightarrow> take n d | Filemark \<Rightarrow> []) in (int (length d), d, s', pos'))"
    using pos not_eod E F R
    by (cases ?x) (auto simp: filedebug_read_def quiet s'_def pos'_def mirrors_def Let_def)
  ultimately show "\<exists>s' pos' d. filedebug_read n s pos = (int (length d), d, s', pos') \<and>
        d = (case ?x of Data d \<Rightarrow> take n d | Filemark \<Rightarrow> []) \<and>
        represents s' (t\<lparr>head_block := Suc (head_block t)\<rparr>) \<and> mirrors pos' s' \<and>
        early_warning pos' = early_warning pos \<and>
        programmable_early_warning pos' = programmable_early_warning pos"
    by (simp add: Let_def pos'_def)
qed


lemma unat_min: "unat (min a b :: u64) = min (unat a) (unat b)"
  by (simp add: min_def word_le_nat_alt)

lemma locate_represents:
  assumes rep: "represents s t" and p: "partition dest = 0 \<or> partition dest = 1"
  obtains s' pos' where "filedebug_locate dest s pos = (0, s', pos')"
    and "represents s' (img_move (partition dest) (unat (block dest)) t)" and "mirrors pos' s'"
    and "early_warning pos' \<longleftrightarrow>
           early_warning pos \<or> warned (img_move (partition dest) (unat (block dest)) t)"
    and "programmable_early_warning pos' \<longleftrightarrow> programmable_early_warning pos \<or>
           p_warned (img_move (partition dest) (unat (block dest)) t)"
proof -
  let ?p = "partition dest" and ?t = "img_move (partition dest) (unat (block dest)) t"
  let ?xs = "items t ?p"
  note [simp] = representsD(1-4) [OF rep]
  have holds: "holds s ?p ?xs" by (rule represents_holds [OF rep p])
  have eod: "unat (eod s ?p) = length ?xs" "eod s ?p \<noteq> MISSING_EOD"
    using holds_eod [OF holds] by simp_all
  define b where "b = min (block dest) (eod s ?p)"
  have b: "unat b = min (unat (block dest)) (length ?xs)" by (simp add: b_def unat_min eod)
  define fm :: u64 where "fm = of_nat (count_fm (take (unat b) ?xs))"
  define s1 where "s1 = set_pos (\<lambda>p. p\<lparr>partition := ?p, block := b\<rparr>) s"
  define s' where "s' = set_pos (\<lambda>p. p\<lparr>partition := ?p, block := b, filemarks := fm\<rparr>) s"
  define pos1 where "pos1 = pos\<lparr>partition := ?p, block := b, filemarks := fm\<rparr>"
  have "holds s1 ?p ?xs" using holds by (simp add: holds_def s1_def)
  then have "count_filemarks (blocks_before b) 0 s1 = (Some fm, s1)"
    using count_filemarks_before [of s1 ?xs b] b by (simp add: s1_def fm_def)
  moreover have "\<not> MAX_PARTITIONS \<le> ?p" using p by (auto simp: word_le_nat_alt)
  moreover have "b = (if eod s ?p < block dest then eod s ?p else block dest)"
    by (simp add: b_def min_def not_less [symmetric])
  ultimately have result: "filedebug_locate dest s pos =
      (0, s', set_p_warning s' (set_early_warning s' pos1))"
    using eod by (auto simp: filedebug_locate_def Let_def s1_def s'_def pos1_def)
  have rep': "represents s' ?t"
    using represents_move [OF rep p, of b "current_position s'"] b
    by (simp add: s'_def fm_def img_move_def)
  have "mirrors pos1 s'" by (simp add: mirrors_def pos1_def s'_def)
  then show thesis
    using set_early_warning_represents [OF rep']
    by (intro that [OF result rep']) (simp_all add: mirrors_def pos1_def)
qed

lemma locate_bad_partition:
  "ready s \<Longrightarrow> MAX_PARTITIONS \<le> partition dest \<Longrightarrow>
     filedebug_locate dest s pos = (- EDEV_INVALID_ARG, s, pos)"
  by (simp add: filedebug_locate_def)

lemma rewind_represents:
  assumes rep: "represents s t" and pos: "mirrors pos s"
  obtains s' pos' where "filedebug_rewind s pos = (0, s', pos')"
    and "represents s' (t\<lparr>head_block := 0\<rparr>)" and "mirrors pos' s'"
    and "\<not> early_warning pos'" and "\<not> programmable_early_warning pos'"
proof -
  note [simp] = representsD(1-4) [OF rep]
  let ?s = "set_pos (\<lambda>p. p\<lparr>block := 0, filemarks := 0\<rparr>) s"
  have "represents ?s (img_at (head_part t) (unat (0 :: u64)) t)"
    by (rule represents_move [OF rep representsD(8) [OF rep]]) simp_all
  then show thesis
    using pos that [of ?s "pos\<lparr>block := 0, filemarks := 0, early_warning := False,
        programmable_early_warning := False\<rparr>"]
    by (simp add: filedebug_rewind_def mirrors_def)
qed

lemma readpos_represents:
  assumes "represents s t"
  shows "\<exists>pos'. filedebug_readpos s pos = (0, s, pos') \<and> mirrors pos' s \<and>
           early_warning pos' = early_warning pos \<and>
           programmable_early_warning pos' = programmable_early_warning pos"
  using representsD(2) [OF assms] by (simp add: filedebug_readpos_def mirrors_def)

text \<open>Spacing over filemarks.\<close>

lemma holds_set_pos [simp]: "holds (s\<lparr>current_position := q\<rparr>) p xs = holds s p xs"
  by (simp add: holds_def)

lemma space_check:
  assumes "no_faults s" "holds s (cur_part s) xs" "unat (cur_block s) < length xs"
  shows "filedebug_make_current_filename CHR ''F'' s =
           (Some (RecordFile (dir_of s) (cur_part s) (cur_block s) CHR ''F''), s)"
    and "filedebug_check_file (RecordFile (dir_of s) (cur_part s) (cur_block s) CHR ''F'') s =
           (if xs ! unat (cur_block s) = Filemark then 1 else 0, s)"
  using assms holds_files(2) [OF assms(2), of "cur_block s"]
  by (auto simp: quiet rec_file_def fm_at_def)

lemma unat_Suc_less:
  fixes a b :: "'a::len word"
  assumes "unat a < unat b"
  shows "unat (a + 1) = Suc (unat a)"
proof -
  have "unat b < 2 ^ LENGTH('a)" by simp
  then have "Suc (unat a) < 2 ^ LENGTH('a)" using assms by linarith
  then show ?thesis using unat_add_nowrap [of a 1] by (cases "LENGTH('a) = 0") simp_all
qed

lemma space_fm_forward_loop:
  assumes "no_faults s" "holds s (cur_part s) xs" "unat (cur_block s) + m = length xs"
    and "unat fm + Suc n = unat count"
  shows "space_fm_loop count False fm s =
    (case skip_fm (Suc n) (drop (unat (cur_block s)) xs) of
       Some k \<Rightarrow> (0, set_pos (\<lambda>p. p\<lparr>block := block p + of_nat k\<rparr>) s)
     | None \<Rightarrow> (- EDEV_EOD_DETECTED, set_pos (\<lambda>p. p\<lparr>block := eod s (partition p)\<rparr>) s))"
  using assms
proof (induction m arbitrary: s fm n)
  case 0
  then have "cur_block s = eod s (cur_part s)"
    using holds_eod(1) [OF 0(2)] by (simp add: word_unat_eq_iff)
  moreover have "(current_position s)\<lparr>block := eod s (cur_part s)\<rparr> = current_position s"
    by (rule tc_position.equality) (simp_all add: calculation)
  ultimately show ?case using 0 by (simp add: space_fm_loop.simps)
next
  case (Suc m)
  let ?b = "unat (cur_block s)" and ?s = "set_pos (\<lambda>p. p\<lparr>block := block p + 1\<rparr>) s"
  have inside: "?b < length xs" using Suc.prems(3) by simp
  have eod: "cur_block s \<noteq> eod s (cur_part s)" "cur_block s \<noteq> last_block s (cur_part s) + 1"
    using holds_eod(1) [OF Suc.prems(2)] inside Suc.prems(2) by (auto simp: holds_def)
  have nb: "unat (cur_block s + 1) = Suc ?b"
    using unat_Suc_less [of "cur_block s" "eod s (cur_part s)"] holds_eod(1) [OF Suc.prems(2)] inside
    by simp
  have IH: "space_fm_loop count False fm' ?s =
    (case skip_fm (Suc n') (drop (Suc ?b) xs) of
       Some k \<Rightarrow> (0, set_pos (\<lambda>p. p\<lparr>block := block p + of_nat (Suc k)\<rparr>) s)
     | None \<Rightarrow> (- EDEV_EOD_DETECTED, set_pos (\<lambda>p. p\<lparr>block := eod s (partition p)\<rparr>) s))"
    if "unat fm' + Suc n' = unat count" for fm' n'
    using Suc.IH [of ?s fm' n'] Suc.prems that nb
    by (simp add: add.assoc cong: option.case_cong)
  have drop: "drop ?b xs = xs ! ?b # drop (Suc ?b) xs"
    using inside by (rule Cons_nth_drop_Suc [symmetric])
  have fm1: "unat (fm + 1) = Suc (unat fm)"
    using unat_Suc_less [of fm count] Suc.prems(4) by simp
  show ?case
  proof (cases "xs ! ?b")
    case (Data d)
    then show ?thesis
      using IH [of fm n] Suc.prems(4) eod space_check [OF Suc.prems(1,2) inside]
      by (simp add: space_fm_loop.simps [of count False fm s] drop split: option.split)
  next
    case Filemark
    show ?thesis
    proof (cases n)
      case 0
      then have "fm + 1 = count" using fm1 Suc.prems(4) by (simp add: word_unat_eq_iff)
      then show ?thesis
        using 0 Filemark eod space_check [OF Suc.prems(1,2) inside]
        by (simp add: space_fm_loop.simps [of count False fm s] drop)
    next
      case (Suc n')
      then have "fm + 1 \<noteq> count" "unat (fm + 1) + Suc n' = unat count"
        using fm1 Suc.prems(4) by auto
      then show ?thesis
        using Suc IH [of "fm + 1" n'] Filemark eod space_check [OF \<open>no_faults s\<close> Suc.prems(2) inside]
        by (simp add: space_fm_loop.simps [of count False fm s] drop split: option.split)
    qed
  qed
qed


lemma space_fm_back_loop:
  assumes "no_faults s" "holds s (cur_part s) xs" "unat (cur_block s) < length xs"
    and "unat fm + Suc n = unat count"
  shows "space_fm_loop count True fm s =
    (case skip_fm (Suc n) (rev (take (Suc (unat (cur_block s))) xs)) of
       Some k \<Rightarrow> (0, set_pos (\<lambda>p. p\<lparr>block := block p + 1 - of_nat k\<rparr>) s)
     | None \<Rightarrow> (- EDEV_BOP_DETECTED, set_pos (\<lambda>p. p\<lparr>block := 0\<rparr>) s))"
  using assms
proof (induction "unat (cur_block s)" arbitrary: s fm n)
  case 0
  have zero: "cur_block s = 0" using 0(1) by (simp add: unat_eq_zero)
  have fm1: "unat (fm + 1) = Suc (unat fm)"
    using unat_Suc_less [of fm count] 0(5) by simp
  have pos: "(current_position s)\<lparr>block := 0\<rparr> = current_position s"
    by (rule tc_position.equality) (simp_all add: zero)
  obtain x ys where xs: "xs = x # ys" using 0(4) by (cases xs) auto
  show ?case
  proof (cases "n = 0 \<and> x = Filemark")
    case True
    then have "fm + 1 = count" using fm1 0(5) by (simp add: word_unat_eq_iff)
    then show ?thesis
      using True zero pos space_check [OF 0(2-4)] xs
      by (simp add: space_fm_loop.simps [of count True fm s])
  next
    case False
    then have "x \<noteq> Filemark \<or> x = Filemark \<and> fm + 1 \<noteq> count" using fm1 0(5) by auto
    moreover have "skip_fm (Suc n) [x] = None" using False by (cases x; cases n) auto
    ultimately show ?thesis
      using zero pos space_check [OF 0(2-4)] xs
      by (elim disjE) (simp_all add: space_fm_loop.simps [of count True fm s])
  qed
next
  case (Suc m)
  let ?b = "cur_block s" and ?s = "set_pos (\<lambda>p. p\<lparr>block := block p - 1\<rparr>) s"
  have nz: "?b \<noteq> 0" using Suc(2) by auto
  have pb: "unat (?b - 1) = m" using Suc(2) nz by (simp add: unat_minus_one)
  have IH: "space_fm_loop count True fm' ?s =
    (case skip_fm (Suc n') (rev (take (unat ?b) xs)) of
       Some k \<Rightarrow> (0, set_pos (\<lambda>p. p\<lparr>block := block p + 1 - of_nat (Suc k)\<rparr>) s)
     | None \<Rightarrow> (- EDEV_BOP_DETECTED, set_pos (\<lambda>p. p\<lparr>block := 0\<rparr>) s))"
    if "unat fm' + Suc n' = unat count" for fm' n'
    using Suc(1) [of ?s fm' n'] Suc(2-) that pb
    by (simp add: algebra_simps cong: option.case_cong)
  have take: "rev (take (Suc (unat ?b)) xs) = xs ! unat ?b # rev (take (unat ?b) xs)"
    using Suc(5) by (simp add: take_Suc_conv_app_nth)
  have fm1: "unat (fm + 1) = Suc (unat fm)"
    using unat_Suc_less [of fm count] Suc(6) by simp
  show ?case
  proof (cases "xs ! unat ?b")
    case (Data d)
    then show ?thesis
      using IH [of fm n] Suc(6) nz space_check [OF Suc(3-5)]
      by (simp add: space_fm_loop.simps [of count True fm s] take split: option.split)
  next
    case Filemark
    show ?thesis
    proof (cases n)
      case 0
      then have "fm + 1 = count" using fm1 Suc(6) by (simp add: word_unat_eq_iff)
      then show ?thesis
        using 0 Filemark space_check [OF Suc(3-5)]
        by (simp add: space_fm_loop.simps [of count True fm s] take)
    next
      case (Suc n')
      then have "fm + 1 \<noteq> count" "unat (fm + 1) + Suc n' = unat count"
        using fm1 \<open>unat fm + Suc n = unat count\<close> by auto
      then show ?thesis
        using Suc IH [of "fm + 1" n'] Filemark nz
          space_check [OF \<open>no_faults s\<close> \<open>holds s (cur_part s) xs\<close> \<open>unat ?b < length xs\<close>]
        by (simp add: space_fm_loop.simps [of count True fm s] take split: option.split)
    qed
  qed
qed


lemma space_finish:
  assumes rep: "represents s t" and pos: "mirrors pos s" and b: "unat b \<le> length (head_items t)"
    and cmd: "space_command count type s = (False, rc, set_pos (\<lambda>p. p\<lparr>block := b\<rparr>) s)"
  obtains s' pos' where "filedebug_space count type s pos = (rc, s', pos')"
    and "represents s' (t\<lparr>head_block := unat b\<rparr>)" and "mirrors pos' s'"
    and "early_warning pos' \<longleftrightarrow> early_warning pos \<or> warned (t\<lparr>head_block := unat b\<rparr>)"
    and "programmable_early_warning pos' \<longleftrightarrow>
           programmable_early_warning pos \<or> p_warned (t\<lparr>head_block := unat b\<rparr>)"
proof -
  note [simp] = representsD(1-4) [OF rep]
  let ?t = "t\<lparr>head_block := unat b\<rparr>"
  define fm :: u64 where "fm = of_nat (count_fm (take (unat b) (head_items t)))"
  define s1 where "s1 = set_pos (\<lambda>p. p\<lparr>block := b\<rparr>) s"
  define s' where "s' = set_pos (\<lambda>p. p\<lparr>block := b, filemarks := fm\<rparr>) s"
  define pos1 where "pos1 = pos\<lparr>block := b, filemarks := fm\<rparr>"
  have "holds s1 (head_part t) (head_items t)" using representsD(6) [OF rep] by (simp add: s1_def)
  then have "count_filemarks (blocks_before b) 0 s1 = (Some fm, s1)"
    using count_filemarks_before [of s1 "head_items t" b] b by (simp add: s1_def fm_def)
  then have result: "filedebug_space count type s pos =
      (rc, s', set_p_warning s' (set_early_warning s' pos1))"
    using cmd by (simp add: filedebug_space_def s1_def s'_def pos1_def Let_def)
  have "represents s' (img_at (head_part t) (unat b) t)"
    using represents_move [OF rep representsD(8) [OF rep] b, of "current_position s'"]
    by (simp add: s'_def fm_def)
  then have rep': "represents s' ?t" by simp
  have "mirrors pos1 s'" using pos by (simp add: mirrors_def pos1_def s'_def)
  then show thesis
    using set_early_warning_represents [OF rep']
    by (intro that [OF result rep']) (simp_all add: mirrors_def pos1_def)
qed

lemma cur_block_of_nat:
  assumes "represents s t"
  shows "cur_block s = of_nat (head_block t)"
  using representsD(4) [OF assms] by (metis of_nat_unat ucast_id)

lemma not_missing:
  assumes "represents s t"
  shows "cur_block s \<noteq> MISSING_EOD"
proof
  assume "cur_block s = MISSING_EOD"
  then have "head_block t = 2 ^ 64 - 1" using representsD(4) [OF assms] by simp
  then show False using representsD(5,6) [OF assms] by (simp add: holds_def)
qed

lemma space_forward_represents:
  assumes rep: "represents s t" and pos: "mirrors pos s" and count: "count \<noteq> 0"
  obtains s' pos' rc where "filedebug_space count TC_SPACE_FM_F s pos = (rc, s', pos')"
    and "rc = (if skip_fm (unat count) (drop (head_block t) (head_items t)) = None
               then - EDEV_EOD_DETECTED else 0)"
    and "represents s' (t\<lparr>head_block := img_fm_forward (unat count) t\<rparr>)" and "mirrors pos' s'"
    and "early_warning pos' \<longleftrightarrow>
      early_warning pos \<or> warned (t\<lparr>head_block := img_fm_forward (unat count) t\<rparr>)"
    and "programmable_early_warning pos' \<longleftrightarrow> programmable_early_warning pos \<or>
      p_warned (t\<lparr>head_block := img_fm_forward (unat count) t\<rparr>)"
proof -
  note [simp] = representsD(1-4) [OF rep]
  let ?xs = "head_items t" and ?skip = "skip_fm (unat count) (drop (head_block t) (head_items t))"
  have holds: "holds s (head_part t) ?xs" and inside: "head_block t \<le> length ?xs"
    using representsD(5,6) [OF rep] by simp_all
  obtain n where n: "unat count = Suc n"
    using count by (cases "unat count") (auto simp: unat_eq_zero)
  define b :: u64 where "b = of_nat (img_fm_forward (unat count) t)"
  have le: "img_fm_forward (unat count) t \<le> length ?xs"
    using skip_fm_bounds [of "unat count" "drop (head_block t) ?xs"] inside
    by (auto simp: img_fm_forward_def split: option.splits)
  then have b: "unat b = img_fm_forward (unat count) t"
    using holds by (simp add: b_def holds_def unat_of_nat)
  have "cur_block s + of_nat k = b" if "?skip = Some k" for k
    using that cur_block_of_nat [OF rep] by (simp add: b_def img_fm_forward_def)
  moreover have "eod s (head_part t) = b" if "?skip = None"
    using that holds by (simp add: b_def img_fm_forward_def holds_def)
  ultimately have cmd: "space_command count TC_SPACE_FM_F s =
      (False, if ?skip = None then - EDEV_EOD_DETECTED else 0, set_pos (\<lambda>p. p\<lparr>block := b\<rparr>) s)"
    using space_fm_forward_loop [of s ?xs "length ?xs - head_block t" 0 n count]
      not_missing [OF rep] holds inside n count
    by (auto simp: space_command_def filedebug_space_fm_def split: option.splits)
  show thesis
    by (rule space_finish [OF rep pos _ cmd]) (use le b that in auto)
qed


lemma space_back_represents:
  assumes rep: "represents s t" and pos: "mirrors pos s" and count: "count \<noteq> 0"
    and off_start: "0 < head_block t"
  obtains s' pos' rc where "filedebug_space count TC_SPACE_FM_B s pos = (rc, s', pos')"
    and "rc = (if skip_fm (unat count) (rev (take (head_block t) (head_items t))) = None
               then - EDEV_BOP_DETECTED else 0)"
    and "represents s' (t\<lparr>head_block := img_fm_back (unat count) t\<rparr>)" and "mirrors pos' s'"
    and "early_warning pos' \<longleftrightarrow>
      early_warning pos \<or> warned (t\<lparr>head_block := img_fm_back (unat count) t\<rparr>)"
    and "programmable_early_warning pos' \<longleftrightarrow> programmable_early_warning pos \<or>
      p_warned (t\<lparr>head_block := img_fm_back (unat count) t\<rparr>)"
proof -
  note [simp] = representsD(1-4) [OF rep]
  let ?xs = "head_items t" and ?skip = "skip_fm (unat count) (rev (take (head_block t) (head_items t)))"
  have holds: "holds s (head_part t) ?xs" and inside: "head_block t \<le> length ?xs"
    using representsD(5,6) [OF rep] by simp_all
  obtain n where n: "unat count = Suc n"
    using count by (cases "unat count") (auto simp: unat_eq_zero)
  have nz: "cur_block s \<noteq> 0" using off_start representsD(4) [OF rep] by force
  define b :: u64 where "b = of_nat (img_fm_back (unat count) t)"
  have le: "img_fm_back (unat count) t \<le> length ?xs"
    using inside by (auto simp: img_fm_back_def split: option.splits)
  then have b: "unat b = img_fm_back (unat count) t"
    using holds by (simp add: b_def holds_def unat_of_nat)
  have "cur_block s - of_nat k = b" if "?skip = Some k" for k
    using that cur_block_of_nat [OF rep] skip_fm_bounds [OF that] inside
    by (simp add: b_def img_fm_back_def)
  moreover have "b = 0" if "?skip = None"
    using that by (simp add: b_def img_fm_back_def)
  moreover have "unat (cur_block s - 1) = head_block t - 1" using nz by (simp add: unat_minus_one)
  ultimately have cmd: "space_command count TC_SPACE_FM_B s =
      (False, if ?skip = None then - EDEV_BOP_DETECTED else 0, set_pos (\<lambda>p. p\<lparr>block := b\<rparr>) s)"
    using space_fm_back_loop [of "set_pos (\<lambda>p. p\<lparr>block := block p - 1\<rparr>) s" ?xs 0 n count]
      not_missing [OF rep] holds inside n count nz off_start
    by (auto simp: space_command_def filedebug_space_fm_def word_gt_0 split: option.splits)
  show thesis
    by (rule space_finish [OF rep pos _ cmd]) (use le b that in auto)
qed


section \<open>Erasing, formatting and loading\<close>

lemma write_eod_holds:
  assumes quiet_s: "no_faults s" and holds: "holds s (cur_part s) xs"
    and inside: "unat (cur_block s) \<le> length xs"
  obtains s' where "filedebug_write_eod s = (0, s')"
    and "holds s' (cur_part s) (take (unat (cur_block s)) xs)"
    and "\<And>q ys. q \<noteq> cur_part s \<Longrightarrow> holds s' q ys = holds s q ys"
    and "same_config s s'" and "current_position s' = current_position s"
    and "partitions s' = partitions s"
proof -
  let ?p = "cur_part s" and ?b = "cur_block s"
  have not_missing: "eod s ?p \<noteq> MISSING_EOD" "?b \<noteq> MISSING_EOD"
    using holds_eod [OF holds] inside holds by (auto simp: holds_def)
  define s' where "s' = (set_files (eod_files s) s)
      \<lparr>last_block := (last_block s)(?p := ?b - 1), eod := (eod s)(?p := ?b)\<rparr>"
  have files: "rec_file s' q b c =
      (if q = ?p \<and> b = ?b then (if c = CHR ''E'' then Some [] else None)
       else if q = ?p \<and> ?b < b \<and> b \<le> eod s ?p then None else rec_file s q b c)"
    if "c \<in> suffixes" for q b c
    using eod_files_record [OF that, of s q b] not_missing by (simp add: s'_def)
  have result: "filedebug_write_eod s = (0, s')"
    using quiet_s not_missing by (simp add: write_eod_quiet s'_def)
  have "holds s' ?p (take (unat ?b) xs @ [])"
  proof (rule holds_splice [OF holds inside])
    show "unat ?b + length [] < 2 ^ 64 - 1" using inside holds by (simp add: holds_def)
    show "eod s' ?p = of_nat (unat ?b + length [])" by (simp add: s'_def)
    show "last_block s' ?p = eod s' ?p - 1" by (simp add: s'_def)
    show "rec_file s' ?p b c = rec_file s ?p b c" if "unat b < unat ?b" "c \<in> suffixes" for b c
      using files [OF that(2)] that(1) by (auto simp: word_less_nat_alt)
    show "rec_file s' ?p b c =
        (if unat b < unat ?b + length [] then item_file (Some ([] ! (unat b - unat ?b))) c
         else if b = eod s' ?p \<and> c = CHR ''E'' then Some [] else None)"
      if low: "unat ?b \<le> unat b" and c: "c \<in> suffixes" for b c
    proof (cases "b = ?b")
      case True
      then show ?thesis using files [OF c] by (simp add: s'_def)
    next
      case False
      then have "?b < b" using low by (auto simp: word_less_nat_alt word_unat_eq_iff)
      then show ?thesis
        using files [OF c, of ?p b] holds_beyond [OF holds, of b c] c False low
        by (auto simp: s'_def not_le)
    qed
  qed
  moreover have "holds s' q ys = holds s q ys" if "q \<noteq> ?p" for q ys
    using that files holds_cong [of s' q s] by (simp add: s'_def)
  ultimately show thesis
    using quiet_s by (intro that [OF result]) (auto simp: same_config_def s'_def)
qed

lemma erase_represents:
  assumes rep: "represents s t"
  obtains s' pos' where "filedebug_erase s pos = (0, s', pos')" and "represents s' (img_cut t)"
    and "current_position s' = current_position s"
proof -
  note [simp] = representsD(1-4) [OF rep]
  obtain s' where s': "filedebug_write_eod s = (0, s')"
      "holds s' (head_part t) (take (head_block t) (head_items t))"
      "\<And>q ys. q \<noteq> head_part t \<Longrightarrow> holds s' q ys = holds s q ys"
      "same_config s s'" "current_position s' = current_position s"
    by (rule write_eod_holds [of s "head_items t"]) (use representsD(5,6) [OF rep] in simp_all)
  have "represents s' (img_cut t)"
    using s' rep by (auto simp: represents_def img_cut_def same_config_def)
  moreover have "filedebug_erase s pos =
      (0, s', pos\<lparr>block := cur_block s, filemarks := cur_fm s\<rparr>)"
    using s'(1) by (simp add: filedebug_erase_def)
  ultimately show thesis using s'(5) that by blast
qed

lemma erase_both_represents:
  assumes rep: "represents s t" and start: "cur_part s = 0" "cur_block s = 0"
  shows "represents (erase_both s) (img_blank t)"
proof -
  let ?at = "\<lambda>p. set_pos (\<lambda>q. q\<lparr>partition := p, block := 0\<rparr>)"
  have fm: "cur_fm s = 0"
    using representsD(4,7) [OF rep] start by simp
  have "represents (?at 1 s) (img_at 1 (unat (0 :: u64)) t)"
    by (rule represents_move [OF rep]) (simp_all add: fm)
  then obtain s1 pos1 where s1: "filedebug_erase (?at 1 s) (current_position (?at 1 s)) = (0, s1, pos1)"
      "represents s1 (img_cut (img_at 1 0 t))" "current_position s1 = current_position (?at 1 s)"
    by (rule erase_represents) auto
  have "represents (?at 0 s1) (img_at 0 (unat (0 :: u64)) (img_cut (img_at 1 0 t)))"
    by (rule represents_move [OF s1(2)]) (simp_all add: s1(3) fm)
  then obtain s2 pos2 where s2: "filedebug_erase (?at 0 s1) (current_position (?at 0 s1)) = (0, s2, pos2)"
      "represents s2 (img_cut (img_at 0 0 (img_cut (img_at 1 0 t))))"
    by (rule erase_represents) auto
  have "erase_both s = s2"
    using s1(1) s2(1) by (simp add: erase_both_def Let_def)
  moreover have "represents s2 (img_blank t)"
    using s2(2) by (simp add: represents_def img_cut_def img_blank_def)
  ultimately show ?thesis by simp
qed

lemma format_represents:
  assumes rep: "represents s t"
  shows "head_part t \<noteq> 0 \<or> head_block t \<noteq> 0 \<Longrightarrow> filedebug_format f s = (- EDEV_ILLEGAL_REQUEST, s)"
    and "head_part t = 0 \<Longrightarrow> head_block t = 0 \<Longrightarrow> f \<noteq> TC_FORMAT_MAX \<Longrightarrow>
      \<exists>s'. filedebug_format f s = (0, s') \<and> represents s' (img_blank t)"
proof -
  have parts: "represents (s\<lparr>partitions := n\<rparr>) t" for n
    using rep by (simp add: represents_def holds_def)
  assume "head_part t = 0" "head_block t = 0" "f \<noteq> TC_FORMAT_MAX"
  then show "\<exists>s'. filedebug_format f s = (0, s') \<and> represents s' (img_blank t)"
    using erase_both_represents [OF parts] representsD(3,4) [OF rep]
    by (cases f) (auto simp: filedebug_format_def unat_eq_zero)
qed (use representsD(3,4) [OF rep] in \<open>auto simp: filedebug_format_def unat_eq_zero\<close>)


text \<open>The record files of one partition, apart from what the state knows of their end.\<close>

definition records :: "filedebug_data \<Rightarrow> u32 \<Rightarrow> tape_item list \<Rightarrow> bool" where
  "records s p xs \<longleftrightarrow>
     length xs < 2 ^ 64 - 1 \<and>
     (\<forall>b. rec_file s p b CHR ''R'' = record_of xs b) \<and>
     (\<forall>b. rec_file s p b CHR ''F'' \<noteq> None \<longleftrightarrow> fm_at xs b) \<and>
     (\<forall>b. rec_file s p b CHR ''E'' \<noteq> None \<longrightarrow> unat b = length xs)"

text \<open>A partition that can be loaded: it has its end of data file, or is empty.\<close>

definition on_disk :: "filedebug_data \<Rightarrow> u32 \<Rightarrow> tape_item list \<Rightarrow> bool" where
  "on_disk s p xs \<longleftrightarrow>
     records s p xs \<and> (xs = [] \<or> rec_file s p (of_nat (length xs)) CHR ''E'' \<noteq> None)"

lemma on_disk_set_pos [simp]:
  "records (s\<lparr>current_position := q\<rparr>) p xs = records s p xs"
  "on_disk (s\<lparr>current_position := q\<rparr>) p xs = on_disk s p xs"
  by (simp_all add: on_disk_def records_def)

lemma records_files:
  assumes "records s p xs"
  shows "rec_file s p b CHR ''R'' = record_of xs b"
    and "rec_file s p b CHR ''F'' = None \<longleftrightarrow> \<not> fm_at xs b"
    and "unat b \<noteq> length xs \<Longrightarrow> rec_file s p b CHR ''E'' = None"
  using assms unfolding records_def by blast+

lemma holds_on_disk: "holds s p xs \<Longrightarrow> on_disk s p xs"
  by (auto simp: holds_def on_disk_def records_def unat_of_nat)

lemma record_of_end: "length xs \<le> unat b \<Longrightarrow> record_of xs b = None \<and> \<not> fm_at xs b"
  by (simp add: record_of_def fm_at_def)

lemma write_eod_at_end:
  assumes quiet_s: "no_faults s" and recs: "records s (cur_part s) xs"
    and at_end: "cur_block s = of_nat (length xs)"
  obtains s' where "filedebug_write_eod s = (0, s')" and "holds s' (cur_part s) xs"
    and "\<And>q ys. q \<noteq> cur_part s \<Longrightarrow> holds s' q ys = holds s q ys \<and> on_disk s' q ys = on_disk s q ys"
    and "same_config s s'" and "current_position s' = current_position s"
    and "filename s' = filename s"
proof -
  let ?p = "cur_part s" and ?b = "cur_block s"
  have len: "length xs < 2 ^ 64 - 1" using recs by (simp add: records_def)
  then have b: "unat ?b = length xs" using at_end by (simp add: unat_of_nat)
  have not_missing: "?b \<noteq> MISSING_EOD" using b len by auto
  define s' where "s' = (set_files (eod_files s) s)
      \<lparr>last_block := (last_block s)(?p := ?b - 1), eod := (eod s)(?p := ?b)\<rparr>"
  have result: "filedebug_write_eod s = (0, s')"
    using quiet_s not_missing by (simp add: write_eod_quiet s'_def)
  have files: "rec_file s' q b c =
      (if q = ?p \<and> b = ?b then (if c = CHR ''E'' then Some [] else None)
       else if q = ?p \<and> eod s ?p \<noteq> MISSING_EOD \<and> ?b < b \<and> b \<le> eod s ?p then None
       else rec_file s q b c)"
    if "c \<in> suffixes" for q b c
    using eod_files_record [OF that, of s q b] by (simp add: s'_def)
  have above: "length xs < unat x" if "?b < x" for x
    using that b by (simp add: word_less_nat_alt)
  have "rec_file s' ?p x CHR ''R'' = record_of xs x" for x
    using files [of "CHR ''R''" ?p x] records_files(1) [OF recs] above [of x] record_of_end [of xs x] b
    by (auto split: if_splits)
  moreover have "rec_file s' ?p x CHR ''F'' = None \<longleftrightarrow> \<not> fm_at xs x" for x
    using files [of "CHR ''F''" ?p x] records_files(2) [OF recs] above [of x] record_of_end [of xs x] b
    by (auto split: if_splits)
  moreover have "rec_file s' ?p x CHR ''E'' \<noteq> None \<longleftrightarrow> x = ?b" for x
    using files [of "CHR ''E''" ?p x] records_files(3) [OF recs, of x] b
    by (auto simp: word_unat_eq_iff split: if_splits)
  ultimately have "holds s' ?p xs"
    using at_end len by (simp add: holds_def s'_def)
  moreover have "holds s' q ys = holds s q ys \<and> on_disk s' q ys = on_disk s q ys" if "q \<noteq> ?p" for q ys
    using that files holds_cong [of s' q s] by (simp add: s'_def on_disk_def records_def)
  ultimately show thesis
    using quiet_s by (intro that [OF result]) (auto simp: same_config_def s'_def)
qed

lemma check_suffixes_quiet:
  "no_faults s \<Longrightarrow> check_suffixes cs (RecordFile (dir_of s) p b c) f s =
     (0, f @ map (\<lambda>c. if rec_file s p b c = None then 0 else 1) cs, s)"
  by (induction cs arbitrary: f) (simp_all add: quiet rec_file_def)

declare check_suffixes.simps [simp del]

lemma search_eod_loop_end:
  assumes "no_faults s" "on_disk s (cur_part s) xs" "xs \<noteq> []"
    and "unat (cur_block s) + m = length xs" "m < n" "f0 \<or> f1"
  shows "search_eod_loop n f0 f1 False s =
    Some (0, True, set_pos (\<lambda>p. p\<lparr>block := of_nat (length xs) + 1\<rparr>) s)"
  using assms
proof (induction m arbitrary: s n f0 f1)
  case 0
  let ?b = "cur_block s"
  have recs: "records s (cur_part s) xs" using 0 by (simp add: on_disk_def)
  have b: "?b = of_nat (length xs)" using 0(4) by (metis add_0_right of_nat_unat ucast_id)
  obtain y where E: "rec_file s (cur_part s) ?b CHR ''E'' = Some y"
    using 0(2,3) unfolding on_disk_def b by blast
  have "rec_file s (cur_part s) ?b CHR ''R'' = None" "rec_file s (cur_part s) ?b CHR ''F'' = None"
    using records_files(1,2) [OF recs, of ?b] record_of_end [of xs ?b] 0(4) by auto
  then show ?case
    using 0 E b
    by (simp add: search_eod_loop.simps [of n f0 f1 False] search_eod_loop.simps [of _ False False True]
        quiet check_suffixes_quiet)
next
  case (Suc m)
  let ?b = "cur_block s" and ?s = "set_pos (\<lambda>p. p\<lparr>block := block p + 1\<rparr>) s"
  have recs: "records s (cur_part s) xs" and inside: "unat ?b < length xs"
    using Suc.prems by (auto simp: on_disk_def)
  have len: "length xs < 2 ^ 64 - 1" using recs by (simp add: records_def)
  have nb: "unat (?b + 1) = Suc (unat ?b)" using inside len by (simp add: unat_add_nowrap)
  have E: "rec_file s (cur_part s) ?b CHR ''E'' = None"
    using records_files(3) [OF recs, of ?b] inside by simp
  have data: "rec_file s (cur_part s) ?b CHR ''R'' \<noteq> None \<or> rec_file s (cur_part s) ?b CHR ''F'' \<noteq> None"
    using records_files(1,2) [OF recs, of ?b] inside
    by (cases "xs ! unat ?b") (simp_all add: record_of_def fm_at_def)
  have "on_disk ?s (cur_part ?s) xs" using Suc.prems(2) by (simp add: on_disk_def records_def)
  then have IH: "search_eod_loop (n - 1) g0 g1 False ?s =
      Some (0, True, set_pos (\<lambda>p. p\<lparr>block := of_nat (length xs) + 1\<rparr>) s)" if "g0 \<or> g1" for g0 g1
    using Suc.IH [of ?s "n - 1" g0 g1] Suc.prems nb that by simp
  show ?case
    using Suc.prems E data IH
    by (auto simp: search_eod_loop.simps [of n f0 f1 False s] quiet check_suffixes_quiet)
qed

lemma search_eod_on_disk:
  assumes quiet_s: "no_faults s" and disk: "on_disk s p xs"
  obtains s' where "filedebug_search_eod p s = Some (0, s')" and "holds s' p xs"
    and "\<And>q ys. q \<noteq> p \<Longrightarrow> holds s' q ys = holds s q ys \<and> on_disk s' q ys = on_disk s q ys"
    and "same_config s s'" and "filename s' = filename s"
proof -
  define s0 where "s0 = set_pos (\<lambda>q. q\<lparr>partition := p, block := 0\<rparr>) s"
  have len: "length xs < 2 ^ 64 - 1" and recs: "records s p xs"
    using disk by (simp_all add: on_disk_def records_def)
  have disk0: "on_disk s0 (cur_part s0) xs" and quiet_0: "no_faults s0"
    using disk quiet_s by (simp_all add: s0_def on_disk_def records_def)
  define s1 where "s1 = set_pos (\<lambda>q. q\<lparr>partition := p, block := of_nat (length xs)\<rparr>) s"
  obtain s' where s': "filedebug_write_eod s1 = (0, s')" "holds s' p xs"
    "\<And>q ys. q \<noteq> p \<Longrightarrow> holds s' q ys = holds s1 q ys \<and> on_disk s' q ys = on_disk s1 q ys"
    "same_config s1 s'" "filename s' = filename s1"
    by (rule write_eod_at_end [of s1 xs])
       (use quiet_s recs in \<open>simp_all add: s1_def records_def\<close>)
  have "filedebug_search_eod p s = Some (0, s')"
  proof (cases "xs = []")
    case True
    have none: "rec_file s p 0 CHR ''R'' = None" "rec_file s p 0 CHR ''F'' = None"
      using records_files(1,2) [OF recs, of 0] True by (auto simp: record_of_def fm_at_def)
    have "search_eod_loop n True True False s0 =
        Some (0, rec_file s p 0 CHR ''E'' \<noteq> None, set_pos (\<lambda>q. q\<lparr>partition := p, block := 1\<rparr>) s)"
      if "0 < n" for n
      using quiet_0 none that
      by (simp add: search_eod_loop.simps [of n] search_eod_loop.simps [of _ False False]
          quiet check_suffixes_quiet) (simp add: s0_def)
    then show ?thesis
      using s'(1) True by (auto simp: filedebug_search_eod_def s0_def s1_def)
  next
    case False
    have "search_eod_loop (2 ^ 64) True True False s0 =
        Some (0, True, set_pos (\<lambda>q. q\<lparr>block := of_nat (length xs) + 1\<rparr>) s0)"
      by (rule search_eod_loop_end [OF quiet_0 disk0 False, where m = "length xs"])
         (use len in \<open>simp_all add: s0_def\<close>)
    then show ?thesis
      using s'(1) by (simp add: filedebug_search_eod_def s0_def s1_def)
  qed
  then show thesis
    by (rule that [OF _ s'(2)]) (use s'(3-) in \<open>simp_all add: s1_def same_config_def\<close>)
qed


lemma get_wp_quiet:
  assumes "no_faults s"
  obtains w v where "get_wp s = (0, w, set_files ((files_of s)(AttrFile (dir_of s) 0 9 := v)) s)"
proof (cases "files_of s (AttrFile (dir_of s) 0 9)")
  case None
  obtain v where "set_wp 1 s = (0, set_files ((files_of s)(AttrFile (dir_of s) 0 9 \<mapsto> v)) s)"
    using set_wp_quiet [OF assms] by blast
  then have "get_wp s = (0, 0, set_files ((files_of s)(AttrFile (dir_of s) 0 9 := Some v)) s)"
    using assms None by (simp add: get_wp_def filedebug_read_attribute_def quiet)
  then show thesis by (rule that)
next
  case (Some a)
  have "(files_of s)(AttrFile (dir_of s) 0 9 := Some a) = files_of s"
    using Some by auto
  then have "get_wp s = (0, ucast (ltfs_betou32 (\<lambda>i. (take 9 a @ replicate 9 0) ! (5 + i))),
      set_files ((files_of s)(AttrFile (dir_of s) 0 9 := Some a)) s)"
    using assms Some by (simp add: get_wp_def filedebug_read_attribute_def quiet)
  then show thesis by (rule that)
qed

definition loaded_image :: "filedebug_data \<Rightarrow> tape_item list \<Rightarrow> tape_item list \<Rightarrow> tape_image" where
  "loaded_image s xs ys =
     \<lparr>items = (\<lambda>p. if p = 0 then xs else ys), head_part = 0, head_block = 0,
      block_limit = unat (max_block_size s),
      zone = (\<lambda>p. if p = 0 then zone_of (p0_warning s) else zone_of (p1_warning s)),
      p_zone = (\<lambda>p. if p = 0 then zone_of (p0_p_warning s) else zone_of (p1_p_warning s))\<rparr>"

lemma load_represents:
  assumes quiet_s: "no_faults s" and idle: "\<not> ready s" and direct: "filename s = None"
    and disk: "on_disk s 0 xs" "on_disk s 1 ys"
  obtains s' pos' where "filedebug_load s pos = Some (0, s', pos')"
    and "represents s' (loaded_image s xs ys)" and "mirrors pos' s'" and "partitions s' = 2"
    and "emulate_readonly s' = emulate_readonly s"
    and "early_warning pos' = early_warning pos"
    and "programmable_early_warning pos' = programmable_early_warning pos"
proof -
  define s1 where "s1 = s\<lparr>ready := True\<rparr>"
  have disk1: "on_disk s1 0 xs" "on_disk s1 1 ys"
    using disk by (simp_all add: s1_def on_disk_def records_def)
  obtain s2 where s2: "filedebug_search_eod 0 s1 = Some (0, s2)" "holds s2 0 xs"
    "\<And>q ys. q \<noteq> 0 \<Longrightarrow> holds s2 q ys = holds s1 q ys \<and> on_disk s2 q ys = on_disk s1 q ys"
    "same_config s1 s2"
    by (rule search_eod_on_disk [OF _ disk1(1)]) (use quiet_s in \<open>simp_all add: s1_def\<close>)
  have s2': "on_disk s2 1 ys" "no_faults s2"
    using s2(3) [of 1 ys] s2(4) disk1(2) quiet_s by (simp_all add: same_config_def s1_def)
  obtain s3 where s3: "filedebug_search_eod 1 s2 = Some (0, s3)" "holds s3 1 ys"
    "\<And>q ys. q \<noteq> 1 \<Longrightarrow> holds s3 q ys = holds s2 q ys \<and> on_disk s3 q ys = on_disk s2 q ys"
    "same_config s2 s3"
    by (rule search_eod_on_disk [OF s2'(2,1)]) simp_all
  define s4 where "s4 = (set_pos (\<lambda>p. p\<lparr>partition := 0, block := 0, filemarks := 0\<rparr>) s3)
      \<lparr>partitions := 2\<rparr>"
  have conf: "no_faults s3" "ready s3" "dir_of s3 = dir_of s" "max_block_size s3 = max_block_size s"
    "p0_warning s3 = p0_warning s" "p1_warning s3 = p1_warning s"
    "p0_p_warning s3 = p0_p_warning s" "p1_p_warning s3 = p1_p_warning s"
    using s2(4) s3(4) quiet_s by (simp_all add: same_config_def s1_def)
  obtain w v where wp: "get_wp s4 =
      (0, w, set_files ((files_of s4)(AttrFile (dir_of s4) 0 9 := v)) s4)"
    by (rule get_wp_quiet [of s4]) (simp_all add: s4_def conf)
  define s5 where "s5 = set_files ((files_of s4)(AttrFile (dir_of s4) 0 9 := v)) s4"
  define s6 where "s6 = s5\<lparr>write_pass_prev := w, write_pass := w\<rparr>"
  define pos' where "pos' = pos\<lparr>partition := 0, block := 0, filemarks := 0\<rparr>"
  have "get_wp s4 = (0, w, s5)" using wp by (simp only: s5_def)
  then have result: "filedebug_load s pos = Some (0, s6, pos')"
    using idle direct s2(1) s3(1)
    by (simp add: filedebug_load_def resolve_link_def s6_def pos'_def flip: s1_def s4_def)
  have files: "rec_file s6 = rec_file s3"
    by (simp add: s6_def s5_def s4_def fun_eq_iff) (simp add: rec_file_def)
  have "holds s6 0 xs" "holds s6 1 ys"
    using s3(2) s3(3) [of 0 xs] s2(2) files holds_cong [of s6 _ s3]
    by (simp_all add: s6_def s5_def s4_def)
  then have "represents s6 (loaded_image s xs ys)"
    using conf by (simp add: represents_def loaded_image_def) (simp add: s6_def s5_def s4_def conf)
  moreover have "mirrors pos' s6" by (simp add: mirrors_def pos'_def s6_def s5_def s4_def)
  moreover have "partitions s6 = 2" "emulate_readonly s6 = emulate_readonly s"
    using s2(4) s3(4) by (simp_all add: s6_def s5_def s4_def same_config_def s1_def)
  ultimately show thesis
    by (rule that [OF result]) (simp_all add: pos'_def)
qed

lemma unload_load_represents:
  assumes rep: "represents s t" and direct: "filename s = None"
  obtains s1 pos1 s2 pos2 where "filedebug_unload s pos = (0, s1, pos1)"
    and "filedebug_test_unit_ready s1 = - EDEV_NEED_INITIALIZE"
    and "filedebug_load s1 pos1 = Some (0, s2, pos2)"
    and "represents s2 (loaded_image s (items t 0) (items t 1))" and "mirrors pos2 s2"
proof -
  define s1 where "s1 = (set_pos (\<lambda>p. p\<lparr>partition := 0, block := 0, filemarks := 0\<rparr>) s)\<lparr>ready := False\<rparr>"
  define pos1 where "pos1 = pos\<lparr>partition := 0, block := 0, filemarks := 0\<rparr>"
  have "on_disk s 0 (items t 0)" "on_disk s 1 (items t 1)"
    using rep holds_on_disk by (auto simp: represents_def)
  then have "on_disk s1 0 (items t 0)" "on_disk s1 1 (items t 1)"
    by (simp_all add: s1_def on_disk_def records_def)
  moreover have "no_faults s1" "\<not> ready s1" "filename s1 = None"
    using representsD(1) [OF rep] direct by (simp_all add: s1_def)
  ultimately obtain s2 pos2 where "filedebug_load s1 pos1 = Some (0, s2, pos2)"
    "represents s2 (loaded_image s1 (items t 0) (items t 1))" "mirrors pos2 s2"
    using load_represents by metis
  moreover have "loaded_image s1 = loaded_image s" by (simp add: fun_eq_iff loaded_image_def s1_def)
  ultimately show thesis
    by (intro that [of s1 pos1 s2 pos2])
       (simp_all add: filedebug_unload_def filedebug_test_unit_ready_def s1_def pos1_def)
qed

end
