(* ===== verification/FileDrive.thy ===== *)
theory FileDrive imports IndexStream FileTapeSpec begin

text \<open>
  The file backend as a drive: its table of operations (\<open>filedebug_handler\<close> in
  \<open>src/ltfs/src/tape_drivers/generic/file/filedebug_tc.c\<close>), the proof that it keeps the
  contract of the tape layer, and what the tape layer then does to the directory.
\<close>

definition filedebug_modesense :: "u8 \<Rightarrow> u8 \<Rightarrow> nat \<Rightarrow> filedebug_data \<Rightarrow> int \<times> u8 list" where
  "filedebug_modesense page subpage n s = (DEVICE_GOOD, replicate n 0)"

definition filedebug_set_key ::
    "u8 list option \<Rightarrow> u8 list option \<Rightarrow> filedebug_data \<Rightarrow> int \<times> filedebug_data" where
  "filedebug_set_key keyalias key s = (- EDEV_UNSUPPORTED_FUNCTION, s)"

definition filedebug_handler :: "filedebug_data tape_ops" where
  "filedebug_handler =
     \<lparr>op_reserve_unit = filedebug_reserve_unit,
      op_release_unit = filedebug_release_unit,
      op_prevent_medium_removal = filedebug_prevent_medium_removal,
      op_allow_medium_removal = filedebug_allow_medium_removal,
      op_test_unit_ready = (\<lambda>s. (filedebug_test_unit_ready s, s)),
      op_read = filedebug_read,
      op_write = filedebug_write,
      op_writefm = filedebug_writefm,
      op_rewind = filedebug_rewind,
      op_locate = filedebug_locate,
      op_space = filedebug_space,
      op_erase = (\<lambda>_. filedebug_erase),
      op_load = filedebug_load,
      op_unload = filedebug_unload,
      op_loadunload = filedebug_loadunload,
      op_readpos = filedebug_readpos,
      op_setcap = (\<lambda>_. filedebug_setcap),
      op_format = filedebug_format,
      op_remaining_capacity = filedebug_remaining_capacity,
      op_modesense = filedebug_modesense,
      op_modeselect = (\<lambda>_ s. (DEVICE_GOOD, s)),
      op_read_attribute = filedebug_read_attribute,
      op_write_attribute = (\<lambda>part buf. filedebug_write_attribute part (\<lambda>i. buf ! i) (length buf)),
      op_allow_overwrite = filedebug_allow_overwrite,
      op_set_compression = filedebug_set_compression,
      op_set_default = (\<lambda>s. (DEVICE_GOOD, s)),
      op_get_tape_alert = (\<lambda>_. (DEVICE_GOOD, 0)),
      op_get_parameters = filedebug_get_parameters,
      op_get_eod_status = filedebug_get_eod_status,
      op_set_key = filedebug_set_key,
      op_get_keyalias = (\<lambda>_. (- EDEV_UNSUPPORTED_FUNCTION, [])),
      op_update_mam_attr = filedebug_update_mam_attr,
      op_close = (\<lambda>_. 0)\<rparr>"

interpretation fd: tape_drive filedebug_handler represents mirrors
proof (unfold_locales, goal_cases)
  case (1 b t pos)
  then show ?case
    using representsD(3) [OF 1(1)] cur_block_of_nat [OF 1(1)] by (simp add: mirrors_def)
next
  case (2 b t)
  then show ?case using representsD(5,8) [OF 2] by simp
next
  case (3 b t p)
  then show ?case using represents_holds [OF 3] by (simp add: holds_def)
next
  case (4 b t pos buf)
  obtain s' pos' where "filedebug_write buf b pos = (int (length buf), s', pos')"
    "represents s' (img_append (Data buf) t)" "mirrors pos' s'"
    "early_warning pos' \<longleftrightarrow> early_warning pos \<or> warned (img_append (Data buf) t)"
    "programmable_early_warning pos' \<longleftrightarrow> programmable_early_warning pos \<or>
       p_zone t (head_part t) = Some (Suc (head_block t))"
    by (rule write_represents [OF 4])
  then show ?case by (auto simp: filedebug_handler_def img_append_def in_zone_def)
next
  case (5 b t pos n)
  obtain s' pos' where "filedebug_writefm n b pos = (0, s', pos')"
    "represents s' ((img_append Filemark ^^ n) t)" "mirrors pos' s'"
    "early_warning pos' \<longleftrightarrow> early_warning pos \<or> warned ((img_append Filemark ^^ n) t)"
    "programmable_early_warning pos' \<longleftrightarrow>
       programmable_early_warning pos \<or> p_warned ((img_append Filemark ^^ n) t)"
    by (rule writefm_represents [OF 5(1,2,4,3)])
  then show ?case by (auto simp: filedebug_handler_def)
next
  case (6 b t pos n)
  then show ?case using read_represents(1) [OF 6(1,2)] by (simp add: filedebug_handler_def)
next
  case (7 b t pos n)
  then show ?case using read_represents(2) [OF 7(1,2)] by (simp add: filedebug_handler_def)
next
  case (8 b t dest pos)
  obtain s' pos' where "filedebug_locate dest b pos = (0, s', pos')"
    "represents s' (img_move (partition dest) (unat (block dest)) t)" "mirrors pos' s'"
    "early_warning pos' \<longleftrightarrow>
       early_warning pos \<or> warned (img_move (partition dest) (unat (block dest)) t)"
    "programmable_early_warning pos' \<longleftrightarrow> programmable_early_warning pos \<or>
       p_warned (img_move (partition dest) (unat (block dest)) t)"
    by (rule locate_represents [OF 8])
  then show ?case by (auto simp: filedebug_handler_def)
next
  case (9 b t pos p)
  then show ?case by (simp add: filedebug_handler_def filedebug_allow_overwrite_def)
qed


lemma write_attribute_quiet:
  assumes "no_faults s" "single_attribute buf"
  shows "filedebug_write_attribute p (\<lambda>i. buf ! i) (length buf) s =
    (0, set_files ((files_of s)(AttrFile (dir_of s) p (attribute_id buf) \<mapsto> buf)) s)"
proof -
  have len: "0 < length buf" "unat (ltfs_betou16 (\<lambda>i. buf ! (3 + i))) + 5 = length buf"
    using assms(2) by (auto simp: single_attribute_def)
  have "map (\<lambda>i. buf ! i) [0..<length buf] = buf" by (rule map_nth)
  then show ?thesis
    using assms(1) len
    by (simp add: filedebug_write_attribute_def Let_def quiet attribute_id_def
        write_attributes.simps [of _ _ _ 0] write_attributes.simps [of _ _ "length buf" "length buf"])
qed

lemma represents_attr [simp]:
  "represents (set_files ((files_of s)(AttrFile d p a := v)) s) t = represents s t"
  by (simp add: represents_def holds_def) (simp add: rec_file_def)

interpretation fdm: tape_drive_memory filedebug_handler represents mirrors
proof (unfold_locales, goal_cases)
  case (1 b t pos buf p)
  let ?s = "set_files ((files_of b)(AttrFile (dir_of b) p (attribute_id buf) \<mapsto> buf)) b"
  have quiet_b: "no_faults b" using representsD(1) [OF 1(1)] .
  have "filedebug_read_attribute p (attribute_id buf) n ?s = (0, take n buf, ?s)" for n
    using quiet_b by (simp add: filedebug_read_attribute_def quiet)
  moreover have "mirrors pos ?s" using 1(2) by (simp add: mirrors_def)
  moreover have "represents ?s t" using 1(1) by simp
  ultimately show ?case
    using write_attribute_quiet [OF quiet_b 1(3)] by (auto simp: filedebug_handler_def)
qed


interpretation fds: tape_drive_marks filedebug_handler represents mirrors
proof (unfold_locales, goal_cases)
  case (1 b t pos)
  have "rev (take (head_block t) (head_items t)) = Filemark # rev (take (head_block t - 1) (head_items t))"
    using 1(3,4) representsD(5) [OF 1(1)]
    by (cases "head_block t") (simp_all add: take_Suc_conv_app_nth)
  then have "skip_fm (unat (1 :: u64)) (rev (take (head_block t) (head_items t))) = Some 1"
    by simp
  then have skip: "img_fm_back 1 t = head_block t - 1" "skip_fm 1 (rev (take (head_block t) (head_items t))) \<noteq> None"
    by (simp_all add: img_fm_back_def)
  have one: "unat (1 :: u64) = 1" "(1 :: u64) \<noteq> 0" by simp_all
  obtain s' pos' rc where "filedebug_space 1 TC_SPACE_FM_B b pos = (rc, s', pos')"
    "rc = (if skip_fm (unat (1 :: u64)) (rev (take (head_block t) (head_items t))) = None
           then - EDEV_BOP_DETECTED else 0)"
    "represents s' (t\<lparr>head_block := img_fm_back (unat (1 :: u64)) t\<rparr>)" "mirrors pos' s'"
    by (rule space_back_represents [OF 1(1,2) one(2) 1(3)])
  then show ?case using skip by (simp only: one filedebug_handler_def tape_ops.simps if_False) blast
qed

section \<open>Mounting a directory\<close>

text \<open>
  The tape layer loads a directory: two levels of calls are enough, because the drive is ready
  after the first load command.
\<close>

lemma represents_medium_locked [simp]:
  "represents (s\<lparr>medium_locked := l\<rparr>) t = represents s t"
  by (simp add: represents_def holds_def rec_file_def dir_of_def)

lemma retry_once:
  assumes "f s = (ret, s')" "\<not> NEED_REVAL ret"
  shows "retry_reval f s = Some (ret, s')"
  using assms by (subst retry_reval.simps) simp

lemma not_reval_0 [simp]: "\<not> NEED_REVAL 0"
  by (simp add: NEED_REVAL_def)

lemma get_ewstate_files:
  assumes "backend dev = Some (filedebug_handler, s)" "no_faults s"
  obtains state where "tape_get_ewstate dev = (state, dev)"
    and "files_of s (AttrFile (dir_of s) 0 TC_MAM_PAGE_EWSTATE) = None \<Longrightarrow> state = EWSTATE_CLEAR"
proof -
  have same: "\<exists>ret buf. filedebug_read_attribute 0 a n s = (ret, buf, s)" for a n
    using assms(2) by (cases "files_of s (AttrFile (dir_of s) 0 a)")
      (simp_all add: filedebug_read_attribute_def quiet)
  obtain ret buf where read: "filedebug_read_attribute 0 TC_MAM_PAGE_EWSTATE
      (TC_MAM_PAGE_EWSTATE_LEN + TC_MAM_PAGE_HEADER_SIZE) s = (ret, buf, s)"
    using same by blast
  have absent: "ret < 0" if "files_of s (AttrFile (dir_of s) 0 TC_MAM_PAGE_EWSTATE) = None"
    using read that assms(2) by (auto simp: filedebug_read_attribute_def quiet)
  have self: "dev\<lparr>backend := Some (filedebug_handler, s)\<rparr> = dev" using assms(1) by simp
  have "op_read_attribute filedebug_handler = filedebug_read_attribute"
    by (simp add: filedebug_handler_def)
  then have "snd (tape_get_ewstate dev) = dev"
    "ret < 0 \<Longrightarrow> fst (tape_get_ewstate dev) = 0"
    using assms(1) read self by (simp_all add: tape_get_ewstate_def attr_read_def Let_def)
  then show thesis using absent
    by (intro that [of "fst (tape_get_ewstate dev)"]) (simp_all add: prod_eq_iff)
qed

lemma load_parameters_files:
  assumes dev: "backend dev = Some (filedebug_handler, s)" "\<not> is_key_set dev"
    and s: "no_faults s" "ready s" "partitions s = 2"
  obtains dev' where "load_parameters None dev = (0, dev')"
    and "backend dev' = backend dev" and "dev_max_block_size dev' = 4 * 1024 * 1024"
    and "append_pos dev' = append_pos dev"
    and "position dev' = position dev \<or> position dev' = (position dev)\<lparr>early_warning := False\<rparr>"
    and "write_protect dev' \<longleftrightarrow> emulate_readonly s \<noteq> 0" and "\<not> write_error dev'"
    and "partition_space dev' 0 = PART_WRITABLE"
    and "files_of s (AttrFile (dir_of s) 0 TC_MAM_PAGE_EWSTATE) = None \<Longrightarrow>
      partition_space dev' 1 = PART_WRITABLE"
proof -
  define dev1 where "dev1 = dev\<lparr>dev_max_block_size := 4 * 1024 * 1024,
    physical_write_protect := emulate_readonly s \<noteq> 0, write_protect := emulate_readonly s \<noteq> 0,
    write_error := False,
    partition_space := (partition_space dev)(0 := PART_WRITABLE, 1 := PART_WRITABLE)\<rparr>"
  have backend1: "backend dev1 = Some (filedebug_handler, s)" using dev(1) by (simp add: dev1_def)
  obtain state where state: "tape_get_ewstate dev1 = (state, dev1)"
    "files_of s (AttrFile (dir_of s) 0 TC_MAM_PAGE_EWSTATE) = None \<Longrightarrow> state = EWSTATE_CLEAR"
    using get_ewstate_files [OF backend1 s(1)] by metis
  define dev2 where "dev2 = (if state = EWSTATE_SET
              then dev1\<lparr>partition_space := (partition_space dev1)(1 := PART_NO_SPACE)\<rparr>
              else if state = EWSTATE_CLEAR
              then dev1\<lparr>position := (position dev1)\<lparr>early_warning := False\<rparr>,
                       partition_space := (partition_space dev1)(0 := PART_WRITABLE, 1 := PART_WRITABLE)\<rparr>
              else dev1)"
  have capacity: "tape_get_capacity dev c = (0, \<lparr>remaining_p0 = 6 * 1024, remaining_p1 = 6 * 1024,
      max_p0 = 6 * 1024, max_p1 = 6 * 1024\<rparr>)" for c
    using dev(1) s by (cases c) (simp add: tape_get_capacity_def filedebug_handler_def
        filedebug_remaining_capacity_def Let_def)
  have parameters: "tape_get_parameters dev = (0, \<lparr>max_blksize = 4 * 1024 * 1024,
      write_protect_switch = (emulate_readonly s \<noteq> 0), logical_write_protect = False\<rparr>)"
    using dev(1) by (simp add: tape_get_parameters_def filedebug_handler_def filedebug_get_parameters_def)
  have pews: "tape_get_pews (dev\<lparr>dev_max_block_size := m\<rparr>) = (0, 0)" for m
    using dev(1) by (simp add: tape_get_pews_def sense_page_def filedebug_handler_def
        filedebug_modesense_def padded_def)
  have space: "space_status \<lparr>remaining_p0 = 6 * 1024, remaining_p1 = 6 * 1024,
      max_p0 = 6 * 1024, max_p1 = 6 * 1024\<rparr> (6 * 1024) 10 = PART_WRITABLE"
    by (simp add: space_status_def)
  have "load_parameters None dev = (0, dev2)"
    using dev(2) state(1) space
    by (simp add: load_parameters_def tape_clear_key_def capacity parameters pews Let_def
        dev2_def dev1_def)
  then show thesis
    by (rule that) (use state(2) dev(1) in \<open>simp_all add: dev2_def dev1_def\<close>)
qed

lemma load_tape_files:
  assumes dev: "backend dev = Some (filedebug_handler, s)" "\<not> is_key_set dev" "\<not> dev_medium_locked dev"
    and s: "no_faults s" "\<not> ready s" "filename s = None" "on_disk s 0 xs" "on_disk s 1 ys"
  obtains dev' where "tape_load_tape (Suc (Suc n)) None dev = Some (0, dev')"
    "mounted filedebug_handler represents mirrors dev' (loaded_image s xs ys)"
    "dev_max_block_size dev' = 4 * 1024 * 1024" "\<not> write_error dev'"
    "append_pos dev' 0 = 0" "append_pos dev' 1 = 0"
    "partition_space dev' 0 = PART_WRITABLE" "write_protect dev' \<longleftrightarrow> emulate_readonly s \<noteq> 0"
    "calm dev \<Longrightarrow> calm dev'"
proof -
  obtain s1 pos1 where load: "filedebug_load s (position dev) = Some (0, s1, pos1)"
    "represents s1 (loaded_image s xs ys)" "mirrors pos1 s1" "partitions s1 = 2"
    "emulate_readonly s1 = emulate_readonly s"
    "early_warning pos1 = early_warning (position dev)"
    "programmable_early_warning pos1 = programmable_early_warning (position dev)"
    using load_represents [OF s] by blast
  note ready1 = representsD(1,2) [OF load(2)]
  define dev1 where "dev1 = dev\<lparr>backend := Some (filedebug_handler, s1), position := pos1\<rparr>"
  define dev2 where "dev2 = dev1\<lparr>append_pos := (append_pos dev1)(0 := 0, 1 := 0)\<rparr>"
  define s2 where "s2 = s1\<lparr>medium_locked := True\<rparr>"
  define dev3 where "dev3 = dev2\<lparr>backend := Some (filedebug_handler, s2), dev_medium_locked := True\<rparr>"
  have loadable: "tape_is_cartridge_loadable dev = (0, dev)"
    using dev(1) s(2)
    by (simp add: tape_is_cartridge_loadable_def eval_nat_numeral raw_tape_test_unit_ready_def
        on_backend_def filedebug_handler_def filedebug_test_unit_ready_def)
  have loaded: "load_retry dev = Some (0, dev1)"
    using dev(1) load(1)
    by (subst load_retry.simps) (simp add: on_load_def filedebug_handler_def dev1_def)
  have "raw_tape_test_unit_ready dev2 = (0, dev2)"
    using ready1 by (simp add: raw_tape_test_unit_ready_def on_backend_def filedebug_handler_def
        filedebug_test_unit_ready_def dev2_def dev1_def)
  then have wait: "tape_wait_device_ready (Suc n) None dev2 = Some (0, dev2)"
    by (simp add: eval_nat_numeral)
  have prevent: "tape_prevent_medium_removal dev2 = Some (0, dev3)"
  proof -
    have backend2: "on_backend (- LTFS_NULL_ARG) op_prevent_medium_removal dev2 =
        (0, dev2\<lparr>backend := Some (filedebug_handler, s2)\<rparr>)"
      using ready1 by (simp add: on_backend_def dev2_def dev1_def filedebug_handler_def
          filedebug_prevent_medium_removal_def s2_def)
    have "backend dev2 \<noteq> None" "\<not> dev_medium_locked dev2" using dev(3) by (simp_all add: dev2_def dev1_def)
    then show ?thesis
      using retry_once [where f = "on_backend (- LTFS_NULL_ARG) op_prevent_medium_removal", OF backend2 not_reval_0] by (simp add: tape_prevent_medium_removal_def dev3_def)
  qed
  have rep2: "represents s2 (loaded_image s xs ys)" using load(2) by (simp add: s2_def)
  obtain pos2 where pos2: "filedebug_readpos s2 pos1 = (0, s2, pos2)" "mirrors pos2 s2"
    "early_warning pos2 = early_warning pos1" "programmable_early_warning pos2 = programmable_early_warning pos1"
    using readpos_represents [OF rep2] by blast
  define dev4 where "dev4 = dev3\<lparr>position := pos2\<rparr>"
  have readpos: "on_drive (- LTFS_NULL_ARG) op_readpos dev3 = (0, dev4)"
    using pos2(1) by (simp add: on_drive_def dev4_def dev3_def dev2_def dev1_def filedebug_handler_def)
  have default: "on_backend (- LTFS_NULL_ARG) op_set_default dev4 = (0, dev4)"
    by (simp add: on_backend_def dev4_def dev3_def filedebug_handler_def)
  have backend4: "backend dev4 = Some (filedebug_handler, s2)" "\<not> is_key_set dev4"
    using dev(2) by (simp_all add: dev4_def dev3_def dev2_def dev1_def)
  have quiet2: "no_faults s2" "ready s2" "partitions s2 = 2"
    using representsD(1,2) [OF rep2] load(4) by (simp_all add: s2_def)
  obtain dev5 where dev5: "load_parameters None dev4 = (0, dev5)" "backend dev5 = backend dev4"
    "dev_max_block_size dev5 = 4 * 1024 * 1024" "append_pos dev5 = append_pos dev4"
    "position dev5 = position dev4 \<or> position dev5 = (position dev4)\<lparr>early_warning := False\<rparr>"
    "\<not> write_error dev5" "partition_space dev5 0 = PART_WRITABLE"
    "write_protect dev5 \<longleftrightarrow> emulate_readonly s2 \<noteq> 0"
    using load_parameters_files [OF backend4 quiet2] by metis
  have "tape_load_tape (Suc (Suc n)) None dev = Some (0, dev5)"
    using dev(1) loadable loaded wait prevent readpos default dev5(1)
    by (simp add: Let_def flip: dev2_def)
  moreover have "mounted filedebug_handler represents mirrors dev5 (loaded_image s xs ys)"
    using dev5(2,5) backend4(1) rep2 pos2(2) by (auto simp: mounted_def dev4_def mirrors_def)
  moreover have "calm dev5" if "calm dev"
    using dev5(5) load(6,7) pos2(3,4) that by (auto simp: calm_def dev4_def)
  ultimately show thesis
    by (intro that) (use dev5 load(5) in \<open>simp_all add: dev4_def dev3_def dev2_def s2_def\<close>)
qed
end
