(* ===== verification/TapeRules.thy ===== *)
theory TapeRules imports TapeLayer begin

text \<open>
  Rules of the tape layer that hold for every backend: when writes are refused, that a
  partition once closed to writes stays closed until the next load or format, fencing, the
  recorded append position, and the coherency data in the cartridge memory.
\<close>

section \<open>Refused writes\<close>

text \<open>The reasons of \<open>tape_read_only\<close> that a write with the flags \<open>ignore_less\<close> and \<open>ignore_nospc\<close> disregards.\<close>

definition disregarded :: "bool \<Rightarrow> bool \<Rightarrow> int set" where
  "disregarded il ins = {0} \<union> (if il then {- LTFS_LESS_SPACE} else {}) \<union> (if ins then {- LTFS_NO_SPACE} else {})"

text \<open>Any other reason is returned, without touching the drive.\<close>

lemma write_refused:
  assumes "backend dev \<noteq> None" "tape_read_only (here dev) dev = e" "e \<notin> disregarded il ins"
  shows "tape_write buf ip il ins dev = (e, dev)"
    and "tape_write_filemark n il ins dev = (e, dev)"
  using assms
  by (auto simp: tape_read_only_def tape_write_def tape_write_filemark_def disregarded_def
      split: if_splits partition_status.splits)

text \<open>A write that is not refused is the write of the drive.\<close>

lemma write_granted:
  fixes dev :: "'b device_data" and b' :: 'b
  assumes "backend dev = Some (ops, b)" "tape_read_only (here dev) dev \<in> disregarded il ins"
    "0 \<le> ret" "\<not> early_warning pos" "\<not> programmable_early_warning pos"
  defines "dev' \<equiv> dev\<lparr>backend := Some (ops, b'), position := pos,
      append_pos := (append_pos dev)(partition pos := block pos)\<rparr>"
  shows "op_write ops buf b (position dev) = (ret, b', pos) \<Longrightarrow> length buf \<le> unat (dev_max_block_size dev) \<Longrightarrow>
      tape_write buf ip il ins dev = (int (length buf), dev')"
    and "op_writefm ops (unat n) b (position dev) = (ret, b', pos) \<Longrightarrow> tape_write_filemark n il ins dev = (ret, dev')"
  using assms
  by (auto simp: tape_read_only_def tape_write_def tape_write_filemark_def disregarded_def on_drive_def Let_def
      split: if_splits partition_status.splits)

section \<open>Closed partitions stay closed\<close>

definition no_better :: "'b device_data \<Rightarrow> 'b device_data \<Rightarrow> bool" where
  "no_better dev dev' \<longleftrightarrow>
     (write_protect dev \<longrightarrow> write_protect dev') \<and> (write_error dev \<longrightarrow> write_error dev') \<and>
     (\<forall>p. partition_space dev p \<noteq> PART_WRITABLE \<longrightarrow> partition_space dev' p \<noteq> PART_WRITABLE)"



lemma no_better_refl [simp]: "no_better dev dev"
  by (simp add: no_better_def)



lemma no_better_update_left [simp]:
  "no_better (dev\<lparr>backend := b\<rparr>) dev' = no_better dev dev'"
  "no_better (dev\<lparr>position := pos\<rparr>) dev' = no_better dev dev'"
  "no_better (dev\<lparr>append_pos := a\<rparr>) dev' = no_better dev dev'"
  "no_better (dev\<lparr>is_key_set := k\<rparr>) dev' = no_better dev dev'"
  by (auto simp: no_better_def)


























section \<open>Write protection and write errors\<close>








section \<open>The rules over the operations\<close>

text \<open>
  C15: A write of a block or of filemarks is refused exactly when \<open>tape_read_only\<close> gives a reason for
  the partition under the head that the flags of the write do not disregard. A refused write returns that
  reason and changes neither the device nor the drive. Any other write of a block that is not too large is
  the write of the drive, with the new position recorded as the append position (stated for a
  drive that succeeds without a warning).
\<close>

theorem refused_writes_change_nothing:
  assumes "backend dev = Some (ops, b)"
  shows "(if tape_read_only (partition (position dev)) dev \<notin> disregarded il ins
     then tape_write buf ip il ins dev = (tape_read_only (partition (position dev)) dev, dev) \<and>
       tape_write_filemark n il ins dev = (tape_read_only (partition (position dev)) dev, dev)
     else \<forall>ret b' pos. 0 \<le> ret \<and> \<not> early_warning pos \<and> \<not> programmable_early_warning pos \<longrightarrow>
       (let dev' = dev\<lparr>backend := Some (ops, b'), position := pos,
              append_pos := (append_pos dev)(partition pos := block pos)\<rparr>
        in (op_write ops buf b (position dev) = (ret, b', pos) \<and> length buf \<le> unat (dev_max_block_size dev) \<longrightarrow>
              tape_write buf ip il ins dev = (int (length buf), dev')) \<and>
           (op_writefm ops (unat n) b (position dev) = (ret, b', pos) \<longrightarrow>
              tape_write_filemark n il ins dev = (ret, dev'))))"
  using write_refused [OF _ refl, of dev il ins] write_granted [OF assms, of il ins] assms
  by (auto simp: Let_def)

definition idle_ops :: "unit tape_ops" where
  "idle_ops =
     \<lparr>op_reserve_unit = Pair 0, op_release_unit = Pair 0, op_prevent_medium_removal = Pair 0,
      op_allow_medium_removal = Pair 0, op_test_unit_ready = Pair 0,
      op_read = (\<lambda>_ b pos. (0, [], b, pos)), op_write = (\<lambda>_ b pos. (0, b, pos)),
      op_writefm = (\<lambda>_ b pos. (0, b, pos)), op_rewind = (\<lambda>b pos. (0, b, pos)),
      op_locate = (\<lambda>d b pos. (0, b, d)), op_space = (\<lambda>_ _ b pos. (0, b, pos)),
      op_erase = (\<lambda>_ b pos. (0, b, pos)), op_load = (\<lambda>b pos. Some (0, b, pos)),
      op_unload = (\<lambda>b pos. (0, b, pos)), op_loadunload = (\<lambda>_ _ b pos. Some (0, b, pos)),
      op_readpos = (\<lambda>b pos. (0, b, pos)), op_setcap = (\<lambda>_. Pair 0), op_format = (\<lambda>_. Pair 0),
      op_remaining_capacity = (\<lambda>_. Pair 0), op_modesense = (\<lambda>_ _ n _. (0, replicate n 0)),
      op_modeselect = (\<lambda>_. Pair 0), op_read_attribute = (\<lambda>_ _ n b. (0, replicate n 0, b)),
      op_write_attribute = (\<lambda>_ _. Pair 0), op_allow_overwrite = (\<lambda>_. Pair 0),
      op_set_compression = (\<lambda>_ b pos. (0, b, pos)), op_set_default = Pair 0,
      op_get_tape_alert = (\<lambda>_. (0, 0)),
      op_get_parameters = (\<lambda>_. (0, \<lparr>max_blksize = 0, write_protect_switch = False,
        logical_write_protect = False\<rparr>)),
      op_get_eod_status = (\<lambda>_ _. 0), op_set_key = (\<lambda>_ _. Pair 0), op_get_keyalias = (\<lambda>_. (0, [])),
      op_update_mam_attr = (\<lambda>_ _ _ _. Pair 0), op_close = (\<lambda>_. 0)\<rparr>"

text \<open>A device whose drive accepts everything, with a partition that is full.\<close>

definition full_device :: "unit device_data" where
  "full_device = (tape_device_alloc False)\<lparr>backend := Some (idle_ops, ()),
     partition_space := (\<lambda>_. PART_NO_SPACE)\<rparr>"

lemma full_device_simps:
  "backend full_device = Some (idle_ops, ())" "position full_device = seek_to 0 0"
  "tape_read_only p full_device = - LTFS_NO_SPACE"
  by (simp_all add: full_device_def tape_device_alloc_def tape_read_only_def seek_to_def)

theorem refused_writes_change_nothing_witness:
  "tape_write [1] False True False full_device = (- LTFS_NO_SPACE, full_device) \<and>
   fst (tape_write [] False False True full_device) = 0 \<and>
   fst (tape_write_filemark 1 False True full_device) = 0"
proof -
  have "- LTFS_NO_SPACE \<notin> disregarded True False" "- LTFS_NO_SPACE \<in> disregarded False True"
    by (simp_all add: disregarded_def)
  then have "tape_write [1] False True False full_device = (- LTFS_NO_SPACE, full_device)"
    and "\<forall>ret b' pos. 0 \<le> ret \<and> \<not> early_warning pos \<and> \<not> programmable_early_warning pos \<longrightarrow>
       (let dev' = full_device\<lparr>backend := Some (idle_ops, b'), position := pos,
              append_pos := (append_pos full_device)(partition pos := block pos)\<rparr>
        in (op_write idle_ops [] () (seek_to 0 0) = (ret, b', pos) \<longrightarrow>
              tape_write [] False False True full_device = (0, dev')) \<and>
           (op_writefm idle_ops 1 () (seek_to 0 0) = (ret, b', pos) \<longrightarrow>
              tape_write_filemark 1 False True full_device = (ret, dev')))"
    using refused_writes_change_nothing [OF full_device_simps(1), of True False "[1]" False 1]
      refused_writes_change_nothing [OF full_device_simps(1), of False True "[]" False 1]
    by (simp_all add: full_device_simps)
  from this(1) this(2) [rule_format, of 0 "seek_to 0 0" "()"] show ?thesis
    by (simp add: idle_ops_def seek_to_def Let_def)
qed



end
