(* ===== verification/FileBackend.thy ===== *)
theory FileBackend imports FileDrive TapeRules begin

text \<open>
  What the file backend, and the tape layer over it, do to a directory: the statements of the
  contract proved in the theories before, written out over the operations, each with an
  evaluated instance on a small directory.
\<close>

section \<open>A sample directory\<close>

text \<open>
  Directory \<open>t\<close> holds a file with one data block and one filemark on partition 0, and an empty
  partition 1.
\<close>

definition sample_files :: "host_file \<rightharpoonup> u8 list" where
  "sample_files =
     [RecordFile ''t'' 0 0 CHR ''R'' \<mapsto> [7, 8], RecordFile ''t'' 0 1 CHR ''F'' \<mapsto> [],
      RecordFile ''t'' 0 2 CHR ''E'' \<mapsto> [], RecordFile ''t'' 1 0 CHR ''E'' \<mapsto> []]"

definition sample_drive :: filedebug_data where
  "sample_drive =
     \<lparr>device_reserved = False, medium_locked = False,
      current_position = \<lparr>block = 0, filemarks = 0, partition = 0, early_warning = False,
        programmable_early_warning = False\<rparr>,
      max_block_size = 16, filename = None, dirbase = None, dirname = Some ''t'', ready = False,
      last_block = (\<lambda>_. 0), eod = (\<lambda>_. 0), partitions = 2, write_pass_prev = 0, write_pass = 0,
      emulate_readonly = 0, p0_warning = 0, p1_warning = 0, p0_p_warning = 0, p1_p_warning = 0,
      fd_host = \<lparr>files = sample_files, first_line = Map.empty, is_dir = (\<lambda>_. False), faults = []\<rparr>\<rparr>"

definition sample_loaded :: filedebug_data where
  "sample_loaded = sample_drive\<lparr>ready := True,
      last_block := (\<lambda>_. 0)(0 := 1, 1 := 0xFFFFFFFFFFFFFFFF), eod := (\<lambda>_. 0)(0 := 2)\<rparr>"

definition sample_items :: "tape_item list" where
  "sample_items = [Data [7, 8], Filemark]"

definition sample_image :: tape_image where
  "sample_image = \<lparr>items = (\<lambda>p. if p = 0 then sample_items else []), head_part = 0, head_block = 0,
      block_limit = 16, zone = (\<lambda>_. None), p_zone = (\<lambda>_. None)\<rparr>"

lemma sample_defs:
  "no_faults sample_drive" "\<not> ready sample_drive" "filename sample_drive = None"
  "no_faults sample_loaded" "dir_of sample_loaded = ''t''" "dir_of sample_drive = ''t''"
  by (simp_all add: no_faults_def sample_drive_def sample_loaded_def dir_of_def)

lemma unat_less_2: "unat (b :: u64) < 2 \<longleftrightarrow> b = 0 \<or> b = 1"
  by (metis One_nat_def less_2_cases_iff unat_1 unat_eq_zero word_unat_eq_iff)

lemma sample_record:
  "record_of sample_items b = (if b = 0 then Some [7, 8] else None)"
  "fm_at sample_items b \<longleftrightarrow> b = 1" "length sample_items = 2"
  using unat_less_2 [of b]
  by (auto simp: record_of_def fm_at_def sample_items_def less_Suc_eq numeral_2_eq_2 unat_eq_zero)

lemma sample_rec_file:
  "rec_file sample_loaded 0 b CHR ''R'' = (if b = 0 then Some [7, 8] else None)"
  "rec_file sample_loaded 0 b CHR ''F'' = (if b = 1 then Some [] else None)"
  "rec_file sample_loaded 0 b CHR ''E'' = (if b = 2 then Some [] else None)"
  "rec_file sample_loaded 1 b CHR ''R'' = None" "rec_file sample_loaded 1 b CHR ''F'' = None"
  "rec_file sample_loaded 1 b CHR ''E'' = (if b = 0 then Some [] else None)"
  by (simp_all add: rec_file_def sample_defs) (simp_all add: sample_loaded_def sample_drive_def sample_files_def)

lemma sample_represents: "represents sample_loaded sample_image"
proof -
  have "holds sample_loaded 0 sample_items"
    by (simp add: holds_def sample_rec_file sample_record) (simp add: sample_loaded_def)
  moreover have "holds sample_loaded 1 []"
    by (simp add: holds_def sample_rec_file record_of_def fm_at_def) (simp add: sample_loaded_def)
  moreover note sample_defs(4)
  ultimately show ?thesis
    by (simp add: represents_def sample_image_def)
       (simp add: sample_loaded_def sample_drive_def zone_of_def)
qed

lemma sample_on_disk: "on_disk sample_drive 0 sample_items" "on_disk sample_drive 1 []"
proof -
  have same: "rec_file sample_drive = rec_file sample_loaded"
    by (simp add: fun_eq_iff rec_file_def sample_defs) (simp add: sample_loaded_def)
  show "on_disk sample_drive 0 sample_items"
    by (simp add: on_disk_def records_def same sample_rec_file sample_record)
  show "on_disk sample_drive 1 []"
    by (simp add: on_disk_def records_def same sample_rec_file record_of_def fm_at_def)
qed

definition sample_pos :: tc_position where
  "sample_pos = \<lparr>block = 0, filemarks = 0, partition = 0, early_warning = False,
     programmable_early_warning = False\<rparr>"

lemma sample_mirrors: "mirrors sample_pos sample_loaded"
  by (simp add: mirrors_def sample_pos_def sample_loaded_def sample_drive_def)


section \<open>The backend refines the abstract tape\<close>

text \<open>
  C7: Writing a block of at most the maximal size on a directory that represents a tape succeeds,
  returns the length, replaces everything behind the head by the block, moves the head behind it,
  and raises early warning when the head is in the warning zone.
\<close>

theorem file_write_refines:
  assumes "represents s t" "mirrors pos s" "buf \<noteq> []" "length buf \<le> block_limit t"
    and "Suc (head_block t) < 2 ^ 64 - 1"
  shows "\<exists>s' pos'. filedebug_write buf s pos = (int (length buf), s', pos') \<and>
    represents s' (t\<lparr>items := (items t)(head_part t := take (head_block t) (head_items t) @ [Data buf]),
                     head_block := Suc (head_block t)\<rparr>) \<and>
    mirrors pos' s' \<and>
    (early_warning pos' \<longleftrightarrow>
       early_warning pos \<or> in_zone (zone t (head_part t)) (Suc (head_block t)))"
proof -
  obtain s' pos' where "filedebug_write buf s pos = (int (length buf), s', pos')"
    "represents s' (img_append (Data buf) t)" "mirrors pos' s'"
    "early_warning pos' \<longleftrightarrow> early_warning pos \<or> warned (img_append (Data buf) t)"
    by (rule write_represents [OF assms])
  then show ?thesis by (simp add: img_append_def)
qed

theorem file_write_refines_witness:
  "\<exists>s' pos'. filedebug_write [5] sample_loaded sample_pos = (1, s', pos') \<and>
    represents s' (sample_image\<lparr>items := (items sample_image)(0 := [Data [5]]), head_block := 1\<rparr>)"
proof -
  have "int (length ([5] :: u8 list)) = 1" by simp
  then show ?thesis
    using file_write_refines [OF sample_represents sample_mirrors, of "[5]"]
    by (auto simp: sample_image_def)
qed

text \<open>
  C8: Reading returns the item under the head and moves the head behind it: the block, cut to the
  buffer, for a data block, and nothing for a filemark. At the end of the data it reports so and
  changes nothing.
\<close>

theorem file_read_refines:
  assumes "represents s t" "mirrors pos s"
  shows "head_block t = length (head_items t) \<and>
      filedebug_read n s pos = (- EDEV_EOD_DETECTED, [], s, pos) \<or>
    head_block t < length (head_items t) \<and>
      (\<exists>s' pos' d. filedebug_read n s pos = (int (length d), d, s', pos') \<and>
        d = (case head_items t ! head_block t of Data d \<Rightarrow> take n d | Filemark \<Rightarrow> []) \<and>
        represents s' (t\<lparr>head_block := Suc (head_block t)\<rparr>) \<and> mirrors pos' s')"
proof (cases "head_block t = length (head_items t)")
  case True
  then show ?thesis using read_represents(1) [OF assms] by simp
next
  case False
  then have "head_block t < length (head_items t)" using representsD(5) [OF assms(1)] by simp
  then show ?thesis using read_represents(2) [OF assms] by blast
qed

theorem file_read_refines_witness:
  "\<exists>s' pos'. filedebug_read 1 sample_loaded sample_pos = (1, [7], s', pos') \<and>
    represents s' (sample_image\<lparr>head_block := 1\<rparr>)"
  using file_read_refines [OF sample_represents sample_mirrors, of 1]
  by (auto simp: sample_image_def sample_items_def)

text \<open>
  C9: A locate to any block of an existing partition succeeds and puts the head on that block, or
  behind the last block when the tape is shorter; a locate to any other partition fails and
  changes nothing.
\<close>

theorem file_locate_refines:
  assumes "represents s t"
  shows "if partition dest < MAX_PARTITIONS
    then \<exists>s' pos'. filedebug_locate dest s pos = (0, s', pos') \<and> mirrors pos' s' \<and>
      represents s' (t\<lparr>head_part := partition dest,
        head_block := min (unat (block dest)) (length (items t (partition dest)))\<rparr>)
    else filedebug_locate dest s pos = (- EDEV_INVALID_ARG, s, pos)"
proof (cases "partition dest < MAX_PARTITIONS")
  case True
  then have p: "partition dest = 0 \<or> partition dest = 1"
    by (simp add: word_less_nat_alt) (metis One_nat_def less_2_cases_iff unat_1 unat_eq_zero word_unat_eq_iff)
  show ?thesis
    by (rule locate_represents [OF assms p, of pos]) (use True in \<open>auto simp: img_move_def\<close>)
next
  case False
  then show ?thesis using representsD(2) [OF assms] by (simp add: locate_bad_partition)
qed

theorem file_locate_refines_witness:
  "\<exists>s' pos'. filedebug_locate (seek_to 0 9) sample_loaded sample_pos = (0, s', pos') \<and>
    represents s' (sample_image\<lparr>head_block := 2\<rparr>)"
  using file_locate_refines [OF sample_represents, of "seek_to 0 9" sample_pos]
  by (auto simp: sample_image_def sample_record)


text \<open>
  C10: Spacing forward over \<open>count\<close> filemarks stops behind the last of them, or at the end of the
  data with an error when there are not as many; spacing back stops in front of the last
  filemark passed, or at the beginning with an error.
\<close>

theorem file_space_refines:
  assumes "represents s t" "mirrors pos s" "count \<noteq> 0" "bwd \<longrightarrow> 0 < head_block t"
  shows "\<exists>rc s' pos'.
    filedebug_space count (if bwd then TC_SPACE_FM_B else TC_SPACE_FM_F) s pos = (rc, s', pos') \<and>
    mirrors pos' s' \<and>
    (let xs = (if bwd then rev (take (head_block t) (head_items t)) else drop (head_block t) (head_items t))
     in case skip_fm (unat count) xs of
          Some k \<Rightarrow> rc = 0 \<and>
            represents s' (t\<lparr>head_block := if bwd then head_block t - k else head_block t + k\<rparr>)
        | None \<Rightarrow> rc = (if bwd then - EDEV_BOP_DETECTED else - EDEV_EOD_DETECTED) \<and>
            represents s' (t\<lparr>head_block := if bwd then 0 else length (head_items t)\<rparr>))"
proof (cases bwd)
  case True
  obtain s' pos' rc where "filedebug_space count TC_SPACE_FM_B s pos = (rc, s', pos')"
    "rc = (if skip_fm (unat count) (rev (take (head_block t) (head_items t))) = None
           then - EDEV_BOP_DETECTED else 0)"
    "represents s' (t\<lparr>head_block := img_fm_back (unat count) t\<rparr>)" "mirrors pos' s'"
    by (rule space_back_represents [OF assms(1-3)]) (use assms(4) True in simp)
  then show ?thesis using True by (auto simp: img_fm_back_def split: option.splits)
next
  case False
  obtain s' pos' rc where "filedebug_space count TC_SPACE_FM_F s pos = (rc, s', pos')"
    "rc = (if skip_fm (unat count) (drop (head_block t) (head_items t)) = None
           then - EDEV_EOD_DETECTED else 0)"
    "represents s' (t\<lparr>head_block := img_fm_forward (unat count) t\<rparr>)" "mirrors pos' s'"
    by (rule space_forward_represents [OF assms(1-3)])
  then show ?thesis using False by (auto simp: img_fm_forward_def split: option.splits)
qed

theorem file_space_refines_witness:
  "\<exists>s' pos'. filedebug_space 1 TC_SPACE_FM_F sample_loaded sample_pos = (0, s', pos') \<and>
    represents s' (sample_image\<lparr>head_block := 2\<rparr>)"
  using file_space_refines [OF sample_represents sample_mirrors, of 1 False]
  by (auto simp: sample_image_def sample_items_def eval_nat_numeral)

text \<open>
  C11: Formatting is refused away from block 0 of partition 0 and changes nothing then; there it
  empties both partitions.
\<close>

theorem file_format_blanks:
  assumes "represents s t" "f \<noteq> TC_FORMAT_MAX"
  shows "if head_part t = 0 \<and> head_block t = 0
    then \<exists>s'. filedebug_format f s = (DEVICE_GOOD, s') \<and> represents s' (t\<lparr>items := (\<lambda>_. [])\<rparr>)
    else filedebug_format f s = (- EDEV_ILLEGAL_REQUEST, s)"
  using format_represents [OF assms(1)] assms(2) by (cases t) (auto simp: img_blank_def)

theorem file_format_blanks_witness:
  "\<exists>s'. filedebug_format TC_FORMAT_DEFAULT sample_loaded = (0, s') \<and>
    represents s' (sample_image\<lparr>items := (\<lambda>_. [])\<rparr>)"
  using file_format_blanks [OF sample_represents, of TC_FORMAT_DEFAULT] by (simp add: sample_image_def)

text \<open>
  C12: Unloading and loading again keeps everything written: the drive asks for a load in between
  and afterwards the directory represents the same two partitions, with the head at block 0 of
  partition 0.
\<close>

theorem file_remount_keeps:
  assumes "represents s t" "filename s = None"
  shows "\<exists>s1 pos1 s2 pos2. filedebug_unload s pos = (0, s1, pos1) \<and>
    filedebug_test_unit_ready s1 = - EDEV_NEED_INITIALIZE \<and>
    filedebug_load s1 pos1 = Some (0, s2, pos2) \<and> mirrors pos2 s2 \<and>
    represents s2 (loaded_image s (items t 0) (items t 1))"
  by (rule unload_load_represents [OF assms, of pos]) blast

theorem file_remount_keeps_witness:
  "\<exists>s1 pos1 s2 pos2. filedebug_unload sample_loaded sample_pos = (0, s1, pos1) \<and>
    filedebug_load s1 pos1 = Some (0, s2, pos2) \<and>
    represents s2 (loaded_image sample_loaded sample_items [])"
proof -
  have direct: "filename sample_loaded = None" using sample_defs(3) by (simp add: sample_loaded_def)
  show ?thesis
    using file_remount_keeps [OF sample_represents direct, of sample_pos]
    by (auto simp: sample_image_def)
qed

section \<open>The tape layer over the backend\<close>

definition sample_device :: "filedebug_data device_data" where
  "sample_device = (tape_device_alloc False)\<lparr>backend := Some (filedebug_handler, sample_drive)\<rparr>"

text \<open>
  C13: Loading the tape of a directory through the tape layer succeeds: both partitions are found
  as the files record them, the head is at the start of partition 0, the medium is locked,
  nothing is recorded about append positions and errors, and the write protection is the
  emulated switch. The append position of either partition is then found when it is asked for:
  it is behind the last record the files hold, provided that no warning zone is reached.
\<close>

theorem mount_directory:
  assumes "backend dev = Some (filedebug_handler, s)" "\<not> is_key_set dev" "\<not> dev_medium_locked dev" "calm dev"
    and "no_faults s" "\<not> ready s" "filename s = None" "on_disk s 0 xs" "on_disk s 1 ys"
  shows "\<exists>dev'. tape_load_tape (Suc (Suc n)) None dev = Some (0, dev') \<and>
    mounted filedebug_handler represents mirrors dev' (loaded_image s xs ys) \<and>
    dev_max_block_size dev' = 4 * 1024 * 1024 \<and> \<not> write_error dev' \<and>
    append_pos dev' 0 = 0 \<and> append_pos dev' 1 = 0 \<and> partition_space dev' 0 = PART_WRITABLE \<and>
    (write_protect dev' \<longleftrightarrow> emulate_readonly s \<noteq> 0) \<and>
    (\<forall>(p, zs) \<in> {(0, xs), (1, ys)}. \<forall>u. has_room (loaded_image s xs ys) p (length zs) \<longrightarrow>
       (\<exists>dev1. tape_seek_append_position p u dev' = (0, dev1) \<and> append_pos dev1 p = of_nat (length zs) \<and>
          mounted filedebug_handler represents mirrors dev1 (img_at p (length zs) (loaded_image s xs ys))))"
proof -
  obtain dev' where load: "tape_load_tape (Suc (Suc n)) None dev = Some (0, dev')"
    and found: "mounted filedebug_handler represents mirrors dev' (loaded_image s xs ys)"
    and rest: "dev_max_block_size dev' = 4 * 1024 * 1024" "\<not> write_error dev'"
      "append_pos dev' 0 = 0" "append_pos dev' 1 = 0" "partition_space dev' 0 = PART_WRITABLE"
      "write_protect dev' \<longleftrightarrow> emulate_readonly s \<noteq> 0"
    and calm: "calm dev'"
    using load_tape_files [OF assms(1-3,5-9), of n] assms(4) by metis
  have "\<exists>dev1. tape_seek_append_position p u dev' = (0, dev1) \<and> append_pos dev1 p = of_nat (length zs) \<and>
      mounted filedebug_handler represents mirrors dev1 (img_at p (length zs) (loaded_image s xs ys))"
    if pz: "(p, zs) \<in> {(0, xs), (1, ys)}" and room: "has_room (loaded_image s xs ys) p (length zs)" for p zs u
  proof -
    have p: "p = 0 \<or> p = 1" "items (loaded_image s xs ys) p = zs" "append_pos dev' p = 0"
      using pz rest(3,4) by (auto simp: loaded_image_def)
    obtain dev1 where "tape_seek_append_position p u dev' = (0, dev1)"
      "fd.ready dev1 (img_at p (length zs) (loaded_image s xs ys))"
      "append_pos dev1 = (append_pos dev')(p := of_nat (length zs))"
      by (rule fd.seek_append_ready [OF found calm p(1) _ _ room, of u]) (use p in simp_all)
    then show ?thesis by auto
  qed
  then show ?thesis using load found rest by blast
qed

theorem mount_directory_witness:
  "\<exists>dev' dev1. tape_load_tape 2 None sample_device = Some (0, dev') \<and>
    mounted filedebug_handler represents mirrors dev' (loaded_image sample_drive sample_items []) \<and>
    \<not> write_protect dev' \<and> tape_seek_append_position 0 False dev' = (0, dev1) \<and> append_pos dev1 0 = 2"
proof -
  have device: "backend sample_device = Some (filedebug_handler, sample_drive)"
    "\<not> is_key_set sample_device" "\<not> dev_medium_locked sample_device" "calm sample_device"
    by (simp_all add: sample_device_def tape_device_alloc_def calm_def seek_to_def)
  have drive: "emulate_readonly sample_drive = 0" "length sample_items = 2"
    "has_room (loaded_image sample_drive sample_items []) 0 2"
    by (simp_all add: sample_drive_def sample_items_def has_room_def loaded_image_def zone_of_def in_zone_def)
  obtain dev' where "tape_load_tape (Suc (Suc 0)) None sample_device = Some (0, dev')"
    "mounted filedebug_handler represents mirrors dev' (loaded_image sample_drive sample_items [])"
    "\<not> write_protect dev'" "\<exists>dev1. tape_seek_append_position 0 False dev' = (0, dev1) \<and> append_pos dev1 0 = 2"
    using mount_directory [OF device sample_defs(1-3) sample_on_disk, of 0] drive
    by (auto simp del: tape_load_tape.simps) blast+
  then show ?thesis unfolding numeral_2_eq_2 by auto
qed


definition sample_mounted :: "filedebug_data device_data" where
  "sample_mounted = (tape_device_alloc False)\<lparr>backend := Some (filedebug_handler, sample_loaded),
     position := sample_pos, dev_max_block_size := 4 * 1024 * 1024\<rparr>"

lemma sample_mounted_ready:
  "mounted filedebug_handler represents mirrors sample_mounted sample_image"
  "calm sample_mounted" "writable sample_mounted p" "append_pos sample_mounted p = 0"
  using sample_represents sample_mirrors
  by (simp_all add: mounted_def sample_mounted_def calm_def sample_pos_def writable_def
      tape_device_alloc_def tape_read_only_def)

text \<open>
  C5: A block appended to a partition through the tape layer is read back from the place where
  the partition ended, the append position moves behind it, and all that was on the partition
  before is kept.
\<close>

theorem append_then_read:
  assumes "mounted filedebug_handler represents mirrors dev t" "calm dev" "writable dev p"
    and "p < MAX_PARTITIONS" "append_pos dev p = 0" "has_room t p (Suc (length (items t p)))"
    and "buf \<noteq> []" "length buf \<le> block_limit t" "length buf \<le> unat (dev_max_block_size dev)"
    and "Suc (length (items t p)) < 2 ^ 64 - 1"
  shows "\<exists>dev1 dev2 dev3 dev4.
    tape_seek_append_position p u dev = (0, dev1) \<and>
    tape_write buf ip il ins dev1 = (int (length buf), dev2) \<and>
    append_pos dev2 p = of_nat (Suc (length (items t p))) \<and>
    tape_seek (seek_to p (of_nat (length (items t p)))) dev2 = (0, dev3) \<and>
    tape_read (length buf) kmi dev3 = (int (length buf), buf, dev4) \<and>
    mounted filedebug_handler represents mirrors dev4
      (img_at p (Suc (length (items t p))) (t\<lparr>items := (items t)(p := items t p @ [Data buf])\<rparr>))"
proof -
  let ?n = "length (items t p)"
  define t2 where "t2 = img_append (Data buf) (img_at p ?n t)"
  have p: "p = 0 \<or> p = 1"
    using assms(4) by (simp add: word_less_nat_alt)
      (metis One_nat_def less_2_cases_iff unat_1 unat_eq_zero word_unat_eq_iff)
  have room: "has_room t p ?n" by (rule has_room_mono [OF _ assms(6)]) simp
  obtain dev1 where dev1: "tape_seek_append_position p u dev = (0, dev1)"
    "fd.ready dev1 (img_at p ?n t)" "calm dev1" "same_flags dev dev1"
    by (rule fd.seek_append_ready [OF assms(1,2) p _ le_refl room]) (use assms(5) in simp_all)
  have w1: "writable dev1 (head_part (img_at p ?n t))" "dev_max_block_size dev1 = dev_max_block_size dev"
    using assms(3) dev1(4) same_flags_writable [OF dev1(4)] by (simp_all add: same_flags_def)
  obtain dev2 where dev2: "tape_write buf ip il ins dev1 = (int (length buf), dev2)"
    "fd.ready dev2 t2" "calm dev2" "same_flags dev1 dev2"
    "append_pos dev2 = (append_pos dev1)(p := of_nat (Suc ?n))"
    by (rule fd.write_ready [OF dev1(2,3) w1(1), of buf ip il ins])
       (use assms(6-10) w1(2) in \<open>simp_all add: t2_def has_room_def\<close>)
  have t2: "items t2 p = items t p @ [Data buf]" "has_room t2 p ?n"
    using room by (simp_all add: t2_def img_append_def has_room_def)
  obtain dev3 where dev3: "tape_seek (seek_to p (of_nat ?n)) dev2 = (0, dev3)"
    "fd.ready dev3 (img_at p ?n t2)"
    by (rule fd.seek_ready [OF dev2(2,3) p _ t2(2), of "of_nat ?n"]) (use t2(1) in simp_all)
  obtain dev4 d where dev4: "tape_read (length buf) kmi dev3 = (int (length d), d, dev4)"
    "d = (case items t2 p ! ?n of Data d \<Rightarrow> take (length buf) d | Filemark \<Rightarrow> [])"
    "fd.ready dev4 (img_at p (Suc ?n) t2)"
    by (rule fd.read_ready [OF dev3(2), of "length buf" kmi]) (use t2(1) in simp_all)
  have "d = buf" using dev4(2) t2(1) by simp
  moreover have "img_at p (Suc ?n) t2 =
      img_at p (Suc ?n) (t\<lparr>items := (items t)(p := items t p @ [Data buf])\<rparr>)"
    by (simp add: t2_def img_append_def)
  ultimately show ?thesis using dev1(1) dev2(1,5) dev3(1) dev4(1,3) by simp
qed

theorem append_then_read_witness:
  "\<exists>dev1 dev2 dev3 dev4. tape_seek_append_position 0 False sample_mounted = (0, dev1) \<and>
    tape_write [1, 2, 3] False False False dev1 = (3, dev2) \<and>
    tape_seek (seek_to 0 2) dev2 = (0, dev3) \<and> tape_read 3 None dev3 = (3, [1, 2, 3], dev4)"
proof -
  have "\<exists>dev1 dev2 dev3 dev4. tape_seek_append_position 0 False sample_mounted = (0, dev1) \<and>
    tape_write [1, 2, 3] False False False dev1 = (int (length [1 :: u8, 2, 3]), dev2) \<and>
    append_pos dev2 0 = of_nat (Suc (length (items sample_image 0))) \<and>
    tape_seek (seek_to 0 (of_nat (length (items sample_image 0)))) dev2 = (0, dev3) \<and>
    tape_read (length [1 :: u8, 2, 3]) None dev3 = (int (length [1 :: u8, 2, 3]), [1, 2, 3], dev4) \<and>
    mounted filedebug_handler represents mirrors dev4 (img_at 0 (Suc (length (items sample_image 0)))
      (sample_image\<lparr>items := (items sample_image)(0 := items sample_image 0 @ [Data [1, 2, 3]])\<rparr>))"
    by (rule append_then_read [OF sample_mounted_ready(1-3)])
       (simp_all add: sample_mounted_ready(4) sample_image_def sample_record has_room_def in_zone_def
          sample_mounted_def tape_device_alloc_def)
  then show ?thesis by (auto simp: sample_image_def sample_record numeral_3_eq_3)
qed

text \<open>
  C14: What LTFS stores in the cartridge memory comes back unchanged: the volume coherency data of
  a partition (with its 37 byte volume identifier), and the early warning state.
\<close>

theorem cartridge_memory_roundtrip:
  assumes "mounted filedebug_handler represents mirrors dev t" "length (uuid coh) = 37"
    and "0 \<le> w" "w < 256"
  shows "\<exists>dev1 dev2. tape_set_cart_coherency p coh dev = (0, dev1) \<and>
      tape_get_cart_coherency p dev1 = (0, Some coh, dev1) \<and>
      tape_set_ewstate w dev1 = (0, dev2) \<and> tape_get_ewstate dev2 = (w, dev2) \<and>
      mounted filedebug_handler represents mirrors dev2 t"
proof -
  obtain dev1 where dev1: "tape_set_cart_coherency p coh dev = (0, dev1)"
    "tape_get_cart_coherency p dev1 = (0, Some coh, dev1)" "fd.ready dev1 t"
    by (rule fdm.coherency_ready [OF assms(1,2), of p]) blast
  show ?thesis
    by (rule fdm.ewstate_ready [OF dev1(3) assms(3,4)]) (use dev1 in blast)
qed

theorem cartridge_memory_roundtrip_witness:
  "\<exists>dev1 dev2. tape_set_cart_coherency 1 \<lparr>volume_change_ref = 3, coh_count = 2, set_id = 9,
        uuid = replicate 37 65, version = 1\<rparr> sample_mounted = (0, dev1) \<and>
      tape_set_ewstate EWSTATE_SET dev1 = (0, dev2) \<and> tape_get_ewstate dev2 = (EWSTATE_SET, dev2)"
  using cartridge_memory_roundtrip [OF sample_mounted_ready(1),
      of "\<lparr>volume_change_ref = 3, coh_count = 2, set_id = 9, uuid = replicate 37 65, version = 1\<rparr>" 1 1]
  by auto

text \<open>
  C6: An index document handed over in any pieces, written block by block behind the head and
  closed by a filemark, is read back byte for byte, whatever the sizes of the pieces asked for:
  the answers are the document up to what was asked.
\<close>

theorem index_stream_roundtrip:
  assumes "mounted filedebug_handler represents mirrors dev t" "calm dev" "writable dev (head_part t)"
    and "0 < unat (out_size ctx)" "unat (out_size ctx) \<le> block_limit t"
    and "unat (out_size ctx) \<le> unat (dev_max_block_size dev)" "unat (out_size ctx) < 2 ^ 31"
    and "out_buf ctx = []" "\<forall>piece \<in> set pieces. length piece < 2 ^ 31"
    and "has_room t (head_part t) (head_block t + length (concat pieces) div unat (out_size ctx) + 2)"
    and "head_block t + length (concat pieces) div unat (out_size ctx) + 2 < 2 ^ 64 - 1"
    and "inp = \<lparr>current_pos = of_nat (head_block t), eod_pos = 0, saw_small_block = False,
      saw_file_mark = False, in_size = out_size ctx, in_buf = [], in_blocksize = out_size ctx, in_kmi = kmi\<rparr>"
  shows "\<exists>ctx1 dev1 dev2 dev3 dev4.
    write_pieces pieces ctx dev = Some (True, ctx1, dev1) \<and>
    xml_output_tape_close_callback ctx1 dev1 = (0, dev2) \<and>
    tape_write_filemark 1 True True dev2 = (0, dev3) \<and>
    tape_seek (seek_to (head_part t) (of_nat (head_block t))) dev3 = (0, dev4) \<and>
    (\<exists>inp' dev5. read_pieces True lens inp dev4 =
       Some (take (sum_list lens) (concat pieces), inp', dev5))"
proof -
  let ?n = "unat (out_size ctx)" and ?p = "head_part t" and ?h = "head_block t"
  let ?m = "length (concat pieces) div unat (out_size ctx)"
  have room: "has_room t ?p (Suc (?h + ?m))" "has_room t ?p (?h + ?m + 2)"
    using has_room_mono [OF _ assms(10), of "Suc (?h + ?m)"] assms(10) by simp_all
  obtain bs ctx1 dev1 dev2 where w: "write_pieces pieces ctx dev = Some (True, ctx1, dev1)"
    "xml_output_tape_close_callback ctx1 dev1 = (0, dev2)" "full_blocks ?n bs"
    "concat bs = concat pieces" "length bs \<le> Suc ?m" "fd.ready dev2 (img_blocks bs t)" "calm dev2"
    "same_flags dev dev2"
    using fd.write_document_ready [OF assms(1-9) room(1)] assms(11) by (auto simp: same_elsewhere_def)
  let ?t2 = "img_blocks bs t"
  have inside: "?h \<le> length (head_items t)" using fd.ready_position [OF assms(1)] by simp
  have w2: "writable dev2 (head_part ?t2)" using assms(3) same_flags_writable [OF w(8)] by simp
  have room2: "has_room ?t2 (head_part ?t2) (head_block ?t2 + unat (1 :: u8))"
    using has_room_mono [OF _ room(2), of "?h + length bs + 1"] w(5) by simp
  obtain dev3 where m: "tape_write_filemark 1 True True dev2 = (0, dev3)"
    "fd.ready dev3 ((img_append Filemark ^^ unat (1 :: u8)) ?t2)" "calm dev3"
    by (rule fd.write_filemark_ready [OF w(6,7) w2, of 1 True True])
       (use room2 w(5) assms(11) in simp_all)
  let ?t3 = "img_append Filemark ?t2"
  have items3: "items ?t3 ?p = take ?h (head_items t) @ map Data bs @ [Filemark]"
    using inside by (simp add: img_append_def img_blocks_items)
  have t3: "has_room ?t3 ?p ?h"
    using has_room_mono [OF _ room(2), of ?h] by (simp add: img_append_def has_room_def)
  have "\<exists>dev4. tape_seek (seek_to ?p (of_nat ?h)) dev3 = (0, dev4) \<and> fd.ready dev4 (img_at ?p ?h ?t3) \<and>
    (\<exists>inp' dev5. read_pieces True lens inp dev4 = Some (take (sum_list lens) (concat bs), inp', dev5))"
    by (rule fds.read_document_ready [OF _ m(3) fd.ready_position(4) [OF assms(1)] t3,
          where pre = "take ?h (head_items t)" and bs = bs and post = "[]"])
       (use m(2) items3 inside assms(4,12) w(3) in simp_all)
  then show ?thesis using w(1,2,4) m(1) by auto
qed

theorem index_stream_roundtrip_witness:
  "\<exists>ctx1 dev1 dev2 dev3 dev4.
    write_pieces [[1, 2], [3, 4, 5]] \<lparr>out_size = 4, out_buf = [], out_index_part = True\<rparr> sample_mounted =
      Some (True, ctx1, dev1) \<and>
    xml_output_tape_close_callback ctx1 dev1 = (0, dev2) \<and>
    tape_write_filemark 1 True True dev2 = (0, dev3) \<and> tape_seek (seek_to 0 0) dev3 = (0, dev4) \<and>
    (\<exists>inp' dev5. read_pieces True [1, 2, 9] \<lparr>current_pos = 0, eod_pos = 0, saw_small_block = False,
       saw_file_mark = False, in_size = 4, in_buf = [], in_blocksize = 4, in_kmi = None\<rparr> dev4 =
       Some ([1, 2, 3, 4, 5], inp', dev5))"
proof -
  let ?out = "\<lparr>out_size = 4, out_buf = [], out_index_part = True\<rparr>"
  let ?inp = "\<lparr>current_pos = 0, eod_pos = 0, saw_small_block = False, saw_file_mark = False,
    in_size = 4, in_buf = [], in_blocksize = 4, in_kmi = None\<rparr>"
  have "\<exists>ctx1 dev1 dev2 dev3 dev4.
    write_pieces [[1, 2], [3, 4, 5]] ?out sample_mounted = Some (True, ctx1, dev1) \<and>
    xml_output_tape_close_callback ctx1 dev1 = (0, dev2) \<and>
    tape_write_filemark 1 True True dev2 = (0, dev3) \<and>
    tape_seek (seek_to (head_part sample_image) (of_nat (head_block sample_image))) dev3 = (0, dev4) \<and>
    (\<exists>inp' dev5. read_pieces True [1, 2, 9] ?inp dev4 =
       Some (take (sum_list [1, 2, 9]) (concat [[1, 2], [3, 4, 5]]), inp', dev5))"
    by (rule index_stream_roundtrip [OF sample_mounted_ready(1-3), where kmi = None])
       (simp_all add: sample_image_def has_room_def in_zone_def sample_mounted_def)
  then show ?thesis by (simp add: sample_image_def)
qed

end
