(* ===== verification/Cartridge.thy ===== *)
theory Cartridge imports TapeLayer begin

text \<open>
  The descriptive attributes in the cartridge memory: \<open>tape_get_MAMattributes\<close> and
  \<open>tape_get_MAM_AMVALattributes\<close> of \<open>src/ltfs/src/libltfs/tape.c\<close> and the structure
  \<open>struct tc_mam_attr\<close> they fill. A C string of the structure is the list of the bytes before its
  terminating zero; a null pointer is \<open>None\<close>.
\<close>

section \<open>The structure\<close>

record tc_mam_attr =
  appl_vendor :: "u8 list option"
  appl_name :: "u8 list option"
  appl_ver :: "u8 list option"
  appl_format_ver :: "u8 list option"
  volume_name :: "u8 list option"
  barcode :: "u8 list option"
  volumelockstate :: mam_lockval

abbreviation TC_MAM_PAGE_ATTRIBUTE_ALL :: u16 where "TC_MAM_PAGE_ATTRIBUTE_ALL \<equiv> 0"
abbreviation TC_MAM_APPLICATION_VENDOR :: u16 where "TC_MAM_APPLICATION_VENDOR \<equiv> 0x0800"
abbreviation TC_MAM_APPLICATION_VENDOR_LEN :: nat where "TC_MAM_APPLICATION_VENDOR_LEN \<equiv> 8"
abbreviation TC_MAM_APPLICATION_NAME :: u16 where "TC_MAM_APPLICATION_NAME \<equiv> 0x0801"
abbreviation TC_MAM_APPLICATION_NAME_LEN :: nat where "TC_MAM_APPLICATION_NAME_LEN \<equiv> 32"
abbreviation TC_MAM_APPLICATION_VERSION :: u16 where "TC_MAM_APPLICATION_VERSION \<equiv> 0x0802"
abbreviation TC_MAM_APPLICATION_VERSION_LEN :: nat where "TC_MAM_APPLICATION_VERSION_LEN \<equiv> 8"
abbreviation TC_MAM_APP_FORMAT_VERSION :: u16 where "TC_MAM_APP_FORMAT_VERSION \<equiv> 0x080B"
abbreviation TC_MAM_APP_FORMAT_VERSION_LEN :: nat where "TC_MAM_APP_FORMAT_VERSION_LEN \<equiv> 16"
abbreviation TC_MAM_USR_MED_TXT_LABEL :: u16 where "TC_MAM_USR_MED_TXT_LABEL \<equiv> 0x0803"
abbreviation TC_MAM_USR_MED_TXT_LABEL_LEN :: nat where "TC_MAM_USR_MED_TXT_LABEL_LEN \<equiv> 160"
abbreviation TC_MAM_BARCODE :: u16 where "TC_MAM_BARCODE \<equiv> 0x0806"
abbreviation TC_MAM_BARCODE_LEN :: nat where "TC_MAM_BARCODE_LEN \<equiv> 32"

definition c_string :: "u8 list \<Rightarrow> u8 list" where
  "c_string bytes = takeWhile (\<lambda>b. b \<noteq> 0) bytes"

section \<open>One attribute\<close>

text \<open>
  Reading one attribute: \<open>n\<close> bytes are asked for, into a buffer that was cleared, and the \<open>len\<close>
  bytes behind the header are the value. On failure the field keeps its value. The structure
  is an output parameter of the C functions and keeps what it had.
\<close>

definition read_field :: "u32 \<Rightarrow> u16 \<Rightarrow> nat \<Rightarrow> nat \<Rightarrow> 'b device_data \<Rightarrow> int \<times> u8 list \<times> 'b device_data" where
  "read_field prt attr n len dev =
     (case attr_read prt attr n dev of
        (status, mam_buf, dev) \<Rightarrow>
          (status, c_string (map (padded n (take n mam_buf)) [TC_MAM_PAGE_HEADER_SIZE..<TC_MAM_PAGE_HEADER_SIZE + len]), dev))"

text \<open>\<open>ret\<close> is the result so far; a failure replaces it.\<close>

definition get_field ::
    "(u8 list \<Rightarrow> tc_mam_attr \<Rightarrow> tc_mam_attr) \<Rightarrow> u16 \<Rightarrow> nat \<Rightarrow> nat \<Rightarrow> u32 \<Rightarrow>
     int \<times> tc_mam_attr \<times> 'b device_data \<Rightarrow> int \<times> tc_mam_attr \<times> 'b device_data" where
  "get_field store attr n len prt r =
     (case r of (ret, mam, dev) \<Rightarrow>
        case read_field prt attr n len dev of (status, val, dev) \<Rightarrow>
          if status = 0 then (ret, store val mam, dev) else (status, mam, dev))"

definition get_vendor ::
    "u32 \<Rightarrow> int \<times> tc_mam_attr \<times> 'b device_data \<Rightarrow> int \<times> tc_mam_attr \<times> 'b device_data" where
  "get_vendor = get_field (\<lambda>v m. m\<lparr>appl_vendor := Some v\<rparr>)
     TC_MAM_APPLICATION_VENDOR 20 TC_MAM_APPLICATION_VENDOR_LEN"

definition get_name ::
    "u32 \<Rightarrow> int \<times> tc_mam_attr \<times> 'b device_data \<Rightarrow> int \<times> tc_mam_attr \<times> 'b device_data" where
  "get_name = get_field (\<lambda>v m. m\<lparr>appl_name := Some v\<rparr>)
     TC_MAM_APPLICATION_NAME 40 TC_MAM_APPLICATION_NAME_LEN"

definition get_version ::
    "u32 \<Rightarrow> int \<times> tc_mam_attr \<times> 'b device_data \<Rightarrow> int \<times> tc_mam_attr \<times> 'b device_data" where
  "get_version = get_field (\<lambda>v m. m\<lparr>appl_ver := Some v\<rparr>)
     TC_MAM_APPLICATION_VERSION 20 TC_MAM_APPLICATION_VERSION_LEN"

definition get_format_version ::
    "u32 \<Rightarrow> int \<times> tc_mam_attr \<times> 'b device_data \<Rightarrow> int \<times> tc_mam_attr \<times> 'b device_data" where
  "get_format_version = get_field (\<lambda>v m. m\<lparr>appl_format_ver := Some v\<rparr>)
     TC_MAM_APP_FORMAT_VERSION 30 TC_MAM_APP_FORMAT_VERSION_LEN"

definition get_volume_name ::
    "u32 \<Rightarrow> int \<times> tc_mam_attr \<times> 'b device_data \<Rightarrow> int \<times> tc_mam_attr \<times> 'b device_data" where
  "get_volume_name = get_field (\<lambda>v m. m\<lparr>volume_name := Some v\<rparr>) TC_MAM_USR_MED_TXT_LABEL
     (TC_MAM_USR_MED_TXT_LABEL_LEN + TC_MAM_PAGE_HEADER_SIZE) TC_MAM_USR_MED_TXT_LABEL_LEN"

definition get_barcode ::
    "u32 \<Rightarrow> int \<times> tc_mam_attr \<times> 'b device_data \<Rightarrow> int \<times> tc_mam_attr \<times> 'b device_data" where
  "get_barcode = get_field (\<lambda>v m. m\<lparr>barcode := Some v\<rparr>) TC_MAM_BARCODE
     (TC_MAM_BARCODE_LEN + TC_MAM_PAGE_HEADER_SIZE) TC_MAM_BARCODE_LEN"

definition get_lock_state ::
    "u32 \<Rightarrow> int \<times> tc_mam_attr \<times> 'b device_data \<Rightarrow> int \<times> tc_mam_attr \<times> 'b device_data" where
  "get_lock_state prt r =
     (case r of (ret, mam, dev) \<Rightarrow>
        case tape_get_lock_state prt dev of (status, lock, dev) \<Rightarrow>
          (if status = 0 then ret else status, mam\<lparr>volumelockstate := lock\<rparr>, dev))"

section \<open>The operations\<close>

definition tape_get_MAMattributes ::
    "u16 \<Rightarrow> u32 \<Rightarrow> tc_mam_attr \<Rightarrow> 'b device_data \<Rightarrow> int \<times> tc_mam_attr \<times> 'b device_data" where
  "tape_get_MAMattributes attribute_id prt mam dev =
     (let start = (0, mam, dev)
      in if attribute_id = TC_MAM_APPLICATION_VENDOR then get_vendor prt start
         else if attribute_id = TC_MAM_APPLICATION_NAME then get_name prt start
         else if attribute_id = TC_MAM_APPLICATION_VERSION then get_version prt start
         else if attribute_id = TC_MAM_APP_FORMAT_VERSION then get_format_version prt start
         else if attribute_id = TC_MAM_USR_MED_TXT_LABEL then get_volume_name prt start
         else if attribute_id = TC_MAM_BARCODE then get_barcode prt start
         else if attribute_id = TC_MAM_VOL_LOCK_STATE then get_lock_state prt start
         else get_lock_state prt (get_barcode prt (get_volume_name prt (get_format_version prt
                (get_version prt (get_name prt (get_vendor prt start)))))))"

definition tape_get_MAM_AMVALattributes ::
    "u32 \<Rightarrow> tc_mam_attr \<Rightarrow> 'b device_data \<Rightarrow> int \<times> tc_mam_attr \<times> 'b device_data" where
  "tape_get_MAM_AMVALattributes prt mam dev = get_vendor prt (get_lock_state prt (0, mam, dev))"

end
