(* ===== verification/Extents.thy ===== *)
theory Extents imports Errors begin

text \<open>
  The extent list of a file: \<open>struct extent_info\<close> and the file part of \<open>struct dentry\<close>
  (\<open>src/ltfs/src/libltfs/ltfs.h\<close>), the insertion of a written extent
  (\<open>_ltfs_fsraw_add_extent_unlocked\<close>) and the truncation of a file
  (\<open>ltfs_fsraw_truncate\<close>) of \<open>src/ltfs/src/libltfs/ltfs_fsops_raw.c\<close>.

  The abstract view of an extent list is \<open>file_map\<close>: a map from the byte offsets of the
  file to the place on tape that holds the byte, a partition letter and a byte address
  (block number times block size plus offset in the block). The theorems say that
  inserting an extent overrides that map by the map of the new extent and nothing else,
  that truncating restricts it, and that the list stays sorted, disjoint and free of
  wrapped sums. Allocations are inputs: \<open>copy_ok\<close> and \<open>split_ok\<close> say whether the two
  \<open>malloc\<close> calls succeed; the time the code reads is the argument \<open>now\<close>.
\<close>

section \<open>Data\<close>

record extent_info =
  start_block :: u64
  start_partition :: char
  byteoffset :: u32
  bytecount :: u64
  fileoffset :: u64

record dentry =
  extentlist :: "extent_info list"
  realsize :: u64
  d_size :: u64
  extents_dirty :: bool
  access_time :: ltfs_timespec
  modify_time :: ltfs_timespec
  change_time :: ltfs_timespec

text \<open>
  The flags of \<open>struct ltfs_index\<close> that \<open>ltfs_set_index_dirty\<close> maintains. The last field
  is the dirty flag the dentry cache keeps for the volume, \<open>None\<close> when no cache is
  initialized.
\<close>

record ltfs_index_flags =
  idx_dirty :: bool
  atime_dirty :: bool
  use_atime :: bool
  idx_version :: int
  dcache_dirty :: "bool option"

abbreviation LTFS_INDEX_VERSION :: int where "LTFS_INDEX_VERSION \<equiv> 20400"

definition ltfs_set_index_dirty :: "bool \<Rightarrow> ltfs_index_flags \<Rightarrow> ltfs_index_flags" where
  "ltfs_set_index_dirty atime idx =
     (let was_dirty = idx_dirty idx;
          i1 = (if atime then idx\<lparr>atime_dirty := True\<rparr> else idx\<lparr>idx_dirty := True\<rparr>);
          i2 = (if \<not> atime \<or> (atime \<and> use_atime i1)
                then i1\<lparr>idx_version := LTFS_INDEX_VERSION\<rparr> else i1)
      in if \<not> was_dirty \<and> idx_dirty i2 \<and> dcache_dirty i2 \<noteq> None
         then i2\<lparr>dcache_dirty := Some True\<rparr> else i2)"

section \<open>Adding an extent\<close>

definition fileoffset_end :: "extent_info \<Rightarrow> u64" where
  "fileoffset_end e = fileoffset e + bytecount e"

text \<open>An entry loses its beginning, up to the file offset \<open>new_start\<close>.\<close>

definition extent_truncate_front :: "u64 \<Rightarrow> u64 \<Rightarrow> extent_info \<Rightarrow> extent_info" where
  "extent_truncate_front blocksize new_start entry =
     (let fileoffset_diff = new_start - fileoffset entry;
          entry_byteoffset_mod = fileoffset_diff + ucast (byteoffset entry)
      in entry\<lparr>start_block := start_block entry + entry_byteoffset_mod div blocksize,
               byteoffset := ucast (entry_byteoffset_mod mod blocksize),
               bytecount := bytecount entry - fileoffset_diff,
               fileoffset := fileoffset entry + fileoffset_diff\<rparr>)"

text \<open>The last of the three pieces an entry is split into.\<close>

definition extent_split_tail :: "u64 \<Rightarrow> u64 \<Rightarrow> extent_info \<Rightarrow> extent_info" where
  "extent_split_tail blocksize ext_fileoffset_end entry =
     (let fileoffset_diff = ext_fileoffset_end - fileoffset entry;
          entry_byteoffset_mod = fileoffset_diff + ucast (byteoffset entry)
      in \<lparr>start_block = start_block entry + entry_byteoffset_mod div blocksize,
          start_partition = start_partition entry,
          byteoffset = ucast (entry_byteoffset_mod mod blocksize),
          bytecount = bytecount entry - fileoffset_diff,
          fileoffset = ext_fileoffset_end\<rparr>)"

text \<open>
  What the first half of the loop body does to an entry: delete it, keep it changed or
  unchanged (with the entries it inserts behind it and the new \<open>realsize\<close>), or fail to
  allocate the split entry.
\<close>

datatype extent_cut =
    CutDelete u64
  | CutKeep extent_info "extent_info list" u64
  | CutNoMemory

definition cut_entry :: "bool \<Rightarrow> u64 \<Rightarrow> extent_info \<Rightarrow> extent_info \<Rightarrow> u64 \<Rightarrow> extent_cut" where
  "cut_entry split_ok blocksize ext entry realsize_new =
     (let ext_fileoffset_end = fileoffset_end ext;
          entry_fileoffset_end = fileoffset_end entry
      in if fileoffset ext \<le> fileoffset entry \<and> fileoffset entry < ext_fileoffset_end then
           (if entry_fileoffset_end \<le> ext_fileoffset_end
            then CutDelete (realsize_new - bytecount entry)
            else CutKeep (extent_truncate_front blocksize ext_fileoffset_end entry) []
                   (realsize_new - (ext_fileoffset_end - fileoffset entry)))
         else if fileoffset entry < fileoffset ext \<and> fileoffset ext < entry_fileoffset_end then
           (if entry_fileoffset_end \<le> ext_fileoffset_end
            then CutKeep (entry\<lparr>bytecount := fileoffset ext - fileoffset entry\<rparr>) []
                   (realsize_new - (entry_fileoffset_end - fileoffset ext))
            else if \<not> split_ok then CutNoMemory
            else CutKeep (entry\<lparr>bytecount := fileoffset ext - fileoffset entry\<rparr>)
                   [extent_split_tail blocksize ext_fileoffset_end entry]
                   (realsize_new - bytecount ext))
         else CutKeep entry [] realsize_new)"

text \<open>
  The second half of the loop body: append the new bytes to the entry when they continue
  it on tape, or insert the new extent after it, or go on (\<open>None\<close>).
\<close>

definition place_extent :: "u64 \<Rightarrow> extent_info \<Rightarrow> extent_info \<Rightarrow> extent_info list option" where
  "place_extent blocksize ext entry =
     (let entry_fileoffset_end = fileoffset_end entry;
          entry_byteoffset_end = ucast (byteoffset entry) + bytecount entry;
          entry_blockcount = entry_byteoffset_end div blocksize
      in if fileoffset ext = entry_fileoffset_end \<and>
            start_partition entry = start_partition ext \<and>
            entry_byteoffset_end mod blocksize = 0 \<and>
            start_block entry + entry_blockcount = start_block ext \<and>
            byteoffset ext = 0
         then Some [entry\<lparr>bytecount := bytecount entry + bytecount ext\<rparr>]
         else if entry_fileoffset_end \<le> fileoffset ext then Some [entry, ext]
         else None)"

text \<open>
  The reverse traversal of the list: the first list holds the entries still to visit, the
  last one first; the second the entries behind them. The results are the return code,
  \<open>ext_used\<close>, the list and \<open>realsize_new\<close>.
\<close>

fun add_extent_loop ::
    "bool \<Rightarrow> u64 \<Rightarrow> extent_info \<Rightarrow> extent_info list \<Rightarrow> extent_info list \<Rightarrow> u64
     \<Rightarrow> int \<times> bool \<times> extent_info list \<times> u64" where
  "add_extent_loop split_ok blocksize ext [] after realsize_new =
     (0, False, after, realsize_new)"
| "add_extent_loop split_ok blocksize ext (entry # before) after realsize_new =
     (case cut_entry split_ok blocksize ext entry realsize_new of
        CutDelete rs \<Rightarrow> add_extent_loop split_ok blocksize ext before after rs
      | CutNoMemory \<Rightarrow>
          (- LTFS_NO_MEMORY, False, rev before @ entry # after, realsize_new)
      | CutKeep entry' tail rs \<Rightarrow>
          (case place_extent blocksize ext entry' of
             Some es \<Rightarrow> (0, True, rev before @ es @ tail @ after, rs + bytecount ext)
           | None \<Rightarrow> add_extent_loop split_ok blocksize ext before (entry' # tail @ after) rs))"

definition ltfs_fsraw_add_extent_unlocked ::
    "bool \<Rightarrow> bool \<Rightarrow> ltfs_timespec \<Rightarrow> dentry \<Rightarrow> extent_info \<Rightarrow> bool \<Rightarrow> u64
     \<Rightarrow> ltfs_index_flags \<Rightarrow> int \<times> dentry \<times> ltfs_index_flags" where
  "ltfs_fsraw_add_extent_unlocked copy_ok split_ok now d ext update_time blocksize idx =
     (if \<not> copy_ok then (- LTFS_NO_MEMORY, d, idx)
      else case add_extent_loop split_ok blocksize ext (rev (extentlist d)) [] (realsize d) of
        (ret, ext_used, l, rs) \<Rightarrow>
          if ret < 0 then (ret, d\<lparr>extentlist := l\<rparr>, idx)
          else
            let (l', rs') = (if ext_used then (l, rs) else (ext # l, rs + bytecount ext));
                d1 = d\<lparr>extentlist := l'\<rparr>;
                d2 = (if d_size d1 < fileoffset_end ext
                      then d1\<lparr>d_size := fileoffset_end ext\<rparr> else d1);
                d3 = d2\<lparr>realsize := rs'\<rparr>;
                d4 = (if update_time
                      then d3\<lparr>modify_time := now, change_time := now\<rparr> else d3)
            in (0, d4\<lparr>extents_dirty := True\<rparr>, ltfs_set_index_dirty False idx))"

section \<open>Truncating a file\<close>

fun truncate_loop :: "u64 \<Rightarrow> extent_info list \<Rightarrow> u64 \<Rightarrow> extent_info list \<times> u64" where
  "truncate_loop ulength [] new_realsize = ([], new_realsize)"
| "truncate_loop ulength (entry # before) new_realsize =
     (let entry_fileoffset_last = fileoffset_end entry
      in if ulength \<le> fileoffset entry \<or> ulength = 0
         then truncate_loop ulength before (new_realsize - bytecount entry)
         else if ulength < entry_fileoffset_last then
           (case truncate_loop ulength before
                   (new_realsize - (entry_fileoffset_last - ulength)) of
              (l, rs) \<Rightarrow> (l @ [entry\<lparr>bytecount := ulength - fileoffset entry\<rparr>], rs))
         else (rev before @ [entry], new_realsize))"

definition ltfs_fsraw_truncate ::
    "int \<Rightarrow> ltfs_timespec \<Rightarrow> dentry \<Rightarrow> int \<Rightarrow> ltfs_index_flags \<Rightarrow> int \<times> dentry \<times> ltfs_index_flags" where
  "ltfs_fsraw_truncate volume_lock now d new_length idx =
     (if volume_lock < 0 then (volume_lock, d, idx)
      else
        let ulength = (of_int new_length :: u64);
            (l, rs) = (if ulength < d_size d \<and> extentlist d \<noteq> []
                       then truncate_loop ulength (rev (extentlist d)) (realsize d)
                       else (extentlist d, realsize d))
        in (0, d\<lparr>extentlist := l, d_size := ulength, realsize := rs,
                 modify_time := now, change_time := now\<rparr>,
            ltfs_set_index_dirty False idx))"

section \<open>Extents as sets of bytes on tape\<close>

definition ext_lo :: "extent_info \<Rightarrow> nat" where
  "ext_lo e = unat (fileoffset e)"

definition ext_len :: "extent_info \<Rightarrow> nat" where
  "ext_len e = unat (bytecount e)"

definition ext_hi :: "extent_info \<Rightarrow> nat" where
  "ext_hi e = ext_lo e + ext_len e"

text \<open>
  The byte address on tape of the first byte of an extent, and the map from file offsets
  to tape addresses an extent stands for.
\<close>

definition ext_addr :: "u64 \<Rightarrow> extent_info \<Rightarrow> nat" where
  "ext_addr bs e = unat (start_block e) * unat bs + unat (byteoffset e)"

definition ext_map :: "u64 \<Rightarrow> extent_info \<Rightarrow> nat \<rightharpoonup> char \<times> nat" where
  "ext_map bs e x =
     (if ext_lo e \<le> x \<and> x < ext_hi e
      then Some (start_partition e, ext_addr bs e + (x - ext_lo e)) else None)"

fun file_map :: "u64 \<Rightarrow> extent_info list \<Rightarrow> nat \<rightharpoonup> char \<times> nat" where
  "file_map bs [] = Map.empty"
| "file_map bs (e # es) = ext_map bs e ++ file_map bs es"

text \<open>
  No sum the code forms from the fields of one extent wraps, and an extent starts inside
  its first block. The block size is at most \<open>2\<^sup>3\<^sup>2\<close>, the range of \<open>byteoffset\<close>.
\<close>

definition ext_wf :: "u64 \<Rightarrow> extent_info \<Rightarrow> bool" where
  "ext_wf bs e \<longleftrightarrow>
     0 < unat bs \<and> unat bs \<le> 2 ^ 32 \<and> unat (byteoffset e) < unat bs \<and>
     ext_hi e + unat bs \<le> 2 ^ 64 \<and>
     unat (start_block e) + (unat (byteoffset e) + ext_len e) div unat bs < 2 ^ 64"

definition exts_wf :: "u64 \<Rightarrow> extent_info list \<Rightarrow> bool" where
  "exts_wf bs es \<longleftrightarrow>
     (\<forall>e \<in> set es. ext_wf bs e) \<and> sorted_wrt (\<lambda>a b. ext_hi a \<le> ext_lo b) es"

definition total_bytes :: "extent_info list \<Rightarrow> u64" where
  "total_bytes es = sum_list (map bytecount es)"

text \<open>The invariant of the file part of a dentry.\<close>

definition dentry_wf :: "u64 \<Rightarrow> dentry \<Rightarrow> bool" where
  "dentry_wf bs d \<longleftrightarrow>
     exts_wf bs (extentlist d) \<and> realsize d = total_bytes (extentlist d) \<and>
     (\<forall>e \<in> set (extentlist d). ext_hi e \<le> unat (d_size d))"

lemma ext_lo_less: "ext_lo e < 2 ^ 64"
  unfolding ext_lo_def by (rule u64_less_bound)

lemma ext_hi_word [simp]:
  assumes "ext_wf bs e"
  shows "unat (fileoffset_end e) = ext_hi e"
  using assms unfolding fileoffset_end_def ext_wf_def ext_hi_def ext_lo_def ext_len_def
  by (subst unat_add_nowrap) auto

lemma ext_byte_end:
  assumes "ext_wf bs e"
  shows "unat (ucast (byteoffset e) + bytecount e :: u64) = unat (byteoffset e) + ext_len e"
  using assms unfolding ext_wf_def ext_hi_def ext_lo_def ext_len_def
  by (subst unat_add_nowrap) auto

lemma file_map_append: "file_map bs (xs @ ys) = file_map bs xs ++ file_map bs ys"
  by (induction xs) auto

lemma ext_map_outside: "\<not> (ext_lo e \<le> x \<and> x < ext_hi e) \<Longrightarrow> ext_map bs e x = None"
  by (auto simp: ext_map_def)

lemma file_map_None:
  "(\<And>e. e \<in> set es \<Longrightarrow> \<not> (ext_lo e \<le> x \<and> x < ext_hi e)) \<Longrightarrow> file_map bs es x = None"
  by (induction es) (auto simp: map_add_def ext_map_outside)

subsection \<open>The cuts of the loop body\<close>

lemma addr_shift:
  fixes b n o' k :: nat
  assumes "0 < n"
  shows "(b + (k + o') div n) * n + (k + o') mod n = b * n + o' + k"
  by (metis add.commute add.left_commute add_mult_distrib div_mult_mod_eq)

lemma truncate_front:
  assumes wf: "ext_wf bs e" and lo: "ext_lo e \<le> unat c" and hi: "unat c < ext_hi e"
  defines "e' \<equiv> extent_truncate_front bs c e"
  shows "ext_lo e' = unat c" and "ext_hi e' = ext_hi e" and "ext_wf bs e'"
    and "ext_addr bs e' = ext_addr bs e + (unat c - ext_lo e)"
    and "start_partition e' = start_partition e"
proof -
  let ?k = "c - fileoffset e" and ?n = "unat bs"
  have pos: "0 < ?n" and bo: "unat (byteoffset e) < ?n" and n32: "?n \<le> 2 ^ 32"
    using wf by (auto simp: ext_wf_def)
  have k: "unat ?k = unat c - ext_lo e"
    using lo by (simp add: unat_sub_le word_le_nat_alt ext_lo_def)
  have kle: "?k \<le> bytecount e"
    using hi k by (simp add: word_le_nat_alt ext_hi_def ext_len_def)
  have m: "unat (?k + ucast (byteoffset e) :: u64) = unat ?k + unat (byteoffset e)"
    using wf hi k by (subst unat_add_nowrap) (auto simp: ext_wf_def)
  have small: "unat ((?k + ucast (byteoffset e)) mod bs :: u64) < 2 ^ 32"
    using pos n32 by (simp add: unat_mod) (meson less_le_trans mod_less_divisor)
  have b: "unat (byteoffset e') = (unat ?k + unat (byteoffset e)) mod ?n"
    using small by (simp add: e'_def extent_truncate_front_def Let_def unat_ucast_u64_u32 unat_mod m)
  have len: "ext_len e' = ext_len e - unat ?k"
    using kle by (simp add: e'_def extent_truncate_front_def Let_def ext_len_def unat_sub_le)
  show lo': "ext_lo e' = unat c"
    by (simp add: e'_def extent_truncate_front_def Let_def ext_lo_def)
  show hi': "ext_hi e' = ext_hi e"
    using lo' len k lo hi by (simp add: ext_hi_def)
  have d: "unat (start_block e) + (unat ?k + unat (byteoffset e)) div ?n < 2 ^ 64"
    using wf kle unfolding ext_wf_def ext_len_def word_le_nat_alt
    by (smt (verit) add.commute add_left_mono div_le_mono le_less_trans)
  have blk: "unat (start_block e') = unat (start_block e) + (unat ?k + unat (byteoffset e)) div ?n"
    using d by (simp add: e'_def extent_truncate_front_def Let_def unat_add_nowrap unat_div m)
  show "ext_addr bs e' = ext_addr bs e + (unat c - ext_lo e)"
    unfolding ext_addr_def blk b addr_shift [OF pos] k by simp
  have "(unat (byteoffset e') + ext_len e') div ?n + (unat ?k + unat (byteoffset e)) div ?n
        = (unat (byteoffset e) + ext_len e) div ?n"
  proof -
    have "unat (byteoffset e) + ext_len e
      = (unat (byteoffset e') + ext_len e') + ((unat ?k + unat (byteoffset e)) div ?n) * ?n"
      using b len kle by (simp add: ext_len_def word_le_nat_alt)
    then show ?thesis using pos by simp
  qed
  then show "ext_wf bs e'"
    using wf hi' blk b pos by (simp add: ext_wf_def)
  show "start_partition e' = start_partition e"
    by (simp add: e'_def extent_truncate_front_def Let_def)
qed

lemma split_tail_eq: "extent_split_tail bs c e = extent_truncate_front bs c e"
  by (simp add: extent_split_tail_def extent_truncate_front_def Let_def)

lemma truncate_back:
  assumes wf: "ext_wf bs e" and lo: "ext_lo e \<le> unat c" and hi: "unat c \<le> ext_hi e"
  defines "e' \<equiv> e\<lparr>bytecount := c - fileoffset e\<rparr>"
  shows "ext_lo e' = ext_lo e" and "ext_hi e' = unat c" and "ext_wf bs e'"
    and "ext_addr bs e' = ext_addr bs e" and "start_partition e' = start_partition e"
proof -
  have len: "ext_len e' = unat c - ext_lo e"
    using lo by (simp add: e'_def ext_len_def ext_lo_def unat_sub_le word_le_nat_alt)
  show lo': "ext_lo e' = ext_lo e" by (simp add: e'_def ext_lo_def)
  show hi': "ext_hi e' = unat c" using len lo lo' by (simp add: ext_hi_def)
  have "ext_len e' \<le> ext_len e" using len hi by (simp add: ext_hi_def)
  then have "(unat (byteoffset e) + ext_len e') div unat bs
      \<le> (unat (byteoffset e) + ext_len e) div unat bs" by (simp add: div_le_mono)
  then show "ext_wf bs e'"
    using wf hi hi' by (auto simp: ext_wf_def e'_def)
  show "ext_addr bs e' = ext_addr bs e" by (simp add: e'_def ext_addr_def)
  show "start_partition e' = start_partition e" by (simp add: e'_def)
qed

text \<open>What a cut leaves of an entry, as the loop needs it.\<close>

definition cut_ok :: "u64 \<Rightarrow> extent_info \<Rightarrow> extent_info \<Rightarrow> u64 \<Rightarrow> extent_info \<Rightarrow> extent_info list \<Rightarrow> u64 \<Rightarrow> bool" where
  "cut_ok bs x e rs e' tail rs' \<longleftrightarrow>
     exts_wf bs (e' # tail) \<and>
     (\<forall>k \<in> set (e' # tail). ext_lo e \<le> ext_lo k \<and> ext_hi k \<le> ext_hi e) \<and>
     (\<forall>k \<in> set tail. ext_hi x \<le> ext_lo k) \<and>
     (ext_hi e' \<le> ext_lo x \<or> ext_hi x \<le> ext_lo e' \<and> tail = []) \<and>
     file_map bs (e' # tail) ++ ext_map bs x = ext_map bs e ++ ext_map bs x \<and>
     rs' = rs + total_bytes (e' # tail) - bytecount e"

lemma cut_entry_nat:
  assumes "ext_wf bs x" "ext_wf bs e"
  shows "cut_entry split_ok bs x e rs =
     (if ext_lo x \<le> ext_lo e \<and> ext_lo e < ext_hi x then
        (if ext_hi e \<le> ext_hi x then CutDelete (rs - bytecount e)
         else CutKeep (extent_truncate_front bs (fileoffset_end x) e) []
                (rs - (fileoffset_end x - fileoffset e)))
      else if ext_lo e < ext_lo x \<and> ext_lo x < ext_hi e then
        (if ext_hi e \<le> ext_hi x
         then CutKeep (e\<lparr>bytecount := fileoffset x - fileoffset e\<rparr>) []
                (rs - (fileoffset_end e - fileoffset x))
         else if \<not> split_ok then CutNoMemory
         else CutKeep (e\<lparr>bytecount := fileoffset x - fileoffset e\<rparr>)
                [extent_truncate_front bs (fileoffset_end x) e] (rs - bytecount x))
      else CutKeep e [] rs)"
proof -
  have h: "unat (fileoffset_end x) = ext_hi x" "unat (fileoffset_end e) = ext_hi e"
    using assms by simp_all
  show ?thesis
    unfolding cut_entry_def Let_def word_le_nat_alt word_less_nat_alt h split_tail_eq
      ext_lo_def [symmetric] ..
qed

lemma cut_front_ok:
  assumes wf: "ext_wf bs x" "ext_wf bs e"
    and pos: "ext_lo x \<le> ext_lo e" "ext_lo e < ext_hi x" "ext_hi x < ext_hi e"
  shows "cut_ok bs x e rs (extent_truncate_front bs (fileoffset_end x) e) []
           (rs - (fileoffset_end x - fileoffset e))"
proof -
  have hx: "unat (fileoffset_end x) = ext_hi x" using wf by simp
  then have le: "ext_lo e \<le> unat (fileoffset_end x)" and lt: "unat (fileoffset_end x) < ext_hi e"
    using pos by simp_all
  have "bytecount (extent_truncate_front bs (fileoffset_end x) e)
      = bytecount e - (fileoffset_end x - fileoffset e)"
    by (simp add: extent_truncate_front_def Let_def)
  then show ?thesis using truncate_front [OF wf(2) le lt] pos hx
    by (auto simp: cut_ok_def exts_wf_def total_bytes_def map_add_def ext_map_def fun_eq_iff)
qed

lemma cut_rear_ok:
  assumes wf: "ext_wf bs x" "ext_wf bs e"
    and pos: "ext_lo e < ext_lo x" "ext_lo x < ext_hi e" "ext_hi e \<le> ext_hi x"
  shows "cut_ok bs x e rs (e\<lparr>bytecount := fileoffset x - fileoffset e\<rparr>) []
           (rs - (fileoffset_end e - fileoffset x))"
proof -
  have hx: "unat (fileoffset x) = ext_lo x" by (simp add: ext_lo_def)
  then have le: "ext_lo e \<le> unat (fileoffset x)" and lt: "unat (fileoffset x) \<le> ext_hi e"
    using pos by simp_all
  show ?thesis using truncate_back [OF wf(2) le lt] pos hx
    by (auto simp: cut_ok_def exts_wf_def total_bytes_def map_add_def ext_map_def fun_eq_iff
        fileoffset_end_def)
qed

lemma cut_split_ok:
  assumes wf: "ext_wf bs x" "ext_wf bs e"
    and pos: "ext_lo e < ext_lo x" "ext_hi x < ext_hi e"
  shows "cut_ok bs x e rs (e\<lparr>bytecount := fileoffset x - fileoffset e\<rparr>)
           [extent_truncate_front bs (fileoffset_end x) e] (rs - bytecount x)"
proof -
  let ?e = "e\<lparr>bytecount := fileoffset x - fileoffset e\<rparr>"
  let ?t = "extent_truncate_front bs (fileoffset_end x) e"
  have hx: "unat (fileoffset x) = ext_lo x" "unat (fileoffset_end x) = ext_hi x"
    using wf by (simp_all add: ext_lo_def)
  have x: "ext_lo x \<le> ext_hi x" by (simp add: ext_hi_def)
  have le: "ext_lo e \<le> unat (fileoffset x)" and lt: "unat (fileoffset x) \<le> ext_hi e"
    using pos hx x by simp_all
  have le': "ext_lo e \<le> unat (fileoffset_end x)" and lt': "unat (fileoffset_end x) < ext_hi e"
    using pos hx x by simp_all
  have sum: "rs - bytecount x = rs + total_bytes [?e, ?t] - bytecount e"
    by (simp add: total_bytes_def extent_truncate_front_def Let_def fileoffset_end_def)
  note t = truncate_back [OF wf(2) le lt] and u = truncate_front [OF wf(2) le' lt']
  have maps: "file_map bs [?e, ?t] ++ ext_map bs x = ext_map bs e ++ ext_map bs x"
  proof
    fix y
    show "(file_map bs [?e, ?t] ++ ext_map bs x) y = (ext_map bs e ++ ext_map bs x) y"
      using t(1,2,4,5) u(1,2,4,5) pos hx x by (auto simp: map_add_def ext_map_def)
  qed
  show ?thesis unfolding cut_ok_def sum [symmetric] maps
    using t(1-3) u(1-3) pos hx x by (simp add: exts_wf_def)
qed

lemma cut_apart_ok:
  assumes "ext_wf bs e" "ext_hi e \<le> ext_lo x \<or> ext_hi x \<le> ext_lo e"
  shows "cut_ok bs x e rs e [] rs"
  using assms by (simp add: cut_ok_def exts_wf_def total_bytes_def)

lemma cut_entry_keep:
  assumes wf: "ext_wf bs x" "ext_wf bs e"
    and cut: "cut_entry split_ok bs x e rs = CutKeep e' tail rs'"
  shows "cut_ok bs x e rs e' tail rs'"
proof (cases "ext_lo x \<le> ext_lo e \<and> ext_lo e < ext_hi x")
  case True
  then show ?thesis using cut unfolding cut_entry_nat [OF wf]
    by (simp split: if_splits) (use cut_front_ok [OF wf] in auto)
next
  case False
  note no_front = False
  show ?thesis
  proof (cases "ext_lo e < ext_lo x \<and> ext_lo x < ext_hi e")
    case True
    show ?thesis
    proof (cases "ext_hi e \<le> ext_hi x")
      case le: True
      have "e' = e\<lparr>bytecount := fileoffset x - fileoffset e\<rparr>" "tail = []"
        "rs' = rs - (fileoffset_end e - fileoffset x)"
        using cut no_front True le unfolding cut_entry_nat [OF wf] by simp_all
      then show ?thesis using cut_rear_ok [OF wf] True le by simp
    next
      case gt: False
      have "e' = e\<lparr>bytecount := fileoffset x - fileoffset e\<rparr>"
        "tail = [extent_truncate_front bs (fileoffset_end x) e]" "rs' = rs - bytecount x"
        using cut no_front True gt unfolding cut_entry_nat [OF wf]
        by (simp_all split: if_splits)
      then show ?thesis using cut_split_ok [OF wf] True gt by simp
    qed
  next
    case False
    have "e' = e" "tail = []" "rs' = rs"
      using cut no_front False unfolding cut_entry_nat [OF wf] by auto
    moreover have "ext_hi e \<le> ext_lo x \<or> ext_hi x \<le> ext_lo e"
      using no_front False by linarith
    ultimately show ?thesis using cut_apart_ok [OF wf(2)] by simp
  qed
qed

lemma cut_entry_delete:
  assumes wf: "ext_wf bs x" "ext_wf bs e"
    and cut: "cut_entry split_ok bs x e rs = CutDelete rs'"
  shows "ext_lo x \<le> ext_lo e" and "ext_hi e \<le> ext_hi x" and "rs' = rs - bytecount e"
  using cut unfolding cut_entry_nat [OF wf] by (auto split: if_splits)

lemma cut_entry_no_memory:
  assumes wf: "ext_wf bs x" "ext_wf bs e"
    and cut: "cut_entry split_ok bs x e rs = CutNoMemory"
  shows "\<not> split_ok" and "ext_lo e < ext_lo x" and "ext_hi x < ext_hi e"
  using cut unfolding cut_entry_nat [OF wf] by (auto split: if_splits)

subsection \<open>Placing the new extent\<close>

lemma merge_extents:
  assumes wf: "ext_wf bs e" "ext_wf bs x"
    and adj: "fileoffset x = fileoffset_end e" "start_partition e = start_partition x"
      "(ucast (byteoffset e) + bytecount e :: u64) mod bs = 0"
      "start_block e + (ucast (byteoffset e) + bytecount e) div bs = start_block x"
      "byteoffset x = 0"
  defines "e' \<equiv> e\<lparr>bytecount := bytecount e + bytecount x\<rparr>"
  shows "ext_lo e' = ext_lo e" and "ext_hi e' = ext_hi x" and "ext_wf bs e'"
    and "ext_map bs e' = ext_map bs e ++ ext_map bs x" and "ext_hi e = ext_lo x"
proof -
  let ?n = "unat bs" and ?b = "unat (byteoffset e) + ext_len e"
  have pos: "0 < ?n" using wf by (simp add: ext_wf_def)
  have be: "unat (ucast (byteoffset e) + bytecount e :: u64) = ?b"
    using wf(1) by (rule ext_byte_end)
  have mod0: "?b mod ?n = 0"
    using arg_cong [OF adj(3), of unat] unfolding unat_mod be by simp
  have blk: "unat (start_block x) = unat (start_block e) + ?b div ?n"
    using wf(1) by (simp add: adj(4) [symmetric] unat_add_nowrap unat_div be ext_wf_def)
  show eh: "ext_hi e = ext_lo x"
    using wf(1) by (simp add: ext_lo_def [of x] adj(1))
  have len: "ext_len e' = ext_len e + ext_len x"
    unfolding e'_def ext_len_def using wf(2) eh
    by (simp add: unat_add_nowrap ext_wf_def ext_hi_def ext_len_def)
  show lo: "ext_lo e' = ext_lo e" by (simp add: e'_def ext_lo_def)
  show hi: "ext_hi e' = ext_hi x" using eh len lo by (simp add: ext_hi_def)
  have split: "?b = (?b div ?n) * ?n" using mod0 by auto
  have "(unat (byteoffset e) + ext_len e') div ?n = ?b div ?n + ext_len x div ?n"
  proof -
    have "unat (byteoffset e) + ext_len e' = ext_len x + (?b div ?n) * ?n"
      using split len by simp
    then show ?thesis using pos by (metis add.commute div_mult_self1 less_not_refl)
  qed
  then show "ext_wf bs e'"
    using wf hi blk adj(5) by (simp add: ext_wf_def e'_def)
  have addr: "ext_addr bs x = ext_addr bs e + ext_len e"
    using split by (simp add: ext_addr_def blk adj(5) add_mult_distrib)
  show "ext_map bs e' = ext_map bs e ++ ext_map bs x"
  proof
    fix y
    have "ext_addr bs e' = ext_addr bs e" "start_partition e' = start_partition e"
      by (simp_all add: e'_def ext_addr_def)
    then show "ext_map bs e' y = (ext_map bs e ++ ext_map bs x) y"
      using lo hi eh addr adj(2) by (auto simp: map_add_def ext_map_def ext_hi_def)
  qed
qed

lemma place_extent_after:
  assumes wf: "ext_wf bs e" "ext_wf bs x" and le: "ext_hi e \<le> ext_lo x"
  obtains es where "place_extent bs x e = Some es" "exts_wf bs es"
    "file_map bs es = ext_map bs e ++ ext_map bs x"
    "total_bytes es = bytecount e + bytecount x"
    "\<forall>k \<in> set es. ext_lo e \<le> ext_lo k \<and> ext_hi k \<le> ext_hi x"
proof (cases "fileoffset x = fileoffset_end e \<and> start_partition e = start_partition x \<and>
      (ucast (byteoffset e) + bytecount e :: u64) mod bs = 0 \<and>
      start_block e + (ucast (byteoffset e) + bytecount e) div bs = start_block x \<and>
      byteoffset x = 0")
  case True
  then have adj: "fileoffset x = fileoffset_end e" "start_partition e = start_partition x"
      "(ucast (byteoffset e) + bytecount e :: u64) mod bs = 0"
      "start_block e + (ucast (byteoffset e) + bytecount e) div bs = start_block x"
      "byteoffset x = 0" by simp_all
  note m = merge_extents [OF wf adj]
  show thesis
    by (rule that [of "[e\<lparr>bytecount := bytecount e + bytecount x\<rparr>]"])
       (use True m in \<open>simp_all add: place_extent_def Let_def exts_wf_def total_bytes_def\<close>)
next
  case False
  have "fileoffset_end e \<le> fileoffset x"
    using wf le by (simp add: word_le_nat_alt ext_lo_def)
  then have p: "place_extent bs x e = Some [e, x]"
    using False by (auto simp: place_extent_def Let_def)
  have h: "ext_lo e \<le> ext_hi e" "ext_lo x \<le> ext_hi x" by (simp_all add: ext_hi_def)
  show thesis
    by (rule that [OF p]) (use wf le h in \<open>auto simp: exts_wf_def total_bytes_def\<close>)
qed

lemma place_extent_None:
  assumes "ext_wf bs e" "ext_wf bs x" "place_extent bs x e = None"
  shows "ext_lo x < ext_hi e"
  using assms by (auto elim: place_extent_after [of bs e x] simp: not_le [symmetric])

lemma place_extent_Some:
  assumes "ext_wf bs e" "ext_wf bs x" "place_extent bs x e = Some es"
  shows "ext_hi e \<le> ext_lo x"
  using assms by (auto simp: place_extent_def Let_def word_le_nat_alt ext_lo_def
      split: if_splits dest: arg_cong [where f = unat])

subsection \<open>The loop\<close>

lemma exts_wf_append:
  "exts_wf bs (xs @ ys) \<longleftrightarrow>
     exts_wf bs xs \<and> exts_wf bs ys \<and> (\<forall>a \<in> set xs. \<forall>b \<in> set ys. ext_hi a \<le> ext_lo b)"
  by (auto simp: exts_wf_def sorted_wrt_append)

lemma exts_wf_Cons:
  "exts_wf bs (e # es) \<longleftrightarrow>
     ext_wf bs e \<and> exts_wf bs es \<and> (\<forall>b \<in> set es. ext_hi e \<le> ext_lo b)"
  by (auto simp: exts_wf_def)

lemma exts_wf_Nil [simp]: "exts_wf bs []"
  by (simp add: exts_wf_def)

lemma total_bytes_simps [simp]:
  "total_bytes [] = 0" "total_bytes (e # es) = bytecount e + total_bytes es"
  "total_bytes (xs @ ys) = total_bytes xs + total_bytes ys"
  "total_bytes (rev xs) = total_bytes xs"
  by (simp_all add: total_bytes_def rev_map [symmetric] sum_list_rev)

text \<open>Maps of extents that lie apart commute.\<close>

lemma file_map_Some:
  "file_map bs es y = Some v \<Longrightarrow> \<exists>e \<in> set es. ext_lo e \<le> y \<and> y < ext_hi e"
  by (induction es) (auto simp: map_add_Some_iff ext_map_def split: if_splits)

lemma ext_map_file_map_comm:
  assumes "\<forall>b \<in> set es. ext_hi x \<le> ext_lo b"
  shows "ext_map bs x ++ file_map bs es = file_map bs es ++ ext_map bs x"
proof (rule map_add_comm)
  show "dom (ext_map bs x) \<inter> dom (file_map bs es) = {}"
    using assms by (fastforce simp: ext_map_def dest: file_map_Some split: if_splits)
qed

text \<open>
  What the traversal computes, over the list with the new extent put in front when it was
  not used: a well-formed list whose map is the old one overridden by the new extent.
\<close>

definition add_result_ok ::
    "u64 \<Rightarrow> extent_info \<Rightarrow> extent_info list \<Rightarrow> u64 \<Rightarrow> int \<times> bool \<times> extent_info list \<times> u64 \<Rightarrow> bool" where
  "add_result_ok bs x es rs r =
     (case r of (ret, used, l, rs') \<Rightarrow>
        let l' = (if used then l else x # l);
            rs'' = (if used then rs' else rs' + bytecount x)
        in ret = 0 \<and> exts_wf bs l' \<and> file_map bs l' = file_map bs es ++ ext_map bs x \<and>
           rs'' = rs + total_bytes l' - total_bytes es \<and>
           (\<forall>k \<in> set l'. ext_hi k \<le> ext_hi x \<or> (\<exists>e \<in> set es. ext_hi k \<le> ext_hi e)))"

lemma add_result_ok_replace:
  assumes r: "add_result_ok bs x new rs' r"
    and maps: "file_map bs new ++ ext_map bs x = file_map bs old ++ ext_map bs x"
    and sum: "rs' = rs + total_bytes new - total_bytes old"
    and hi: "\<And>k. k \<in> set new \<Longrightarrow> \<exists>f \<in> set old. ext_hi k \<le> ext_hi f"
  shows "add_result_ok bs x old rs r"
proof -
  obtain ret used l rs0 where [simp]: "r = (ret, used, l, rs0)" by (cases r)
  have up: "ext_hi k \<le> ext_hi x \<or> (\<exists>e \<in> set old. ext_hi k \<le> ext_hi e)"
    if "ext_hi k \<le> ext_hi x \<or> (\<exists>e \<in> set new. ext_hi k \<le> ext_hi e)" for k
    using that hi by (meson le_trans)
  show ?thesis using r up maps sum
    by (simp add: add_result_ok_def Let_def del: Un_iff split del: if_split)
qed

lemma file_map_delete:
  assumes sub: "ext_lo x \<le> ext_lo e" "ext_hi e \<le> ext_hi x"
  shows "file_map bs (xs @ ys) ++ ext_map bs x = file_map bs (xs @ e # ys) ++ ext_map bs x"
proof
  fix y
  show "(file_map bs (xs @ ys) ++ ext_map bs x) y
      = (file_map bs (xs @ e # ys) ++ ext_map bs x) y"
    using sub by (auto simp: file_map_append map_add_def ext_map_def split: option.splits)
qed

lemma add_extent_loop_spec:
  assumes "ext_wf bs x" "exts_wf bs (rev before @ after)"
    and "\<forall>b \<in> set after. ext_hi x \<le> ext_lo b"
    and "split_ok \<or> 0 \<le> fst (add_extent_loop split_ok bs x before after rs)"
  shows "add_result_ok bs x (rev before @ after) rs
           (add_extent_loop split_ok bs x before after rs)"
  using assms
proof (induction before arbitrary: after rs)
  case Nil
  then show ?case
    by (auto simp: add_result_ok_def Let_def exts_wf_Cons ext_map_file_map_comm)
next
  case (Cons e before)
  have e: "ext_wf bs e" and x: "ext_wf bs x"
    and be: "\<forall>a \<in> set before. ext_hi a \<le> ext_lo e" and ea: "\<forall>b \<in> set after. ext_hi e \<le> ext_lo b"
    and ba: "\<forall>a \<in> set before. \<forall>b \<in> set after. ext_hi a \<le> ext_lo b"
    and bw: "exts_wf bs (rev before)" and aw: "exts_wf bs after"
    using Cons.prems by (auto simp: exts_wf_append exts_wf_Cons)
  show ?case
  proof (cases "cut_entry split_ok bs x e rs")
    case (CutDelete rs')
    note d = cut_entry_delete [OF x e CutDelete]
    have "add_result_ok bs x (rev before @ after) rs' (add_extent_loop split_ok bs x before after rs')"
      by (rule Cons.IH) (use Cons.prems bw aw ba CutDelete in \<open>auto simp: exts_wf_append\<close>)
    then have "add_result_ok bs x (rev before @ e # after) rs
        (add_extent_loop split_ok bs x before after rs')"
      by (rule add_result_ok_replace [OF _ file_map_delete [OF d(1,2)]]) (auto simp: d(3))
    then show ?thesis using CutDelete by simp
  next
    case CutNoMemory
    then show ?thesis using cut_entry_no_memory [OF x e] Cons.prems by auto
  next
    case (CutKeep e' tail rs')
    have "cut_ok bs x e rs e' tail rs'" by (rule cut_entry_keep [OF x e CutKeep])
    then have k: "exts_wf bs (e' # tail)"
      and within: "\<forall>k \<in> set (e' # tail). ext_lo e \<le> ext_lo k \<and> ext_hi k \<le> ext_hi e"
      and tl: "\<forall>k \<in> set tail. ext_hi x \<le> ext_lo k"
      and side: "ext_hi e' \<le> ext_lo x \<or> ext_hi x \<le> ext_lo e'"
      and maps: "file_map bs (e' # tail) ++ ext_map bs x = ext_map bs e ++ ext_map bs x"
      and sum: "rs' = rs + total_bytes (e' # tail) - bytecount e"
      unfolding cut_ok_def by blast+
    let ?new = "rev before @ (e' # tail) @ after"
    have e': "ext_wf bs e'" using k by (simp add: exts_wf_Cons)
    have hi_le: "\<And>k. k \<in> set ?new \<Longrightarrow> \<exists>f \<in> set (rev (e # before) @ after). ext_hi k \<le> ext_hi f"
      using within by auto
    have before_e: "\<forall>a \<in> set before. \<forall>k \<in> set (e' # tail). ext_hi a \<le> ext_lo k"
      using be within by (meson le_trans)
    have e_after: "\<forall>k \<in> set (e' # tail). \<forall>b \<in> set after. ext_hi k \<le> ext_lo b"
      using ea within by (meson le_trans)
    have new_wf: "exts_wf bs ?new"
      using bw aw k ba before_e e_after by (auto simp: exts_wf_append exts_wf_Cons)
    have comm: "file_map bs (tail @ after) ++ ext_map bs x
        = ext_map bs x ++ file_map bs (tail @ after)"
      by (rule ext_map_file_map_comm [symmetric]) (use tl Cons.prems in auto)
    have mid: "ext_map bs e ++ file_map bs after ++ ext_map bs x
        = file_map bs (e' # tail) ++ file_map bs after ++ ext_map bs x"
    proof -
      have c: "file_map bs after ++ ext_map bs x = ext_map bs x ++ file_map bs after"
        by (rule ext_map_file_map_comm [symmetric]) (use Cons.prems in auto)
      show ?thesis using maps unfolding map_add_assoc [symmetric] c
        unfolding map_add_assoc by simp
    qed
    have new_map: "file_map bs ?new ++ ext_map bs x
        = file_map bs (rev (e # before) @ after) ++ ext_map bs x"
      using mid by (simp add: file_map_append) (metis map_add_assoc)
    show ?thesis
    proof (cases "place_extent bs x e'")
      case None
      have "ext_lo x < ext_hi e'" by (rule place_extent_None [OF e' x None])
      then have "ext_hi x \<le> ext_lo e'" using side by simp
      then have "\<forall>b \<in> set (e' # tail @ after). ext_hi x \<le> ext_lo b"
        using tl Cons.prems by auto
      then have "add_result_ok bs x (rev before @ e' # tail @ after) rs'
          (add_extent_loop split_ok bs x before (e' # tail @ after) rs')"
        using new_wf Cons.prems CutKeep None by (intro Cons.IH) simp_all
      then have "add_result_ok bs x (rev before @ e # after) rs
          (add_extent_loop split_ok bs x before (e' # tail @ after) rs')"
        by (rule add_result_ok_replace) (use sum new_map hi_le in \<open>simp_all add: algebra_simps\<close>)
      then show ?thesis using CutKeep None by simp
    next
      case (Some es)
      have le: "ext_hi e' \<le> ext_lo x" by (rule place_extent_Some [OF e' x Some])
      obtain es' where "place_extent bs x e' = Some es'" "exts_wf bs es'"
        "file_map bs es' = ext_map bs e' ++ ext_map bs x"
        "total_bytes es' = bytecount e' + bytecount x"
        "\<forall>k \<in> set es'. ext_lo e' \<le> ext_lo k \<and> ext_hi k \<le> ext_hi x"
        using place_extent_after [OF e' x le] .
      with Some have es: "exts_wf bs es" "file_map bs es = ext_map bs e' ++ ext_map bs x"
        "total_bytes es = bytecount e' + bytecount x"
        "\<forall>k \<in> set es. ext_lo e' \<le> ext_lo k \<and> ext_hi k \<le> ext_hi x" by simp_all
      let ?l = "rev before @ es @ tail @ after"
      have "\<forall>a \<in> set before. \<forall>k \<in> set es. ext_hi a \<le> ext_lo k"
        using before_e es(4) by (meson le_trans list.set_intros(1))
      moreover have "\<forall>k \<in> set es. \<forall>b \<in> set (tail @ after). ext_hi k \<le> ext_lo b"
        using es(4) tl Cons.prems by (auto intro: le_trans)
      ultimately have wf: "exts_wf bs ?l"
        using new_wf es(1) by (auto simp: exts_wf_append exts_wf_Cons)
      have m: "file_map bs ?l = file_map bs (rev (e # before) @ after) ++ ext_map bs x"
        unfolding new_map [symmetric]
        using comm es(2) by (simp add: file_map_append) (metis map_add_assoc)
      have "\<forall>k \<in> set ?l. ext_hi k \<le> ext_hi x \<or> (\<exists>f \<in> set (rev (e # before) @ after). ext_hi k \<le> ext_hi f)"
        using es(4) hi_le by auto
      then show ?thesis using CutKeep Some wf m es(3) sum
        by (simp add: add_result_ok_def)
    qed
  qed
qed

subsection \<open>A failed split changes nothing\<close>

lemma add_extent_loop_fails:
  assumes "ext_wf bs x" "exts_wf bs (rev before)"
    and "add_extent_loop split_ok bs x before after rs = (ret, used, l, rs')" "ret < 0"
  shows "ret = - LTFS_NO_MEMORY \<and> l = rev before @ after \<and>
    (\<exists>e \<in> set before. ext_lo e < ext_lo x \<and> ext_hi x < ext_hi e)"
  using assms
proof (induction before arbitrary: after rs)
  case Nil
  then show ?case by auto
next
  case (Cons k before)
  have k: "ext_wf bs k" and x: "ext_wf bs x" and bw: "exts_wf bs (rev before)"
    and bk: "\<forall>a \<in> set before. ext_hi a \<le> ext_lo k"
    using Cons.prems by (auto simp: exts_wf_append exts_wf_Cons)
  show ?case
  proof (cases "cut_entry split_ok bs x k rs")
    case (CutDelete r)
    then have "\<exists>e \<in> set before. ext_lo e < ext_lo x \<and> ext_hi x < ext_hi e"
      using Cons.IH [OF x bw] Cons.prems(3,4) by simp
    moreover have "ext_lo k < ext_hi x"
      using CutDelete unfolding cut_entry_nat [OF x k] by (auto split: if_splits)
    ultimately show ?thesis using bk by fastforce
  next
    case CutNoMemory
    then show ?thesis using cut_entry_no_memory [OF x k CutNoMemory] Cons.prems(3) by auto
  next
    case (CutKeep k' tail r)
    then have none: "place_extent bs x k' = None"
      using Cons.prems(3,4) by (auto split: option.splits)
    then have rest: "ret = - LTFS_NO_MEMORY \<and> l = rev before @ k' # tail @ after \<and>
        (\<exists>e \<in> set before. ext_lo e < ext_lo x \<and> ext_hi x < ext_hi e)"
      using Cons.IH [OF x bw] Cons.prems(3,4) CutKeep by simp
    moreover have "ext_hi x < ext_lo k" "ext_lo x \<le> ext_hi x"
      using rest bk by (auto simp: ext_hi_def dest: bspec order.strict_trans2)
    then have "k' = k \<and> tail = []"
      using CutKeep unfolding cut_entry_nat [OF x k] by (auto split: if_splits)
    ultimately show ?thesis by auto
  qed
qed

section \<open>Truncation\<close>

lemma truncate_loop_keeps:
  assumes "\<forall>a \<in> set before. ext_wf bs a \<and> ext_hi a < unat n"
  shows "truncate_loop n before rs = (rev before, rs)"
proof (cases before)
  case (Cons a as)
  then have a: "ext_wf bs a" "ext_hi a < unat n" using assms by auto
  then have "ext_lo a < unat n" by (simp add: ext_hi_def)
  then have "\<not> n \<le> fileoffset a" "n \<noteq> 0" by (auto simp: word_le_nat_alt ext_lo_def)
  moreover have "\<not> n < fileoffset_end a" using a by (simp add: word_less_nat_alt)
  ultimately show ?thesis using Cons by simp
qed simp

lemma file_map_restrict_id:
  assumes "\<forall>a \<in> set es. ext_hi a \<le> n"
  shows "file_map bs es |` {..<n} = file_map bs es"
proof
  fix y
  have "file_map bs es y = None" if "n \<le> y"
    by (rule file_map_None) (use assms that in fastforce)
  then show "(file_map bs es |` {..<n}) y = file_map bs es y"
    by (auto simp: restrict_map_def not_less)
qed

lemma truncate_loop_spec:
  assumes "exts_wf bs (rev before)" and "truncate_loop n before rs = (l, rs')"
  shows "exts_wf bs l \<and> file_map bs l = file_map bs (rev before) |` {..<unat n} \<and>
    rs' = rs + total_bytes l - total_bytes before \<and> (\<forall>k \<in> set l. ext_hi k \<le> unat n)"
  using assms
proof (induction before arbitrary: rs l rs')
  case Nil
  then show ?case by simp
next
  case (Cons e before)
  have e: "ext_wf bs e" and bw: "exts_wf bs (rev before)"
    and be: "\<forall>a \<in> set before. ext_hi a \<le> ext_lo e"
    using Cons.prems by (auto simp: exts_wf_append exts_wf_Cons)
  have he: "unat (fileoffset_end e) = ext_hi e" and le: "ext_lo e \<le> ext_hi e"
    using e by (simp_all add: ext_hi_def)
  consider (past) "n \<le> fileoffset e \<or> n = 0"
    | (cut) "\<not> (n \<le> fileoffset e \<or> n = 0)" "n < fileoffset_end e"
    | (keep) "\<not> (n \<le> fileoffset e \<or> n = 0)" "\<not> n < fileoffset_end e" by blast
  then show ?case
  proof cases
    case past
    then have "unat n \<le> ext_lo e" by (auto simp: word_le_nat_alt ext_lo_def)
    then have "file_map bs (rev (e # before)) |` {..<unat n}
        = file_map bs (rev before) |` {..<unat n}"
      by (auto simp: file_map_append restrict_map_add_distrib)
         (auto simp: fun_eq_iff restrict_map_def map_add_def ext_map_def)
    moreover have "truncate_loop n before (rs - bytecount e) = (l, rs')"
      using past Cons.prems(2) by auto
    ultimately show ?thesis using Cons.IH [OF bw, of "rs - bytecount e" l rs'] by (simp add: algebra_simps)
  next
    case cut
    let ?e = "e\<lparr>bytecount := n - fileoffset e\<rparr>"
    have lo: "ext_lo e < unat n" and hi: "unat n < ext_hi e"
      using cut he by (auto simp: word_le_nat_alt word_less_nat_alt ext_lo_def not_le)
    have before: "\<forall>a \<in> set before. ext_wf bs a \<and> ext_hi a < unat n"
      using be lo bw by (fastforce simp: exts_wf_def)
    have l: "l = rev before @ [?e]" and rs': "rs' = rs - (fileoffset_end e - n)"
      using cut Cons.prems(2) truncate_loop_keeps [OF before] by auto
    note t = truncate_back [OF e less_imp_le [OF lo] less_imp_le [OF hi]]
    have wf: "exts_wf bs l" using l t(1,3) bw be by (auto simp: exts_wf_append exts_wf_Cons)
    have "ext_map bs ?e = ext_map bs e |` {..<unat n}"
      using t(1,2,4,5) hi by (auto simp: fun_eq_iff ext_map_def restrict_map_def)
    moreover have "file_map bs (rev before) |` {..<unat n} = file_map bs (rev before)"
      by (rule file_map_restrict_id) (use before in auto)
    ultimately have "file_map bs l = file_map bs (rev (e # before)) |` {..<unat n}"
      using l by (simp add: file_map_append restrict_map_add_distrib)
    moreover have "\<forall>k \<in> set l. ext_hi k \<le> unat n" using l t(2) before by auto
    ultimately show ?thesis using wf l rs' by (simp add: fileoffset_end_def)
  next
    case keep
    then have l: "l = rev before @ [e]" "rs' = rs" using Cons.prems(2) by auto
    have hi: "ext_hi e \<le> unat n"
      using keep he by (simp add: word_less_nat_alt)
    have all: "\<forall>a \<in> set (rev (e # before)). ext_hi a \<le> unat n"
      using be hi le by (auto intro: le_trans)
    show ?thesis using l all Cons.prems(1) file_map_restrict_id [OF all] by simp
  qed
qed

section \<open>The operations on a file\<close>

lemma dentry_wf_simps [simp]:
  "dentry_wf bs (d\<lparr>modify_time := t\<rparr>) = dentry_wf bs d"
  "dentry_wf bs (d\<lparr>change_time := t\<rparr>) = dentry_wf bs d"
  "dentry_wf bs (d\<lparr>access_time := t\<rparr>) = dentry_wf bs d"
  "dentry_wf bs (d\<lparr>extents_dirty := b\<rparr>) = dentry_wf bs d"
  by (simp_all add: dentry_wf_def)

lemma add_extent_overrides':
  assumes "dentry_wf bs d" and "ext_wf bs ext"
    and "ltfs_fsraw_add_extent_unlocked copy_ok split_ok now d ext upd bs idx = (ret, d', idx')"
    and "copy_ok \<and> split_ok \<or> 0 \<le> ret"
  shows "ret = 0 \<and> dentry_wf bs d' \<and>
    file_map bs (extentlist d') = file_map bs (extentlist d) ++ ext_map bs ext \<and>
    unat (d_size d') = max (unat (d_size d)) (ext_hi ext) \<and> idx_dirty idx'"
proof -
  have c: "copy_ok" using assms(3,4)
    by (cases copy_ok) (auto simp: ltfs_fsraw_add_extent_unlocked_def)
  obtain r used l rs where loop:
    "add_extent_loop split_ok bs ext (rev (extentlist d)) [] (realsize d) = (r, used, l, rs)"
    by (cases "add_extent_loop split_ok bs ext (rev (extentlist d)) [] (realsize d)")
  have wf: "exts_wf bs (extentlist d)" and rz: "realsize d = total_bytes (extentlist d)"
    and hi: "\<forall>e \<in> set (extentlist d). ext_hi e \<le> unat (d_size d)"
    using assms(1) by (simp_all add: dentry_wf_def)
  have sp: "split_ok \<or> 0 \<le> r"
    using assms(3,4) loop c by (auto simp: ltfs_fsraw_add_extent_unlocked_def)
  have "add_result_ok bs ext (rev (rev (extentlist d)) @ []) (realsize d) (r, used, l, rs)"
    unfolding loop [symmetric] by (rule add_extent_loop_spec) (use assms wf loop sp in auto)
  then have r: "r = 0" and ok: "exts_wf bs (if used then l else ext # l)"
      "file_map bs (if used then l else ext # l) = file_map bs (extentlist d) ++ ext_map bs ext"
      "(if used then rs else rs + bytecount ext) = total_bytes (if used then l else ext # l)"
      "\<forall>k \<in> set (if used then l else ext # l).
         ext_hi k \<le> ext_hi ext \<or> (\<exists>e \<in> set (extentlist d). ext_hi k \<le> ext_hi e)"
    by (auto simp: add_result_ok_def Let_def rz split: if_splits)
  let ?l = "if used then l else ext # l"
  have d': "extentlist d' = ?l" "realsize d' = (if used then rs else rs + bytecount ext)"
    "d_size d' = (if d_size d < fileoffset_end ext then fileoffset_end ext else d_size d)"
    and "ret = 0" "idx' = ltfs_set_index_dirty False idx"
    using assms(3) loop r c
    by (cases used; cases upd; auto simp: ltfs_fsraw_add_extent_unlocked_def Let_def)+
  have size: "unat (d_size d') = max (unat (d_size d)) (ext_hi ext)"
    using d'(3) assms(2) by (auto simp: word_less_nat_alt)
  have "\<forall>k \<in> set ?l. ext_hi k \<le> unat (d_size d')"
    unfolding size using ok(4) hi by (meson le_max_iff_disj order_trans)
  then show ?thesis
    using d' ok size \<open>ret = 0\<close> \<open>idx' = _\<close>
    by (simp add: dentry_wf_def ltfs_set_index_dirty_def Let_def)
qed

lemma add_extent_failure_atomic':
  assumes "dentry_wf bs d" and "ext_wf bs ext"
    and "ltfs_fsraw_add_extent_unlocked copy_ok split_ok now d ext upd bs idx = (ret, d', idx')"
    and "ret < 0"
  shows "ret = - LTFS_NO_MEMORY \<and> d' = d \<and> idx' = idx"
proof (cases copy_ok)
  case False
  then show ?thesis using assms(3) by (simp add: ltfs_fsraw_add_extent_unlocked_def)
next
  case True
  obtain r used l rs where loop:
    "add_extent_loop split_ok bs ext (rev (extentlist d)) [] (realsize d) = (r, used, l, rs)"
    by (cases "add_extent_loop split_ok bs ext (rev (extentlist d)) [] (realsize d)")
  show ?thesis
  proof (cases "r < 0")
    case neg: True
    have "exts_wf bs (rev (rev (extentlist d)))" using assms(1) by (simp add: dentry_wf_def)
    note f = add_extent_loop_fails [OF assms(2) this loop neg]
    then show ?thesis using assms(3) True loop neg
      by (auto simp: ltfs_fsraw_add_extent_unlocked_def)
  next
    case False
    then show ?thesis using assms(3,4) True loop
      by (cases used; cases upd; auto simp: ltfs_fsraw_add_extent_unlocked_def Let_def)
  qed
qed

lemma truncate_restricts':
  assumes "dentry_wf bs d" and "0 \<le> volume_lock"
    and "ltfs_fsraw_truncate volume_lock now d new_length idx = (ret, d', idx')"
  shows "ret = 0 \<and> dentry_wf bs d' \<and>
    file_map bs (extentlist d') = file_map bs (extentlist d) |` {..<unat (of_int new_length :: u64)} \<and>
    d_size d' = of_int new_length \<and> idx_dirty idx'"
proof -
  let ?n = "of_int new_length :: u64"
  have wf: "exts_wf bs (extentlist d)" and rz: "realsize d = total_bytes (extentlist d)"
    and hi: "\<forall>e \<in> set (extentlist d). ext_hi e \<le> unat (d_size d)"
    using assms(1) by (simp_all add: dentry_wf_def)
  obtain l rs where lr: "(if ?n < d_size d \<and> extentlist d \<noteq> []
      then truncate_loop ?n (rev (extentlist d)) (realsize d)
      else (extentlist d, realsize d)) = (l, rs)" by (rule prod.exhaust)
  have d': "extentlist d' = l" "realsize d' = rs" "d_size d' = ?n" "ret = 0"
    "idx' = ltfs_set_index_dirty False idx"
    using assms(2,3) lr by (auto simp: ltfs_fsraw_truncate_def Let_def)
  have "exts_wf bs l \<and> file_map bs l = file_map bs (extentlist d) |` {..<unat ?n} \<and>
      rs = total_bytes l \<and> (\<forall>k \<in> set l. ext_hi k \<le> unat ?n)"
  proof (cases "?n < d_size d \<and> extentlist d \<noteq> []")
    case True
    then have "truncate_loop ?n (rev (extentlist d)) (realsize d) = (l, rs)" using lr by simp
    then show ?thesis using truncate_loop_spec [of bs "rev (extentlist d)"] wf rz by fastforce
  next
    case False
    then have "l = extentlist d" "rs = realsize d" using lr by auto
    moreover have "\<forall>k \<in> set l. ext_hi k \<le> unat ?n"
      using False hi \<open>l = _\<close> by (auto simp: not_less word_le_nat_alt intro: le_trans)
    ultimately show ?thesis using wf rz file_map_restrict_id [of l] by simp
  qed
  then show ?thesis using d'
    by (simp add: dentry_wf_def ltfs_set_index_dirty_def Let_def)
qed

section \<open>Files built by the operations\<close>

text \<open>
  The files the two operations build from an empty one (\<open>fs_allocate_dentry\<close> clears the
  structure). Every extent that is added is well formed; the allocations and the volume
  lock may fail.
\<close>

inductive file_reach :: "u64 \<Rightarrow> dentry \<Rightarrow> bool" for bs :: u64 where
  fresh: "extentlist d = [] \<Longrightarrow> realsize d = 0 \<Longrightarrow> file_reach bs d"
| add: "file_reach bs d \<Longrightarrow> ext_wf bs ext \<Longrightarrow>
    ltfs_fsraw_add_extent_unlocked copy_ok split_ok now d ext upd bs idx = (ret, d', idx') \<Longrightarrow>
    file_reach bs d'"
| trunc: "file_reach bs d \<Longrightarrow>
    ltfs_fsraw_truncate volume_lock now d new_length idx = (ret, d', idx') \<Longrightarrow>
    file_reach bs d'"

lemma add_extent_all_ok:
  assumes "ltfs_fsraw_add_extent_unlocked copy_ok split_ok now d ext upd bs idx = (ret, d', idx')"
    and "dentry_wf bs d" "ext_wf bs ext"
  shows "dentry_wf bs d'"
proof (cases "ret < 0")
  case True
  then show ?thesis using assms add_extent_failure_atomic' by blast
next
  case False
  then show ?thesis using add_extent_overrides' [OF assms(2,3,1)] by simp
qed

lemma file_reach_wf: "file_reach bs d \<Longrightarrow> dentry_wf bs d"
proof (induction rule: file_reach.induct)
  case (fresh d)
  then show ?case by (simp add: dentry_wf_def)
next
  case (add d ext copy_ok split_ok now upd idx ret d' idx')
  then show ?case using add_extent_all_ok by blast
next
  case (trunc d volume_lock now new_length idx ret d' idx')
  show ?case
  proof (cases "0 \<le> volume_lock")
    case True
    then show ?thesis using truncate_restricts' [OF trunc.IH True trunc.hyps(2)] by simp
  next
    case False
    then show ?thesis using trunc by (simp add: ltfs_fsraw_truncate_def)
  qed
qed

lemma exts_lengths_le:
  assumes "exts_wf bs es" and "\<forall>e \<in> set es. m \<le> ext_lo e \<and> ext_hi e \<le> n" and "m \<le> n"
  shows "m + sum_list (map ext_len es) \<le> n"
  using assms
proof (induction es arbitrary: m)
  case (Cons e es)
  have "ext_hi e + sum_list (map ext_len es) \<le> n"
    by (rule Cons.IH) (use Cons.prems in \<open>auto simp: exts_wf_Cons\<close>)
  then show ?case using Cons.prems by (auto simp: ext_hi_def)
qed simp

lemma total_bytes_unat:
  assumes "sum_list (map ext_len es) < 2 ^ 64"
  shows "unat (total_bytes es) = sum_list (map ext_len es)"
  using assms by (induction es) (auto simp: unat_add_nowrap ext_len_def)

text \<open>
  C4: for every file the operations build, failed allocations and refused locks included,
  \<open>realsize\<close> is the exact number of bytes in the extents (no sum has wrapped) and never
  exceeds the file size.
\<close>

theorem reachable_realsize:
  assumes "file_reach bs d"
  shows "unat (realsize d) = sum_list (map ext_len (extentlist d)) \<and>
    unat (realsize d) \<le> unat (d_size d)"
proof -
  have wf: "dentry_wf bs d" using assms by (rule file_reach_wf)
  have "0 + sum_list (map ext_len (extentlist d)) \<le> unat (d_size d)"
    by (rule exts_lengths_le) (use wf in \<open>auto simp: dentry_wf_def\<close>)
  moreover have "unat (d_size d) < 2 ^ 64" by (rule u64_less_bound)
  ultimately show ?thesis using wf total_bytes_unat by (simp add: dentry_wf_def)
qed

section \<open>A concrete file\<close>

text \<open>Ten bytes in blocks 10 to 12, block size 4, and a three-byte overwrite inside it.\<close>

definition sample_extent :: extent_info where
  "sample_extent = \<lparr>start_block = 10, start_partition = CHR ''b'', byteoffset = 0,
     bytecount = 10, fileoffset = 0\<rparr>"

definition sample_overwrite :: extent_info where
  "sample_overwrite = \<lparr>start_block = 20, start_partition = CHR ''b'', byteoffset = 0,
     bytecount = 3, fileoffset = 4\<rparr>"

definition sample_time :: ltfs_timespec where
  "sample_time = \<lparr>tv_sec = 0, tv_nsec = 0\<rparr>"

definition sample_file :: dentry where
  "sample_file = \<lparr>extentlist = [sample_extent], realsize = 10, d_size = 10,
     extents_dirty = False, access_time = sample_time, modify_time = sample_time,
     change_time = sample_time\<rparr>"

definition sample_index :: ltfs_index_flags where
  "sample_index = \<lparr>idx_dirty = False, atime_dirty = False, use_atime = False,
     idx_version = 20400, dcache_dirty = None\<rparr>"

lemmas sample_defs = sample_extent_def sample_overwrite_def sample_file_def sample_index_def

lemma sample_wf:
  "dentry_wf 4 sample_file" "ext_wf 4 sample_overwrite" "ext_wf 4 sample_extent"
  by (simp_all add: sample_defs dentry_wf_def exts_wf_def ext_wf_def ext_hi_def ext_lo_def
      ext_len_def total_bytes_def)

lemma sample_add:
  "ltfs_fsraw_add_extent_unlocked True True sample_time sample_file sample_overwrite False 4
     sample_index =
   (0, sample_file\<lparr>extentlist :=
         [sample_extent\<lparr>bytecount := 4\<rparr>, sample_overwrite,
          \<lparr>start_block = 11, start_partition = CHR ''b'', byteoffset = 3, bytecount = 3,
           fileoffset = 7\<rparr>], extents_dirty := True\<rparr>,
    sample_index\<lparr>idx_dirty := True\<rparr>)"
  by (simp add: sample_defs ltfs_fsraw_add_extent_unlocked_def cut_entry_def place_extent_def
      fileoffset_end_def Let_def extent_split_tail_def ltfs_set_index_dirty_def)

section \<open>Properties\<close>

text \<open>
  C1: adding an extent to a well-formed file succeeds when the two allocations do, keeps
  the file well formed (entries sorted, disjoint, unwrapped, \<open>realsize\<close> their total),
  maps exactly the bytes of the new extent to their new place on tape and every other byte
  to where it was, grows the file size to cover the extent and marks the index dirty.
\<close>

theorem add_extent_overrides:
  assumes "dentry_wf bs d" and "ext_wf bs ext"
    and "ltfs_fsraw_add_extent_unlocked True True now d ext upd bs idx = (ret, d', idx')"
  shows "ret = 0 \<and> dentry_wf bs d' \<and>
    file_map bs (extentlist d') = file_map bs (extentlist d) ++ ext_map bs ext \<and>
    unat (d_size d') = max (unat (d_size d)) (ext_hi ext) \<and> idx_dirty idx'"
  using add_extent_overrides' [OF assms] by simp

theorem add_extent_overrides_witness:
  "case ltfs_fsraw_add_extent_unlocked True True sample_time sample_file sample_overwrite False 4
      sample_index of (ret, d', idx') \<Rightarrow>
     ret = 0 \<and> dentry_wf 4 d' \<and>
     file_map 4 (extentlist d') 3 = Some (CHR ''b'', 43) \<and>
     file_map 4 (extentlist d') 5 = Some (CHR ''b'', 81) \<and>
     file_map 4 (extentlist d') 8 = Some (CHR ''b'', 48) \<and> d_size d' = 10"
proof -
  note w = add_extent_overrides [OF sample_wf(1,2) sample_add]
  then show ?thesis unfolding sample_add prod.case
    by (simp add: map_add_def) (simp add: sample_defs ext_map_def ext_lo_def ext_hi_def
        ext_len_def ext_addr_def)
qed

text \<open>
  C3: when adding an extent to a well-formed file fails, the code is out of memory and
  neither the file nor the index has changed: the split allocation, which happens inside
  the traversal, is never reached after an entry was modified.
\<close>

theorem add_extent_failure_atomic:
  assumes "dentry_wf bs d" and "ext_wf bs ext"
    and "ltfs_fsraw_add_extent_unlocked copy_ok split_ok now d ext upd bs idx = (ret, d', idx')"
    and "ret < 0"
  shows "ret = - LTFS_NO_MEMORY \<and> d' = d \<and> idx' = idx"
  using add_extent_failure_atomic' [OF assms] .

theorem add_extent_failure_atomic_witness:
  "ltfs_fsraw_add_extent_unlocked True False sample_time sample_file sample_overwrite False 4
     sample_index = (- LTFS_NO_MEMORY, sample_file, sample_index)"
proof -
  have run: "fst (ltfs_fsraw_add_extent_unlocked True False sample_time sample_file
      sample_overwrite False 4 sample_index) < 0"
    by (simp add: sample_defs ltfs_fsraw_add_extent_unlocked_def cut_entry_def
        fileoffset_end_def Let_def)
  obtain ret d' idx' where r: "ltfs_fsraw_add_extent_unlocked True False sample_time sample_file
      sample_overwrite False 4 sample_index = (ret, d', idx')" by (rule prod_cases3)
  show ?thesis using add_extent_failure_atomic [OF sample_wf(1,2) r] run r by simp
qed

text \<open>
  C2: truncating a well-formed file to a length succeeds under the volume lock, keeps the
  file well formed, drops exactly the bytes at and past the new length, sets the file size
  to that length and marks the index dirty.
\<close>

theorem truncate_restricts:
  assumes "dentry_wf bs d" and "0 \<le> volume_lock"
    and "ltfs_fsraw_truncate volume_lock now d new_length idx = (ret, d', idx')"
  shows "ret = 0 \<and> dentry_wf bs d' \<and>
    file_map bs (extentlist d') = file_map bs (extentlist d) |` {..<unat (of_int new_length :: u64)} \<and>
    d_size d' = of_int new_length \<and> idx_dirty idx'"
  using truncate_restricts' [OF assms] .

theorem truncate_restricts_witness:
  "case ltfs_fsraw_truncate 0 sample_time sample_file 6 sample_index of (ret, d', idx') \<Rightarrow>
     ret = 0 \<and> dentry_wf 4 d' \<and> d_size d' = 6 \<and>
     file_map 4 (extentlist d') 5 = Some (CHR ''b'', 45) \<and> file_map 4 (extentlist d') 6 = None"
proof -
  obtain ret d' idx' where r: "ltfs_fsraw_truncate 0 sample_time sample_file 6 sample_index
      = (ret, d', idx')" by (rule prod_cases3)
  show ?thesis using truncate_restricts [OF sample_wf(1) order_refl r] unfolding r prod.case
    by (simp add: sample_defs ext_map_def ext_lo_def ext_hi_def ext_len_def ext_addr_def)
qed

definition sample_empty :: dentry where
  "sample_empty = sample_file\<lparr>extentlist := [], realsize := 0, d_size := 0\<rparr>"

lemma sample_first_add:
  "ltfs_fsraw_add_extent_unlocked True True sample_time sample_empty sample_extent False 4
     sample_index
   = (0, sample_file\<lparr>extents_dirty := True\<rparr>, sample_index\<lparr>idx_dirty := True\<rparr>)"
  by (simp add: sample_defs sample_empty_def ltfs_fsraw_add_extent_unlocked_def Let_def
      fileoffset_end_def ltfs_set_index_dirty_def)

theorem reachable_realsize_witness:
  "unat (realsize (sample_file\<lparr>extents_dirty := True\<rparr>))
     = sum_list (map ext_len [sample_extent]) \<and> realsize sample_file = 10"
proof -
  have "file_reach 4 sample_empty"
    by (rule file_reach.fresh) (simp_all add: sample_empty_def)
  then have "file_reach 4 (sample_file\<lparr>extents_dirty := True\<rparr>)"
    using sample_wf(3) sample_first_add by (rule file_reach.add)
  note w = reachable_realsize [OF this]
  have "extentlist (sample_file\<lparr>extents_dirty := True\<rparr>) = [sample_extent]" "realsize sample_file = 10"
    by (simp_all add: sample_file_def)
  then show ?thesis using w by simp
qed
end
