(* ===== verification/Volume.thy ===== *)
theory Volume imports Cartridge Extents IndexStream begin

text \<open>
  The volume: the parts of \<open>struct ltfs_volume\<close>, \<open>struct ltfs_label\<close> and \<open>struct ltfs_index\<close>
  (\<open>src/ltfs/src/libltfs/ltfs.h\<close>) that reading and writing files and indexes work on, and the
  small operations of \<open>src/ltfs/src/libltfs/ltfs.c\<close> on them. The locks of the volume order the
  operations of several threads; here operations run one after the other and the calls that take
  and release locks are left out. \<open>unsigned long\<close> has 32 bits in this build.
\<close>

section \<open>Data\<close>

record tape_offset =
  off_block :: u64
  off_partition :: char

record ltfs_label =
  lbl_blocksize :: u32
  partid_dp :: char
  partid_ip :: char
  part_num2id :: "u32 \<Rightarrow> char"
  lbl_uuid :: "u8 list"

text \<open>
  \<open>idx_flags\<close> has the update tracking fields; \<open>dcache_generation\<close> is the generation the dentry
  cache keeps for the volume when there is one.
\<close>

record ltfs_index =
  idx_flags :: ltfs_index_flags
  generation :: u32
  mod_time :: ltfs_timespec
  selfptr :: tape_offset
  backptr :: tape_offset
  idx_creator :: "string option"
  dcache_generation :: u32

record 'b ltfs_volume =
  device :: "'b device_data"
  label :: ltfs_label
  index :: ltfs_index
  ip_coh :: tc_coherency
  dp_coh :: tc_coherency
  mam_attr :: tc_mam_attr
  ip_index_file_end :: bool
  dp_index_file_end :: bool
  last_pos :: tape_offset
  last_size :: u32
  last_block :: "u8 list option"
  reval :: int
  kmi_handle :: kmi
  creator :: string

section \<open>Partitions\<close>

definition ltfs_dp_id :: "'b ltfs_volume \<Rightarrow> char" where
  "ltfs_dp_id vol = partid_dp (label vol)"

definition ltfs_ip_id :: "'b ltfs_volume \<Rightarrow> char" where
  "ltfs_ip_id vol = partid_ip (label vol)"

definition ltfs_part_id2num :: "char \<Rightarrow> 'b ltfs_volume \<Rightarrow> u32" where
  "ltfs_part_id2num prt_id vol =
     (if part_num2id (label vol) 0 = prt_id then 0
      else if part_num2id (label vol) 1 = prt_id then 1 else - 1)"

definition ltfs_set_partition_map ::
    "char \<Rightarrow> char \<Rightarrow> int \<Rightarrow> int \<Rightarrow> 'b ltfs_volume \<Rightarrow> int \<times> 'b ltfs_volume" where
  "ltfs_set_partition_map dp ip dp_num ip_num vol =
     (if dp_num = ip_num \<or> dp_num \<noteq> 0 \<and> dp_num \<noteq> 1 \<or> ip_num \<noteq> 0 \<and> ip_num \<noteq> 1
      then (- LTFS_BAD_PARTNUM, vol)
      else if of_char dp < (of_char CHR ''a'' :: nat) \<or> (of_char CHR ''z'' :: nat) < of_char dp \<or>
        of_char ip < (of_char CHR ''a'' :: nat) \<or> (of_char CHR ''z'' :: nat) < of_char ip \<or> dp = ip
      then (- LTFS_BAD_PARTNUM, vol)
      else (0, vol\<lparr>label := (label vol)\<lparr>partid_ip := ip, partid_dp := dp,
          part_num2id := ((part_num2id (label vol))(of_int dp_num := dp))(of_int ip_num := ip)\<rparr>\<rparr>))"

definition ltfs_get_partition_readonly :: "char \<Rightarrow> 'b ltfs_volume \<Rightarrow> int" where
  "ltfs_get_partition_readonly prt vol =
     (if prt \<noteq> ltfs_dp_id vol \<and> prt \<noteq> ltfs_ip_id vol then - LTFS_BAD_PARTNUM
      else tape_read_only (ltfs_part_id2num prt vol) (device vol))"

text \<open>The partition functions look at the label only.\<close>

lemma dp_id_update [simp]:
  "ltfs_dp_id (device_update d vol) = ltfs_dp_id vol" "ltfs_dp_id (index_update i vol) = ltfs_dp_id vol"
  "ltfs_dp_id (mam_attr_update m vol) = ltfs_dp_id vol" "ltfs_dp_id (ip_index_file_end_update b vol) = ltfs_dp_id vol"
  "ltfs_dp_id (dp_index_file_end_update b vol) = ltfs_dp_id vol" "ltfs_dp_id (last_pos_update p vol) = ltfs_dp_id vol"
  "ltfs_dp_id (last_size_update s vol) = ltfs_dp_id vol" "ltfs_dp_id (last_block_update l vol) = ltfs_dp_id vol"
  "ltfs_dp_id (reval_update n vol) = ltfs_dp_id vol" "ltfs_dp_id (ip_coh_update c vol) = ltfs_dp_id vol"
  "ltfs_dp_id (dp_coh_update c vol) = ltfs_dp_id vol"
  by (simp_all add: ltfs_dp_id_def)

lemma ip_id_update [simp]:
  "ltfs_ip_id (device_update d vol) = ltfs_ip_id vol" "ltfs_ip_id (index_update i vol) = ltfs_ip_id vol"
  "ltfs_ip_id (mam_attr_update m vol) = ltfs_ip_id vol" "ltfs_ip_id (ip_index_file_end_update b vol) = ltfs_ip_id vol"
  "ltfs_ip_id (dp_index_file_end_update b vol) = ltfs_ip_id vol" "ltfs_ip_id (last_pos_update p vol) = ltfs_ip_id vol"
  "ltfs_ip_id (last_size_update s vol) = ltfs_ip_id vol" "ltfs_ip_id (last_block_update l vol) = ltfs_ip_id vol"
  "ltfs_ip_id (reval_update n vol) = ltfs_ip_id vol" "ltfs_ip_id (ip_coh_update c vol) = ltfs_ip_id vol"
  "ltfs_ip_id (dp_coh_update c vol) = ltfs_ip_id vol"
  by (simp_all add: ltfs_ip_id_def)

lemma part_id2num_update [simp]:
  "ltfs_part_id2num q (device_update d vol) = ltfs_part_id2num q vol" "ltfs_part_id2num q (index_update i vol) = ltfs_part_id2num q vol"
  "ltfs_part_id2num q (mam_attr_update m vol) = ltfs_part_id2num q vol" "ltfs_part_id2num q (ip_index_file_end_update b vol) = ltfs_part_id2num q vol"
  "ltfs_part_id2num q (dp_index_file_end_update b vol) = ltfs_part_id2num q vol" "ltfs_part_id2num q (last_pos_update p vol) = ltfs_part_id2num q vol"
  "ltfs_part_id2num q (last_size_update s vol) = ltfs_part_id2num q vol" "ltfs_part_id2num q (last_block_update l vol) = ltfs_part_id2num q vol"
  "ltfs_part_id2num q (reval_update n vol) = ltfs_part_id2num q vol" "ltfs_part_id2num q (ip_coh_update c vol) = ltfs_part_id2num q vol"
  "ltfs_part_id2num q (dp_coh_update c vol) = ltfs_part_id2num q vol"
  by (simp_all add: ltfs_part_id2num_def)

section \<open>Revalidation and the volume lock\<close>

text \<open>
  Taking the volume lock waits for a running revalidation; \<open>others\<close> is what the other threads do
  to the volume until it has ended.
\<close>

definition ltfs_wait_revalidation ::
    "('b ltfs_volume \<Rightarrow> 'b ltfs_volume) \<Rightarrow> 'b ltfs_volume \<Rightarrow> int \<times> 'b ltfs_volume" where
  "ltfs_wait_revalidation others vol =
     (let vol = (if reval vol = - LTFS_REVAL_RUNNING then others vol else vol) in (reval vol, vol))"

definition ltfs_get_volume_lock ::
    "('b ltfs_volume \<Rightarrow> 'b ltfs_volume) \<Rightarrow> 'b ltfs_volume \<Rightarrow> int \<times> 'b ltfs_volume" where
  "ltfs_get_volume_lock others vol =
     (let vol = (if reval vol = - LTFS_REVAL_RUNNING then others vol else vol) in (reval vol, vol))"

section \<open>The dirty flags\<close>

definition ltfs_is_dirty :: "'b ltfs_volume \<Rightarrow> bool" where
  "ltfs_is_dirty vol =
     (let idx = idx_flags (index vol) in idx_dirty idx \<or> use_atime idx \<and> atime_dirty idx)"

definition ltfs_unset_index_dirty :: "bool \<Rightarrow> ltfs_index_flags \<Rightarrow> ltfs_index_flags" where
  "ltfs_unset_index_dirty update_version idx =
     (let was_dirty = idx_dirty idx;
          idx = idx\<lparr>idx_dirty := False, atime_dirty := False\<rparr>;
          idx = (if was_dirty \<and> dcache_dirty idx \<noteq> None then idx\<lparr>dcache_dirty := Some False\<rparr> else idx)
      in if update_version then idx\<lparr>idx_version := LTFS_INDEX_VERSION\<rparr> else idx)"

definition ltfs_use_atime ::
    "('b ltfs_volume \<Rightarrow> 'b ltfs_volume) \<Rightarrow> bool \<Rightarrow> 'b ltfs_volume \<Rightarrow> 'b ltfs_volume" where
  "ltfs_use_atime others use_it vol =
     (case ltfs_get_volume_lock others vol of (ret, vol) \<Rightarrow>
        if ret < 0 then vol
        else vol\<lparr>index := (index vol)\<lparr>idx_flags := (idx_flags (index vol))\<lparr>use_atime := use_it\<rparr>\<rparr>\<rparr>)"

text \<open>Updating the device of a volume with an operation of the tape layer.\<close>

definition on_device :: "('b device_data \<Rightarrow> 'r \<times> 'b device_data) \<Rightarrow> 'b ltfs_volume \<Rightarrow> 'r \<times> 'b ltfs_volume" where
  "on_device f vol = (case f (device vol) of (r, dev) \<Rightarrow> (r, vol\<lparr>device := dev\<rparr>))"

end
