(* ===== verification/IndexWrite.thy ===== *)
theory IndexWrite imports Volume begin

text \<open>
  Writing the index: \<open>ltfs_write_index\<close> of \<open>src/ltfs/src/libltfs/ltfs.c\<close>,
  \<open>ltfs_write_index_conditional\<close> and \<open>ltfs_update_cart_coherency\<close> of
  \<open>src/ltfs/src/libltfs/ltfs_internal.c\<close>, \<open>xml_schema_to_tape\<close> of
  \<open>src/ltfs/src/libltfs/xml_writer_libltfs.c\<close>.

  libxml2 turns the index into text: \<open>document\<close> is the list of the pieces it hands over for a creator
  string and an index (with the present directory tree). \<open>memory\<close> says whether the allocations of
  \<open>xml_schema_to_tape\<close> succeed, \<open>now\<close> is the time the code reads.
\<close>

section \<open>Coherency\<close>

definition fill_uuid :: "'b ltfs_volume \<Rightarrow> u8 list \<Rightarrow> u8 list" where
  "fill_uuid vol u = (if u ! 0 = 0 then lbl_uuid (label vol) else u)"

definition update_ip_coherency :: "u64 \<Rightarrow> 'b ltfs_volume \<Rightarrow> 'b ltfs_volume" where
  "update_ip_coherency current_vcr vol =
     (let coh = (if off_partition (selfptr (index vol)) = ltfs_ip_id vol
                 then (ip_coh vol)\<lparr>coh_count := ucast (generation (index vol)),
                                   set_id := off_block (selfptr (index vol))\<rparr>
                 else ip_coh vol);
          coh = coh\<lparr>version := 1, volume_change_ref := current_vcr, uuid := fill_uuid vol (uuid coh)\<rparr>
      in snd (on_device (tape_set_cart_coherency (ltfs_part_id2num (ltfs_ip_id vol) vol) coh)
           (vol\<lparr>ip_coh := coh\<rparr>)))"

definition update_dp_coherency :: "u64 \<Rightarrow> 'b ltfs_volume \<Rightarrow> 'b ltfs_volume" where
  "update_dp_coherency current_vcr vol =
     (let coh = (if off_partition (selfptr (index vol)) = ltfs_dp_id vol
                 then (dp_coh vol)\<lparr>coh_count := ucast (generation (index vol)),
                                   set_id := off_block (selfptr (index vol))\<rparr>
                 else dp_coh vol);
          coh = coh\<lparr>version := 1, volume_change_ref := current_vcr, uuid := fill_uuid vol (uuid coh)\<rparr>
      in snd (on_device (tape_set_cart_coherency (ltfs_part_id2num (ltfs_dp_id vol) vol) coh)
           (vol\<lparr>dp_coh := coh\<rparr>)))"

definition ltfs_update_cart_coherency :: "'b ltfs_volume \<Rightarrow> 'b ltfs_volume" where
  "ltfs_update_cart_coherency vol =
     (case tape_get_volume_change_reference (device vol) of (_, current_vcr, dev) \<Rightarrow>
        let vol = vol\<lparr>device := dev\<rparr>
        in if current_vcr = 0 \<or> current_vcr = 0xffffffffffffffff then vol
           else
             let vol = (if ip_index_file_end vol then update_ip_coherency current_vcr vol else vol)
             in if dp_index_file_end vol then update_dp_coherency current_vcr vol else vol)"

section \<open>The document\<close>

definition xml_schema_to_tape ::
    "(string \<Rightarrow> ltfs_index \<Rightarrow> u8 list list) \<Rightarrow> bool \<Rightarrow> string \<Rightarrow> 'b ltfs_volume \<Rightarrow>
     (int \<times> 'b ltfs_volume) option" where
  "xml_schema_to_tape document memory reason vol =
     (if \<not> memory then Some (- LTFS_NO_MEMORY, vol)
      else
        let ctx = \<lparr>out_size = lbl_blocksize (label vol), out_buf = [],
              out_index_part = (ltfs_part_id2num (ltfs_ip_id vol) vol = partition (position (device vol)))\<rparr>
        in case write_pieces (document (creator vol @ '' - '' @ reason) (index vol)) ctx (device vol) of
             None \<Rightarrow> None
           | Some (ok, ctx, dev) \<Rightarrow>
               (case xml_output_tape_close_callback ctx dev of (_, dev) \<Rightarrow>
                  Some (if ok then 0 else - 1,
                        vol\<lparr>device := dev, index := (index vol)\<lparr>idx_creator := Some (creator vol)\<rparr>\<rparr>)))"

section \<open>The index\<close>

text \<open>
  The pointers an index is written with, and taking them back when a write fails: \<open>old\<close> is the
  index before.
\<close>

definition new_generation :: "ltfs_timespec \<Rightarrow> 'b ltfs_volume \<Rightarrow> 'b ltfs_volume" where
  "new_generation now vol =
     (if ltfs_is_dirty vol
      then vol\<lparr>index := (index vol)\<lparr>mod_time := now, generation := generation (index vol) + 1\<rparr>\<rparr>
      else vol)"

definition undo_index :: "bool \<Rightarrow> ltfs_index \<Rightarrow> 'b ltfs_volume \<Rightarrow> 'b ltfs_volume" where
  "undo_index generation_inc old vol =
     (let vol = vol\<lparr>index := (index vol)\<lparr>backptr := backptr old, selfptr := selfptr old\<rparr>\<rparr>
      in if generation_inc
         then vol\<lparr>index := (index vol)\<lparr>mod_time := mod_time old, generation := generation (index vol) - 1\<rparr>\<rparr>
         else vol)"

definition point_index :: "tc_position \<Rightarrow> 'b ltfs_volume \<Rightarrow> 'b ltfs_volume" where
  "point_index physical_selfptr vol =
     (let idx = index vol;
          idx = (if off_partition (selfptr idx) = ltfs_dp_id vol then idx\<lparr>backptr := selfptr idx\<rparr> else idx)
      in vol\<lparr>index := idx\<lparr>selfptr :=
           \<lparr>off_block = block physical_selfptr + 1,
            off_partition = part_num2id (label vol) (partition physical_selfptr)\<rparr>\<rparr>\<rparr>)"

text \<open>The flags and the dentry cache of an index that is on the tape.\<close>

definition settle_index :: "bool \<Rightarrow> ltfs_index \<Rightarrow> ltfs_index" where
  "settle_index generation_inc idx =
     (let idx = (if dcache_dirty (idx_flags idx) = None then idx
                 else idx\<lparr>idx_flags := (idx_flags idx)\<lparr>dcache_dirty := Some False\<rparr>,
                          dcache_generation := (if generation_inc then generation idx
                                                else dcache_generation idx)\<rparr>)
      in idx\<lparr>idx_flags := ltfs_unset_index_dirty True (idx_flags idx)\<rparr>)"

text \<open>What follows a successful write.\<close>

definition index_written :: "char \<Rightarrow> bool \<Rightarrow> 'b ltfs_volume \<Rightarrow> 'b ltfs_volume" where
  "index_written prt generation_inc vol =
     (let vol = (if prt = ltfs_ip_id vol then vol\<lparr>ip_index_file_end := True\<rparr>
                 else vol\<lparr>dp_index_file_end := True\<rparr>);
          vol = ltfs_update_cart_coherency vol
      in case on_device (tape_update_mam_attributes None TC_MAM_APP_FORMAT_VERSION None NOLOCK_MAM) vol of
           (ret, vol) \<Rightarrow>
             let vol = (if ret = 0 then
                   (case tape_get_MAMattributes TC_MAM_APP_FORMAT_VERSION
                           (ltfs_part_id2num (partid_ip (label vol)) vol) (mam_attr vol) (device vol) of
                      (_, mam, dev) \<Rightarrow> vol\<lparr>mam_attr := mam, device := dev\<rparr>)
                   else vol);
                 vol = (if prt = ltfs_ip_id vol then
                   snd (on_device (tape_set_append_position (ltfs_part_id2num prt vol)
                          (off_block (selfptr (index vol)) - 1)) vol)
                   else vol)
             in vol\<lparr>index := settle_index generation_inc (index vol)\<rparr>)"

text \<open>Writing on one partition, from the update of the generation on.\<close>

definition write_index_here ::
    "(string \<Rightarrow> ltfs_index \<Rightarrow> u8 list list) \<Rightarrow> bool \<Rightarrow> ltfs_timespec \<Rightarrow> char \<Rightarrow> string \<Rightarrow>
     'b ltfs_volume \<Rightarrow> (int \<times> 'b ltfs_volume) option" where
  "write_index_here document memory now prt reason vol =
     (let old = index vol;
          generation_inc = ltfs_is_dirty vol;
          undo = undo_index generation_inc old;
          vol = new_generation now vol
      in case on_device (tape_seek_append_position (ltfs_part_id2num prt vol)
                (prt = partid_ip (label vol))) vol of (ret, vol) \<Rightarrow>
      if ret < 0 then Some (ret, undo vol)
      else case tape_get_position (device vol) of (ret, physical_selfptr) \<Rightarrow>
      if ret < 0 then Some (ret, undo vol)
      else
        let vol = point_index physical_selfptr vol
        in case (if prt = ltfs_ip_id vol \<and> \<not> ip_index_file_end vol
                 then on_device (tape_write_filemark 0 True True) vol else (0, vol)) of (ret, vol) \<Rightarrow>
      if ret < 0 then Some (ret, undo vol)
      else case on_device (tape_write_filemark 1 True True) vol of (ret, vol) \<Rightarrow>
      if ret < 0 then Some (ret, undo vol)
      else case xml_schema_to_tape document memory reason vol of
        None \<Rightarrow> None
      | Some (ret, vol) \<Rightarrow>
      if ret < 0 then Some (ret, undo vol)
      else case on_device (tape_write_filemark 1 True True) vol of (ret, vol) \<Rightarrow>
           case (if ret = 0 then on_device (tape_write_filemark 0 True True) vol else (ret, vol)) of
             (ret, vol) \<Rightarrow>
      if ret < 0 then Some (ret, undo vol)
      else Some (0, index_written prt generation_inc vol))"

text \<open>The test whether the other partition needs an index first.\<close>

definition dp_index_needed :: "'b ltfs_volume \<Rightarrow> bool" where
  "dp_index_needed vol \<longleftrightarrow>
     \<not> dp_index_file_end vol \<or>
     ip_index_file_end vol \<and> off_partition (selfptr (index vol)) = ltfs_ip_id vol"

definition index_writable :: "'b ltfs_volume \<Rightarrow> int" where
  "index_writable vol =
     (let ret = ltfs_get_partition_readonly (ltfs_ip_id vol) vol
      in if ret = 0 \<or> ret = - LTFS_NO_SPACE \<or> ret = - LTFS_LESS_SPACE
         then ltfs_get_partition_readonly (ltfs_dp_id vol) vol else ret)"

text \<open>
  \<open>ltfs_write_index\<close> calls itself for the data partition first; that it ends is a theorem about
  volumes whose two partitions have different letters.
\<close>

partial_function (option) ltfs_write_index ::
    "(string \<Rightarrow> ltfs_index \<Rightarrow> u8 list list) \<Rightarrow> bool \<Rightarrow> ltfs_timespec \<Rightarrow> char \<Rightarrow> string \<Rightarrow>
     'b ltfs_volume \<Rightarrow> (int \<times> 'b ltfs_volume) option" where
  "ltfs_write_index document memory now prt reason vol =
     (let ret = index_writable vol
      in if ret < 0 \<and> ret \<noteq> - LTFS_NO_SPACE \<and> ret \<noteq> - LTFS_LESS_SPACE then Some (ret, vol)
         else if prt = ltfs_ip_id vol \<and> dp_index_needed vol then
           Option.bind (ltfs_write_index document memory now (ltfs_dp_id vol) reason vol)
             (\<lambda>(ret, vol).
                if NEED_REVAL ret then Some (ret, vol)
                else if IS_UNEXPECTED_MOVE ret then Some (ret, vol\<lparr>reval := - LTFS_REVAL_FAILED\<rparr>)
                else write_index_here document memory now prt reason vol)
         else write_index_here document memory now prt reason vol)"

definition SYNC_CASCHE_PRESSURE :: string where
  "SYNC_CASCHE_PRESSURE = ''Cache Pressure''"

definition ltfs_write_index_conditional ::
    "(string \<Rightarrow> ltfs_index \<Rightarrow> u8 list list) \<Rightarrow> bool \<Rightarrow> ltfs_timespec \<Rightarrow> char \<Rightarrow>
     'b ltfs_volume \<Rightarrow> (int \<times> 'b ltfs_volume) option" where
  "ltfs_write_index_conditional document memory now prt vol =
     (if prt = ltfs_ip_id vol \<and> \<not> ip_index_file_end vol
      then ltfs_write_index document memory now prt SYNC_CASCHE_PRESSURE vol
      else if prt = ltfs_dp_id vol \<and> dp_index_needed vol
      then ltfs_write_index document memory now prt SYNC_CASCHE_PRESSURE vol
      else Some (0, vol))"

end
