(* ===== verification/FsRaw.thy ===== *)
theory FsRaw imports IndexWrite begin

text \<open>
  Reading and writing files on tape: \<open>src/ltfs/src/libltfs/ltfs_fsops_raw.c\<close>. A read goes over the
  extent list of the file, fills holes with zeros and takes the bytes of an extent from the blocks on
  tape through a cache of one block. A write puts blocks at the append position of a
  partition, after an index on the other one if that has none, and records the extent.

  What lies outside is an argument \<open>env\<close>: the text of the index (as in \<open>IndexWrite\<close>), the
  time, whether allocations succeed, what other threads do while a revalidation is waited for, and
  the revalidation. A loop that need not end returns \<open>None\<close> then. The calls on mutexes succeed.
\<close>

record 'b fs_env =
  env_document :: "string \<Rightarrow> ltfs_index \<Rightarrow> u8 list list"
  env_memory :: bool
  env_now :: ltfs_timespec
  env_others :: "'b ltfs_volume \<Rightarrow> 'b ltfs_volume"
  env_revalidate :: "'b ltfs_volume \<Rightarrow> int \<times> 'b ltfs_volume"

section \<open>Writing\<close>

text \<open>The blocks of one repetition, then the repetitions.\<close>

partial_function (option) write_blocks ::
    "nat \<Rightarrow> bool \<Rightarrow> u8 list \<Rightarrow> 'b device_data \<Rightarrow> (int \<times> 'b device_data) option" where
  "write_blocks blocksize is_index_part buf dev =
     (if buf = [] then Some (0, dev)
      else case tape_write (take blocksize buf) is_index_part False True dev of (nwrite_last, dev) \<Rightarrow>
        if nwrite_last < 0 then Some (nwrite_last, dev)
        else write_blocks blocksize is_index_part (drop blocksize buf) dev)"

fun write_repetitions ::
    "nat \<Rightarrow> nat \<Rightarrow> bool \<Rightarrow> u8 list \<Rightarrow> 'b device_data \<Rightarrow> (int \<times> 'b device_data) option" where
  "write_repetitions 0 blocksize is_index_part buf dev = Some (0, dev)"
| "write_repetitions (Suc n) blocksize is_index_part buf dev =
     (case write_blocks blocksize is_index_part buf dev of
        None \<Rightarrow> None
      | Some (ret, dev) \<Rightarrow>
          if ret < 0 then Some (ret, dev) else write_repetitions n blocksize is_index_part buf dev)"

text \<open>The label \<open>out_unlock\<close>.\<close>

definition out_unlock :: "int \<Rightarrow> 'b ltfs_volume \<Rightarrow> 'b ltfs_volume" where
  "out_unlock ret vol =
     (let vol = (if NEED_REVAL ret then snd (on_device tape_start_fence vol)
                 else if IS_UNEXPECTED_MOVE ret then vol\<lparr>reval := - LTFS_REVAL_FAILED\<rparr> else vol)
      in snd (on_device (tape_device_unlock 0) vol))"

text \<open>From the seek to the append position on; the block number is what \<open>startblock\<close> gets.\<close>

definition append_data ::
    "char \<Rightarrow> u8 list \<Rightarrow> nat \<Rightarrow> 'b ltfs_volume \<Rightarrow> (int \<times> u64 option \<times> 'b ltfs_volume) option" where
  "append_data prt buf repetitions vol =
     (case on_device (tape_seek_append_position (ltfs_part_id2num prt vol)
             (prt = partid_ip (label vol))) vol of (ret, vol) \<Rightarrow>
      if ret < 0 then Some (ret, None, vol)
      else case tape_get_position (device vol) of (ret, start) \<Rightarrow>
      if ret < 0 then Some (ret, None, vol)
      else
        let is_index_part =
              (ltfs_part_id2num (ltfs_ip_id vol) vol = partition (position (device vol)))
        in map_option (\<lambda>(ret, dev). (ret, Some (block start), vol\<lparr>device := dev\<rparr>))
             (write_repetitions repetitions (unat (lbl_blocksize (label vol))) is_index_part buf (device vol)))"

definition fsraw_write_data_unlocked ::
    "'b fs_env \<Rightarrow> char \<Rightarrow> u8 list \<Rightarrow> nat \<Rightarrow> 'b ltfs_volume \<Rightarrow>
     (int \<times> u64 option \<times> 'b ltfs_volume) option" where
  "fsraw_write_data_unlocked env prt buf repetitions vol =
     (if prt \<noteq> ltfs_dp_id vol \<and> prt \<noteq> ltfs_ip_id vol then Some (- LTFS_BAD_PARTNUM, None, vol)
      else if buf = [] \<or> repetitions = 0 then Some (0, None, vol)
      else if 1 < repetitions \<and> length buf mod unat (lbl_blocksize (label vol)) \<noteq> 0
        then Some (- LTFS_BAD_ARG, None, vol)
      else case on_device (tape_device_lock 0) vol of (ret, vol) \<Rightarrow>
      if ret < 0 then Some (ret, None, vol)
      else
        let ret = ltfs_get_partition_readonly prt vol
        in if ret < 0 \<and> ret \<noteq> - LTFS_NO_SPACE then Some (ret, None, out_unlock ret vol)
      else case ltfs_write_index_conditional (env_document env) (env_memory env) (env_now env)
                  (if prt = ltfs_ip_id vol then ltfs_dp_id vol else ltfs_ip_id vol) vol of
        None \<Rightarrow> None
      | Some (ret, vol) \<Rightarrow>
      if ret < 0 then Some (ret, None, out_unlock ret vol)
      else
        let vol = (if prt = ltfs_ip_id vol then vol\<lparr>ip_index_file_end := False\<rparr>
                   else vol\<lparr>dp_index_file_end := False\<rparr>)
        in map_option (\<lambda>(ret, start, vol). (ret, start, out_unlock ret vol))
             (append_data prt buf repetitions vol))"

text \<open>
  Starting again after a revalidation: what a fenced device or one that has to be revalidated
  leads to.
\<close>

definition recover :: "'b fs_env \<Rightarrow> int \<Rightarrow> 'b ltfs_volume \<Rightarrow> int \<times> 'b ltfs_volume" where
  "recover env ret vol =
     (if ret = - LTFS_DEVICE_FENCED then ltfs_wait_revalidation (env_others env) vol else env_revalidate env vol)"

partial_function (option) ltfs_fsraw_write_data ::
    "'b fs_env \<Rightarrow> char \<Rightarrow> u8 list \<Rightarrow> nat \<Rightarrow> 'b ltfs_volume \<Rightarrow>
     (int \<times> u64 option \<times> 'b ltfs_volume) option" where
  "ltfs_fsraw_write_data env prt buf repetitions vol =
     (case ltfs_get_volume_lock (env_others env) vol of (ret, vol) \<Rightarrow>
      if ret < 0 then Some (ret, None, vol)
      else Option.bind (fsraw_write_data_unlocked env prt buf repetitions vol) (\<lambda>(ret, start, vol).
        if ret = - LTFS_DEVICE_FENCED \<or> NEED_REVAL ret then
          (case recover env ret vol of (ret, vol) \<Rightarrow>
             if ret = 0 then ltfs_fsraw_write_data env prt buf repetitions vol else Some (ret, start, vol))
        else if IS_UNEXPECTED_MOVE ret then Some (ret, start, vol\<lparr>reval := - LTFS_REVAL_FAILED\<rparr>)
        else Some (ret, start, vol)))"

text \<open>\<open>copy_ok\<close> and \<open>split_ok\<close> are the allocations of the extent insertion.\<close>

definition save_extent ::
    "bool \<Rightarrow> bool \<Rightarrow> ltfs_timespec \<Rightarrow> dentry \<Rightarrow> extent_info \<Rightarrow> bool \<Rightarrow> 'b ltfs_volume \<Rightarrow>
     int \<times> dentry \<times> 'b ltfs_volume" where
  "save_extent copy_ok split_ok time d ext update_time vol =
     (case ltfs_fsraw_add_extent_unlocked copy_ok split_ok time d ext update_time
             (ucast (lbl_blocksize (label vol))) (idx_flags (index vol)) of
        (ret, d, idx) \<Rightarrow> (ret, d, vol\<lparr>index := (index vol)\<lparr>idx_flags := idx\<rparr>\<rparr>))"

partial_function (option) ltfs_fsraw_write ::
    "'b fs_env \<Rightarrow> bool \<Rightarrow> bool \<Rightarrow> dentry \<Rightarrow> u8 list \<Rightarrow> int \<Rightarrow> char \<Rightarrow> bool \<Rightarrow> 'b ltfs_volume \<Rightarrow>
     (int \<times> dentry \<times> 'b ltfs_volume) option" where
  "ltfs_fsraw_write env copy_ok split_ok d buf offset prt update_time vol =
     (case ltfs_get_volume_lock (env_others env) vol of (ret, vol) \<Rightarrow>
      if ret < 0 then Some (ret, d, vol)
      else Option.bind (fsraw_write_data_unlocked env prt buf 1 vol) (\<lambda>(ret, start, vol).
        if ret = - LTFS_DEVICE_FENCED \<or> NEED_REVAL ret then
          (case recover env ret vol of (ret, vol) \<Rightarrow>
             if ret = 0 then ltfs_fsraw_write env copy_ok split_ok d buf offset prt update_time vol
             else Some (ret, d, vol))
        else if IS_UNEXPECTED_MOVE ret then Some (ret, d, vol\<lparr>reval := - LTFS_REVAL_FAILED\<rparr>)
        else if ret < 0 then Some (ret, d, vol)
        else
          Some (save_extent copy_ok split_ok (env_now env) d
            \<lparr>start_block = (case start of Some b \<Rightarrow> b | None \<Rightarrow> 0), start_partition = prt,
             byteoffset = 0, bytecount = of_nat (length buf), fileoffset = of_int offset\<rparr>
            update_time vol)))"

text \<open>
  \<open>flush\<close> is the dentry cache, when there is one: its answer to \<open>dcache_flush\<close>.
\<close>

definition space_ok :: "int \<Rightarrow> bool" where
  "space_ok ret \<longleftrightarrow> 0 \<le> ret \<or> ret = - LTFS_NO_SPACE \<or> ret = - LTFS_LESS_SPACE"

definition ltfs_fsraw_add_extent ::
    "'b fs_env \<Rightarrow> bool \<Rightarrow> bool \<Rightarrow> (dentry \<Rightarrow> int) option \<Rightarrow> dentry \<Rightarrow> extent_info \<Rightarrow> bool \<Rightarrow>
     'b ltfs_volume \<Rightarrow> int \<times> dentry \<times> 'b ltfs_volume" where
  "ltfs_fsraw_add_extent env copy_ok split_ok flush d ext update_time vol =
     (let ret = ltfs_get_partition_readonly (ltfs_ip_id vol) vol
      in if \<not> space_ok ret then (ret, d, vol)
      else
        let ret = ltfs_get_partition_readonly (ltfs_dp_id vol) vol
        in if \<not> space_ok ret then (ret, d, vol)
      else case ltfs_get_volume_lock (env_others env) vol of (ret, vol) \<Rightarrow>
      if ret < 0 then (ret, d, vol)
      else case save_extent copy_ok split_ok (env_now env) d ext update_time vol of (ret, d, vol) \<Rightarrow>
        (case flush of None \<Rightarrow> ret | Some f \<Rightarrow> f d, d, vol))"

section \<open>Reading\<close>

text \<open>
  The block under the read position is the one in the cache, and the head is just behind it.
\<close>

definition block_cached :: "char \<Rightarrow> tc_position \<Rightarrow> tc_position \<Rightarrow> 'b ltfs_volume \<Rightarrow> bool" where
  "block_cached prt seekpos curpos vol \<longleftrightarrow>
     prt = off_partition (last_pos vol) \<and> block seekpos = off_block (last_pos vol) \<and>
     partition seekpos = partition curpos \<and> block seekpos + 1 = block curpos"

text \<open>
  Reading a block into the cache: the read fills the front of the buffer. On failure the result
  is negative; the buffer may have changed even then.
\<close>

definition load_block ::
    "char \<Rightarrow> u64 \<Rightarrow> tc_position \<Rightarrow> tc_position \<Rightarrow> 'b ltfs_volume \<Rightarrow> int \<times> tc_position \<times> 'b ltfs_volume" where
  "load_block prt blockbytes seekpos curpos vol =
     (if block_cached prt seekpos curpos vol then
        (if (ucast (last_size vol) :: u64) < blockbytes then - LTFS_SMALL_BLOCK else 0, curpos, vol)
      else case tape_read (unat (lbl_blocksize (label vol))) (kmi_handle vol) (device vol) of
        (nread, buf, dev) \<Rightarrow>
          let vol = vol\<lparr>device := dev,
                last_block := map_option (\<lambda>old. buf @ drop (length buf) old) (last_block vol)\<rparr>
          in if nread < 0 then (nread, curpos, vol)
             else if nat nread < unat blockbytes then (- LTFS_SMALL_BLOCK, curpos, vol)
             else (0, curpos\<lparr>block := block curpos + 1\<rparr>,
                   vol\<lparr>last_pos := \<lparr>off_block = block seekpos, off_partition = prt\<rparr>,
                       last_size := of_int nread\<rparr>))"

text \<open>
  The inner loop: the blocks of one extent. \<open>out\<close> is what has been copied to the caller's buffer,
  its length is \<open>read_count\<close>; the result has it and the next file offset.
\<close>

partial_function (option) read_extent_blocks ::
    "extent_info \<Rightarrow> u64 \<Rightarrow> nat \<Rightarrow> tc_position \<Rightarrow> tc_position \<Rightarrow> u64 \<Rightarrow> u64 \<Rightarrow> u64 \<Rightarrow> u8 list \<Rightarrow>
     'b ltfs_volume \<Rightarrow> (int \<times> u64 \<times> u8 list \<times> 'b ltfs_volume) option" where
  "read_extent_blocks entry last_off count seekpos curpos firstbyte lastbyte next_off out vol =
     (if \<not> (next_off < fileoffset_end entry \<and> length out < count) then Some (0, next_off, out, vol)
      else
        let blocksize = ucast (lbl_blocksize (label vol));
            lastbyte = lastbyte + blocksize;
            lastbyte = (if fileoffset_end entry < lastbyte then fileoffset_end entry else lastbyte)
        in case load_block (start_partition entry) (lastbyte - firstbyte) seekpos curpos vol of
             (ret, curpos, vol) \<Rightarrow>
               if ret < 0 then Some (ret, next_off, out, vol)
               else
                 let ncopy = (if last_off < lastbyte then last_off else lastbyte) - next_off;
                     cache = (case last_block vol of Some b \<Rightarrow> b | None \<Rightarrow> [])
                 in read_extent_blocks entry last_off count (seekpos\<lparr>block := block seekpos + 1\<rparr>) curpos
                      (firstbyte + blocksize) lastbyte (next_off + ncopy)
                      (out @ take (unat ncopy) (drop (unat (next_off - firstbyte)) cache)) vol)"

text \<open>Going to the first block of an extent that is needed, and reading from there.\<close>

definition read_one_extent ::
    "extent_info \<Rightarrow> u64 \<Rightarrow> nat \<Rightarrow> u64 \<Rightarrow> u8 list \<Rightarrow> 'b ltfs_volume \<Rightarrow>
     (int \<times> u64 \<times> u8 list \<times> 'b ltfs_volume) option" where
  "read_one_extent entry last_off count next_off out vol =
     (case tape_get_position (device vol) of (ret, curpos) \<Rightarrow>
      if ret < 0 then Some (ret, next_off, out, vol)
      else
        let blocksize = ucast (lbl_blocksize (label vol));
            seekpos = seek_to (ltfs_part_id2num (start_partition entry) vol)
              (start_block entry +
                (next_off - fileoffset entry + ucast (byteoffset entry)) div blocksize)
        in case (if (partition curpos \<noteq> partition seekpos \<or> block curpos \<noteq> block seekpos) \<and>
                    \<not> (partition curpos = partition seekpos \<and> block curpos = block seekpos + 1 \<and>
                       start_partition entry = off_partition (last_pos vol) \<and>
                       block seekpos = off_block (last_pos vol))
                 then on_device (tape_seek seekpos) vol else (0, vol)) of (ret, vol) \<Rightarrow>
      if ret < 0 then Some (ret, next_off, out, vol)
      else
        let firstbyte = fileoffset entry - ucast (byteoffset entry) +
              (block seekpos - start_block entry) * blocksize
        in read_extent_blocks entry last_off count seekpos curpos firstbyte firstbyte next_off out vol)"

text \<open>The loop over the extent list. The last component of the result says whether it broke off.\<close>

fun read_extents ::
    "extent_info list \<Rightarrow> u64 \<Rightarrow> nat \<Rightarrow> u64 \<Rightarrow> u8 list \<Rightarrow> 'b ltfs_volume \<Rightarrow>
     (int \<times> u64 \<times> u8 list \<times> 'b ltfs_volume) option" where
  "read_extents [] last_off count next_off out vol = Some (0, next_off, out, vol)"
| "read_extents (entry # entries) last_off count next_off out vol =
     (if length out = count then Some (0, next_off, out, vol)
      else if next_off < fileoffset entry \<and> last_off < fileoffset entry
      then Some (0, next_off, out @ replicate (unat (last_off - next_off)) 0, vol)
      else
        let out = (if next_off < fileoffset entry
                   then out @ replicate (unat (fileoffset entry - next_off)) 0 else out);
            next_off = (if next_off < fileoffset entry then fileoffset entry else next_off)
        in case (if next_off < fileoffset_end entry
                 then read_one_extent entry last_off count next_off out vol
                 else Some (0, next_off, out, vol)) of
             None \<Rightarrow> None
           | Some (ret, next_off, out, vol) \<Rightarrow>
               if ret < 0 then Some (ret, next_off, out, vol)
               else read_extents entries last_off count next_off out vol)"

text \<open>
  One pass, with the device locked: the cache is allocated when there is none, the extents are
  read and a hole at the end of the file is filled.
\<close>

definition read_pass ::
    "bool \<Rightarrow> ltfs_timespec \<Rightarrow> dentry \<Rightarrow> nat \<Rightarrow> int \<Rightarrow> 'b ltfs_volume \<Rightarrow>
     (int \<times> u8 list \<times> dentry \<times> 'b ltfs_volume) option" where
  "read_pass cache_ok time d count offset vol =
     (if last_block vol = None \<and> \<not> cache_ok then Some (- LTFS_NO_MEMORY, [], d, vol)
      else
        let vol = (if last_block vol = None
                   then vol\<lparr>last_block := Some (replicate (unat (lbl_blocksize (label vol))) 0)\<rparr> else vol);
            last_off = of_int offset + of_nat count :: u64
        in case read_extents (extentlist d) last_off count (of_int offset) [] vol of
             None \<Rightarrow> None
           | Some (ret, next_off, out, vol) \<Rightarrow>
               if ret < 0 then Some (ret, out, d, vol)
               else
                 let ncopy = (if last_off < d_size d then last_off - next_off else d_size d - next_off);
                     out = (if length out < count \<and> next_off < d_size d
                            then out @ replicate (unat ncopy) 0 else out)
                 in Some (0, out, d\<lparr>access_time := time\<rparr>,
                      vol\<lparr>index := (index vol)\<lparr>idx_flags := ltfs_set_index_dirty True (idx_flags (index vol))\<rparr>\<rparr>))"

partial_function (option) ltfs_fsraw_read ::
    "'b fs_env \<Rightarrow> bool \<Rightarrow> dentry \<Rightarrow> nat \<Rightarrow> int \<Rightarrow> 'b ltfs_volume \<Rightarrow>
     (int \<times> u8 list \<times> dentry \<times> 'b ltfs_volume) option" where
  "ltfs_fsraw_read env cache_ok d count offset vol =
     (if count = 0 then Some (0, [], d, vol)
      else case ltfs_get_volume_lock (env_others env) vol of (ret, vol) \<Rightarrow>
      if ret < 0 then Some (ret, [], d, vol)
      else case on_device (tape_device_lock 0) vol of (ret, vol) \<Rightarrow>
      if ret = - LTFS_DEVICE_FENCED then
        (case ltfs_wait_revalidation (env_others env) vol of (ret, vol) \<Rightarrow>
           if ret = 0 then ltfs_fsraw_read env cache_ok d count offset vol else Some (ret, [], d, vol))
      else if ret < 0 then Some (ret, [], d, vol)
      else Option.bind (read_pass cache_ok (env_now env) d count offset vol) (\<lambda>(ret, out, d, vol).
        let vol = out_unlock ret vol
        in if NEED_REVAL ret then
             (case env_revalidate env vol of (ret, vol) \<Rightarrow>
                if ret = 0 then ltfs_fsraw_read env cache_ok d count offset vol
                else Some (if ret < 0 then ret else int (length out), out, d, vol))
           else Some (if ret < 0 then ret else int (length out), out, d, vol)))"

end
