(* ===== verification/IndexRules.thy ===== *)
theory IndexRules imports IndexWrite begin

text \<open>
  What holds of \<open>ltfs_write_index\<close> on any drive, whatever it answers: it ends, and a failure leaves
  the generation and the pointers of the index as they were.
\<close>

section \<open>Writing an index ends\<close>

lemma flush_blocks_again: "0 < unat n \<Longrightarrow> flush_blocks n ip [] rest dev \<noteq> None"
proof (induction "length rest" arbitrary: rest dev rule: less_induct)
  case less
  obtain ret dev1 where w: "tape_write (take (unat n) rest) ip True True dev = (ret, dev1)"
    by (cases "tape_write (take (unat n) rest) ip True True dev")
  show ?case
  proof (cases "unat n < length (drop (unat n) rest)")
    case True
    then have "flush_blocks n ip [] (drop (unat n) rest) dev1 \<noteq> None"
      using less.prems by (intro less.hyps) simp_all
    then show ?thesis using w by (simp add: flush_blocks.simps [of n ip "[]" rest] Let_def)
  next
    case False
    then show ?thesis using w by (simp add: flush_blocks.simps [of n ip "[]" rest] Let_def)
  qed
qed

lemma flush_blocks_ends:
  assumes "0 < unat n"
  shows "flush_blocks n ip buf rest dev \<noteq> None"
proof -
  obtain ret dev1 where w: "tape_write (buf @ take (unat (n - of_nat (length buf))) rest) ip True True dev = (ret, dev1)"
    by (cases "tape_write (buf @ take (unat (n - of_nat (length buf))) rest) ip True True dev")
  have "flush_blocks n ip [] (drop (unat (n - of_nat (length buf))) rest) dev1 \<noteq> None"
    by (rule flush_blocks_again [OF assms])
  then show ?thesis using w by (simp add: flush_blocks.simps [of n ip buf rest] Let_def)
qed

lemma write_pieces_ends: "0 < unat (out_size ctx) \<Longrightarrow> write_pieces pieces ctx dev \<noteq> None"
proof (induction pieces arbitrary: ctx dev)
  case Nil
  then show ?case by simp
next
  case (Cons piece pieces)
  have "xml_output_tape_write_callback ctx piece dev \<noteq> None"
    using flush_blocks_ends [OF Cons.prems, of "out_index_part ctx" "out_buf ctx" piece dev]
    by (auto simp: xml_output_tape_write_callback_def)
  then obtain ret ctx1 dev1 where call: "xml_output_tape_write_callback ctx piece dev = Some (ret, ctx1, dev1)"
    by (metis option.exhaust prod_cases3)
  then have "out_size ctx1 = out_size ctx"
    by (auto simp: xml_output_tape_write_callback_def split: if_splits prod.splits)
  then show ?case using call Cons.IH [of ctx1 dev1] Cons.prems by (cases "ret < 0") (simp_all del: not_None_eq)
qed

lemma xml_schema_ends:
  assumes "0 < unat (lbl_blocksize (label vol))"
  obtains ret dev cr where "xml_schema_to_tape document memory reason vol =
    Some (ret, vol\<lparr>device := dev, index := (index vol)\<lparr>idx_creator := cr\<rparr>\<rparr>)"
proof (cases memory)
  case True
  let ?ctx = "\<lparr>out_size = lbl_blocksize (label vol), out_buf = [],
    out_index_part = (ltfs_part_id2num (ltfs_ip_id vol) vol = partition (position (device vol)))\<rparr>"
  let ?w = "write_pieces (document (creator vol @ '' - '' @ reason) (index vol)) ?ctx (device vol)"
  have "?w \<noteq> None" by (rule write_pieces_ends) (use assms in simp)
  then obtain ok ctx dev where "?w = Some (ok, ctx, dev)" by (metis option.exhaust prod_cases3)
  moreover obtain r dev' where "xml_output_tape_close_callback ctx dev = (r, dev')" by (rule prod.exhaust)
  ultimately show thesis using True
    by (intro that [where ret = "if ok then 0 else - 1" and dev = dev' and cr = "Some (creator vol)"])
      (simp add: xml_schema_to_tape_def Let_def)
next
  case False
  then show thesis
    by (intro that [where ret = "- LTFS_NO_MEMORY" and dev = "device vol" and cr = "idx_creator (index vol)"])
      (simp add: xml_schema_to_tape_def)
qed

section \<open>A failure takes the changes back\<close>

text \<open>
  \<open>restored\<close>: what an index on the tape is identified by is as before. \<open>grown\<close> holds while an index
  is being written, and \<open>outcome\<close> of its result.
\<close>

definition restored :: "ltfs_index \<Rightarrow> ltfs_index \<Rightarrow> bool" where
  "restored old idx \<longleftrightarrow>
     generation idx = generation old \<and> mod_time idx = mod_time old \<and>
     selfptr idx = selfptr old \<and> backptr idx = backptr old \<and> idx_flags idx = idx_flags old"

definition grown :: "bool \<Rightarrow> 'b ltfs_volume \<Rightarrow> 'b ltfs_volume \<Rightarrow> bool" where
  "grown gi old vol \<longleftrightarrow>
     generation (index vol) = (if gi then generation (index old) + 1 else generation (index old)) \<and>
     (\<not> gi \<longrightarrow> mod_time (index vol) = mod_time (index old)) \<and>
     idx_flags (index vol) = idx_flags (index old) \<and> label vol = label old"

definition outcome :: "'b ltfs_volume \<Rightarrow> (int \<times> 'b ltfs_volume) option \<Rightarrow> bool" where
  "outcome old r \<longleftrightarrow> (\<exists>ret vol. r = Some (ret, vol) \<and> ret \<le> 0 \<and>
     label vol = label old \<and> (ret < 0 \<longrightarrow> restored (index old) (index vol)))"

lemma grown_device [simp]: "grown gi old (vol\<lparr>device := dev\<rparr>) = grown gi old vol"
  by (simp add: grown_def)

lemma grown_start: "grown (ltfs_is_dirty vol) vol (new_generation now vol)"
  by (simp add: grown_def new_generation_def)

lemma grown_point [simp]: "grown gi old (point_index pos vol) = grown gi old vol"
  by (simp add: grown_def point_index_def Let_def)

lemma outcome_undo: "grown gi old vol \<Longrightarrow> ret < 0 \<Longrightarrow> outcome old (Some (ret, undo_index gi (index old) vol))"
  by (cases gi) (simp_all add: outcome_def grown_def restored_def undo_index_def Let_def)

lemma on_device_label [simp]: "label (snd (on_device f vol)) = label vol"
  by (simp add: on_device_def split: prod.splits)

lemma update_coherency_label [simp]: "label (ltfs_update_cart_coherency vol) = label vol"
  by (simp add: ltfs_update_cart_coherency_def update_ip_coherency_def update_dp_coherency_def Let_def
      split: prod.splits)

lemma on_device_eq: "on_device f vol = (fst (f (device vol)), vol\<lparr>device := snd (f (device vol))\<rparr>)"
  by (simp add: on_device_def split: prod.splits)

lemma index_written_label [simp]: "label (index_written prt gi vol) = label vol"
  by (simp add: index_written_def Let_def on_device_eq case_prod_beta)

lemma outcome_done: "grown gi old vol \<Longrightarrow> outcome old (Some (0, index_written prt gi vol))"
  by (simp add: outcome_def grown_def)

lemma outcome_if: "(c \<Longrightarrow> outcome old x) \<Longrightarrow> (\<not> c \<Longrightarrow> outcome old y) \<Longrightarrow> outcome old (if c then x else y)"
  by simp

lemma outcome_device:
  assumes "grown gi old vol" "\<And>ret vol. grown gi old vol \<Longrightarrow> outcome old (g ret vol)"
  shows "outcome old (case on_device f vol of (ret, vol) \<Rightarrow> g ret vol)"
  using assms by (cases "f (device vol)") (simp add: on_device_def)

lemma outcome_device_if:
  assumes "grown gi old vol" "\<And>ret vol. grown gi old vol \<Longrightarrow> outcome old (g ret vol)"
  shows "outcome old (case (if c then on_device f vol else (k, vol)) of (ret, vol) \<Rightarrow> g ret vol)"
  using assms by (cases "f (device vol)") (simp add: on_device_def)

lemma outcome_schema:
  assumes "0 < unat (lbl_blocksize (label old))" "grown gi old vol"
    and "\<And>ret vol. grown gi old vol \<Longrightarrow> outcome old (g ret vol)"
  shows "outcome old (case xml_schema_to_tape document memory reason vol of
    None \<Rightarrow> None | Some (ret, vol) \<Rightarrow> g ret vol)"
proof -
  have "label vol = label old" using assms(2) by (simp add: grown_def)
  then obtain ret dev cr where "xml_schema_to_tape document memory reason vol =
      Some (ret, vol\<lparr>device := dev, index := (index vol)\<lparr>idx_creator := cr\<rparr>\<rparr>)"
    using xml_schema_ends assms(1) by metis
  moreover have "grown gi old (vol\<lparr>device := dev, index := (index vol)\<lparr>idx_creator := cr\<rparr>\<rparr>)"
    using assms(2) by (simp add: grown_def)
  ultimately show ?thesis using assms(3) by simp
qed

lemmas outcome_rules = outcome_undo outcome_done outcome_device outcome_device_if outcome_schema

lemma write_index_here_outcome:
  assumes "0 < unat (lbl_blocksize (label vol))"
  shows "outcome vol (write_index_here document memory now prt reason vol)"
proof -
  let ?gi = "ltfs_is_dirty vol"
  show ?thesis
    unfolding write_index_here_def Let_def tape_get_position_def prod.case
    apply (rule outcome_device [where gi = ?gi, OF grown_start])
    apply (rule outcome_if)
     apply (erule outcome_undo, assumption)
    apply (rule outcome_if, simp)
    apply (rule outcome_device_if [where gi = ?gi])
     apply simp
    apply (rule outcome_if)
     apply (erule outcome_undo, assumption)
    apply (rule outcome_device [where gi = ?gi], assumption)
    apply (rule outcome_if)
     apply (erule outcome_undo, assumption)
    apply (rule outcome_schema [where gi = ?gi, OF assms], assumption)
    apply (rule outcome_if)
     apply (erule outcome_undo, assumption)
    apply (rule outcome_device [where gi = ?gi], assumption)
    apply (rule outcome_device_if [where gi = ?gi], assumption)
    apply (rule outcome_if)
     apply (erule outcome_undo, assumption)
    apply (erule outcome_done)
    done
qed

lemma ltfs_write_index_direct:
  assumes "\<not> (prt = ltfs_ip_id vol \<and> dp_index_needed vol)"
  shows "ltfs_write_index document memory now prt reason vol =
    (let ret = index_writable vol
     in if ret < 0 \<and> ret \<noteq> - LTFS_NO_SPACE \<and> ret \<noteq> - LTFS_LESS_SPACE then Some (ret, vol)
        else write_index_here document memory now prt reason vol)"
  using assms by (subst ltfs_write_index.simps) (auto simp: Let_def)

lemma write_index_outcome:
  assumes "0 < unat (lbl_blocksize (label vol))" "\<not> (prt = ltfs_ip_id vol \<and> dp_index_needed vol)"
  shows "outcome vol (ltfs_write_index document memory now prt reason vol)"
  using write_index_here_outcome [OF assms(1), of document memory now prt reason]
  by (auto simp: ltfs_write_index_direct [OF assms(2)] Let_def outcome_def restored_def)

text \<open>
  After a failure the index is as it was before the write, but for one case: when the index of the data partition was written
  first, with success, it is as this write left it.
\<close>

lemma write_index_failed:
  assumes "0 < unat (lbl_blocksize (label vol))"
    and "prt = ltfs_ip_id vol \<and> dp_index_needed vol \<longrightarrow> ltfs_dp_id vol \<noteq> ltfs_ip_id vol"
    and run: "ltfs_write_index document memory now prt reason vol = Some (ret, vol')" and "ret < 0"
  obtains vol1 where "restored (index vol1) (index vol')"
    and "vol1 = vol \<or> prt = ltfs_ip_id vol \<and> dp_index_needed vol \<and>
      ltfs_write_index document memory now (ltfs_dp_id vol) reason vol = Some (0, vol1)"
proof (cases "prt = ltfs_ip_id vol \<and> dp_index_needed vol")
  case False
  have "restored (index vol) (index vol')"
    using write_index_outcome [OF assms(1) False, of document memory now reason] run \<open>ret < 0\<close>
    by (simp add: outcome_def)
  then show thesis by (rule that) simp
next
  case True
  let ?dp = "ltfs_write_index document memory now (ltfs_dp_id vol) reason vol"
  have "\<not> (ltfs_dp_id vol = ltfs_ip_id vol \<and> dp_index_needed vol)" using assms(2) True by simp
  then have "outcome vol ?dp" by (rule write_index_outcome [OF assms(1)])
  then obtain ret1 vol1 where 1: "?dp = Some (ret1, vol1)" "ret1 \<le> 0" "label vol1 = label vol"
    "ret1 < 0 \<longrightarrow> restored (index vol) (index vol1)"
    by (auto simp: outcome_def)
  have here: "outcome vol1 (write_index_here document memory now prt reason vol1)"
    using write_index_here_outcome [of vol1] assms(1) 1(3) by simp
  have unfolded: "ltfs_write_index document memory now prt reason vol =
     (let r = index_writable vol
      in if r < 0 \<and> r \<noteq> - LTFS_NO_SPACE \<and> r \<noteq> - LTFS_LESS_SPACE then Some (r, vol)
         else if NEED_REVAL ret1 then Some (ret1, vol1)
         else if IS_UNEXPECTED_MOVE ret1 then Some (ret1, vol1\<lparr>reval := - LTFS_REVAL_FAILED\<rparr>)
         else write_index_here document memory now prt reason vol1)"
    using True 1(1) by (subst ltfs_write_index.simps) (simp add: Let_def)
  consider "vol' = vol" | "ret1 < 0" "index vol' = index vol1" | "restored (index vol1) (index vol')"
    using run \<open>ret < 0\<close> here unfolded by (auto simp: Let_def outcome_def split: if_splits)
  then show thesis
  proof cases
    case 1
    then show thesis using that [of vol] by (simp add: restored_def)
  next
    case 2
    then show thesis using that [of vol] \<open>ret1 < 0 \<longrightarrow> _\<close> by (simp add: restored_def)
  next
    case 3
    then show thesis
      using that [of vol] that [of vol1] True \<open>?dp = _\<close> \<open>ret1 < 0 \<longrightarrow> _\<close> \<open>ret1 \<le> 0\<close>
      by (cases "ret1 < 0") (auto simp: restored_def)
  qed
qed

text \<open>A write of both indexes ends as well: the call for the data partition does not call itself.\<close>

lemma write_index_ends:
  assumes "0 < unat (lbl_blocksize (label vol))" "ltfs_dp_id vol \<noteq> ltfs_ip_id vol"
  shows "\<exists>ret vol'. ltfs_write_index document memory now prt reason vol = Some (ret, vol') \<and>
    label vol' = label vol"
proof (cases "prt = ltfs_ip_id vol \<and> dp_index_needed vol")
  case False
  then show ?thesis
    using write_index_outcome [OF assms(1) False, of document memory now reason] by (auto simp: outcome_def)
next
  case True
  have "\<not> (ltfs_dp_id vol = ltfs_ip_id vol \<and> dp_index_needed vol)" using assms(2) by simp
  then obtain ret vol1 where 1: "ltfs_write_index document memory now (ltfs_dp_id vol) reason vol = Some (ret, vol1)"
    "label vol1 = label vol"
    using write_index_outcome [OF assms(1), of "ltfs_dp_id vol" document memory now reason]
    by (auto simp: outcome_def)
  then have "\<exists>ret vol'. write_index_here document memory now prt reason vol1 = Some (ret, vol') \<and>
      label vol' = label vol"
    using write_index_here_outcome [of vol1 document memory now prt reason] assms(1)
    by (auto simp: outcome_def)
  then show ?thesis using 1 True by (subst ltfs_write_index.simps) (auto simp: Let_def)
qed

end
