(* ===== verification/IndexSpec.thy ===== *)
theory IndexSpec imports IndexRules begin

text \<open>
  What \<open>ltfs_write_index\<close> does to the tape and to the volume when the drive works: the locale
  \<open>volume_drive\<close> adds to the contract of the drive what writing an index relies on, and its
  lemmas follow the operations of \<open>IndexWrite\<close>.
\<close>

section \<open>The contract\<close>

definition undisturbed :: "'b device_data \<Rightarrow> 'b device_data \<Rightarrow> bool" where
  "undisturbed dev dev' \<longleftrightarrow> same_flags dev dev' \<and> append_pos dev' = append_pos dev \<and> (calm dev \<longrightarrow> calm dev')"

lemma undisturbed_refl [simp]: "undisturbed dev dev"
  by (simp add: undisturbed_def)

lemma undisturbed_trans [trans]: "undisturbed a b \<Longrightarrow> undisturbed b c \<Longrightarrow> undisturbed a c"
  using same_flags_trans by (auto simp: undisturbed_def)

locale volume_drive = tape_drive_memory + tape_drive_marks +
  assumes flush: "repr b t \<Longrightarrow> at_head pos b \<Longrightarrow>
      \<exists>b' pos'. op_writefm ops 0 b pos = (0, b', pos') \<and> repr b' t \<and> at_head pos' b' \<and>
        (early_warning pos' \<longrightarrow> early_warning pos) \<and>
        (programmable_early_warning pos' \<longrightarrow> programmable_early_warning pos)"
    and read_attribute: "repr b t \<Longrightarrow> at_head pos b \<Longrightarrow>
      \<exists>r buf b'. op_read_attribute ops p a n b = (r, buf, b') \<and> repr b' t \<and> at_head pos b'"
    and update_mam: "repr b t \<Longrightarrow> at_head pos b \<Longrightarrow>
      \<exists>r b'. op_update_mam_attr ops nm a bc lk b = (r, b') \<and> repr b' t \<and> at_head pos b'"

text \<open>
  A volume whose label names the two partitions by different letters, with identifiers of 37
  bytes as the arrays of the code have.
\<close>

definition volume_ok :: "'b ltfs_volume \<Rightarrow> bool" where
  "volume_ok vol \<longleftrightarrow>
     partid_dp (label vol) \<noteq> partid_ip (label vol) \<and>
     (part_num2id (label vol) 0 = partid_dp (label vol) \<and> part_num2id (label vol) 1 = partid_ip (label vol) \<or>
      part_num2id (label vol) 1 = partid_dp (label vol) \<and> part_num2id (label vol) 0 = partid_ip (label vol)) \<and>
     length (lbl_uuid (label vol)) = 37 \<and> length (uuid (ip_coh vol)) = 37 \<and> length (uuid (dp_coh vol)) = 37"

lemma volume_ok_partition:
  assumes "volume_ok vol" "prt = ltfs_dp_id vol \<or> prt = ltfs_ip_id vol"
  shows "ltfs_part_id2num prt vol = 0 \<or> ltfs_part_id2num prt vol = 1"
    "part_num2id (label vol) (ltfs_part_id2num prt vol) = prt"
  using assms by (auto simp: volume_ok_def ltfs_part_id2num_def ltfs_dp_id_def ltfs_ip_id_def)

lemma volume_ok_different:
  "volume_ok vol \<Longrightarrow> ltfs_part_id2num (ltfs_dp_id vol) vol \<noteq> ltfs_part_id2num (ltfs_ip_id vol) vol"
  by (auto simp: volume_ok_def ltfs_part_id2num_def ltfs_dp_id_def ltfs_ip_id_def)

context volume_drive
begin

lemma flush_ready:
  assumes dev: "ready dev t" "calm dev" "writable dev (head_part t)"
  obtains dev' where "tape_write_filemark 0 il ins dev = (0, dev')" "ready dev' t" "calm dev'"
    "same_flags dev dev'" "append_pos dev' = (append_pos dev)(head_part t := of_nat (head_block t))"
proof -
  obtain b where b: "backend dev = Some (ops, b)" "repr b t" "at_head (position dev) b"
    using dev(1) by (auto simp: mounted_def)
  obtain b' pos' where w: "op_writefm ops 0 b (position dev) = (0, b', pos')" "repr b' t" "at_head pos' b'"
    "early_warning pos' \<longrightarrow> early_warning (position dev)"
    "programmable_early_warning pos' \<longrightarrow> programmable_early_warning (position dev)"
    using flush [OF b(2,3)] by blast
  define dev1 where "dev1 = dev\<lparr>backend := Some (ops, b'), position := pos'\<rparr>"
  have ready1: "ready dev1 t" using w by (simp add: mounted_def dev1_def)
  have calm1: "calm dev1" using w(4,5) dev(2) by (auto simp: calm_def dev1_def)
  define dev' where "dev' = dev1\<lparr>append_pos := (append_pos dev)(head_part t := of_nat (head_block t))\<rparr>"
  have "tape_write_filemark 0 il ins dev = (0, dev')"
    using b(1) dev(3) calm1 w(1) ready_position [OF dev(1)] ready_position [OF ready1]
    by (simp add: tape_write_filemark_def writable_cases on_drive_def dev1_def dev'_def calm_def)
  then show thesis
    using ready1 calm1
    by (intro that [of dev']) (simp_all add: same_flags_def dev'_def dev1_def mounted_def calm_def)
qed

lemma attr_read_ready:
  assumes "ready dev t"
  obtains r buf dev' where "attr_read p a n dev = (r, buf, dev')" "ready dev' t" "undisturbed dev dev'"
proof -
  obtain b where b: "backend dev = Some (ops, b)" "repr b t" "at_head (position dev) b"
    using assms by (auto simp: mounted_def)
  obtain r buf b' where "op_read_attribute ops p a n b = (r, buf, b')" "repr b' t" "at_head (position dev) b'"
    using read_attribute [OF b(2,3)] by blast
  then show thesis using b(1)
    by (intro that [of r buf "dev\<lparr>backend := Some (ops, b')\<rparr>"])
      (simp_all add: attr_read_def mounted_def undisturbed_def same_flags_def calm_def)
qed

lemma change_reference_ready:
  assumes "ready dev t"
  obtains r v dev' where "tape_get_volume_change_reference dev = (r, v, dev')" "ready dev' t"
    "undisturbed dev dev'"
proof -
  obtain r buf dev' where a: "attr_read 0 TC_MAM_PAGE_VCR 9 dev = (r, buf, dev')" "ready dev' t"
    "undisturbed dev dev'" by (rule attr_read_ready [OF assms])
  then have "\<exists>v. tape_get_volume_change_reference dev = (r, v, dev')"
    by (simp add: tape_get_volume_change_reference_def Let_def)
  then show thesis using that a(2,3) by blast
qed

lemma set_coherency_ready:
  assumes "ready dev t" "length (uuid coh) = 37"
  obtains dev' where "tape_set_cart_coherency p coh dev = (0, dev')" "ready dev' t" "undisturbed dev dev'"
proof -
  obtain dev' where "tape_set_cart_coherency p coh dev = (0, dev')" "ready dev' t" "same_flags dev dev'"
    "append_pos dev' = append_pos dev" "position dev' = position dev"
    by (rule coherency_ready [OF assms, of p]) blast
  then show thesis by (intro that [of dev']) (simp_all add: undisturbed_def calm_def)
qed

lemma update_ip_ready:
  assumes "ready (device vol) t" "volume_ok vol"
  obtains c dev' where "update_ip_coherency v vol = vol\<lparr>ip_coh := c, device := dev'\<rparr>"
    "length (uuid c) = 37" "ready dev' t" "undisturbed (device vol) dev'"
proof -
  define c where "c = (let c = (if off_partition (selfptr (index vol)) = ltfs_ip_id vol
       then (ip_coh vol)\<lparr>coh_count := ucast (generation (index vol)), set_id := off_block (selfptr (index vol))\<rparr>
       else ip_coh vol)
     in c\<lparr>version := 1, volume_change_ref := v, uuid := fill_uuid vol (uuid c)\<rparr>)"
  have len: "length (uuid c) = 37"
    using assms(2) by (auto simp: c_def Let_def fill_uuid_def volume_ok_def)
  obtain dev' where "tape_set_cart_coherency (ltfs_part_id2num (ltfs_ip_id vol) vol) c (device vol) = (0, dev')"
    "ready dev' t" "undisturbed (device vol) dev'" by (rule set_coherency_ready [OF assms(1) len])
  moreover have "update_ip_coherency v vol =
      snd (on_device (tape_set_cart_coherency (ltfs_part_id2num (ltfs_ip_id vol) vol) c) (vol\<lparr>ip_coh := c\<rparr>))"
    unfolding update_ip_coherency_def c_def Let_def by (rule refl)
  ultimately show thesis using len by (intro that [of dev' c]) (simp_all add: on_device_def)
qed

lemma update_dp_ready:
  assumes "ready (device vol) t" "volume_ok vol"
  obtains c dev' where "update_dp_coherency v vol = vol\<lparr>dp_coh := c, device := dev'\<rparr>"
    "length (uuid c) = 37" "ready dev' t" "undisturbed (device vol) dev'"
proof -
  define c where "c = (let c = (if off_partition (selfptr (index vol)) = ltfs_dp_id vol
       then (dp_coh vol)\<lparr>coh_count := ucast (generation (index vol)), set_id := off_block (selfptr (index vol))\<rparr>
       else dp_coh vol)
     in c\<lparr>version := 1, volume_change_ref := v, uuid := fill_uuid vol (uuid c)\<rparr>)"
  have len: "length (uuid c) = 37"
    using assms(2) by (auto simp: c_def Let_def fill_uuid_def volume_ok_def)
  obtain dev' where "tape_set_cart_coherency (ltfs_part_id2num (ltfs_dp_id vol) vol) c (device vol) = (0, dev')"
    "ready dev' t" "undisturbed (device vol) dev'" by (rule set_coherency_ready [OF assms(1) len])
  moreover have "update_dp_coherency v vol =
      snd (on_device (tape_set_cart_coherency (ltfs_part_id2num (ltfs_dp_id vol) vol) c) (vol\<lparr>dp_coh := c\<rparr>))"
    unfolding update_dp_coherency_def c_def Let_def by (rule refl)
  ultimately show thesis using len by (intro that [of dev' c]) (simp_all add: on_device_def)
qed

text \<open>The coherency data may change, nothing else of the volume does.\<close>

lemma update_coherency_ready:
  assumes "ready (device vol) t" "volume_ok vol"
  shows "\<exists>c d dev'. ltfs_update_cart_coherency vol = vol\<lparr>ip_coh := c, dp_coh := d, device := dev'\<rparr> \<and>
    length (uuid c) = 37 \<and> length (uuid d) = 37 \<and> ready dev' t \<and> undisturbed (device vol) dev'"
proof -
  obtain r v dev0 where v: "tape_get_volume_change_reference (device vol) = (r, v, dev0)"
    "ready dev0 t" "undisturbed (device vol) dev0" by (rule change_reference_ready [OF assms(1)])
  have ip: "\<exists>c dev1. (if ip_index_file_end vol then update_ip_coherency v (vol\<lparr>device := dev0\<rparr>)
      else vol\<lparr>device := dev0\<rparr>) = vol\<lparr>ip_coh := c, device := dev1\<rparr> \<and>
    length (uuid c) = 37 \<and> ready dev1 t \<and> undisturbed dev0 dev1"
  proof (cases "ip_index_file_end vol")
    case True
    obtain c dev1 where "update_ip_coherency v (vol\<lparr>device := dev0\<rparr>) = vol\<lparr>device := dev0, ip_coh := c, device := dev1\<rparr>"
      "length (uuid c) = 37" "ready dev1 t" "undisturbed dev0 dev1"
      by (rule update_ip_ready [of "vol\<lparr>device := dev0\<rparr>" t v]) (use v(2) assms(2) in \<open>simp_all add: volume_ok_def\<close>)
    then show ?thesis using True by (intro exI [of _ c] exI [of _ dev1]) simp
  next
    case False
    then show ?thesis using v(2) assms(2)
      by (intro exI [of _ "ip_coh vol"] exI [of _ dev0]) (simp add: volume_ok_def)
  qed
  then obtain c dev1 where c: "(if ip_index_file_end vol then update_ip_coherency v (vol\<lparr>device := dev0\<rparr>)
      else vol\<lparr>device := dev0\<rparr>) = vol\<lparr>ip_coh := c, device := dev1\<rparr>"
    "length (uuid c) = 37" "ready dev1 t" "undisturbed dev0 dev1" by blast
  let ?w = "vol\<lparr>ip_coh := c, device := dev1\<rparr>"
  have ok: "volume_ok ?w" "ready (device ?w) t" using assms(2) c by (simp_all add: volume_ok_def)
  have dp: "\<exists>d dev2. (if dp_index_file_end vol then update_dp_coherency v ?w else ?w) =
      vol\<lparr>ip_coh := c, dp_coh := d, device := dev2\<rparr> \<and>
    length (uuid d) = 37 \<and> ready dev2 t \<and> undisturbed dev1 dev2"
  proof (cases "dp_index_file_end vol")
    case True
    obtain d dev2 where "update_dp_coherency v ?w = ?w\<lparr>dp_coh := d, device := dev2\<rparr>"
      "length (uuid d) = 37" "ready dev2 t" "undisturbed (device ?w) dev2"
      by (rule update_dp_ready [OF ok(2,1)])
    then show ?thesis using True by (intro exI [of _ d] exI [of _ dev2]) simp
  next
    case False
    then show ?thesis using c(3) assms(2)
      by (intro exI [of _ "dp_coh vol"] exI [of _ dev1]) (simp add: volume_ok_def)
  qed
  then obtain d dev2 where d: "(if dp_index_file_end vol then update_dp_coherency v ?w else ?w) =
      vol\<lparr>ip_coh := c, dp_coh := d, device := dev2\<rparr>"
    "length (uuid d) = 37" "ready dev2 t" "undisturbed dev1 dev2" by blast
  have all: "undisturbed (device vol) dev2"
    using v(3) c(4) d(4) undisturbed_trans by blast
  show ?thesis
  proof (cases "v = 0 \<or> v = 0xffffffffffffffff")
    case True
    then show ?thesis using v assms(2)
      by (intro exI [of _ "ip_coh vol"] exI [of _ "dp_coh vol"] exI [of _ dev0])
        (simp add: ltfs_update_cart_coherency_def Let_def volume_ok_def)
  next
    case False
    have "ltfs_update_cart_coherency vol = (if dp_index_file_end vol then update_dp_coherency v ?w else ?w)"
      using False v(1) c(1) by (simp add: ltfs_update_cart_coherency_def Let_def)
    then show ?thesis using d(1-3) c(2) all by metis
  qed
qed

lemma format_version_ready:
  assumes "ready dev t"
  shows "\<exists>r m dev'. tape_get_MAMattributes TC_MAM_APP_FORMAT_VERSION p mam dev = (r, m, dev') \<and>
    ready dev' t \<and> undisturbed dev dev'"
proof -
  obtain r buf dev' where "attr_read p TC_MAM_APP_FORMAT_VERSION 30 dev = (r, buf, dev')" "ready dev' t"
    "undisturbed dev dev'" by (rule attr_read_ready [OF assms])
  then show ?thesis
    by (simp add: tape_get_MAMattributes_def get_format_version_def get_field_def read_field_def)
qed

lemma update_mam_ready:
  assumes "ready dev t"
  obtains r dev' where "tape_update_mam_attributes nm a bc lk dev = (r, dev')" "ready dev' t" "undisturbed dev dev'"
proof -
  obtain b where b: "backend dev = Some (ops, b)" "repr b t" "at_head (position dev) b"
    using assms by (auto simp: mounted_def)
  obtain r b' where "op_update_mam_attr ops nm a bc lk b = (r, b')" "repr b' t" "at_head (position dev) b'"
    using update_mam [OF b(2,3)] by blast
  then show thesis using b(1)
    by (intro that [of r "dev\<lparr>backend := Some (ops, b')\<rparr>"])
      (simp_all add: tape_update_mam_attributes_def on_backend_def mounted_def undisturbed_def
        same_flags_def calm_def)
qed

lemma index_written_ready:
  assumes "ready (device vol) t" "calm (device vol)" "volume_ok vol"
    and "prt = ltfs_dp_id vol \<or> prt = ltfs_ip_id vol"
  shows "\<exists>c d m dev'. index_written prt gi vol =
      (if prt = ltfs_ip_id vol then vol\<lparr>ip_index_file_end := True\<rparr> else vol\<lparr>dp_index_file_end := True\<rparr>)
      \<lparr>ip_coh := c, dp_coh := d, mam_attr := m, device := dev', index := settle_index gi (index vol)\<rparr> \<and>
    length (uuid c) = 37 \<and> length (uuid d) = 37 \<and> ready dev' t \<and> calm dev' \<and>
    same_flags (device vol) dev' \<and>
    append_pos dev' = (if prt = ltfs_ip_id vol
      then (append_pos (device vol))(ltfs_part_id2num prt vol := off_block (selfptr (index vol)) - 1)
      else append_pos (device vol))"
proof -
  let ?v1 = "if prt = ltfs_ip_id vol then vol\<lparr>ip_index_file_end := True\<rparr> else vol\<lparr>dp_index_file_end := True\<rparr>"
  let ?p = "ltfs_part_id2num prt vol"
  have v1: "ready (device ?v1) t" "volume_ok ?v1" using assms(1,3) by (simp_all add: volume_ok_def)
  obtain c d dev1 where 1: "ltfs_update_cart_coherency ?v1 = ?v1\<lparr>ip_coh := c, dp_coh := d, device := dev1\<rparr>"
    "length (uuid c) = 37" "length (uuid d) = 37" "ready dev1 t" "undisturbed (device ?v1) dev1"
    using update_coherency_ready [OF v1] by blast
  obtain r dev2 where 2: "tape_update_mam_attributes None TC_MAM_APP_FORMAT_VERSION None NOLOCK_MAM dev1 = (r, dev2)"
    "ready dev2 t" "undisturbed dev1 dev2" by (rule update_mam_ready [OF 1(4)])
  let ?ipn = "ltfs_part_id2num (partid_ip (label vol)) ?v1"
  obtain r3 m dev3 where 3: "tape_get_MAMattributes TC_MAM_APP_FORMAT_VERSION ?ipn (mam_attr ?v1) dev2 = (r3, m, dev3)"
    "ready dev3 t" "undisturbed dev2 dev3" using format_version_ready [OF 2(2)] by blast
  define m4 where "m4 = (if r = 0 then m else mam_attr vol)"
  define dev4 where "dev4 = (if r = 0 then dev3 else dev2)"
  have same: "device ?v1 = device vol" by simp
  have quiet2: "undisturbed (device vol) dev2" using undisturbed_trans [OF 1(5) 2(3)] by (simp only: same)
  have 4: "ready dev4 t" "undisturbed (device vol) dev4"
    using 2(2) 3(2) quiet2 undisturbed_trans [OF quiet2 3(3)] by (simp_all add: dev4_def)
  define dev5 where "dev5 = (if prt = ltfs_ip_id vol
      then dev4\<lparr>append_pos := (append_pos dev4)(?p := off_block (selfptr (index vol)) - 1)\<rparr> else dev4)"
  have p: "\<not> 1 < ?p" using volume_ok_partition(1) [OF assms(3,4)] by auto
  have "index_written prt gi vol =
      ?v1\<lparr>ip_coh := c, dp_coh := d, mam_attr := m4, device := dev5, index := settle_index gi (index vol)\<rparr>"
    using 1(1) 2(1) 3(1) p
    by (cases "prt = ltfs_ip_id vol"; cases "r = 0")
       (simp_all add: index_written_def Let_def on_device_def m4_def dev4_def dev5_def tape_set_append_position_def)
  moreover have "ready dev5 t" "calm dev5" "same_flags (device vol) dev5"
    "append_pos dev5 = (if prt = ltfs_ip_id vol
      then (append_pos (device vol))(?p := off_block (selfptr (index vol)) - 1)
      else append_pos (device vol))"
    using 4 assms(2) by (simp_all add: dev5_def undisturbed_def mounted_def calm_def same_flags_def)
  ultimately show ?thesis using 1(2,3) by blast
qed

end

text \<open>The index that is written on the tape when its filemark goes to block \<open>n\<close> of partition \<open>prt\<close>.\<close>

definition next_index :: "ltfs_timespec \<Rightarrow> char \<Rightarrow> nat \<Rightarrow> 'b ltfs_volume \<Rightarrow> ltfs_index" where
  "next_index now prt n vol =
     (let idx = index vol;
          idx = (if ltfs_is_dirty vol
                 then idx\<lparr>mod_time := now, generation := generation idx + 1\<rparr> else idx)
      in idx\<lparr>backptr := (if off_partition (selfptr idx) = ltfs_dp_id vol then selfptr idx else backptr idx),
             selfptr := \<lparr>off_block = of_nat n + 1, off_partition = prt\<rparr>\<rparr>)"

text \<open>The items of an index on the tape: its blocks between two filemarks.\<close>

definition index_file :: "u8 list list \<Rightarrow> tape_item list" where
  "index_file bs = Filemark # map Data bs @ [Filemark]"

lemma point_index_next:
  assumes "partition pos = ltfs_part_id2num prt vol" "block pos = of_nat n"
    and "part_num2id (label vol) (ltfs_part_id2num prt vol) = prt"
  shows "point_index pos (new_generation now vol\<lparr>device := dev\<rparr>) =
    vol\<lparr>device := dev, index := next_index now prt n vol\<rparr>"
  using assms by (simp add: point_index_def new_generation_def next_index_def Let_def ltfs_dp_id_def)

context volume_drive
begin

text \<open>The index file at block \<open>n\<close>: filemark, document, filemark, flush.\<close>

lemma index_file_ready:
  fixes vol :: "'a ltfs_volume"
  defines "bsize \<equiv> unat (lbl_blocksize (label vol))"
  assumes "ready (device vol) (img_at p n t)" "calm (device vol)" "writable (device vol) p"
    and "n \<le> length (items t p)" "pieces = document (creator vol @ '' - '' @ reason) (index vol)"
    and "0 < bsize" "bsize \<le> block_limit t" "bsize \<le> unat (dev_max_block_size (device vol))" "bsize < 2 ^ 31"
    and "\<forall>piece \<in> set pieces. length piece < 2 ^ 31"
    and "has_room t p (n + length (concat pieces) div bsize + 3)"
    and "n + length (concat pieces) div bsize + 3 < 2 ^ 64 - 1"
  obtains bs dev1 dev2 dev3 dev4 where
    "tape_write_filemark 1 True True (device vol) = (0, dev1)"
    "xml_schema_to_tape document True reason (vol\<lparr>device := dev1\<rparr>) =
       Some (0, vol\<lparr>device := dev2, index := (index vol)\<lparr>idx_creator := Some (creator vol)\<rparr>\<rparr>)"
    "tape_write_filemark 1 True True dev2 = (0, dev3)" "tape_write_filemark 0 True True dev3 = (0, dev4)"
    "full_blocks bsize bs" "concat bs = concat pieces" "length bs \<le> Suc (length (concat pieces) div bsize)"
    "ready dev4 (t\<lparr>items := (items t)(p := take n (items t p) @ index_file bs), head_part := p,
                   head_block := n + length bs + 2\<rparr>)"
    "calm dev4" "same_elsewhere p (device vol) dev4" "append_pos dev4 p = of_nat (n + length bs + 2)"
proof -
  note a = assms(2-)
  let ?dev = "device vol" and ?t0 = "img_at p n t"
  let ?L = "length (concat pieces) div bsize" and ?t1 = "img_append Filemark ?t0"
  have room: "has_room t p k" if "k \<le> n + ?L + 3" for k by (rule has_room_mono [OF that a(11)])
  obtain dev1 where 1: "tape_write_filemark 1 True True ?dev = (0, dev1)" "ready dev1 ?t1" "calm dev1"
    "same_flags ?dev dev1" "append_pos dev1 = (append_pos ?dev)(p := of_nat (n + 1))"
    by (rule write_filemark_ready [OF a(1,2), of 1 True True])
       (use a(3,12) room [of "n + 1"] in \<open>simp_all add: has_room_def\<close>)
  have w1: "writable dev1 p" "dev_max_block_size dev1 = dev_max_block_size ?dev"
    using a(3) same_flags_writable [OF 1(4)] 1(4) by (simp_all add: same_flags_def)
  let ?ctx = "\<lparr>out_size = lbl_blocksize (label vol), out_buf = [],
    out_index_part = (ltfs_part_id2num (ltfs_ip_id vol) vol = partition (position dev1))\<rparr>"
  have t1: "head_part ?t1 = p" "head_block ?t1 = Suc n" "block_limit ?t1 = block_limit t"
    "has_room ?t1 p k = has_room t p k" "items ?t1 = (items t)(p := take n (items t p) @ [Filemark])" for k
    by (simp_all add: img_append_def has_room_def)
  have "\<exists>bs ctx' dev2 dev3. write_pieces pieces ?ctx dev1 = Some (True, ctx', dev2) \<and>
    xml_output_tape_close_callback ctx' dev2 = (0, dev3) \<and>
    full_blocks (unat (out_size ?ctx)) bs \<and> concat bs = concat pieces \<and>
    length bs \<le> Suc (length (concat pieces) div unat (out_size ?ctx)) \<and>
    ready dev3 (img_blocks bs ?t1) \<and> calm dev3 \<and> same_elsewhere (head_part ?t1) dev1 dev3"
    by (rule write_document_ready [OF 1(2,3)])
       (use w1 t1 a(6-10,12) room [of "n + ?L + 2"] in \<open>simp_all add: bsize_def\<close>)
  then obtain bs ctx' dev2 dev3 where 2: "write_pieces pieces ?ctx dev1 = Some (True, ctx', dev2)"
    "xml_output_tape_close_callback ctx' dev2 = (0, dev3)" "full_blocks bsize bs" "concat bs = concat pieces"
    "length bs \<le> Suc ?L" "ready dev3 (img_blocks bs ?t1)" "calm dev3" "same_elsewhere p dev1 dev3"
    using t1(1) by (auto simp: bsize_def)
  have doc: "xml_schema_to_tape document True reason (vol\<lparr>device := dev1\<rparr>) =
      Some (0, vol\<lparr>device := dev3, index := (index vol)\<lparr>idx_creator := Some (creator vol)\<rparr>\<rparr>)"
    using 2(1,2) a(5) by (simp add: xml_schema_to_tape_def Let_def)
  have w3: "writable dev3 p" using w1(1) same_flags_writable [OF same_elsewhere_flags [OF 2(8)]] by simp
  let ?t3 = "img_append Filemark (img_blocks bs ?t1)"
  obtain dev4 where 4: "tape_write_filemark 1 True True dev3 = (0, dev4)" "ready dev4 ?t3" "calm dev4"
    "same_flags dev3 dev4" "append_pos dev4 = (append_pos dev3)(p := of_nat (n + length bs + 2))"
    by (rule write_filemark_ready [OF 2(6,7), of 1 True True])
       (use w3 t1 room [of "n + length bs + 2"] 2(5) a(12) in simp_all)
  have w4: "writable dev4 p" using w3 same_flags_writable [OF 4(4)] by simp
  have t3: "head_part ?t3 = p" "head_block ?t3 = n + length bs + 2" using t1 by (simp_all add: img_append_def)
  obtain dev5 where 5: "tape_write_filemark 0 True True dev4 = (0, dev5)" "ready dev5 ?t3" "calm dev5"
    "same_flags dev4 dev5" "append_pos dev5 = (append_pos dev4)(p := of_nat (n + length bs + 2))"
    by (rule flush_ready [OF 4(2,3), of True True]) (use w4 t3 in simp_all)
  have blocks: "items (img_blocks bs ?t1) q =
      (if q = p then take n (items t p) @ Filemark # map Data bs else items t q)" for q
    using img_blocks_items [of ?t1 bs q] t1 a(4) by auto
  have img: "?t3 = t\<lparr>items := (items t)(p := take n (items t p) @ index_file bs), head_part := p,
      head_block := n + length bs + 2\<rparr>"
    by (rule tape_image.equality)
       (use t3 t1 blocks a(4) in \<open>simp_all add: img_append_def [of _ "img_blocks bs ?t1"] fun_eq_iff index_file_def\<close>,
        simp_all add: img_append_def)
  have "same_elsewhere p ?dev dev5"
    using same_elsewhere_trans [OF same_elsewhere_trans [OF same_elsewhere_update [OF 1(4,5)] 2(8)]
        same_elsewhere_trans [OF same_elsewhere_update [OF 4(4,5)] same_elsewhere_update [OF 5(4,5)]]] .
  then show thesis using 1(1) doc 4(1) 5 2(3-5) img by (intro that [of dev1 dev3 dev4 dev5 bs]) simp_all
qed

lemma write_index_here_ready:
  fixes vol :: "'a ltfs_volume"
  defines "dev \<equiv> device vol" and "bsize \<equiv> unat (lbl_blocksize (label vol))"
  assumes "ready dev t" "calm dev" "volume_ok vol"
    and "prt = ltfs_dp_id vol \<or> prt = ltfs_ip_id vol" "p = ltfs_part_id2num prt vol" "writable dev p"
    and "n = (if append_pos dev p = 0 then length (items t p) else unat (append_pos dev p))"
    and "n \<le> length (items t p)"
    and "pieces = document (creator vol @ '' - '' @ reason) (next_index now prt n vol)"
    and "0 < bsize" "bsize \<le> block_limit t" "bsize \<le> unat (dev_max_block_size dev)" "bsize < 2 ^ 31"
    and "\<forall>piece \<in> set pieces. length piece < 2 ^ 31"
    and "has_room t p (n + length (concat pieces) div bsize + 3)"
    and "n + length (concat pieces) div bsize + 3 < 2 ^ 64 - 1"
  shows "\<exists>bs c d m dev'. write_index_here document True now prt reason vol =
      Some (0, (if prt = ltfs_ip_id vol then vol\<lparr>ip_index_file_end := True\<rparr> else vol\<lparr>dp_index_file_end := True\<rparr>)
        \<lparr>ip_coh := c, dp_coh := d, mam_attr := m, device := dev',
         index := settle_index (ltfs_is_dirty vol) ((next_index now prt n vol)\<lparr>idx_creator := Some (creator vol)\<rparr>)\<rparr>) \<and>
    length (uuid c) = 37 \<and> length (uuid d) = 37 \<and>
    full_blocks bsize bs \<and> concat bs = concat pieces \<and> length bs \<le> Suc (length (concat pieces) div bsize) \<and>
    ready dev' (t\<lparr>items := (items t)(p := take n (items t p) @ index_file bs), head_part := p,
                  head_block := n + length bs + 2\<rparr>) \<and>
    calm dev' \<and> same_elsewhere p dev dev' \<and>
    append_pos dev' p = of_nat (if prt = ltfs_ip_id vol then n else n + length bs + 2)"
proof -
  note a = assms(3-)
  let ?u = "prt = partid_ip (label vol)" and ?gi = "ltfs_is_dirty vol"
  have pn: "p = 0 \<or> p = 1" "part_num2id (label vol) p = prt"
    using volume_ok_partition [OF a(3,4)] a(5) by simp_all
  have room: "has_room t p n" by (rule has_room_mono [OF _ a(15)]) simp
  obtain dev1 where 1: "tape_seek_append_position p ?u dev = (0, dev1)" "ready dev1 (img_at p n t)"
    "calm dev1" "same_flags dev dev1" "append_pos dev1 = (append_pos dev)(p := of_nat n)"
    by (rule seek_append_ready [OF a(1,2) pn(1) a(7,8) room, of ?u])
  define v2 where "v2 = vol\<lparr>device := dev1, index := next_index now prt n vol\<rparr>"
  have w1: "writable dev1 p" using a(6) same_flags_writable [OF 1(4)] by simp
  have pos1: "partition (position dev1) = p" "block (position dev1) = of_nat n"
    using ready_position [OF 1(2)] by simp_all
  have v2: "point_index (position dev1) (new_generation now vol\<lparr>device := dev1\<rparr>) = v2"
    unfolding v2_def using pos1 pn(2) a(5) by (intro point_index_next) simp_all
  have id2: "ltfs_part_id2num q v2 = ltfs_part_id2num q vol" "ltfs_ip_id v2 = ltfs_ip_id vol"
    "ltfs_dp_id v2 = ltfs_dp_id vol" "label v2 = label vol" "device v2 = dev1"
    "ip_index_file_end v2 = ip_index_file_end vol" "creator v2 = creator vol"
    "index v2 = next_index now prt n vol" for q
    by (simp_all add: v2_def)
  have "\<exists>dev2. (if prt = ltfs_ip_id vol \<and> \<not> ip_index_file_end vol
      then on_device (tape_write_filemark 0 True True) v2 else (0, v2)) = (0, v2\<lparr>device := dev2\<rparr>) \<and>
    ready dev2 (img_at p n t) \<and> calm dev2 \<and> same_elsewhere p dev1 dev2"
  proof (cases "prt = ltfs_ip_id vol \<and> \<not> ip_index_file_end vol")
    case True
    obtain dev2 where "tape_write_filemark 0 True True dev1 = (0, dev2)" "ready dev2 (img_at p n t)"
      "calm dev2" "same_flags dev1 dev2" "append_pos dev2 = (append_pos dev1)(p := of_nat n)"
      by (rule flush_ready [OF 1(2,3), of True True]) (use w1 in simp_all)
    then show ?thesis using True id2(5)
      by (intro exI [of _ dev2]) (simp add: on_device_def same_elsewhere_update)
  next
    case False
    then show ?thesis using 1(2,3) id2(5)
      by (intro exI [of _ dev1]) (auto simp: v2_def)
  qed
  then obtain dev2 where 2: "(if prt = ltfs_ip_id vol \<and> \<not> ip_index_file_end vol
      then on_device (tape_write_filemark 0 True True) v2 else (0, v2)) = (0, v2\<lparr>device := dev2\<rparr>)"
    "ready dev2 (img_at p n t)" "calm dev2" "same_elsewhere p dev1 dev2" by blast
  have same2: "same_elsewhere p dev dev2"
    by (rule same_elsewhere_trans [OF same_elsewhere_update [OF 1(4,5)] 2(4)])
  have w2: "writable dev2 p" "dev_max_block_size dev2 = dev_max_block_size dev"
    using a(6) same_flags_writable [OF same_elsewhere_flags [OF same2]] same2
    by (simp_all add: same_elsewhere_def same_flags_def)
  let ?idx = "(next_index now prt n vol)\<lparr>idx_creator := Some (creator vol)\<rparr>"
  let ?t = "\<lambda>bs. t\<lparr>items := (items t)(p := take n (items t p) @ index_file bs), head_part := p,
      head_block := n + length bs + 2\<rparr>"
  obtain bs dev3 dev5 dev6 dev7 where 3: "tape_write_filemark 1 True True dev2 = (0, dev3)"
    "xml_schema_to_tape document True reason (v2\<lparr>device := dev3\<rparr>) = Some (0, v2\<lparr>device := dev5, index := ?idx\<rparr>)"
    "tape_write_filemark 1 True True dev5 = (0, dev6)" "tape_write_filemark 0 True True dev6 = (0, dev7)"
    "full_blocks bsize bs" "concat bs = concat pieces" "length bs \<le> Suc (length (concat pieces) div bsize)"
    "ready dev7 (?t bs)" "calm dev7" "same_elsewhere p dev2 dev7" "append_pos dev7 p = of_nat (n + length bs + 2)"
    by (rule index_file_ready [where vol = "v2\<lparr>device := dev2\<rparr>" and p = p and n = n and t = t and pieces = pieces
        and document = document and reason = reason])
       (use 2(2,3) w2 id2 a(8-16) in \<open>simp_all add: bsize_def v2_def\<close>)
  let ?v8 = "v2\<lparr>device := dev7, index := ?idx\<rparr>"
  have g: "label (new_generation now vol) = label vol"
    "ltfs_part_id2num prt (new_generation now vol) = p" "device (new_generation now vol) = dev"
    "device (new_generation now vol\<lparr>device := dev1\<rparr>) = dev1" "tape_get_position dev1 = (0, position dev1)"
    using a(5) by (simp_all add: new_generation_def dev_def tape_get_position_def)
  have s: "on_device (tape_seek_append_position p ?u) (new_generation now vol) =
      (0, new_generation now vol\<lparr>device := dev1\<rparr>)"
    "on_device (tape_write_filemark 1 True True) (v2\<lparr>device := dev2\<rparr>) = (0, v2\<lparr>device := dev3\<rparr>)"
    "on_device (tape_write_filemark 1 True True) (v2\<lparr>device := dev5, index := ?idx\<rparr>) =
      (0, v2\<lparr>device := dev6, index := ?idx\<rparr>)"
    "on_device (tape_write_filemark 0 True True) (v2\<lparr>device := dev6, index := ?idx\<rparr>) = (0, ?v8)"
    using 1(1) g(3) 3(1,3,4) by (simp_all add: on_device_def)
  have run: "write_index_here document True now prt reason vol = Some (0, index_written prt ?gi ?v8)"
    by (simp only: write_index_here_def Let_def g s prod.case v2 id2 2(1) 3(2) option.case
        less_irrefl if_False if_True refl simp_thms)
  have v8: "ready (device ?v8) (?t bs)" "calm (device ?v8)" "volume_ok ?v8"
    "prt = ltfs_dp_id ?v8 \<or> prt = ltfs_ip_id ?v8"
    using 3(8,9) a(3,4) by (simp_all add: v2_def volume_ok_def)
  obtain c d m dev8 where 8: "index_written prt ?gi ?v8 =
      (if prt = ltfs_ip_id ?v8 then ?v8\<lparr>ip_index_file_end := True\<rparr> else ?v8\<lparr>dp_index_file_end := True\<rparr>)
      \<lparr>ip_coh := c, dp_coh := d, mam_attr := m, device := dev8, index := settle_index ?gi (index ?v8)\<rparr>"
    "length (uuid c) = 37" "length (uuid d) = 37" "ready dev8 (?t bs)" "calm dev8"
    "same_flags (device ?v8) dev8" "append_pos dev8 = (if prt = ltfs_ip_id ?v8
      then (append_pos (device ?v8))(ltfs_part_id2num prt ?v8 := off_block (selfptr (index ?v8)) - 1)
      else append_pos (device ?v8))"
    using index_written_ready [OF v8, of ?gi] by blast
  have "same_elsewhere p dev7 dev8"
    using 8(6,7) a(5) by (simp add: same_elsewhere_def v2_def)
  then have same8: "same_elsewhere p dev dev8"
    by (rule same_elsewhere_trans [OF same_elsewhere_trans [OF same2 3(10)]])
  have app: "append_pos dev8 p = of_nat (if prt = ltfs_ip_id vol then n else n + length bs + 2)"
    using 8(7) 3(11) a(5) by (simp add: v2_def next_index_def Let_def)
  have fin: "index_written prt ?gi ?v8 =
      (if prt = ltfs_ip_id vol then vol\<lparr>ip_index_file_end := True\<rparr> else vol\<lparr>dp_index_file_end := True\<rparr>)
      \<lparr>ip_coh := c, dp_coh := d, mam_attr := m, device := dev8, index := settle_index ?gi ?idx\<rparr>"
    using 8(1) by (cases "prt = ltfs_ip_id vol") (simp_all add: v2_def)
  show ?thesis
    using run fin 8(2-5) 3(5-7) same8 app
    by (intro exI [of _ bs] exI [of _ c] exI [of _ d] exI [of _ m] exI [of _ dev8]) simp
qed

end

section \<open>The whole operation\<close>

lemma settle_index_fields [simp]:
  "generation (settle_index gi idx) = generation idx" "mod_time (settle_index gi idx) = mod_time idx"
  "selfptr (settle_index gi idx) = selfptr idx" "backptr (settle_index gi idx) = backptr idx"
  "idx_creator (settle_index gi idx) = idx_creator idx"
  by (simp_all add: settle_index_def Let_def)

lemma settle_index_clean [simp]:
  "idx_dirty (idx_flags (settle_index gi idx)) = False" "atime_dirty (idx_flags (settle_index gi idx)) = False"
  by (simp_all add: settle_index_def ltfs_unset_index_dirty_def Let_def)

lemma next_index_fields [simp]:
  "selfptr (next_index now prt n vol) = \<lparr>off_block = of_nat n + 1, off_partition = prt\<rparr>"
  "generation (next_index now prt n vol) = (if ltfs_is_dirty vol then generation (index vol) + 1 else generation (index vol))"
  "backptr (next_index now prt n vol) =
     (if off_partition (selfptr (index vol)) = ltfs_dp_id vol then selfptr (index vol) else backptr (index vol))"
  "mod_time (next_index now prt n vol) = (if ltfs_is_dirty vol then now else mod_time (index vol))"
  by (simp_all add: next_index_def Let_def)

lemma next_index_settled:
  assumes "\<not> idx_dirty (idx_flags idx)" "\<not> atime_dirty (idx_flags idx)"
    and "off_partition (selfptr idx) = partid_dp (label vol)" "index vol = idx"
  shows "next_index now prt n vol =
    idx\<lparr>backptr := selfptr idx, selfptr := \<lparr>off_block = of_nat n + 1, off_partition = prt\<rparr>\<rparr>"
  using assms by (simp add: next_index_def ltfs_is_dirty_def ltfs_dp_id_def Let_def)

lemma index_writable_ok:
  assumes "writable (device vol) (ltfs_part_id2num (ltfs_dp_id vol) vol)"
    and "writable (device vol) (ltfs_part_id2num (ltfs_ip_id vol) vol)"
  shows "index_writable vol = 0"
  using assms by (simp add: index_writable_def ltfs_get_partition_readonly_def writable_def)

context volume_drive
begin

text \<open>An index on both partitions: first on the data partition, then on the index partition.\<close>

lemma write_both_ready:
  fixes vol :: "'a ltfs_volume"
  defines "dev \<equiv> device vol" and "bsize \<equiv> unat (lbl_blocksize (label vol))"
    and "dp \<equiv> ltfs_dp_id vol" and "ip \<equiv> ltfs_ip_id vol"
  assumes "ready dev t" "calm dev" "volume_ok vol" "dp_index_needed vol"
    and "pd = ltfs_part_id2num dp vol" "pi = ltfs_part_id2num ip vol" "writable dev pd" "writable dev pi"
    and "nd = (if append_pos dev pd = 0 then length (items t pd) else unat (append_pos dev pd))"
    and "ni = (if append_pos dev pi = 0 then length (items t pi) else unat (append_pos dev pi))"
    and "nd \<le> length (items t pd)" "ni \<le> length (items t pi)"
    and "idx1 = (next_index now dp nd vol)\<lparr>idx_creator := Some (creator vol)\<rparr>"
    and "idx2 = (settle_index (ltfs_is_dirty vol) idx1)\<lparr>backptr := selfptr idx1,
           selfptr := \<lparr>off_block = of_nat ni + 1, off_partition = ip\<rparr>\<rparr>"
    and "pieces1 = document (creator vol @ '' - '' @ reason) (next_index now dp nd vol)"
    and "pieces2 = document (creator vol @ '' - '' @ reason) idx2"
    and "0 < bsize" "bsize \<le> block_limit t" "bsize \<le> unat (dev_max_block_size dev)" "bsize < 2 ^ 31"
    and "\<forall>piece \<in> set pieces1 \<union> set pieces2. length piece < 2 ^ 31"
    and "has_room t pd (nd + length (concat pieces1) div bsize + 3)"
    and "has_room t pi (ni + length (concat pieces2) div bsize + 3)"
    and "nd + length (concat pieces1) div bsize + 3 < 2 ^ 64 - 1"
    and "ni + length (concat pieces2) div bsize + 3 < 2 ^ 64 - 1"
  shows "\<exists>bs1 bs2 vol'. ltfs_write_index document True now ip reason vol = Some (0, vol') \<and>
    full_blocks bsize bs1 \<and> concat bs1 = concat pieces1 \<and> full_blocks bsize bs2 \<and> concat bs2 = concat pieces2 \<and>
    ready (device vol') (t\<lparr>items := (items t)(pd := take nd (items t pd) @ index_file bs1,
        pi := take ni (items t pi) @ index_file bs2), head_part := pi, head_block := ni + length bs2 + 2\<rparr>) \<and>
    calm (device vol') \<and> same_flags dev (device vol') \<and>
    append_pos (device vol') pd = of_nat (nd + length bs1 + 2) \<and> append_pos (device vol') pi = of_nat ni \<and>
    index vol' = settle_index False (idx2\<lparr>idx_creator := Some (creator vol)\<rparr>) \<and>
    dp_index_file_end vol' \<and> ip_index_file_end vol' \<and> volume_ok vol' \<and> label vol' = label vol"
proof -
  note a = assms(5-)
  have diff: "pd \<noteq> pi" "dp \<noteq> ip"
    using volume_ok_different [OF a(3)] a(3,5,6) by (auto simp: dp_def ip_def volume_ok_def ltfs_dp_id_def ltfs_ip_id_def)
  have w: "index_writable vol = 0"
    by (rule index_writable_ok) (use a(5-8) in \<open>simp_all add: dp_def ip_def dev_def\<close>)
  let ?gi = "ltfs_is_dirty vol"
  obtain bs1 c d m dev1 where 1: "write_index_here document True now dp reason vol =
      Some (0, (if dp = ltfs_ip_id vol then vol\<lparr>ip_index_file_end := True\<rparr> else vol\<lparr>dp_index_file_end := True\<rparr>)
        \<lparr>ip_coh := c, dp_coh := d, mam_attr := m, device := dev1, index := settle_index ?gi idx1\<rparr>)"
    "length (uuid c) = 37" "length (uuid d) = 37" "full_blocks bsize bs1" "concat bs1 = concat pieces1"
    "ready dev1 (t\<lparr>items := (items t)(pd := take nd (items t pd) @ index_file bs1), head_part := pd,
                   head_block := nd + length bs1 + 2\<rparr>)"
    "calm dev1" "same_elsewhere pd dev dev1"
    "append_pos dev1 pd = of_nat (if dp = ltfs_ip_id vol then nd else nd + length bs1 + 2)"
    using write_index_here_ready [of vol t dp pd nd pieces1 document reason now] a
    unfolding dev_def bsize_def dp_def by auto
  define vol1 where "vol1 = vol\<lparr>dp_index_file_end := True, ip_coh := c, dp_coh := d, mam_attr := m,
    device := dev1, index := settle_index ?gi idx1\<rparr>"
  let ?t1 = "t\<lparr>items := (items t)(pd := take nd (items t pd) @ index_file bs1), head_part := pd,
    head_block := nd + length bs1 + 2\<rparr>"
  have first: "ltfs_write_index document True now dp reason vol = Some (0, vol1)"
    using 1(1) diff(2) w by (simp add: ltfs_write_index_direct Let_def vol1_def ip_def)
  have same1: "append_pos dev1 pi = append_pos dev pi" "same_flags dev dev1"
    using 1(8) diff(1) by (simp_all add: same_elsewhere_def)
  have ok1: "volume_ok vol1" using a(3) 1(2,3) by (simp add: vol1_def volume_ok_def)
  have w1: "writable dev1 pi" "dev_max_block_size dev1 = dev_max_block_size dev"
    using a(8) same_flags_writable [OF same1(2)] same1(2) by (simp_all add: same_flags_def)
  have idx: "next_index now ip ni vol1 = idx2"
    using a(13,14) by (subst next_index_settled [where idx = "settle_index ?gi idx1"])
      (simp_all add: vol1_def dp_def ltfs_dp_id_def)
  have v1: "ltfs_ip_id vol1 = ip" "ltfs_dp_id vol1 = dp" "device vol1 = dev1" "label vol1 = label vol"
    "creator vol1 = creator vol" "ltfs_part_id2num ip vol1 = pi" "\<not> ltfs_is_dirty vol1"
    using a(6) by (simp_all add: vol1_def ip_def dp_def ltfs_is_dirty_def)
  have second: "\<exists>bs c d m dev'. write_index_here document True now ip reason vol1 =
      Some (0, (if ip = ltfs_ip_id vol1 then vol1\<lparr>ip_index_file_end := True\<rparr> else vol1\<lparr>dp_index_file_end := True\<rparr>)
        \<lparr>ip_coh := c, dp_coh := d, mam_attr := m, device := dev',
         index := settle_index (ltfs_is_dirty vol1) ((next_index now ip ni vol1)\<lparr>idx_creator := Some (creator vol1)\<rparr>)\<rparr>) \<and>
    length (uuid c) = 37 \<and> length (uuid d) = 37 \<and>
    full_blocks (unat (lbl_blocksize (label vol1))) bs \<and> concat bs = concat pieces2 \<and>
    length bs \<le> Suc (length (concat pieces2) div unat (lbl_blocksize (label vol1))) \<and>
    ready dev' (?t1\<lparr>items := (items ?t1)(pi := take ni (items ?t1 pi) @ index_file bs), head_part := pi,
                  head_block := ni + length bs + 2\<rparr>) \<and>
    calm dev' \<and> same_elsewhere pi (device vol1) dev' \<and>
    append_pos dev' pi = of_nat (if ip = ltfs_ip_id vol1 then ni else ni + length bs + 2)"
  proof (rule write_index_here_ready)
    show "ready (device vol1) ?t1" "calm (device vol1)" "volume_ok vol1" "writable (device vol1) pi"
      using 1(6,7) ok1 v1(3) w1(1) by simp_all
    show "ip = ltfs_dp_id vol1 \<or> ip = ltfs_ip_id vol1" "pi = ltfs_part_id2num ip vol1" using v1 by simp_all
    show "ni = (if append_pos (device vol1) pi = 0 then length (items ?t1 pi) else unat (append_pos (device vol1) pi))"
      "ni \<le> length (items ?t1 pi)"
      using a(10,12) v1(3) same1(1) diff(1) by simp_all
    show "pieces2 = document (creator vol1 @ '' - '' @ reason) (next_index now ip ni vol1)"
      using a(16) v1(5) idx by simp
  qed (use a(17-) v1 w1(2) in \<open>simp_all add: bsize_def has_room_def\<close>)
  obtain bs2 c2 d2 m2 dev2 where 2: "write_index_here document True now ip reason vol1 =
      Some (0, (if ip = ltfs_ip_id vol1 then vol1\<lparr>ip_index_file_end := True\<rparr> else vol1\<lparr>dp_index_file_end := True\<rparr>)
        \<lparr>ip_coh := c2, dp_coh := d2, mam_attr := m2, device := dev2,
         index := settle_index (ltfs_is_dirty vol1) ((next_index now ip ni vol1)\<lparr>idx_creator := Some (creator vol1)\<rparr>)\<rparr>)"
    "length (uuid c2) = 37" "length (uuid d2) = 37" "full_blocks bsize bs2" "concat bs2 = concat pieces2"
    "ready dev2 (?t1\<lparr>items := (items ?t1)(pi := take ni (items ?t1 pi) @ index_file bs2), head_part := pi,
                     head_block := ni + length bs2 + 2\<rparr>)"
    "calm dev2" "same_elsewhere pi dev1 dev2" "append_pos dev2 pi = of_nat (if ip = ltfs_ip_id vol1 then ni else ni + length bs2 + 2)"
    using second unfolding v1(3,4) bsize_def by blast
  let ?vol2 = "vol1\<lparr>ip_index_file_end := True, ip_coh := c2, dp_coh := d2, mam_attr := m2, device := dev2,
    index := settle_index False (idx2\<lparr>idx_creator := Some (creator vol)\<rparr>)\<rparr>"
  have "ltfs_write_index document True now ip reason vol = Some (0, ?vol2)"
    using w a(4) first 2(1) v1 idx
    by (subst ltfs_write_index.simps) (simp add: Let_def ip_def dp_def NEED_REVAL_def IS_UNEXPECTED_MOVE_def)
  moreover have "same_flags dev dev2" using same_flags_trans [OF same1(2) same_elsewhere_flags [OF 2(8)]] .
  moreover have "append_pos dev2 pd = of_nat (nd + length bs1 + 2)"
    using 2(8) 1(9) diff by (simp add: same_elsewhere_def ip_def)
  moreover have "ready dev2 (t\<lparr>items := (items t)(pd := take nd (items t pd) @ index_file bs1,
        pi := take ni (items t pi) @ index_file bs2), head_part := pi, head_block := ni + length bs2 + 2\<rparr>)"
    using 2(6) diff(1) by simp
  moreover have "volume_ok ?vol2" using ok1 2(2,3) by (simp add: volume_ok_def)
  ultimately show ?thesis
    using 1(4,5) 2(4,5,7,9) v1(1)
    by (intro exI [of _ bs1] exI [of _ bs2] exI [of _ ?vol2]) (simp add: vol1_def)
qed

end
end
