(* ===== verification/FsRawSpec.thy ===== *)
theory FsRawSpec imports FsRaw IndexSpec begin

text \<open>
  What reading a file gives: the bytes its extent list points to on the tapes, zeros in the holes,
  and nothing past its size. The lemmas follow the loops of \<open>ltfs_fsraw_read\<close>.
\<close>

lemma upt_join: "i \<le> j \<Longrightarrow> j \<le> k \<Longrightarrow> [i..<j] @ [j..<k] = [i..<k]"
  using upt_add_eq_append [of i j "k - j"] by simp

section \<open>The bytes of a file\<close>

text \<open>The byte at an address of a partition, and the byte at an offset of a file.\<close>

definition tape_byte :: "'b ltfs_volume \<Rightarrow> tape_image \<Rightarrow> char \<Rightarrow> nat \<Rightarrow> u8" where
  "tape_byte vol t letter addr =
     (case items t (ltfs_part_id2num letter vol) ! (addr div unat (lbl_blocksize (label vol))) of
        Data d \<Rightarrow> d ! (addr mod unat (lbl_blocksize (label vol))) | Filemark \<Rightarrow> 0)"

definition file_byte :: "'b ltfs_volume \<Rightarrow> tape_image \<Rightarrow> extent_info list \<Rightarrow> nat \<Rightarrow> u8" where
  "file_byte vol t es x =
     (case file_map (ucast (lbl_blocksize (label vol))) es x of
        Some (letter, addr) \<Rightarrow> tape_byte vol t letter addr | None \<Rightarrow> 0)"

text \<open>The blocks of an extent are on the tape.\<close>

definition extent_stored :: "'b ltfs_volume \<Rightarrow> tape_image \<Rightarrow> extent_info \<Rightarrow> bool" where
  "extent_stored vol t e \<longleftrightarrow> 0 < ext_len e \<longrightarrow>
     (start_partition e = ltfs_dp_id vol \<or> start_partition e = ltfs_ip_id vol) \<and>
     (let n = unat (lbl_blocksize (label vol)); total = unat (byteoffset e) + ext_len e;
          xs = items t (ltfs_part_id2num (start_partition e) vol)
      in \<forall>k < Suc (total div n). k * n < total \<longrightarrow>
           unat (start_block e) + k < length xs \<and>
           (case xs ! (unat (start_block e) + k) of
              Data d \<Rightarrow> min n (total - k * n) \<le> length d \<and> length d \<le> n | Filemark \<Rightarrow> False))"

lemma extent_stored_block:
  assumes "extent_stored vol t e" "0 < ext_len e" "0 < unat (lbl_blocksize (label vol))"
    and "k * unat (lbl_blocksize (label vol)) < unat (byteoffset e) + ext_len e"
  obtains d where "unat (start_block e) + k < length (items t (ltfs_part_id2num (start_partition e) vol))"
    "items t (ltfs_part_id2num (start_partition e) vol) ! (unat (start_block e) + k) = Data d"
    "min (unat (lbl_blocksize (label vol))) (unat (byteoffset e) + ext_len e - k * unat (lbl_blocksize (label vol))) \<le> length d"
    "length d \<le> unat (lbl_blocksize (label vol))"
proof -
  let ?n = "unat (lbl_blocksize (label vol))" and ?total = "unat (byteoffset e) + ext_len e"
  have "k < Suc (?total div ?n)"
    using assms(3,4) by (simp add: less_Suc_eq_le less_eq_div_iff_mult_less_eq)
  then have "unat (start_block e) + k < length (items t (ltfs_part_id2num (start_partition e) vol)) \<and>
    (case items t (ltfs_part_id2num (start_partition e) vol) ! (unat (start_block e) + k) of
       Data d \<Rightarrow> min ?n (?total - k * ?n) \<le> length d \<and> length d \<le> ?n | Filemark \<Rightarrow> False)"
    using assms(1,2,4) by (simp add: extent_stored_def Let_def)
  then show thesis using that by (auto split: tape_item.splits)
qed

text \<open>The same for a file, byte by byte: every address of its map holds a byte.\<close>

definition byte_stored :: "'b ltfs_volume \<Rightarrow> tape_image \<Rightarrow> char \<Rightarrow> nat \<Rightarrow> bool" where
  "byte_stored vol t letter addr \<longleftrightarrow>
     (letter = ltfs_dp_id vol \<or> letter = ltfs_ip_id vol) \<and>
     (let n = unat (lbl_blocksize (label vol)); xs = items t (ltfs_part_id2num letter vol)
      in addr div n < length xs \<and>
         (case xs ! (addr div n) of Data d \<Rightarrow> addr mod n < length d \<and> length d \<le> n | Filemark \<Rightarrow> False))"

definition file_stored :: "'b ltfs_volume \<Rightarrow> tape_image \<Rightarrow> extent_info list \<Rightarrow> bool" where
  "file_stored vol t es \<longleftrightarrow>
     (\<forall>x letter addr. file_map (ucast (lbl_blocksize (label vol))) es x = Some (letter, addr) \<longrightarrow>
        byte_stored vol t letter addr)"

lemma file_map_member:
  "exts_wf bs es \<Longrightarrow> e \<in> set es \<Longrightarrow> ext_lo e \<le> y \<Longrightarrow> y < ext_hi e \<Longrightarrow> file_map bs es y = ext_map bs e y"
proof (induction es)
  case (Cons x es)
  show ?case
  proof (cases "e = x")
    case True
    have "file_map bs es y = None"
      using Cons.prems True by (intro file_map_None) (auto simp: exts_wf_Cons)
    then show ?thesis using True by (simp add: map_add_def)
  next
    case False
    then have "file_map bs es y = ext_map bs e y" using Cons by (simp add: exts_wf_Cons)
    then show ?thesis using Cons.prems(3,4) by (simp add: map_add_def ext_map_def)
  qed
qed simp

lemma file_stored_extents:
  assumes "file_stored vol t es" "exts_wf (ucast (lbl_blocksize (label vol))) es" "e \<in> set es"
  shows "extent_stored vol t e"
proof -
  let ?n = "unat (lbl_blocksize (label vol))" and ?a = "unat (byteoffset e)"
  let ?xs = "items t (ltfs_part_id2num (start_partition e) vol)"
  have wf: "0 < ?n" "?a < ?n" using assms(2,3) by (auto simp: exts_wf_def ext_wf_def)
  have byte: "byte_stored vol t (start_partition e) (unat (start_block e) * ?n + r)"
    if "?a \<le> r" "r < ?a + ext_len e" for r
  proof -
    have "file_map (ucast (lbl_blocksize (label vol))) es (ext_lo e + (r - ?a)) =
        ext_map (ucast (lbl_blocksize (label vol))) e (ext_lo e + (r - ?a))"
      by (rule file_map_member [OF assms(2,3)]) (use that in \<open>simp_all add: ext_hi_def less_diff_conv2\<close>)
    also have "\<dots> = Some (start_partition e, unat (start_block e) * ?n + r)"
      using that by (simp add: ext_map_def ext_addr_def ext_hi_def less_diff_conv2)
    finally show ?thesis using assms(1) by (simp add: file_stored_def)
  qed
  show ?thesis unfolding extent_stored_def Let_def
  proof (intro impI conjI allI)
    assume len: "0 < ext_len e"
    then show "start_partition e = ltfs_dp_id vol \<or> start_partition e = ltfs_ip_id vol"
      using byte [of ?a] by (simp add: byte_stored_def)
    fix k assume k: "k * ?n < ?a + ext_len e"
    define r where "r = min (Suc k * ?n) (?a + ext_len e) - 1"
    have r: "?a \<le> r" "r < ?a + ext_len e" "k * ?n \<le> r" "r < Suc k * ?n"
      using k wf len by (auto simp: r_def min_def)
    have "unat (start_block e) * ?n + r = r - k * ?n + (unat (start_block e) + k) * ?n"
      using r(3) by (simp add: algebra_simps)
    moreover have "r - k * ?n < ?n" using r(3,4) by simp
    ultimately have "(unat (start_block e) * ?n + r) div ?n = unat (start_block e) + k"
      "(unat (start_block e) * ?n + r) mod ?n = r - k * ?n"
      by simp_all
    then have "unat (start_block e) + k < length ?xs \<and>
        (case ?xs ! (unat (start_block e) + k) of Data d \<Rightarrow> r - k * ?n < length d \<and> length d \<le> ?n | Filemark \<Rightarrow> False)"
      using byte [OF r(1,2)] by (simp add: byte_stored_def Let_def split: tape_item.splits)
    then show "unat (start_block e) + k < length ?xs"
      "case ?xs ! (unat (start_block e) + k) of
         Data d \<Rightarrow> min ?n (?a + ext_len e - k * ?n) \<le> length d \<and> length d \<le> ?n | Filemark \<Rightarrow> False"
      using r k by (auto simp: r_def min_def split: tape_item.splits if_splits)
  qed
qed

section \<open>Addresses within a block\<close>

text \<open>The arithmetic of one turn of the loop on machine words.\<close>

lemma block_words:
  fixes F next_off last_off lastbyte :: u64 and k x X bs :: nat
  assumes wf: "ext_wf (of_nat bs) e" and bs: "0 < bs" "bs < 2 ^ 32"
    and F: "F = fileoffset e - ucast (byteoffset e) + of_nat (k * bs)"
    and x: "unat next_off = x" "ext_lo e \<le> x" "x < ext_hi e"
    and k: "k * bs \<le> x - ext_lo e + unat (byteoffset e)" "x - ext_lo e + unat (byteoffset e) < Suc k * bs"
    and X: "unat last_off = X" "x < X"
  defines "L \<equiv> (if fileoffset_end e < F + of_nat bs then fileoffset_end e else F + of_nat bs)"
  defines "tp \<equiv> min (ext_hi e) (ext_lo e + Suc k * bs - unat (byteoffset e))"
  shows "unat L = tp" "unat (L - F) = min bs (unat (byteoffset e) + ext_len e - k * bs)"
    "unat ((if last_off < L then last_off else L) - next_off) = min X tp - x"
    "unat (next_off - F) = x - ext_lo e + unat (byteoffset e) - k * bs"
    "unat (next_off + ((if last_off < L then last_off else L) - next_off)) = min X tp"
    "F + of_nat bs = of_nat (ext_lo e + Suc k * bs - unat (byteoffset e))"
proof -
  let ?f = "ext_lo e" and ?a = "unat (byteoffset e)" and ?hi = "ext_hi e"
  have bsu: "unat (of_nat bs :: u64) = bs" using bs(2) by (simp add: unat_of_nat)
  have w: "?hi + bs \<le> 2 ^ 64" "?a < bs" using wf by (simp_all add: ext_wf_def bsu)
  have f: "fileoffset e = of_nat ?f" by (simp add: ext_lo_def)
  have a: "(ucast (byteoffset e) :: u64) = of_nat ?a" by simp
  have hi: "unat (fileoffset_end e) = ?hi" by (rule ext_hi_word [OF wf])
  have kb: "k * bs \<le> ext_len e + ?a" "k * bs < ext_len e + ?a"
    using k(1) x(2,3) by (simp_all add: ext_hi_def)
  have ring1: "p - q + r + s = p + (s + r) - q" for p q r s :: u64 by (simp add: algebra_simps)
  have ring2: "p - (f - q + r) = p + q - (f + r)" for f p q r :: u64 by (simp add: algebra_simps)
  have low: "?a \<le> ?f + Suc k * bs" using w(2) by simp
  show FL: "F + of_nat bs = of_nat (?f + Suc k * bs - ?a)"
    unfolding F f a mult_Suc of_nat_diff [OF low [unfolded mult_Suc]] of_nat_add by (rule ring1)
  have "?f + Suc k * bs - ?a < 2 ^ 64" using kb(2) w by (simp add: ext_hi_def)
  then have Fu: "unat (F + of_nat bs) = ?f + Suc k * bs - ?a"
    unfolding FL by (simp add: unat_of_nat)
  show L: "unat L = tp"
    using Fu hi by (auto simp: L_def tp_def word_less_nat_alt)
  have upx: "x < tp" using x(3) k(2) x(2) by (auto simp: tp_def)
  have up_low: "?f + k * bs \<le> tp + ?a"
    using kb(1) w(2) by (auto simp: tp_def ext_hi_def)
  have Lw: "L = of_nat tp" using L by (metis of_nat_unat ucast_id)
  have "L - F = of_nat (tp + ?a - (?f + k * bs))"
    unfolding Lw F f a of_nat_diff [OF up_low] of_nat_add by (rule ring2)
  moreover have size: "tp + ?a - (?f + k * bs) = min bs (?a + ext_len e - k * bs)"
    using w(2) kb by (auto simp: tp_def ext_hi_def min_def)
  moreover have "min bs (?a + ext_len e - k * bs) < 2 ^ 64" using bs(2) by simp
  ultimately show "unat (L - F) = min bs (?a + ext_len e - k * bs)" by (simp add: unat_of_nat)
  have m: "unat (if last_off < L then last_off else L) = min X tp"
    using L X(1) by (auto simp: word_less_nat_alt)
  have le: "next_off \<le> (if last_off < L then last_off else L)"
    using m x(1) X(2) upx by (simp add: word_le_nat_alt)
  show d: "unat ((if last_off < L then last_off else L) - next_off) = min X tp - x"
    using unat_sub_le [OF le] m x(1) by simp
  show "unat (next_off + ((if last_off < L then last_off else L) - next_off)) = min X tp"
    using m by simp
  have nx: "next_off = of_nat x" using x(1) by (metis of_nat_unat ucast_id)
  have sum: "x - ?f + ?a - k * bs = x + ?a - (?f + k * bs)" "?f + k * bs \<le> x + ?a"
    using k(1) x(2) by simp_all
  have "next_off - F = of_nat (x - ?f + ?a - k * bs)"
    unfolding sum(1) nx F f a of_nat_diff [OF sum(2)] of_nat_add by (rule ring2)
  moreover have "x - ?f + ?a - k * bs < 2 ^ 64" using k(2) bs(2) by simp
  ultimately show "unat (next_off - F) = x - ?f + ?a - k * bs" by (simp add: unat_of_nat)
qed

section \<open>The block cache\<close>

text \<open>
  The cached block is the one on the tape; \<open>unread\<close> says that a volume differs from another at most in
  the device and the cache.
\<close>

definition cache_valid :: "tape_image \<Rightarrow> 'b ltfs_volume \<Rightarrow> bool" where
  "cache_valid t vol \<longleftrightarrow>
     (let letter = off_partition (last_pos vol); n = unat (off_block (last_pos vol))
      in letter = ltfs_dp_id vol \<or> letter = ltfs_ip_id vol \<longrightarrow>
         n < length (items t (ltfs_part_id2num letter vol)) \<and>
         (case items t (ltfs_part_id2num letter vol) ! n of
            Data d \<Rightarrow> unat (last_size vol) = length d \<and> length d \<le> unat (lbl_blocksize (label vol)) \<and>
              (\<exists>c. last_block vol = Some c \<and> take (length d) c = d)
          | Filemark \<Rightarrow> False))"

lemma cache_valid_simps [simp]:
  "cache_valid t (vol\<lparr>device := dev\<rparr>) = cache_valid t vol"
  "cache_valid t (vol\<lparr>index := idx\<rparr>) = cache_valid t vol"
  "cache_valid (img_at q h t) vol = cache_valid t vol"
  by (simp_all add: cache_valid_def Let_def split: tape_item.splits)

definition cache_allocated :: "'b ltfs_volume \<Rightarrow> bool" where
  "cache_allocated vol \<longleftrightarrow> (\<exists>c. last_block vol = Some c \<and> length c = unat (lbl_blocksize (label vol)))"

definition unread :: "'b ltfs_volume \<Rightarrow> 'b ltfs_volume \<Rightarrow> bool" where
  "unread vol vol' \<longleftrightarrow>
     (\<exists>dev pos n cache. vol' = vol\<lparr>device := dev, last_pos := pos, last_size := n, last_block := cache\<rparr>)"

lemma unreadI: "unread vol (vol\<lparr>device := dev, last_pos := pos, last_size := n, last_block := cache\<rparr>)"
  unfolding unread_def by blast

lemma unread_refl [simp]: "unread vol vol"
  using unreadI [where vol = vol and dev = "device vol" and pos = "last_pos vol" and n = "last_size vol"
      and cache = "last_block vol"] by simp

lemma unread_trans: "unread a b \<Longrightarrow> unread b c \<Longrightarrow> unread a c"
  unfolding unread_def by fastforce

lemma unread_label: "unread vol vol' \<Longrightarrow> label vol' = label vol"
  by (auto simp: unread_def)

lemma unread_fields:
  assumes "unread vol vol'"
  shows "ltfs_part_id2num q vol' = ltfs_part_id2num q vol" "ltfs_dp_id vol' = ltfs_dp_id vol"
    "ltfs_ip_id vol' = ltfs_ip_id vol" "label vol' = label vol" "index vol' = index vol"
    "kmi_handle vol' = kmi_handle vol" "reval vol' = reval vol"
  using assms by (auto simp: unread_def)

lemma unread_volume_ok: "unread vol vol' \<Longrightarrow> volume_ok vol' = volume_ok vol"
  by (auto simp: unread_def volume_ok_def)

lemma unread_stored: "unread vol vol' \<Longrightarrow> extent_stored vol' t e = extent_stored vol t e"
  by (simp add: extent_stored_def unread_fields)

lemma unread_file_byte: "unread vol vol' \<Longrightarrow> file_byte vol' t es = file_byte vol t es"
  by (auto simp: file_byte_def tape_byte_def unread_fields fun_eq_iff split: option.splits tape_item.splits)

context volume_drive
begin

text \<open>The head is in front of block \<open>n\<close> of partition \<open>p\<close>, and the cache is in order.\<close>

definition positioned :: "tape_image \<Rightarrow> 'a ltfs_volume \<Rightarrow> u32 \<Rightarrow> nat \<Rightarrow> bool" where
  "positioned t vol p n \<longleftrightarrow>
     ready (device vol) (img_at p n t) \<and> calm (device vol) \<and> cache_allocated vol \<and> cache_valid t vol"

lemma load_block_ready:
  assumes bs: "bs = unat (lbl_blocksize (label vol))"
    and prt: "prt = ltfs_dp_id vol \<or> prt = ltfs_ip_id vol" "p = ltfs_part_id2num prt vol"
    and item: "n < length (items t p)" "items t p ! n = Data d" "unat blockbytes \<le> length d" "length d \<le> bs"
    and seekpos: "partition seekpos = p" "unat (block seekpos) = n"
    and head: "block_cached prt seekpos curpos vol \<and> positioned t vol p (Suc n) \<or>
      \<not> block_cached prt seekpos curpos vol \<and> positioned t vol p n"
  obtains curpos' vol' c where "load_block prt blockbytes seekpos curpos vol = (0, curpos', vol')"
    "positioned t vol' p (Suc n)" "unread vol vol'" "last_block vol' = Some c" "take (length d) c = d"
    "last_pos vol' = \<lparr>off_block = block seekpos, off_partition = prt\<rparr>"
proof (cases "block_cached prt seekpos curpos vol")
  case True
  then have at: "positioned t vol p (Suc n)" and same: "off_partition (last_pos vol) = prt"
    "off_block (last_pos vol) = block seekpos"
    using head by (auto simp: block_cached_def)
  then have "cache_valid t vol" by (simp add: positioned_def)
  then obtain c where c: "unat (last_size vol) = length d" "last_block vol = Some c" "take (length d) c = d"
    using prt item(2) seekpos same by (auto simp: cache_valid_def Let_def)
  have "\<not> (ucast (last_size vol) :: u64) < blockbytes"
    using c(1) item(3) by (simp add: word_less_nat_alt)
  then have "load_block prt blockbytes seekpos curpos vol = (0, curpos, vol)"
    using True by (simp add: load_block_def)
  then show thesis using that [of curpos vol c] at c same by simp
next
  case False
  then have at: "ready (device vol) (img_at p n t)" "calm (device vol)" "cache_allocated vol"
    using head by (simp_all add: positioned_def)
  obtain old where old: "last_block vol = Some old" "length old = bs" using at(3) bs by (auto simp: cache_allocated_def)
  obtain dev d' where r: "tape_read bs (kmi_handle vol) (device vol) = (int (length d'), d', dev)"
    "d' = take bs d" "ready dev (img_at p (Suc n) t)" "calm dev = calm (device vol)"
    by (rule read_ready [OF at(1), of bs "kmi_handle vol"]) (use item in simp_all)
  have d': "d' = d" using r(2) item(4) by simp
  have size: "length d < 2 ^ 32" using item(4) bs u32_less_bound [of "lbl_blocksize (label vol)"] by simp
  then have size': "unat (of_int (int (length d)) :: u32) = length d" by (simp add: unat_of_nat)
  let ?c = "d @ drop (length d) old"
  let ?vol' = "vol\<lparr>device := dev, last_pos := \<lparr>off_block = block seekpos, off_partition = prt\<rparr>,
    last_size := of_int (int (length d)), last_block := Some ?c\<rparr>"
  have "load_block prt blockbytes seekpos curpos vol = (0, curpos\<lparr>block := block curpos + 1\<rparr>, ?vol')"
    using False r(1) d' bs old item(3) by (simp add: load_block_def Let_def)
  moreover have "cache_valid t ?vol'"
    using prt item seekpos size' bs by (auto simp: cache_valid_def Let_def)
  moreover have "cache_allocated ?vol'" using old(2) item(4) bs by (simp add: cache_allocated_def)
  ultimately show thesis
    using r(3,4) at(2)
    by (intro that [of "curpos\<lparr>block := block curpos + 1\<rparr>" ?vol' ?c, OF _ _ unreadI])
      (simp_all add: positioned_def)
qed

end

section \<open>One extent\<close>

text \<open>The byte of an extent at offset \<open>y\<close> of the file lies in the \<open>k\<close>-th block of the extent.\<close>

definition extent_byte :: "'b ltfs_volume \<Rightarrow> tape_image \<Rightarrow> extent_info \<Rightarrow> nat \<Rightarrow> u8" where
  "extent_byte vol t e y = tape_byte vol t (start_partition e)
     (ext_addr (ucast (lbl_blocksize (label vol))) e + (y - ext_lo e))"

lemma extent_byte_block:
  assumes "bs = unat (lbl_blocksize (label vol))" "0 < bs"
    and "items t (ltfs_part_id2num (start_partition e) vol) ! (unat (start_block e) + k) = Data d"
    and "k * bs \<le> y - ext_lo e + unat (byteoffset e)" "y - ext_lo e + unat (byteoffset e) < Suc k * bs"
  shows "extent_byte vol t e y = d ! (y - ext_lo e + unat (byteoffset e) - k * bs)"
proof -
  let ?r = "y - ext_lo e + unat (byteoffset e) - k * bs"
  have "ext_addr (ucast (lbl_blocksize (label vol))) e + (y - ext_lo e) = ?r + (unat (start_block e) + k) * bs"
    using assms(1,4) by (simp add: ext_addr_def algebra_simps)
  moreover have "?r < bs" using assms(4,5) by simp
  ultimately have "(ext_addr (ucast (lbl_blocksize (label vol))) e + (y - ext_lo e)) div bs = unat (start_block e) + k"
    "(ext_addr (ucast (lbl_blocksize (label vol))) e + (y - ext_lo e)) mod bs = ?r"
    by simp_all
  then show ?thesis using assms(1,3) by (simp add: extent_byte_def tape_byte_def)
qed

lemma unread_extent_byte: "unread vol vol' \<Longrightarrow> extent_byte vol' t e = extent_byte vol t e"
  by (auto simp: extent_byte_def tape_byte_def unread_fields fun_eq_iff split: tape_item.splits)

lemma block_bytes:
  assumes "bs = unat (lbl_blocksize (label vol))" "0 < bs"
    and "items t (ltfs_part_id2num (start_partition e) vol) ! (unat (start_block e) + k) = Data d"
    and "k * bs \<le> x - ext_lo e + unat (byteoffset e)" "ext_lo e \<le> x" "m \<le> ext_lo e + Suc k * bs - unat (byteoffset e)"
    and "m - ext_lo e + unat (byteoffset e) - k * bs \<le> length d" "take (length d) c = d" "x \<le> m"
  shows "take (m - x) (drop (x - ext_lo e + unat (byteoffset e) - k * bs) c) = map (extent_byte vol t e) [x..<m]"
proof (rule nth_equalityI)
  let ?o = "x - ext_lo e + unat (byteoffset e) - k * bs"
  have len: "length d \<le> length c" using arg_cong [OF assms(8), of length] by simp
  have fit: "?o + (m - x) \<le> length d" using assms(4,5,7,9) by simp
  then show "length (take (m - x) (drop ?o c)) = length (map (extent_byte vol t e) [x..<m])"
    using len by simp
  fix i assume "i < length (take (m - x) (drop ?o c))"
  then have i: "i < m - x" by simp
  have "c ! (?o + i) = d ! (?o + i)" using assms(8) i fit by (metis nth_take add_less_cancel_left less_le_trans)
  moreover have "extent_byte vol t e (x + i) = d ! (x + i - ext_lo e + unat (byteoffset e) - k * bs)"
    by (rule extent_byte_block [OF assms(1-3)]) (use assms(4-6) i in \<open>simp_all add: less_diff_conv\<close>)
  moreover have "x + i - ext_lo e + unat (byteoffset e) - k * bs = ?o + i" using assms(4,5) by simp
  moreover have "drop ?o c ! i = c ! (?o + i)" using fit len by (intro nth_drop) simp
  ultimately show "take (m - x) (drop ?o c) ! i = map (extent_byte vol t e) [x..<m] ! i"
    using i by simp
qed

context volume_drive
begin

lemma read_extent_blocks_ready:
  assumes "bs = unat (lbl_blocksize (label vol))" "0 < bs" "ext_wf (of_nat bs) e" "extent_stored vol t e"
    and "p = ltfs_part_id2num (start_partition e) vol"
    and "unat last_off = X" "unat next_off = x" "ext_lo e \<le> x" "x < ext_hi e" "x < X" "length out + X = count + x"
    and "k * bs \<le> x - ext_lo e + unat (byteoffset e)" "x - ext_lo e + unat (byteoffset e) < Suc k * bs"
    and "F = fileoffset e - ucast (byteoffset e) + of_nat (k * bs)"
    and "partition seekpos = p" "unat (block seekpos) = unat (start_block e) + k"
    and "block_cached (start_partition e) seekpos curpos vol \<and> positioned t vol p (Suc (unat (start_block e) + k)) \<or>
      \<not> block_cached (start_partition e) seekpos curpos vol \<and> positioned t vol p (unat (start_block e) + k)"
  shows "\<exists>next_off' vol' n. read_extent_blocks e last_off count seekpos curpos F F next_off out vol =
      Some (0, next_off', out @ map (extent_byte vol t e) [x..<min X (ext_hi e)], vol') \<and>
    unat next_off' = min X (ext_hi e) \<and> unread vol vol' \<and> positioned t vol' p n"
  using assms
proof (induction "X - x" arbitrary: x next_off out vol k F seekpos curpos rule: less_induct)
  case less
  note a = less.prems
  let ?a = "unat (byteoffset e)" and ?s = "unat (start_block e)"
  have bs32: "bs < 2 ^ 32" using a(1) u32_less_bound [of "lbl_blocksize (label vol)"] by simp
  have ucast_bs: "(ucast (lbl_blocksize (label vol)) :: u64) = of_nat bs" using a(1) by simp
  have k: "k * bs < ?a + ext_len e" using a(8,9,12) by (simp add: ext_hi_def)
  define L where "L = (if fileoffset_end e < F + of_nat bs then fileoffset_end e else F + of_nat bs)"
  define m where "m = min (ext_hi e) (ext_lo e + Suc k * bs - ?a)"
  note w = block_words [OF a(3,2) bs32 a(14,7,8,9,12,13,6,10), folded L_def m_def]
  have nonempty: "0 < ext_len e" using a(8,9) by (simp add: ext_hi_def)
  obtain d where d: "?s + k < length (items t p)" "items t p ! (?s + k) = Data d"
    "min bs (?a + ext_len e - k * bs) \<le> length d" "length d \<le> bs"
    by (rule extent_stored_block [OF a(4) nonempty, of k]) (use a(1,2,5) k in simp_all)
  have letter: "start_partition e = ltfs_dp_id vol \<or> start_partition e = ltfs_ip_id vol"
    using a(4) nonempty by (simp add: extent_stored_def)
  have need: "unat (L - F) \<le> length d" using w(2) d(3) by simp
  obtain curpos1 vol1 c where 1: "load_block (start_partition e) (L - F) seekpos curpos vol = (0, curpos1, vol1)"
    "positioned t vol1 p (Suc (?s + k))" "unread vol vol1" "last_block vol1 = Some c" "take (length d) c = d"
    "last_pos vol1 = \<lparr>off_block = block seekpos, off_partition = start_partition e\<rparr>"
    by (rule load_block_ready [OF a(1) letter a(5) d(1,2) need d(4) a(15,16,17)])
  let ?m = "min X m"
  let ?ncopy = "(if last_off < L then last_off else L) - next_off"
  have xm: "x < ?m" using a(9,10,13) by (auto simp: m_def)
  have copy: "take (unat ?ncopy) (drop (unat (next_off - F)) c) = map (extent_byte vol t e) [x..<?m]"
    unfolding w(3,4)
  proof (rule block_bytes [OF a(1,2) _ a(12,8) _ _ 1(5)])
    show "items t (ltfs_part_id2num (start_partition e) vol) ! (?s + k) = Data d" using d(2) a(5) by simp
    show "?m \<le> ext_lo e + Suc k * bs - ?a" "x \<le> ?m" using xm by (simp_all add: m_def)
    show "?m - ext_lo e + ?a - k * bs \<le> length d"
      using d(3) a(8) xm by (auto simp: m_def ext_hi_def min_def split: if_splits)
  qed
  have guard: "next_off < fileoffset_end e \<and> length out < count"
    using a(7,9,10,11) ext_hi_word [OF a(3)] by (simp add: word_less_nat_alt)
  let ?seek = "seekpos\<lparr>block := block seekpos + 1\<rparr>" and ?next = "next_off + ?ncopy"
  let ?out = "out @ map (extent_byte vol t e) [x..<?m]"
  have step: "read_extent_blocks e last_off count seekpos curpos F F next_off out vol =
      read_extent_blocks e last_off count ?seek curpos1 (F + of_nat bs) L ?next ?out vol1"
    using guard 1(1,4) copy
    by (subst read_extent_blocks.simps; cases "last_off < L") (simp_all add: Let_def ucast_bs L_def [symmetric])
  have next_off: "unat ?next = ?m" by (rule w(5))
  show ?case
  proof (cases "?m = min X (ext_hi e)")
    case True
    then have "\<not> (?next < fileoffset_end e \<and> length ?out < count)"
      using next_off ext_hi_word [OF a(3)] a(11) xm by (auto simp: word_less_nat_alt)
    then have "read_extent_blocks e last_off count ?seek curpos1 (F + of_nat bs) L ?next ?out vol1 =
        Some (0, ?next, ?out, vol1)"
      by (subst read_extent_blocks.simps) (simp only: if_True simp_thms)
    then show ?thesis
      using step True next_off 1(2,3) by (intro exI [of _ ?next] exI [of _ vol1] exI [of _ "Suc (?s + k)"]) simp
  next
    case False
    then have m: "m = ext_lo e + Suc k * bs - ?a" "?m = m" "m < ext_hi e" "m < X"
      by (auto simp: m_def min_def split: if_splits)
    have FL: "F + of_nat bs = L" using w(1,6) m(1) by (metis of_nat_unat ucast_id)
    have low: "?a < bs" using a(3) bs32 by (simp add: ext_wf_def unat_of_nat)
    then have pos: "m - ext_lo e + ?a = Suc k * bs" using m(1) xm a(8) by simp
    have "unat (start_block e) + (?a + ext_len e) div bs < 2 ^ 64"
      using a(3) bs32 by (simp add: ext_wf_def unat_of_nat)
    moreover have "Suc k \<le> (?a + ext_len e) div bs"
      using pos m(3) a(2) xm a(8) by (simp add: less_eq_div_iff_mult_less_eq ext_hi_def)
    ultimately have seek: "unat (block ?seek) = ?s + Suc k" "block ?seek \<noteq> block seekpos"
      using a(16) by (simp_all add: unat_add_nowrap)
    have "\<exists>next_off' vol' n. read_extent_blocks e last_off count ?seek curpos1 L L ?next ?out vol1 =
        Some (0, next_off', ?out @ map (extent_byte vol1 t e) [m..<min X (ext_hi e)], vol') \<and>
      unat next_off' = min X (ext_hi e) \<and> unread vol1 vol' \<and> positioned t vol' p n"
    proof (rule less.hyps [where k = "Suc k"])
      have "x < m" using xm m(2) by (simp only:)
      then show "X - m < X - x" using a(10) by (rule diff_less_mono2)
      show "L = fileoffset e - ucast (byteoffset e) + of_nat (Suc k * bs)"
        using FL a(14) by (simp add: algebra_simps)
      have "\<not> block_cached (start_partition e) ?seek curpos1 vol1" using seek(2) 1(6) by (simp add: block_cached_def)
      then show "block_cached (start_partition e) ?seek curpos1 vol1 \<and> positioned t vol1 p (Suc (?s + Suc k)) \<or>
        \<not> block_cached (start_partition e) ?seek curpos1 vol1 \<and> positioned t vol1 p (?s + Suc k)"
        using 1(2) by simp
    qed (use a(1-6,11,15) m next_off xm pos seek(1) 1(3) unread_stored [OF 1(3)] in \<open>simp_all add: unread_fields\<close>)
    then obtain next_off' vol' n where 2: "read_extent_blocks e last_off count ?seek curpos1 L L ?next ?out vol1 =
        Some (0, next_off', ?out @ map (extent_byte vol1 t e) [m..<min X (ext_hi e)], vol')"
      "unat next_off' = min X (ext_hi e)" "unread vol1 vol'" "positioned t vol' p n" by blast
    have "map (extent_byte vol t e) [x..<?m] @ map (extent_byte vol1 t e) [m..<min X (ext_hi e)] =
        map (extent_byte vol t e) [x..<min X (ext_hi e)]"
      using m xm unread_extent_byte [OF 1(3)] upt_add_eq_append [of x m "min X (ext_hi e) - m"] by simp
    then show ?thesis
      using step FL 2 unread_trans [OF 1(3) 2(3)] by (intro exI [of _ next_off'] exI [of _ vol'] exI [of _ n]) simp
  qed
qed

lemma positionedD:
  assumes "positioned t vol q h"
  shows "partition (position (device vol)) = q" "block (position (device vol)) = of_nat h"
    "unat (block (position (device vol))) = h"
  using ready_position(1-3) [of "device vol" "img_at q h t"] assms by (simp_all add: positioned_def)

lemma positioned_seek:
  assumes "positioned t vol q h" "p = 0 \<or> p = 1" "n \<le> length (items t p)" "has_room t p (length (items t p))"
    and "unat blk = n"
  obtains vol' where "on_device (tape_seek (seek_to p blk)) vol = (0, vol')" "positioned t vol' p n"
    "unread vol vol'" "last_pos vol' = last_pos vol"
proof -
  have at: "ready (device vol) (img_at q h t)" "calm (device vol)" "cache_allocated vol" "cache_valid t vol"
    using assms(1) by (simp_all add: positioned_def)
  have room: "has_room (img_at q h t) p n"
    using has_room_mono [OF assms(3,4)] by (simp add: has_room_def)
  have blk: "blk = of_nat n" using assms(5) by (metis of_nat_unat ucast_id)
  obtain dev' where "tape_seek (seek_to p blk) (device vol) = (0, dev')"
    "ready dev' (img_at p n (img_at q h t))" "calm dev'"
    by (rule seek_ready [OF at(1,2) assms(2) _ room, of blk]) (use assms(3) blk in simp_all)
  moreover have "unread vol (vol\<lparr>device := dev'\<rparr>)"
    using unreadI [where vol = vol and dev = dev' and pos = "last_pos vol" and n = "last_size vol"
      and cache = "last_block vol"] by simp
  ultimately show thesis
    using at(3,4) by (intro that [of "vol\<lparr>device := dev'\<rparr>"])
      (simp_all add: on_device_def positioned_def cache_allocated_def)
qed

text \<open>Going to an extent: the head is where the loop over the blocks wants it.\<close>

lemma extent_start_words:
  assumes "ext_wf (of_nat bs) e" "0 < bs" "bs < 2 ^ 32" "unat next_off = x" "ext_lo e \<le> x" "x < ext_hi e"
    and "k = (x - ext_lo e + unat (byteoffset e)) div bs"
  defines "b \<equiv> start_block e + (next_off - fileoffset e + ucast (byteoffset e)) div of_nat bs"
  shows "unat b = unat (start_block e) + k" "b - start_block e = of_nat k"
proof -
  have bsu: "unat (of_nat bs :: u64) = bs" using assms(3) by (simp add: unat_of_nat)
  have le: "fileoffset e \<le> next_off" using assms(4,5) by (simp add: word_le_nat_alt ext_lo_def)
  have d: "unat (next_off - fileoffset e) = x - ext_lo e"
    using unat_sub_le [OF le] assms(4) by (simp add: ext_lo_def)
  have wf: "ext_hi e + bs \<le> 2 ^ 64" "unat (byteoffset e) < bs"
    "unat (start_block e) + (unat (byteoffset e) + ext_len e) div bs < 2 ^ 64"
    using assms(1) by (simp_all add: ext_wf_def bsu)
  have "unat (next_off - fileoffset e + ucast (byteoffset e)) = x - ext_lo e + unat (byteoffset e)"
    using wf(1,2) assms(5,6) d by (subst unat_add_nowrap) (simp_all add: ext_hi_def)
  then have q: "unat ((next_off - fileoffset e + ucast (byteoffset e)) div of_nat bs) = k"
    using assms(7) by (simp add: unat_div bsu)
  have "k \<le> (unat (byteoffset e) + ext_len e) div bs"
    unfolding assms(7) using assms(5,6) by (intro div_le_mono) (simp add: ext_hi_def)
  then show "unat b = unat (start_block e) + k" using wf(3) q by (simp add: b_def unat_add_nowrap)
  have "(next_off - fileoffset e + ucast (byteoffset e)) div of_nat bs = of_nat k"
    using q by (metis of_nat_unat ucast_id)
  then show "b - start_block e = of_nat k" by (simp add: b_def)
qed

lemma read_one_extent_ready:
  assumes bs: "bs = unat (lbl_blocksize (label vol))" "0 < bs" and e: "ext_wf (of_nat bs) e" "extent_stored vol t e"
    and X: "unat last_off = X" "unat next_off = x" "ext_lo e \<le> x" "x < ext_hi e" "x \<le> X" "length out + X = count + x"
    and vol: "volume_ok vol" "positioned t vol q h" and room: "\<forall>p \<in> {0, 1}. has_room t p (length (items t p))"
  shows "\<exists>next_off' vol' q h. read_one_extent e last_off count next_off out vol =
      Some (0, next_off', out @ map (extent_byte vol t e) [x..<min X (ext_hi e)], vol') \<and>
    unat next_off' = min X (ext_hi e) \<and> unread vol vol' \<and> positioned t vol' q h"
proof -
  let ?p = "ltfs_part_id2num (start_partition e) vol" and ?a = "unat (byteoffset e)"
  define k where "k = (x - ext_lo e + ?a) div bs"
  let ?n = "unat (start_block e) + k"
  have bs32: "bs < 2 ^ 32" using bs(1) u32_less_bound [of "lbl_blocksize (label vol)"] by simp
  have ub: "(ucast (lbl_blocksize (label vol)) :: u64) = of_nat bs" using bs(1) by simp
  define b where "b = start_block e + (next_off - fileoffset e + ucast (byteoffset e)) div of_nat bs"
  have b: "unat b = ?n" "b - start_block e = of_nat k"
    using extent_start_words [OF e(1) bs(2) bs32 X(2-4) k_def] by (simp_all add: b_def)
  have kk: "k * bs \<le> x - ext_lo e + ?a" "x - ext_lo e + ?a < Suc k * bs"
    using bs(2) by (simp_all add: k_def dividend_less_div_times [of bs, simplified mult.commute] mult.commute)
  have nonempty: "0 < ext_len e" using X(3,4) by (simp add: ext_hi_def)
  have letter: "start_partition e = ltfs_dp_id vol \<or> start_partition e = ltfs_ip_id vol"
    using e(2) nonempty by (simp add: extent_stored_def)
  have p: "?p = 0 \<or> ?p = 1" by (rule volume_ok_partition(1) [OF vol(1) letter])
  obtain d where d: "?n < length (items t ?p)"
    by (rule extent_stored_block [OF e(2) nonempty, of k]) (use bs kk X(3,4) in \<open>simp_all add: ext_hi_def\<close>)
  define seekpos where "seekpos = seek_to ?p b"
  define curpos where "curpos = position (device vol)"
  note at = positionedD [OF vol(2), folded curpos_def]
  let ?seek = "(partition curpos \<noteq> partition seekpos \<or> block curpos \<noteq> block seekpos) \<and>
    \<not> (partition curpos = partition seekpos \<and> block curpos = block seekpos + 1 \<and>
       start_partition e = off_partition (last_pos vol) \<and> block seekpos = off_block (last_pos vol))"
  obtain vol1 where 1: "(if ?seek then on_device (tape_seek seekpos) vol else (0, vol)) = (0, vol1)"
    "unread vol vol1"
    "block_cached (start_partition e) seekpos curpos vol1 \<and> positioned t vol1 ?p (Suc ?n) \<or>
     \<not> block_cached (start_partition e) seekpos curpos vol1 \<and> positioned t vol1 ?p ?n"
  proof (cases ?seek)
    case True
    obtain vol1 where s: "on_device (tape_seek (seek_to ?p b)) vol = (0, vol1)" "positioned t vol1 ?p ?n"
      "unread vol vol1" "last_pos vol1 = last_pos vol"
      by (rule positioned_seek [OF vol(2) p _ _ b(1)]) (use d room p in auto)
    have "\<not> block_cached (start_partition e) seekpos curpos vol1"
      using True s(4) by (auto simp: block_cached_def)
    then show thesis using that [of vol1] True s by (simp add: seekpos_def)
  next
    case False
    then have stay: "(if ?seek then on_device (tape_seek seekpos) vol else (0, vol)) = (0, vol)" by (rule if_not_P)
    show thesis
    proof (cases "partition curpos = partition seekpos \<and> block curpos = block seekpos")
      case True
      then have "q = ?p" "h = ?n" using at b(1) by (auto simp: seekpos_def)
      moreover have "\<not> block_cached (start_partition e) seekpos curpos vol"
        using True by (simp add: block_cached_def)
      ultimately show thesis using that [OF stay unread_refl] vol(2) by simp
    next
      case away: False
      then have hit: "partition curpos = partition seekpos" "block curpos = block seekpos + 1"
        "start_partition e = off_partition (last_pos vol)" "block seekpos = off_block (last_pos vol)"
        using False by auto
      have "unat (block seekpos + 1) = Suc ?n"
      proof -
        have "length (items t ?p) < 2 ^ 64 - 1"
          using tape_bound [of _ "img_at q h t" ?p] vol(2) p by (auto simp: positioned_def mounted_def)
        then show ?thesis using d b(1) by (simp add: seekpos_def unat_add_nowrap)
      qed
      then have "q = ?p" "h = Suc ?n" using at hit(1,2) by (simp_all add: seekpos_def)
      moreover have "block_cached (start_partition e) seekpos curpos vol"
        using hit by (simp add: block_cached_def)
      ultimately show thesis using that [OF stay unread_refl] vol(2) by simp
    qed
  qed
  define F where "F = fileoffset e - ucast (byteoffset e) + of_nat (k * bs)"
  have F: "fileoffset e - ucast (byteoffset e) + (block seekpos - start_block e) * of_nat bs = F"
    using b(2) by (simp add: F_def seekpos_def)
  have call: "read_one_extent e last_off count next_off out vol =
      read_extent_blocks e last_off count seekpos curpos F F next_off out vol1"
    by (simp only: read_one_extent_def tape_get_position_def prod.case Let_def ub b_def [symmetric]
        seekpos_def [symmetric] curpos_def [symmetric] 1(1) less_irrefl if_False F)
  show ?thesis
  proof (cases "x < X")
    case True
    have "\<exists>next_off' vol' n. read_extent_blocks e last_off count seekpos curpos F F next_off out vol1 =
        Some (0, next_off', out @ map (extent_byte vol1 t e) [x..<min X (ext_hi e)], vol') \<and>
      unat next_off' = min X (ext_hi e) \<and> unread vol1 vol' \<and> positioned t vol' ?p n"
    proof (rule read_extent_blocks_ready [where k = k])
      show "bs = unat (lbl_blocksize (label vol1))" using bs(1) 1(2) by (simp add: unread_fields)
      show "extent_stored vol1 t e" using e(2) unread_stored [OF 1(2)] by simp
      show "?p = ltfs_part_id2num (start_partition e) vol1" using 1(2) by (simp add: unread_fields)
      show "unat (block seekpos) = ?n" "partition seekpos = ?p" using b(1) by (simp_all add: seekpos_def)
      show "block_cached (start_partition e) seekpos curpos vol1 \<and> positioned t vol1 ?p (Suc ?n) \<or>
        \<not> block_cached (start_partition e) seekpos curpos vol1 \<and> positioned t vol1 ?p ?n" by (rule 1(3))
    qed (fact bs e X True kk F_def)+
    then show ?thesis
      using call unread_extent_byte [OF 1(2)] unread_trans [OF 1(2)] by metis
  next
    case False
    then have "\<not> (next_off < fileoffset_end e \<and> length out < count)" using X by simp
    then have "read_extent_blocks e last_off count seekpos curpos F F next_off out vol1 = Some (0, next_off, out, vol1)"
      by (subst read_extent_blocks.simps) (simp only: if_True simp_thms)
    then show ?thesis using call False X 1(2,3) by auto
  qed
qed

end

section \<open>The extent list\<close>

lemma file_byte_front:
  assumes "exts_wf (ucast (lbl_blocksize (label vol))) (e # es)" "ext_lo e \<le> y" "y < ext_hi e"
  shows "file_byte vol t (e # es) y = extent_byte vol t e y"
proof -
  have "file_map (ucast (lbl_blocksize (label vol))) es y = None"
    using assms by (intro file_map_None) (auto simp: exts_wf_Cons)
  then show ?thesis using assms(2,3)
    by (simp add: file_byte_def extent_byte_def map_add_def ext_map_def)
qed

lemma file_byte_rest:
  assumes "exts_wf (ucast (lbl_blocksize (label vol))) (e # es)" "ext_hi e \<le> y"
  shows "file_byte vol t (e # es) y = file_byte vol t es y"
  using assms by (simp add: file_byte_def map_add_def ext_map_def split: option.splits)

lemma file_byte_hole:
  assumes "exts_wf (ucast (lbl_blocksize (label vol))) (e # es)" "y < ext_lo e"
  shows "file_byte vol t (e # es) y = 0"
proof -
  have "ext_lo e \<le> ext_hi e" by (simp add: ext_hi_def)
  then have "file_map (ucast (lbl_blocksize (label vol))) (e # es) y = None"
    using assms by (intro file_map_None) (auto simp: exts_wf_Cons)
  then show ?thesis by (simp add: file_byte_def del: file_map.simps)
qed

text \<open>
  What is left to deliver when the loop ends at \<open>m\<close>: nothing, or only what lies behind the last
  extent.
\<close>

definition delivered :: "extent_info list \<Rightarrow> nat \<Rightarrow> nat \<Rightarrow> nat \<Rightarrow> u64 \<Rightarrow> bool" where
  "delivered es X x m next_off \<longleftrightarrow>
     x \<le> m \<and> m \<le> X \<and> (m = x \<or> list_ex (\<lambda>e. m \<le> ext_hi e) es) \<and>
     (m = X \<or> unat next_off = m \<and> list_all (\<lambda>e. ext_hi e \<le> m) es)"

context volume_drive
begin

lemma read_extents_ready:
  assumes "exts_wf (ucast (lbl_blocksize (label vol))) es" "\<forall>e \<in> set es. extent_stored vol t e"
    and "bs = unat (lbl_blocksize (label vol))" "0 < bs"
    and "unat last_off = X" "unat next_off = x" "x \<le> X" "length out + X = count + x"
    and "volume_ok vol" "positioned t vol q h" "\<forall>p \<in> {0, 1}. has_room t p (length (items t p))"
  shows "\<exists>next_off' vol' q h m. read_extents es last_off count next_off out vol =
      Some (0, next_off', out @ map (file_byte vol t es) [x..<m], vol') \<and>
    delivered es X x m next_off' \<and> unread vol vol' \<and> positioned t vol' q h"
  using assms
proof (induction es arbitrary: vol next_off x out q h)
  case Nil
  then show ?case by (intro exI [of _ next_off] exI [of _ vol] exI [of _ q] exI [of _ h] exI [of _ x])
    (simp add: delivered_def)
next
  case (Cons e es)
  note a = Cons.prems
  have wf: "ext_wf (ucast (lbl_blocksize (label vol))) e" "exts_wf (ucast (lbl_blocksize (label vol))) es"
    "\<forall>e' \<in> set es. ext_hi e \<le> ext_lo e'" using a(1) by (simp_all add: exts_wf_Cons)
  have lohi: "ext_lo e \<le> ext_hi e" by (simp add: ext_hi_def)
  have words: "length out = count \<longleftrightarrow> x = X" "next_off < fileoffset e \<longleftrightarrow> x < ext_lo e"
    "last_off < fileoffset e \<longleftrightarrow> X < ext_lo e"
    using a(5-8) by (auto simp: word_less_nat_alt ext_lo_def)
  have wfn: "ext_wf (of_nat bs) e" using wf(1) a(3) by simp
  show ?case
  proof (cases "x = X \<or> X < ext_lo e")
    case True
    let ?out = "if x = X then out else out @ replicate (unat (last_off - next_off)) 0"
    have gap: "x \<noteq> X \<Longrightarrow> unat (last_off - next_off) = X - x"
      using a(5-7) unat_sub_le [of next_off last_off] by (simp add: word_le_nat_alt)
    have zeros: "map (file_byte vol t (e # es)) [x..<X] = replicate (X - x) 0" if "x \<noteq> X"
      using True that file_byte_hole [OF a(1)] by (intro nth_equalityI) simp_all
    have "read_extents (e # es) last_off count next_off out vol = Some (0, next_off, ?out, vol)"
      using True words a(7) by auto
    moreover have "?out = out @ map (file_byte vol t (e # es)) [x..<X]"
      using gap zeros by simp
    moreover have "delivered (e # es) X x X next_off"
      using True a(7) lohi by (auto simp: delivered_def)
    ultimately show ?thesis using a(10)
      by (intro exI [of _ next_off] exI [of _ vol] exI [of _ q] exI [of _ h] exI [of _ X]) (simp only: unread_refl simp_thms)
  next
    case False
    then have xX: "x < X" "ext_lo e \<le> X" using a(7) by simp_all
    define x1 where "x1 = max x (ext_lo e)"
    define next1 where "next1 = (if next_off < fileoffset e then fileoffset e else next_off)"
    define out1 where "out1 = (if next_off < fileoffset e
        then out @ replicate (unat (fileoffset e - next_off)) 0 else out)"
    have n1: "unat next1 = x1" using words(2) a(6) by (auto simp: next1_def x1_def ext_lo_def)
    have gap: "x < ext_lo e \<Longrightarrow> unat (fileoffset e - next_off) = ext_lo e - x"
      using a(6) unat_sub_le [of next_off "fileoffset e"] by (simp add: word_le_nat_alt ext_lo_def)
    have zeros: "map (file_byte vol t (e # es)) [x..<ext_lo e] = replicate (ext_lo e - x) 0"
      using file_byte_hole [OF a(1)] by (intro nth_equalityI) simp_all
    have o1: "out1 = out @ map (file_byte vol t (e # es)) [x..<x1]"
      using words(2) gap zeros by (auto simp: out1_def x1_def max_def)
    have len1: "length out1 + X = count + x1" "x1 \<le> X" "x \<le> x1" "ext_lo e \<le> x1"
      using o1 a(8) xX by (simp_all add: x1_def)
    have "\<exists>next2 vol2 q h x2. (if next1 < fileoffset_end e then read_one_extent e last_off count next1 out1 vol
        else Some (0, next1, out1, vol)) =
        Some (0, next2, out1 @ map (file_byte vol t (e # es)) [x1..<x2], vol2) \<and>
      unat next2 = x2 \<and> x1 \<le> x2 \<and> x2 \<le> X \<and> (x2 = X \<or> ext_hi e \<le> x2) \<and>
      (x2 = x1 \<or> x2 \<le> ext_hi e) \<and> unread vol vol2 \<and> positioned t vol2 q h"
    proof (cases "x1 < ext_hi e")
      case True
      obtain next2 vol2 q' h' where r: "read_one_extent e last_off count next1 out1 vol =
          Some (0, next2, out1 @ map (extent_byte vol t e) [x1..<min X (ext_hi e)], vol2)"
        "unat next2 = min X (ext_hi e)" "unread vol vol2" "positioned t vol2 q' h'"
        using read_one_extent_ready [OF a(3,4) wfn _ a(5) n1 len1(4) True len1(2,1) a(9,10,11)] a(2) by auto
      moreover have "map (extent_byte vol t e) [x1..<min X (ext_hi e)] =
          map (file_byte vol t (e # es)) [x1..<min X (ext_hi e)]"
        using file_byte_front [OF a(1)] len1(4) by (auto intro!: map_cong)
      ultimately show ?thesis using True n1 ext_hi_word [OF wf(1)] len1(2)
        by (intro exI [of _ next2] exI [of _ vol2] exI [of _ q'] exI [of _ h'] exI [of _ "min X (ext_hi e)"])
          (auto simp: word_less_nat_alt)
    next
      case False
      then show ?thesis using n1 ext_hi_word [OF wf(1)] len1(2) a(10)
        by (intro exI [of _ next1] exI [of _ vol] exI [of _ q] exI [of _ h] exI [of _ x1])
          (simp add: word_less_nat_alt)
    qed
    then obtain next2 vol2 q2 h2 x2 where 2: "(if next1 < fileoffset_end e then read_one_extent e last_off count next1 out1 vol
        else Some (0, next1, out1, vol)) =
        Some (0, next2, out1 @ map (file_byte vol t (e # es)) [x1..<x2], vol2)"
      "unat next2 = x2" "x1 \<le> x2" "x2 \<le> X" "x2 = X \<or> ext_hi e \<le> x2"
      "unread vol vol2" "positioned t vol2 q2 h2" "x2 = x1 \<or> x2 \<le> ext_hi e" by blast
    let ?out2 = "out1 @ map (file_byte vol t (e # es)) [x1..<x2]"
    have "\<exists>next_off' vol' q h m. read_extents es last_off count next2 ?out2 vol2 =
        Some (0, next_off', ?out2 @ map (file_byte vol2 t es) [x2..<m], vol') \<and>
      delivered es X x2 m next_off' \<and> unread vol2 vol' \<and> positioned t vol' q h"
      by (rule Cons.IH)
         (use wf(2) a(2-5,9,11) 2 len1 unread_stored [OF 2(6)] in \<open>simp_all add: unread_fields unread_volume_ok\<close>)
    then obtain next3 vol3 q3 h3 m where 3: "read_extents es last_off count next2 ?out2 vol2 =
        Some (0, next3, ?out2 @ map (file_byte vol2 t es) [x2..<m], vol3)"
      "delivered es X x2 m next3" "unread vol2 vol3" "positioned t vol3 q3 h3" by blast
    have m: "x2 \<le> m" "m \<le> X" using 3(2) by (simp_all add: delivered_def)
    have rest: "map (file_byte vol2 t es) [x2..<m] = map (file_byte vol t (e # es)) [x2..<m]"
      using 2(5) m file_byte_rest [OF a(1)] unread_file_byte [OF 2(6)] by (auto intro!: map_cong)
    have all: "?out2 @ map (file_byte vol2 t es) [x2..<m] = out @ map (file_byte vol t (e # es)) [x..<m]"
      unfolding rest o1 append_assoc map_append [symmetric]
      using len1(3) 2(3) m(1) by (simp add: upt_join)
    have del: "delivered (e # es) X x m next3"
      using 3(2) 2(3-5,8) len1(3) xX lohi by (auto simp: delivered_def x1_def)
    have guard: "(length out = count) = False" "(next_off < fileoffset e \<and> last_off < fileoffset e) = False"
      using False words xX by simp_all
    have "read_extents (e # es) last_off count next_off out vol =
        read_extents es last_off count next2 ?out2 vol2"
      using guard by (simp only: read_extents.simps if_False Let_def next1_def [symmetric]
          out1_def [symmetric] 2(1) option.case prod.case less_irrefl)
    then show ?thesis using 3(1,4) all del unread_trans [OF 2(6) 3(3)] by metis
  qed
qed

text \<open>A volume on which files can be read: the tapes as they are, and the cache in order.\<close>

definition readable :: "tape_image \<Rightarrow> 'a ltfs_volume \<Rightarrow> bool" where
  "readable t vol \<longleftrightarrow>
     ready (device vol) t \<and> calm (device vol) \<and> volume_ok vol \<and> cache_valid t vol \<and>
     (last_block vol = None \<or> cache_allocated vol) \<and>
     0 < unat (lbl_blocksize (label vol)) \<and> (\<forall>p \<in> {0, 1}. has_room t p (length (items t p)))"

lemma allocate_cache:
  assumes "readable t vol"
  shows "\<exists>vol'. (if last_block vol = None
      then vol\<lparr>last_block := Some (replicate (unat (lbl_blocksize (label vol))) 0)\<rparr> else vol) = vol' \<and>
    positioned t vol' (head_part t) (head_block t) \<and> unread vol vol'"
proof (cases "last_block vol = None")
  case True
  let ?vol' = "vol\<lparr>last_block := Some (replicate (unat (lbl_blocksize (label vol))) 0)\<rparr>"
  have "cache_valid t ?vol'"
    using assms True by (auto simp: readable_def cache_valid_def Let_def split: tape_item.splits)
  moreover have "unread vol ?vol'"
    using unreadI [where vol = vol and dev = "device vol" and pos = "last_pos vol" and n = "last_size vol"] by simp
  ultimately show ?thesis using True assms by (simp add: readable_def positioned_def cache_allocated_def)
next
  case False
  then show ?thesis using assms by (auto simp: readable_def positioned_def)
qed

lemma read_pass_ready:
  assumes "readable t vol" "dentry_wf (ucast (lbl_blocksize (label vol))) d"
    and "\<forall>e \<in> set (extentlist d). extent_stored vol t e"
    and "0 < count" "0 \<le> offset" "nat offset + count < 2 ^ 64"
  shows "\<exists>out vol' q h. read_pass True time d count offset vol =
      Some (0, out, d\<lparr>access_time := time\<rparr>,
        vol'\<lparr>index := (index vol)\<lparr>idx_flags := ltfs_set_index_dirty True (idx_flags (index vol))\<rparr>\<rparr>) \<and>
    out = map (file_byte vol t (extentlist d)) [nat offset..<min (nat offset + count) (unat (d_size d))] \<and>
    unread vol vol' \<and> positioned t vol' q h"
proof -
  let ?o = "nat offset" and ?es = "extentlist d"
  let ?X = "?o + count"
  obtain vol0 where 0: "(if last_block vol = None
      then vol\<lparr>last_block := Some (replicate (unat (lbl_blocksize (label vol))) 0)\<rparr> else vol) = vol0"
    "positioned t vol0 (head_part t) (head_block t)" "unread vol vol0"
    using allocate_cache [OF assms(1)] by blast
  have wf: "exts_wf (ucast (lbl_blocksize (label vol))) ?es" "\<forall>e \<in> set ?es. ext_hi e \<le> unat (d_size d)"
    using assms(2) by (simp_all add: dentry_wf_def)
  have "of_int offset = (of_nat ?o :: u64)" using assms(5) by (metis nat_0_le of_int_of_nat_eq)
  then have off: "unat (of_int offset :: u64) = ?o" using assms(6) by (simp add: unat_of_nat)
  have last: "unat (of_int offset + of_nat count :: u64) = ?X"
    using assms(6) off by (subst unat_add_nowrap) (simp_all add: unat_of_nat)
  have "\<exists>next_off' vol' q h m. read_extents ?es (of_int offset + of_nat count) count (of_int offset) [] vol0 =
      Some (0, next_off', [] @ map (file_byte vol0 t ?es) [?o..<m], vol') \<and>
    delivered ?es ?X ?o m next_off' \<and> unread vol0 vol' \<and> positioned t vol' q h"
    by (rule read_extents_ready [where bs = "unat (lbl_blocksize (label vol))"])
       (use wf(1) assms(1,3) off last 0(2,3) unread_stored [OF 0(3)] in
         \<open>simp_all add: unread_fields unread_volume_ok readable_def\<close>)
  then obtain next_off' vol' q h m where 1: "read_extents ?es (of_int offset + of_nat count) count (of_int offset) [] vol0 =
      Some (0, next_off', map (file_byte vol t ?es) [?o..<m], vol')"
    "delivered ?es ?X ?o m next_off'" "unread vol0 vol'" "positioned t vol' q h"
    using unread_file_byte [OF 0(3)] by auto
  let ?size = "unat (d_size d)" and ?out = "map (file_byte vol t ?es) [?o..<m]"
  define ncopy where "ncopy = (if of_int offset + of_nat count < d_size d
      then of_int offset + of_nat count - next_off' else d_size d - next_off')"
  define out where "out = (if length ?out < count \<and> next_off' < d_size d
      then ?out @ replicate (unat ncopy) 0 else ?out)"
  have m: "?o \<le> m" "m \<le> ?X" "m = ?o \<or> m \<le> ?size" "m = ?X \<or> unat next_off' = m \<and> (\<forall>e \<in> set ?es. ext_hi e \<le> m)"
    using 1(2) wf(2) by (auto simp: delivered_def list_all_iff list_ex_iff)
  have "out = map (file_byte vol t ?es) [?o..<min ?X ?size]"
  proof (cases "m < ?X \<and> m < ?size")
    case True
    then have tail: "unat next_off' = m" "\<forall>e \<in> set ?es. ext_hi e \<le> m" using m(4) by auto
    have cond: "length ?out < count \<and> next_off' < d_size d"
      using True tail(1) m(1) by (simp add: word_less_nat_alt less_diff_conv2 add.commute)
    have n: "unat ncopy = min ?X ?size - m"
      using True tail(1) last
      by (auto simp: ncopy_def word_less_nat_alt unat_sub_le word_le_nat_alt)
    have "file_map (ucast (lbl_blocksize (label vol))) ?es y = None" if "m \<le> y" for y
      using tail(2) that by (intro file_map_None) fastforce
    then have "file_byte vol t ?es y = 0" if "m \<le> y" for y using that by (simp add: file_byte_def)
    then have "map (file_byte vol t ?es) [m..<min ?X ?size] = map (\<lambda>_. 0) [m..<min ?X ?size]"
      by (intro map_cong) auto
    then have "map (file_byte vol t ?es) [m..<min ?X ?size] = replicate (min ?X ?size - m) 0"
      by (simp add: map_replicate_const)
    then have "out = map (file_byte vol t ?es) [?o..<m] @ map (file_byte vol t ?es) [m..<min ?X ?size]"
      using cond n by (simp add: out_def)
    then show ?thesis using m(1) True by (simp add: upt_join flip: map_append)
  next
    case False
    have cond: "\<not> (length ?out < count \<and> next_off' < d_size d)"
      using False m by (auto simp: word_less_nat_alt)
    have "[?o..<m] = [?o..<min ?X ?size]" using False m assms(4) by (auto simp: min_def)
    moreover have "out = ?out" unfolding out_def by (rule if_not_P [OF cond])
    ultimately show ?thesis by (simp only:)
  qed
  moreover have "read_pass True time d count offset vol = Some (0, out, d\<lparr>access_time := time\<rparr>,
      vol'\<lparr>index := (index vol)\<lparr>idx_flags := ltfs_set_index_dirty True (idx_flags (index vol))\<rparr>\<rparr>)"
    using 0(1,3) 1(1,3) by (simp add: read_pass_def Let_def ncopy_def out_def unread_fields)
  ultimately show ?thesis using 1(3,4) unread_trans [OF 0(3) 1(3)] by blast
qed

lemma fsraw_read_ready:
  assumes "readable t vol" "reval vol = 0" "\<not> fence (device vol)" "dentry_wf (ucast (lbl_blocksize (label vol))) d"
    and "\<forall>e \<in> set (extentlist d). extent_stored vol t e" "0 \<le> offset" "nat offset + count < 2 ^ 64"
  shows "\<exists>out vol' q h. ltfs_fsraw_read env True d count offset vol =
      Some (int (length out), out, if count = 0 then d else d\<lparr>access_time := env_now env\<rparr>, vol') \<and>
    out = map (file_byte vol t (extentlist d)) [nat offset..<min (nat offset + count) (unat (d_size d))] \<and>
    readable (img_at q h t) vol' \<and> label vol' = label vol"
proof (cases "count = 0")
  case True
  then show ?thesis using assms(1)
    by (intro exI [of _ "[]"] exI [of _ vol] exI [of _ "head_part t"] exI [of _ "head_block t"])
      (subst ltfs_fsraw_read.simps, simp)
next
  case False
  let ?vol1 = "vol\<lparr>device := (device vol)\<lparr>backend_mutex := True\<rparr>\<rparr>"
  have vol1: "on_device (tape_device_lock 0) vol = (0, ?vol1)"
    using assms(3) by (simp add: on_device_def tape_device_lock_def)
  have r1: "readable t ?vol1" using assms(1)
    by (simp add: readable_def mounted_def calm_def volume_ok_def cache_allocated_def)
  have u1: "unread vol ?vol1"
    using unreadI [where vol = vol and dev = "device ?vol1" and pos = "last_pos vol" and n = "last_size vol"
      and cache = "last_block vol"] by simp
  note lab = unread_stored [OF u1] unread_file_byte [OF u1]
  obtain out vol2 q h where 2: "read_pass True (env_now env) d count offset ?vol1 =
      Some (0, out, d\<lparr>access_time := env_now env\<rparr>,
        vol2\<lparr>index := (index ?vol1)\<lparr>idx_flags := ltfs_set_index_dirty True (idx_flags (index ?vol1))\<rparr>\<rparr>)"
    "out = map (file_byte ?vol1 t (extentlist d)) [nat offset..<min (nat offset + count) (unat (d_size d))]"
    "unread ?vol1 vol2" "positioned t vol2 q h"
    using read_pass_ready [OF r1, of d count offset "env_now env"] assms(4-7) False lab by auto
  let ?vol3 = "vol2\<lparr>index := (index ?vol1)\<lparr>idx_flags := ltfs_set_index_dirty True (idx_flags (index ?vol1))\<rparr>\<rparr>"
  let ?vol4 = "?vol3\<lparr>device := (device vol2)\<lparr>backend_mutex := False\<rparr>\<rparr>"
  have unlock: "out_unlock 0 ?vol3 = ?vol4"
    by (simp add: out_unlock_def on_device_def tape_device_unlock_def NEED_REVAL_def IS_UNEXPECTED_MOVE_def Let_def)
  have lock: "ltfs_get_volume_lock (env_others env) vol = (0, vol)"
    using assms(2) by (simp add: ltfs_get_volume_lock_def)
  have run: "ltfs_fsraw_read env True d count offset vol = Some (int (length out), out, d\<lparr>access_time := env_now env\<rparr>, ?vol4)"
    using False 2(1) vol1 lock unlock
    by (subst ltfs_fsraw_read.simps) (simp add: Let_def NEED_REVAL_def)
  have label: "label vol2 = label vol" using unread_label [OF 2(3)] by simp
  have "readable (img_at q h t) ?vol4"
    using 2(4) r1 label unread_volume_ok [OF 2(3)]
    by (simp add: readable_def positioned_def mounted_def calm_def cache_allocated_def
        volume_ok_def has_room_def)
  then show ?thesis using run 2(2) lab(2) label False
    by (intro exI [of _ out] exI [of _ ?vol4] exI [of _ q] exI [of _ h]) simp
qed

end

section \<open>Writing\<close>

lemma full_blocks_length: "full_blocks n bs \<Longrightarrow> 0 < n \<Longrightarrow> length bs \<le> Suc (length (concat bs) div n)"
proof (induction bs)
  case (Cons b bs)
  show ?case
  proof (cases "bs = []")
    case False
    then have "length b = n" "full_blocks n bs" using Cons.prems(1) by simp_all
    then show ?thesis using Cons.IH Cons.prems(2) by (simp add: div_add_self1)
  qed simp
qed simp

lemma full_blocks_nth:
  "full_blocks n bs \<Longrightarrow> 0 < n \<Longrightarrow> r < length (concat bs) \<Longrightarrow>
   r div n < length bs \<and> r mod n < length (bs ! (r div n)) \<and> length (bs ! (r div n)) \<le> n \<and>
   bs ! (r div n) ! (r mod n) = concat bs ! r"
proof (induction bs arbitrary: r)
  case (Cons b bs)
  show ?case
  proof (cases "r < length b")
    case True
    then have "r < n" using Cons.prems(1) by auto
    then show ?thesis using True Cons.prems(1) by (simp add: nth_append)
  next
    case False
    then have b: "length b = n" "full_blocks n bs" using Cons.prems by (auto split: if_splits)
    then have r: "n \<le> r" "r - n < length (concat bs)" using False Cons.prems(3) by simp_all
    have "r div n = Suc ((r - n) div n)" "r mod n = (r - n) mod n"
      using r(1) Cons.prems(2) by (simp_all add: le_div_geq le_mod_geq)
    then show ?thesis using Cons.IH [OF b(2) Cons.prems(2) r(2)] r b(1) by (simp add: nth_append)
  qed
qed simp

text \<open>Bytes that are on the tapes stay there when the tapes grow.\<close>

definition tapes_grow :: "tape_image \<Rightarrow> tape_image \<Rightarrow> bool" where
  "tapes_grow t t' \<longleftrightarrow> (\<forall>p \<in> {0, 1}. \<exists>more. items t' p = items t p @ more)"

lemma label_only:
  assumes "label vol' = label vol"
  shows "ltfs_part_id2num q vol' = ltfs_part_id2num q vol" "byte_stored vol' t letter addr = byte_stored vol t letter addr"
    "tape_byte vol' t letter addr = tape_byte vol t letter addr" "file_stored vol' t es = file_stored vol t es"
    "file_byte vol' t es x = file_byte vol t es x"
proof -
  show q: "ltfs_part_id2num q vol' = ltfs_part_id2num q vol" for q using assms by (simp add: ltfs_part_id2num_def)
  show b: "byte_stored vol' t letter addr = byte_stored vol t letter addr" for letter addr
    using assms by (simp add: byte_stored_def q ltfs_dp_id_def ltfs_ip_id_def)
  show tb: "tape_byte vol' t letter addr = tape_byte vol t letter addr" for letter addr
    using assms by (simp add: tape_byte_def q split: tape_item.splits)
  show "file_stored vol' t es = file_stored vol t es" using assms b by (simp add: file_stored_def)
  show "file_byte vol' t es x = file_byte vol t es x" using assms tb by (simp add: file_byte_def split: option.splits)
qed

lemma byte_stored_grow:
  assumes "byte_stored vol t letter addr" "tapes_grow t t'" "volume_ok vol"
  shows "byte_stored vol t' letter addr" "tape_byte vol t' letter addr = tape_byte vol t letter addr"
proof -
  let ?p = "ltfs_part_id2num letter vol" and ?n = "unat (lbl_blocksize (label vol))"
  have letter: "letter = ltfs_dp_id vol \<or> letter = ltfs_ip_id vol" and inside: "addr div ?n < length (items t ?p)"
    using assms(1) by (simp_all add: byte_stored_def Let_def)
  have "?p = 0 \<or> ?p = 1" by (rule volume_ok_partition(1) [OF assms(3) letter])
  then obtain more where more: "items t' ?p = items t ?p @ more" using assms(2) by (auto simp: tapes_grow_def)
  have "items t' ?p ! (addr div ?n) = items t ?p ! (addr div ?n)" using more inside by (simp add: nth_append)
  then show "byte_stored vol t' letter addr" "tape_byte vol t' letter addr = tape_byte vol t letter addr"
    using assms(1) more by (simp_all add: byte_stored_def tape_byte_def Let_def)
qed

text \<open>A file that was stored and gets an extent of new blocks.\<close>

lemma new_extent_bytes:
  assumes "file_stored vol t es" "tapes_grow t t'" "volume_ok vol" "prt = ltfs_dp_id vol \<or> prt = ltfs_ip_id vol"
    and "items t' (ltfs_part_id2num prt vol) = items t (ltfs_part_id2num prt vol) @ map Data bs"
    and "full_blocks (unat (lbl_blocksize (label vol))) bs" "0 < unat (lbl_blocksize (label vol))" "concat bs = buf"
    and "start_partition ext = prt" "unat (start_block ext) = length (items t (ltfs_part_id2num prt vol))"
    and "byteoffset ext = 0" "ext_len ext = length buf"
    and "file_map (ucast (lbl_blocksize (label vol))) es' =
      file_map (ucast (lbl_blocksize (label vol))) es ++ ext_map (ucast (lbl_blocksize (label vol))) ext"
  shows "file_stored vol t' es'"
    "file_byte vol t' es' x = (if ext_lo ext \<le> x \<and> x < ext_hi ext then buf ! (x - ext_lo ext) else file_byte vol t es x)"
proof -
  let ?n = "unat (lbl_blocksize (label vol))" and ?p = "ltfs_part_id2num prt vol"
  let ?m = "length (items t ?p)"
  have new: "byte_stored vol t' prt (?m * ?n + r) \<and> tape_byte vol t' prt (?m * ?n + r) = buf ! r"
    if "r < length buf" for r
  proof -
    have "(?m * ?n + r) div ?n = ?m + r div ?n" "(?m * ?n + r) mod ?n = r mod ?n"
      using assms(7) by simp_all
    moreover have "r div ?n < length bs \<and> r mod ?n < length (bs ! (r div ?n)) \<and> length (bs ! (r div ?n)) \<le> ?n \<and>
        bs ! (r div ?n) ! (r mod ?n) = buf ! r"
      using full_blocks_nth [OF assms(6,7), of r] assms(8) that by simp
    ultimately show ?thesis
      using assms(4,5) by (simp add: byte_stored_def tape_byte_def Let_def nth_append)
  qed
  have at: "ext_map (ucast (lbl_blocksize (label vol))) ext y =
      (if ext_lo ext \<le> y \<and> y < ext_hi ext then Some (prt, ?m * ?n + (y - ext_lo ext)) else None)" for y
    using assms(9-11) by (simp add: ext_map_def ext_addr_def)
  have new': "byte_stored vol t' prt (?m * ?n + (y - ext_lo ext)) \<and>
      tape_byte vol t' prt (?m * ?n + (y - ext_lo ext)) = buf ! (y - ext_lo ext)"
    if "ext_lo ext \<le> y" "y < ext_hi ext" for y
    using that assms(12) by (intro new) (simp add: ext_hi_def less_diff_conv2)
  show "file_stored vol t' es'"
    unfolding file_stored_def
  proof (intro allI impI)
    fix y letter addr assume "file_map (ucast (lbl_blocksize (label vol))) es' y = Some (letter, addr)"
    then consider "ext_map (ucast (lbl_blocksize (label vol))) ext y = Some (letter, addr)"
      | "file_map (ucast (lbl_blocksize (label vol))) es y = Some (letter, addr)"
      unfolding assms(13) map_add_Some_iff by blast
    then show "byte_stored vol t' letter addr"
    proof cases
      case 1
      then have "ext_lo ext \<le> y" "y < ext_hi ext" "letter = prt" "addr = ?m * ?n + (y - ext_lo ext)"
        using at [of y] by (auto split: if_splits)
      then show ?thesis using new' by blast
    next
      case 2
      then show ?thesis using assms(1) byte_stored_grow(1) [OF _ assms(2,3)] by (simp add: file_stored_def)
    qed
  qed
  have old: "file_byte vol t' es x = file_byte vol t es x"
    using assms(1) byte_stored_grow(2) [OF _ assms(2,3)]
    by (auto simp: file_byte_def file_stored_def split: option.splits)
  show "file_byte vol t' es' x = (if ext_lo ext \<le> x \<and> x < ext_hi ext then buf ! (x - ext_lo ext) else file_byte vol t es x)"
  proof (cases "ext_lo ext \<le> x \<and> x < ext_hi ext")
    case True
    then have "file_map (ucast (lbl_blocksize (label vol))) es' x = Some (prt, ?m * ?n + (x - ext_lo ext))"
      using at [of x] unfolding assms(13) by (simp add: map_add_def)
    then have "file_byte vol t' es' x = tape_byte vol t' prt (?m * ?n + (x - ext_lo ext))"
      by (simp add: file_byte_def)
    then show ?thesis using True new' by metis
  next
    case False
    then have "file_map (ucast (lbl_blocksize (label vol))) es' x = file_map (ucast (lbl_blocksize (label vol))) es x"
      using at [of x] unfolding assms(13) by (auto simp: map_add_def)
    then have "file_byte vol t' es' x = file_byte vol t' es x" by (simp add: file_byte_def)
    then show ?thesis using False old by metis
  qed
qed

context volume_drive
begin

lemma write_blocks_ready:
  assumes "ready dev t" "calm dev" "writable dev (head_part t)"
    and "0 < n" "n \<le> block_limit t" "n \<le> unat (dev_max_block_size dev)"
    and "has_room t (head_part t) (head_block t + Suc (length buf div n))"
    and "head_block t + Suc (length buf div n) < 2 ^ 64 - 1"
  shows "\<exists>bs dev'. write_blocks n ip buf dev = Some (0, dev') \<and> full_blocks n bs \<and> concat bs = buf \<and>
    ready dev' (img_blocks bs t) \<and> calm dev' \<and> same_elsewhere (head_part t) dev dev' \<and>
    (bs \<noteq> [] \<longrightarrow> append_pos dev' (head_part t) = of_nat (head_block t + length bs))"
  using assms
proof (induction "length buf" arbitrary: buf dev t rule: less_induct)
  case less
  show ?case
  proof (cases "buf = []")
    case True
    then show ?thesis using less.prems
      by (intro exI [of _ "[]"] exI [of _ dev]) (subst write_blocks.simps, simp)
  next
    case False
    let ?b = "take n buf" and ?rest = "drop n buf"
    have b: "?b \<noteq> []" "length ?b \<le> n" using False less.prems(4) by simp_all
    obtain dev1 where w: "tape_write ?b ip False True dev = (int (length ?b), dev1)"
      "ready dev1 (img_append (Data ?b) t)" "calm dev1" "same_flags dev dev1"
      "append_pos dev1 = (append_pos dev)(head_part t := of_nat (Suc (head_block t)))"
      by (rule write_ready [OF less.prems(1-3) b(1), of ip False True])
         (use less.prems(5,6,8) b(2) has_room_mono [OF _ less.prems(7), of "Suc (head_block t)"] in auto)
    let ?t1 = "img_append (Data ?b) t"
    have t1: "head_part ?t1 = head_part t" "head_block ?t1 = Suc (head_block t)" "block_limit ?t1 = block_limit t"
      "has_room ?t1 p k = has_room t p k" for p k by (simp_all add: img_append_def has_room_def)
    show ?thesis
    proof (cases "?rest = []")
      case True
      then have "write_blocks n ip ?rest dev1 = Some (0, dev1)" by (subst write_blocks.simps) simp
      moreover have "?b = buf" using True by simp
      ultimately have "write_blocks n ip buf dev = Some (0, dev1)"
        using False w(1) True by (subst write_blocks.simps) simp
      then show ?thesis
        using w(2-5) b True same_elsewhere_update [OF w(4,5)]
        by (intro exI [of _ "[buf]"] exI [of _ dev1]) simp
    next
      case more: False
      have len: "length ?b = n" "length buf div n = Suc (length ?rest div n)"
        using more less.prems(4) by (simp_all add: le_div_geq)
      have "\<exists>bs dev'. write_blocks n ip ?rest dev1 = Some (0, dev') \<and> full_blocks n bs \<and> concat bs = ?rest \<and>
        ready dev' (img_blocks bs ?t1) \<and> calm dev' \<and> same_elsewhere (head_part ?t1) dev1 dev' \<and>
        (bs \<noteq> [] \<longrightarrow> append_pos dev' (head_part ?t1) = of_nat (head_block ?t1 + length bs))"
        by (rule less.hyps)
           (use less.prems(3-8) False w(2-4) t1 len same_flags_writable [OF w(4)] in \<open>simp_all add: same_flags_def\<close>)
      then obtain bs dev' where 2: "write_blocks n ip ?rest dev1 = Some (0, dev')" "full_blocks n bs" "concat bs = ?rest"
        "ready dev' (img_blocks bs ?t1)" "calm dev'" "same_elsewhere (head_part t) dev1 dev'"
        "bs \<noteq> [] \<longrightarrow> append_pos dev' (head_part t) = of_nat (Suc (head_block t) + length bs)"
        using t1 by auto
      have "bs \<noteq> []" using 2(3) more by auto
      moreover have "write_blocks n ip buf dev = Some (0, dev')"
        using False w(1) 2(1) by (subst write_blocks.simps) simp
      ultimately show ?thesis
        using 2 b len(1) same_elsewhere_trans [OF same_elsewhere_update [OF w(4,5)] 2(6)]
        by (intro exI [of _ "?b # bs"] exI [of _ dev']) simp
    qed
  qed
qed

lemma append_data_ready:
  assumes "ready (device vol) t" "calm (device vol)" "volume_ok vol" "prt = ltfs_dp_id vol \<or> prt = ltfs_ip_id vol"
    and "p = ltfs_part_id2num prt vol" "writable (device vol) p" "n = length (items t p)"
    and "append_pos (device vol) p = 0 \<or> append_pos (device vol) p = of_nat n"
    and "bsize = unat (lbl_blocksize (label vol))" "0 < bsize" "bsize \<le> block_limit t"
    and "bsize \<le> unat (dev_max_block_size (device vol))"
    and "has_room t p (n + Suc (length buf div bsize))" "n + Suc (length buf div bsize) < 2 ^ 64 - 1"
  shows "\<exists>bs dev'. append_data prt buf 1 vol = Some (0, Some (of_nat n), vol\<lparr>device := dev'\<rparr>) \<and>
    full_blocks bsize bs \<and> concat bs = buf \<and> calm dev' \<and> same_flags (device vol) dev' \<and>
    ready dev' (t\<lparr>items := (items t)(p := items t p @ map Data bs), head_part := p, head_block := n + length bs\<rparr>)"
proof -
  have p: "p = 0 \<or> p = 1" using volume_ok_partition(1) [OF assms(3,4)] assms(5) by simp
  let ?u = "prt = partid_ip (label vol)"
  have room: "has_room t p n" by (rule has_room_mono [OF _ assms(13)]) simp
  have n: "n = (if append_pos (device vol) p = 0 then length (items t p) else unat (append_pos (device vol) p))"
    using assms(7,8,14) by (auto simp: unat_of_nat)
  obtain dev1 where 1: "tape_seek_append_position p ?u (device vol) = (0, dev1)" "ready dev1 (img_at p n t)"
    "calm dev1" "same_flags (device vol) dev1"
    by (rule seek_append_ready [OF assms(1,2) p n _ room, of ?u]) (use assms(7) in simp_all)
  have pos: "block (position dev1) = of_nat n" using ready_position [OF 1(2)] by simp
  let ?ip = "ltfs_part_id2num (ltfs_ip_id vol) vol = partition (position dev1)"
  have "\<exists>bs dev'. write_blocks bsize ?ip buf dev1 = Some (0, dev') \<and> full_blocks bsize bs \<and> concat bs = buf \<and>
    ready dev' (img_blocks bs (img_at p n t)) \<and> calm dev' \<and> same_elsewhere (head_part (img_at p n t)) dev1 dev' \<and>
    (bs \<noteq> [] \<longrightarrow> append_pos dev' (head_part (img_at p n t)) = of_nat (head_block (img_at p n t) + length bs))"
    by (rule write_blocks_ready [OF 1(2,3)])
       (use assms(6,10-14) same_flags_writable [OF 1(4)] 1(4) in \<open>simp_all add: same_flags_def has_room_def\<close>)
  then obtain bs dev' where 2: "write_blocks bsize ?ip buf dev1 = Some (0, dev')" "full_blocks bsize bs" "concat bs = buf"
    "ready dev' (img_blocks bs (img_at p n t))" "calm dev'" "same_elsewhere p dev1 dev'" by auto
  have "img_blocks bs (img_at p n t) = t\<lparr>items := (items t)(p := items t p @ map Data bs), head_part := p,
      head_block := n + length bs\<rparr>"
    by (rule tape_image.equality) (use assms(7) in \<open>auto simp: img_blocks_items fun_eq_iff\<close>)
  moreover have "append_data prt buf 1 vol = Some (0, Some (of_nat n), vol\<lparr>device := dev'\<rparr>)"
    using 1(1) 2(1) pos assms(5,9) by (simp add: append_data_def on_device_def tape_get_position_def)
  ultimately show ?thesis
    using 2 same_flags_trans [OF 1(4) same_elsewhere_flags [OF 2(6)]]
    by (intro exI [of _ bs] exI [of _ dev']) simp
qed

lemma cache_valid_grow:
  assumes "cache_valid t vol" "tapes_grow t t'" "volume_ok vol"
  shows "cache_valid t' vol"
proof -
  let ?letter = "off_partition (last_pos vol)" and ?n = "unat (off_block (last_pos vol))"
  have grow: "items t' (ltfs_part_id2num ?letter vol) ! ?n = items t (ltfs_part_id2num ?letter vol) ! ?n \<and>
      ?n < length (items t' (ltfs_part_id2num ?letter vol))"
    if "?letter = ltfs_dp_id vol \<or> ?letter = ltfs_ip_id vol" "?n < length (items t (ltfs_part_id2num ?letter vol))"
  proof -
    have "ltfs_part_id2num ?letter vol = 0 \<or> ltfs_part_id2num ?letter vol = 1"
      by (rule volume_ok_partition(1) [OF assms(3) that(1)])
    then obtain more where "items t' (ltfs_part_id2num ?letter vol) = items t (ltfs_part_id2num ?letter vol) @ more"
      using assms(2) by (auto simp: tapes_grow_def)
    then show ?thesis using that(2) by (simp add: nth_append)
  qed
  then show ?thesis using assms(1) unfolding cache_valid_def Let_def by (metis (no_types, lifting))
qed

lemma fsraw_write_ready:
  fixes vol :: "'a ltfs_volume"
  defines "bsize \<equiv> unat (lbl_blocksize (label vol))"
  assumes "readable t vol" "reval vol = 0" "\<not> fence (device vol)" "ip_index_file_end vol"
    and "prt = ltfs_dp_id vol" "p = ltfs_part_id2num prt vol" "writable (device vol) p" "n = length (items t p)"
    and "append_pos (device vol) p = 0 \<or> append_pos (device vol) p = of_nat n"
    and "bsize \<le> block_limit t" "bsize \<le> unat (dev_max_block_size (device vol))"
    and "has_room t p (n + Suc (length buf div bsize))" "n + Suc (length buf div bsize) < 2 ^ 64 - 1"
    and "buf \<noteq> []" "0 \<le> offset" "nat offset + length buf + bsize \<le> 2 ^ 64"
    and "dentry_wf (ucast (lbl_blocksize (label vol))) d" "file_stored vol t (extentlist d)"
  shows "\<exists>d' vol' t'. ltfs_fsraw_write env True True d buf offset prt upd vol = Some (0, d', vol') \<and>
    readable t' vol' \<and> reval vol' = 0 \<and> \<not> fence (device vol') \<and> label vol' = label vol \<and>
    dentry_wf (ucast (lbl_blocksize (label vol))) d' \<and> file_stored vol' t' (extentlist d') \<and>
    unat (d_size d') = max (unat (d_size d)) (nat offset + length buf) \<and>
    (\<forall>x. file_byte vol' t' (extentlist d') x =
      (if nat offset \<le> x \<and> x < nat offset + length buf then buf ! (x - nat offset)
       else file_byte vol t (extentlist d) x))"
proof -
  note a = assms(2-)
  let ?dev1 = "(device vol)\<lparr>backend_mutex := True\<rparr>" and ?b64 = "ucast (lbl_blocksize (label vol)) :: u64"
  let ?vol2 = "vol\<lparr>device := ?dev1, dp_index_file_end := False\<rparr>"
  have ok: "volume_ok vol" "ready (device vol) t" "calm (device vol)" "0 < bsize" "cache_valid t vol"
    using a(1) by (simp_all add: readable_def bsize_def)
  have letters: "ltfs_dp_id vol \<noteq> ltfs_ip_id vol" using ok(1) by (simp add: volume_ok_def ltfs_dp_id_def ltfs_ip_id_def)
  have dev1: "ready (device ?vol2) t" "calm (device ?vol2)" "volume_ok ?vol2" "writable (device ?vol2) p"
    using ok(1-3) a(7) by (simp_all add: mounted_def calm_def volume_ok_def writable_cases)
  have "\<exists>bs dev'. append_data prt buf 1 ?vol2 = Some (0, Some (of_nat n), ?vol2\<lparr>device := dev'\<rparr>) \<and>
    full_blocks bsize bs \<and> concat bs = buf \<and> calm dev' \<and> same_flags (device ?vol2) dev' \<and>
    ready dev' (t\<lparr>items := (items t)(p := items t p @ map Data bs), head_part := p, head_block := n + length bs\<rparr>)"
    by (rule append_data_ready [OF dev1(1-3)]) (use dev1(4) a ok(4) in \<open>simp_all add: bsize_def\<close>)
  then obtain bs dev2 where 2: "append_data prt buf 1 ?vol2 = Some (0, Some (of_nat n), ?vol2\<lparr>device := dev2\<rparr>)"
    "full_blocks bsize bs" "concat bs = buf" "calm dev2" "same_flags ?dev1 dev2"
    "ready dev2 (t\<lparr>items := (items t)(p := items t p @ map Data bs), head_part := p, head_block := n + length bs\<rparr>)"
    by auto
  define t' where "t' = t\<lparr>items := (items t)(p := items t p @ map Data bs), head_part := p, head_block := n + length bs\<rparr>"
  let ?ext = "\<lparr>start_block = of_nat n, start_partition = prt, byteoffset = 0, bytecount = of_nat (length buf),
    fileoffset = of_int offset\<rparr>"
  let ?vol3 = "?vol2\<lparr>device := dev2\<lparr>backend_mutex := False\<rparr>\<rparr>"
  have ro: "tape_read_only p ?dev1 = 0" using dev1(4) by (simp add: writable_def)
  have unlocked: "fsraw_write_data_unlocked env prt buf 1 vol = Some (0, Some (of_nat n), ?vol3)"
    using a(3,4,5,6,14) letters 2(1) ro
    by (simp add: fsraw_write_data_unlocked_def on_device_def tape_device_lock_def Let_def
        ltfs_get_partition_readonly_def ltfs_write_index_conditional_def out_unlock_def NEED_REVAL_def
        IS_UNEXPECTED_MOVE_def tape_device_unlock_def)
  obtain r d' idx' where ins: "ltfs_fsraw_add_extent_unlocked True True (env_now env) d ?ext upd ?b64 (idx_flags (index vol)) = (r, d', idx')"
    by (rule prod_cases3)
  have off: "of_int offset = (of_nat (nat offset) :: u64)" using a(15) by (metis nat_0_le of_int_of_nat_eq)
  have small: "nat offset < 2 ^ 64" "length buf < 2 ^ 64" using a(16) ok(4) by simp_all
  have ext: "ext_lo ?ext = nat offset" "ext_len ?ext = length buf" "ext_hi ?ext = nat offset + length buf"
    using off small by (simp_all add: ext_lo_def ext_len_def ext_hi_def unat_of_nat)
  have nu: "unat (of_nat n :: u64) = n" using a(13) by (simp add: unat_of_nat)
  have wf: "ext_wf ?b64 ?ext"
    using ok(4) u32_less_bound [of "lbl_blocksize (label vol)"] a(13,16) ext nu
    by (simp add: ext_wf_def bsize_def)
  have "r = 0 \<and> dentry_wf ?b64 d' \<and>
      file_map ?b64 (extentlist d') = file_map ?b64 (extentlist d) ++ ext_map ?b64 ?ext \<and>
      unat (d_size d') = max (unat (d_size d)) (ext_hi ?ext) \<and> idx_dirty idx'"
    by (rule add_extent_overrides' [OF a(17) wf ins]) simp
  then have add: "r = 0" "dentry_wf ?b64 d'" "unat (d_size d') = max (unat (d_size d)) (ext_hi ?ext)"
    "file_map ?b64 (extentlist d') = file_map ?b64 (extentlist d) ++ ext_map ?b64 ?ext" by simp_all
  let ?vol4 = "?vol3\<lparr>index := (index vol)\<lparr>idx_flags := idx'\<rparr>\<rparr>"
  have run: "ltfs_fsraw_write env True True d buf offset prt upd vol = Some (0, d', ?vol4)"
    using a(2) unlocked ins add(1)
    by (subst ltfs_fsraw_write.simps)
       (simp add: ltfs_get_volume_lock_def NEED_REVAL_def IS_UNEXPECTED_MOVE_def save_extent_def)
  have grow: "tapes_grow t t'" by (auto simp: tapes_grow_def t'_def)
  have items: "items t' p = items t p @ map Data bs" by (simp add: t'_def)
  have letter: "prt = ltfs_dp_id vol \<or> prt = ltfs_ip_id vol" using a(5) by simp
  note bytes = new_extent_bytes [OF a(18) grow ok(1) letter items [unfolded a(6)] 2(2) [unfolded bsize_def]
      ok(4) [unfolded bsize_def] 2(3)]
  have stored: "file_stored vol t' (extentlist d')"
    by (rule bytes(1) [OF _ _ _ _ add(4)]) (use ext nu a(6,8) in simp_all)
  have content: "file_byte vol t' (extentlist d') x = (if nat offset \<le> x \<and> x < nat offset + length buf
      then buf ! (x - nat offset) else file_byte vol t (extentlist d) x)" for x
    using bytes(2) [OF _ _ _ _ add(4), of x] ext nu a(6,8) by simp
  have room: "has_room t' q (length (items t' q))" if "q = 0 \<or> q = 1" for q
  proof (cases "q = p")
    case True
    have "length bs \<le> Suc (length buf div bsize)" using full_blocks_length [OF 2(2) ok(4)] 2(3) by simp
    then have "has_room t p (length (items t' p))"
      by (intro has_room_mono [OF _ a(12)]) (simp add: t'_def a(8))
    then show ?thesis using True by (simp add: has_room_def t'_def)
  next
    case False
    then show ?thesis using a(1) that by (auto simp: readable_def has_room_def t'_def)
  qed
  have "cache_valid t' vol" by (rule cache_valid_grow [OF ok(5) grow ok(1)])
  then have "cache_valid t' ?vol4" by (simp add: cache_valid_def Let_def split: tape_item.splits)
  moreover have "ready (device ?vol4) t'" using 2(6) by (simp add: mounted_def t'_def)
  ultimately have "readable t' ?vol4"
    using a(1) 2(4) room ok(1) by (simp add: readable_def calm_def cache_allocated_def volume_ok_def)
  moreover have "reval ?vol4 = 0" "\<not> fence (device ?vol4)" "label ?vol4 = label vol"
    using a(2,3) 2(5) by (simp_all add: same_flags_def)
  ultimately show ?thesis
    using run add(2,3) stored content ext(3) label_only [of ?vol4 vol]
    by (intro exI [of _ d'] exI [of _ ?vol4] exI [of _ t']) simp
qed

end

end
