(* ===== verification/FileVolume.thy ===== *)
theory FileVolume imports FileBackend FsRawSpec begin

text \<open>
  The volume operations over the file backend: the interpretation of \<open>volume_drive\<close> on the table
  of the file backend and the properties of writing an index.
\<close>

lemma read_attribute_quiet:
  assumes "no_faults s"
  shows "\<exists>r buf s'. filedebug_read_attribute p a n s = (r, buf, s') \<and> (\<forall>t. represents s' t = represents s t) \<and>
    (\<forall>pos. mirrors pos s' = mirrors pos s)"
  using assms by (auto simp: filedebug_read_attribute_def quiet split: prod.splits option.splits)

interpretation fdv: volume_drive filedebug_handler represents mirrors
proof (unfold_locales, goal_cases)
  case (1 b t pos)
  then show ?case using representsD(2) [OF 1(1)] by (simp add: filedebug_handler_def filedebug_writefm_def)
next
  case (2 b t pos p a n)
  obtain r buf b' where "filedebug_read_attribute p a n b = (r, buf, b')" "represents b' t" "mirrors pos b'"
    using read_attribute_quiet [OF representsD(1) [OF 2(1)], of p a n] 2 by blast
  then show ?case by (simp add: filedebug_handler_def)
next
  case (3 b t pos nm a bc lk)
  then show ?case by (simp add: filedebug_handler_def filedebug_update_mam_attr_def)
qed

section \<open>What an index needs\<close>

text \<open>Where the next index of a partition goes, and that its document fits there.\<close>

definition append_block :: "'b device_data \<Rightarrow> tape_image \<Rightarrow> u32 \<Rightarrow> nat" where
  "append_block dev t p = (if append_pos dev p = 0 then length (items t p) else unat (append_pos dev p))"

definition index_fits :: "tape_image \<Rightarrow> u32 \<Rightarrow> nat \<Rightarrow> u8 list list \<Rightarrow> nat \<Rightarrow> bool" where
  "index_fits t p n pieces bsize \<longleftrightarrow>
     n \<le> length (items t p) \<and> list_all (\<lambda>piece. length piece < 2 ^ 31) pieces \<and>
     has_room t p (n + length (concat pieces) div bsize + 3) \<and>
     n + length (concat pieces) div bsize + 3 < 2 ^ 64 - 1"

definition block_size_ok :: "'b ltfs_volume \<Rightarrow> tape_image \<Rightarrow> bool" where
  "block_size_ok vol t \<longleftrightarrow>
     (let n = unat (lbl_blocksize (label vol))
      in 0 < n \<and> n \<le> block_limit t \<and> n \<le> unat (dev_max_block_size (device vol)) \<and> n < 2 ^ 31)"

text \<open>
  A mounted volume on the sample directory: partition 0 has the letter a and is the index
  partition, partition 1 has the letter b; the index is dirty and nothing has been written yet.
\<close>

definition sample_label :: ltfs_label where
  "sample_label = \<lparr>lbl_blocksize = 4, partid_dp = CHR ''b'', partid_ip = CHR ''a'',
     part_num2id = (\<lambda>n. if n = 0 then CHR ''a'' else CHR ''b''), lbl_uuid = replicate 37 65\<rparr>"

definition sample_idx :: ltfs_index where
  "sample_idx = \<lparr>idx_flags = sample_index\<lparr>idx_dirty := True\<rparr>, generation = 1, mod_time = sample_time,
     selfptr = \<lparr>off_block = 5, off_partition = CHR ''a''\<rparr>, backptr = \<lparr>off_block = 9, off_partition = CHR ''b''\<rparr>,
     idx_creator = None, dcache_generation = 0\<rparr>"

definition sample_coherency :: tc_coherency where
  "sample_coherency = \<lparr>volume_change_ref = 0, coh_count = 0, set_id = 0, uuid = replicate 37 0, version = 1\<rparr>"

definition sample_volume :: "filedebug_data ltfs_volume" where
  "sample_volume = \<lparr>device = sample_mounted, label = sample_label, index = sample_idx,
     ip_coh = sample_coherency, dp_coh = sample_coherency,
     mam_attr = \<lparr>appl_vendor = None, appl_name = None, appl_ver = None, appl_format_ver = None,
       volume_name = None, barcode = None, volumelockstate = UNLOCKED_MAM\<rparr>,
     ip_index_file_end = False, dp_index_file_end = False,
     last_pos = \<lparr>off_block = 0, off_partition = CHR 0x00\<rparr>, last_size = 0, last_block = None,
     reval = 0, kmi_handle = None, creator = ''LTFS''\<rparr>"

definition sample_document :: "string \<Rightarrow> ltfs_index \<Rightarrow> u8 list list" where
  "sample_document title idx = [[1, 2, 3], [ucast (generation idx), 9]]"

lemmas sample_volume_defs = sample_volume_def sample_label_def sample_idx_def sample_coherency_def
  sample_index_def

lemma sample_volume_ready:
  "mounted filedebug_handler represents mirrors (device sample_volume) sample_image"
  "calm (device sample_volume)" "volume_ok sample_volume" "block_size_ok sample_volume sample_image"
  "writable (device sample_volume) p" "append_pos (device sample_volume) p = 0"
  "ltfs_dp_id sample_volume = CHR ''b''" "ltfs_ip_id sample_volume = CHR ''a''"
  "ltfs_part_id2num CHR ''a'' sample_volume = 0" "ltfs_part_id2num CHR ''b'' sample_volume = 1"
  "dp_index_needed sample_volume" "ltfs_is_dirty sample_volume"
proof -
  have dev: "device sample_volume = sample_mounted" by (simp add: sample_volume_def)
  show "mounted filedebug_handler represents mirrors (device sample_volume) sample_image"
    "calm (device sample_volume)" "writable (device sample_volume) p"
    "append_pos (device sample_volume) p = 0"
    using sample_mounted_ready(1,2) sample_mounted_ready(3,4) [of p] by (simp_all add: dev)
  show "volume_ok sample_volume" by (simp add: volume_ok_def sample_volume_defs)
  show "block_size_ok sample_volume sample_image"
    by (simp add: block_size_ok_def dev sample_image_def sample_mounted_def) (simp add: sample_volume_defs)
qed (simp_all add: sample_volume_defs ltfs_dp_id_def ltfs_ip_id_def ltfs_part_id2num_def dp_index_needed_def
    ltfs_is_dirty_def)

lemma sample_document_fits: "length (items sample_image p) = n \<Longrightarrow> n \<le> 2 \<Longrightarrow>
    index_fits sample_image p n (sample_document title idx) 4"
  by (simp add: index_fits_def sample_document_def has_room_def in_zone_def sample_image_def)

section \<open>Properties\<close>

text \<open>
  C17: Asked for an index on the index partition while the data partition has none that is current,
  \<open>ltfs_write_index\<close> writes both: each partition keeps what precedes its append position and
  then has the document of its own index between two filemarks. The generation has grown by one
  if the index was dirty, the index points to its place on the index partition and back to the
  one on the data partition, and it is clean.
\<close>

theorem write_index_both:
  assumes "mounted filedebug_handler represents mirrors (device vol) t" "calm (device vol)"
    and "volume_ok vol" "block_size_ok vol t" "dp_index_needed vol"
    and "dp = ltfs_dp_id vol" "ip = ltfs_ip_id vol"
    and "pd = ltfs_part_id2num dp vol" "pi = ltfs_part_id2num ip vol"
    and "writable (device vol) pd" "writable (device vol) pi"
    and "nd = append_block (device vol) t pd" "ni = append_block (device vol) t pi"
    and "idx1 = next_index now dp nd vol"
    and "idx2 = (settle_index (ltfs_is_dirty vol) (idx1\<lparr>idx_creator := Some (creator vol)\<rparr>))
      \<lparr>backptr := selfptr idx1, selfptr := \<lparr>off_block = of_nat ni + 1, off_partition = ip\<rparr>\<rparr>"
    and "title = creator vol @ '' - '' @ reason" "bsize = unat (lbl_blocksize (label vol))"
    and "index_fits t pd nd (document title idx1) bsize" "index_fits t pi ni (document title idx2) bsize"
  shows "\<exists>vol' bs1 bs2. ltfs_write_index document True now ip reason vol = Some (0, vol') \<and>
    concat bs1 = concat (document title idx1) \<and> concat bs2 = concat (document title idx2) \<and>
    mounted filedebug_handler represents mirrors (device vol')
      (t\<lparr>items := (items t)(pd := take nd (items t pd) @ index_file bs1,
                            pi := take ni (items t pi) @ index_file bs2),
         head_part := pi, head_block := ni + length bs2 + 2\<rparr>) \<and>
    generation (index vol') = generation (index vol) + (if ltfs_is_dirty vol then 1 else 0) \<and>
    selfptr (index vol') = \<lparr>off_block = of_nat ni + 1, off_partition = ip\<rparr> \<and>
    backptr (index vol') = \<lparr>off_block = of_nat nd + 1, off_partition = dp\<rparr> \<and>
    \<not> ltfs_is_dirty vol' \<and> dp_index_file_end vol' \<and> ip_index_file_end vol'"
proof -
  have len: "\<forall>piece \<in> set (document title idx1) \<union> set (document title idx2). length piece < 2 ^ 31"
    using assms(18,19) by (auto simp: index_fits_def list_all_iff)
  have pd: "pd = ltfs_part_id2num (ltfs_dp_id vol) vol" and pi: "pi = ltfs_part_id2num (ltfs_ip_id vol) vol"
    using assms(6-9) by simp_all
  have n: "nd = (if append_pos (device vol) pd = 0 then length (items t pd) else unat (append_pos (device vol) pd))"
    "ni = (if append_pos (device vol) pi = 0 then length (items t pi) else unat (append_pos (device vol) pi))"
    using assms(12,13) by (simp_all only: append_block_def)
  have bsize: "0 < unat (lbl_blocksize (label vol))" "unat (lbl_blocksize (label vol)) \<le> block_limit t"
    "unat (lbl_blocksize (label vol)) \<le> unat (dev_max_block_size (device vol))"
    "unat (lbl_blocksize (label vol)) < 2 ^ 31"
    using assms(4) by (simp_all add: block_size_ok_def Let_def)
  have docs: "document title idx1 = document (creator vol @ '' - '' @ reason) (next_index now (ltfs_dp_id vol) nd vol)"
    "document title idx2 = document (creator vol @ '' - '' @ reason) idx2"
    using assms(6,14,16) by simp_all
  have idx2: "idx2 = (settle_index (ltfs_is_dirty vol) ((next_index now (ltfs_dp_id vol) nd vol)\<lparr>idx_creator := Some (creator vol)\<rparr>))
      \<lparr>backptr := selfptr ((next_index now (ltfs_dp_id vol) nd vol)\<lparr>idx_creator := Some (creator vol)\<rparr>),
       selfptr := \<lparr>off_block = of_nat ni + 1, off_partition = ltfs_ip_id vol\<rparr>\<rparr>"
    using assms(6,7,14,15) by simp
  have fits: "nd \<le> length (items t pd)"
    "has_room t pd (nd + length (concat (document title idx1)) div unat (lbl_blocksize (label vol)) + 3)"
    "nd + length (concat (document title idx1)) div unat (lbl_blocksize (label vol)) + 3 < 2 ^ 64 - 1"
    "ni \<le> length (items t pi)"
    "has_room t pi (ni + length (concat (document title idx2)) div unat (lbl_blocksize (label vol)) + 3)"
    "ni + length (concat (document title idx2)) div unat (lbl_blocksize (label vol)) + 3 < 2 ^ 64 - 1"
    using assms(17-19) by (simp_all add: index_fits_def)
  have "\<exists>bs1 bs2 vol'. ltfs_write_index document True now (ltfs_ip_id vol) reason vol = Some (0, vol') \<and>
    full_blocks (unat (lbl_blocksize (label vol))) bs1 \<and> concat bs1 = concat (document title idx1) \<and>
    full_blocks (unat (lbl_blocksize (label vol))) bs2 \<and> concat bs2 = concat (document title idx2) \<and>
    fd.ready (device vol') (t\<lparr>items := (items t)(pd := take nd (items t pd) @ index_file bs1,
        pi := take ni (items t pi) @ index_file bs2), head_part := pi, head_block := ni + length bs2 + 2\<rparr>) \<and>
    calm (device vol') \<and> same_flags (device vol) (device vol') \<and>
    append_pos (device vol') pd = of_nat (nd + length bs1 + 2) \<and> append_pos (device vol') pi = of_nat ni \<and>
    index vol' = settle_index False (idx2\<lparr>idx_creator := Some (creator vol)\<rparr>) \<and>
    dp_index_file_end vol' \<and> ip_index_file_end vol' \<and> volume_ok vol' \<and> label vol' = label vol"
    by (rule fdv.write_both_ready [where document = document and reason = reason and now = now, OF assms(1-3,5) pd pi assms(10,11) n(1,2) fits(1,4) refl idx2 docs bsize
          len fits(2,5,3,6)])
  then obtain bs1 bs2 vol' where r: "ltfs_write_index document True now ip reason vol = Some (0, vol')"
    "concat bs1 = concat (document title idx1)" "concat bs2 = concat (document title idx2)"
    "fd.ready (device vol') (t\<lparr>items := (items t)(pd := take nd (items t pd) @ index_file bs1,
        pi := take ni (items t pi) @ index_file bs2), head_part := pi, head_block := ni + length bs2 + 2\<rparr>)"
    "index vol' = settle_index False (idx2\<lparr>idx_creator := Some (creator vol)\<rparr>)"
    "dp_index_file_end vol'" "ip_index_file_end vol'"
    using assms(7) by blast
  have "\<not> ltfs_is_dirty vol'" using r(5) by (simp add: ltfs_is_dirty_def)
  moreover have "generation (index vol') = generation (index vol) + (if ltfs_is_dirty vol then 1 else 0)"
    "selfptr (index vol') = \<lparr>off_block = of_nat ni + 1, off_partition = ip\<rparr>"
    "backptr (index vol') = \<lparr>off_block = of_nat nd + 1, off_partition = dp\<rparr>"
    using r(5) assms(14,15) by simp_all
  ultimately show ?thesis using r by blast
qed

theorem write_index_both_witness:
  "\<exists>vol'. ltfs_write_index sample_document True sample_time CHR ''a'' ''Sync'' sample_volume = Some (0, vol') \<and>
    generation (index vol') = 2 \<and> selfptr (index vol') = \<lparr>off_block = 3, off_partition = CHR ''a''\<rparr> \<and>
    backptr (index vol') = \<lparr>off_block = 1, off_partition = CHR ''b''\<rparr> \<and> \<not> ltfs_is_dirty vol'"
proof -
  have len: "append_block (device sample_volume) sample_image 0 = 2"
    "append_block (device sample_volume) sample_image 1 = 0"
    using sample_volume_ready(6) by (simp_all add: append_block_def sample_image_def sample_record)
  have fits: "index_fits sample_image 0 2 (sample_document title idx) (unat (lbl_blocksize (label sample_volume)))"
    "index_fits sample_image 1 0 (sample_document title idx) (unat (lbl_blocksize (label sample_volume)))" for title idx
    using sample_document_fits [of 0 2] sample_document_fits [of 1 0]
    by (simp_all add: sample_volume_defs) (simp_all add: sample_image_def sample_record)
  have gen: "generation (index sample_volume) = 1" by (simp add: sample_volume_defs)
  note sv = sample_volume_ready
  show ?thesis
    using write_index_both [where document = sample_document and now = sample_time and reason = "''Sync''",
        OF sv(1-4,11) sv(7,8) [symmetric] sv(10,9) [symmetric] sv(5,5) len(2,1) [symmetric]
          refl refl refl refl fits(2,1)] sv(12) gen
    by auto
qed

text \<open>
  C18: An index that was written is found where the index says: a seek to the block of \<open>selfptr\<close> on
  its partition, and reading from there, give the document of this index byte for byte up to what
  is asked for.
\<close>

theorem index_found_at_selfptr:
  assumes "mounted filedebug_handler represents mirrors (device vol) t" "calm (device vol)"
    and "volume_ok vol" "block_size_ok vol t" "\<not> (prt = ltfs_ip_id vol \<and> dp_index_needed vol)"
    and "prt = ltfs_dp_id vol \<or> prt = ltfs_ip_id vol" "p = ltfs_part_id2num prt vol"
    and "writable (device vol) (ltfs_part_id2num (ltfs_dp_id vol) vol)"
    and "writable (device vol) (ltfs_part_id2num (ltfs_ip_id vol) vol)"
    and "n = append_block (device vol) t p" "pieces = document (creator vol @ '' - '' @ reason) (next_index now prt n vol)"
    and "index_fits t p n pieces (unat (lbl_blocksize (label vol)))"
    and "inp = \<lparr>current_pos = of_nat n + 1, eod_pos = 0, saw_small_block = False, saw_file_mark = False,
      in_size = lbl_blocksize (label vol), in_buf = [], in_blocksize = lbl_blocksize (label vol), in_kmi = kmi\<rparr>"
  shows "\<exists>vol' dev1 inp' dev2. ltfs_write_index document True now prt reason vol = Some (0, vol') \<and>
    \<not> ltfs_is_dirty vol' \<and>
    tape_seek (seek_to (ltfs_part_id2num (off_partition (selfptr (index vol'))) vol')
      (off_block (selfptr (index vol')))) (device vol') = (0, dev1) \<and>
    read_pieces True lens inp dev1 = Some (take (sum_list lens) (concat pieces), inp', dev2)"
proof -
  let ?n = "unat (lbl_blocksize (label vol))"
  have size: "0 < ?n" "?n \<le> block_limit t" "?n \<le> unat (dev_max_block_size (device vol))" "?n < 2 ^ 31"
    using assms(4) by (simp_all add: block_size_ok_def Let_def)
  have app: "n = (if append_pos (device vol) p = 0 then length (items t p) else unat (append_pos (device vol) p))"
    using assms(10) by (simp only: append_block_def)
  have fits: "n \<le> length (items t p)" "\<forall>piece \<in> set pieces. length piece < 2 ^ 31"
    "has_room t p (n + length (concat pieces) div ?n + 3)" "n + length (concat pieces) div ?n + 3 < 2 ^ 64 - 1"
    using assms(12) by (simp_all add: index_fits_def list_all_iff)
  have w: "writable (device vol) p" using assms(6-9) by auto
  let ?v = "if prt = ltfs_ip_id vol then vol\<lparr>ip_index_file_end := True\<rparr> else vol\<lparr>dp_index_file_end := True\<rparr>"
  let ?idx = "settle_index (ltfs_is_dirty vol) ((next_index now prt n vol)\<lparr>idx_creator := Some (creator vol)\<rparr>)"
  obtain bs c d m dev' where 1: "write_index_here document True now prt reason vol =
      Some (0, ?v\<lparr>ip_coh := c, dp_coh := d, mam_attr := m, device := dev', index := ?idx\<rparr>)"
    "full_blocks ?n bs" "concat bs = concat pieces"
    "fd.ready dev' (t\<lparr>items := (items t)(p := take n (items t p) @ index_file bs), head_part := p,
                  head_block := n + length bs + 2\<rparr>)" "calm dev'"
    using fdv.write_index_here_ready [where document = document and reason = reason and now = now,
        OF assms(1-3,6,7) w app fits(1) assms(11) size fits(2-4)] by blast
  let ?t = "t\<lparr>items := (items t)(p := take n (items t p) @ index_file bs), head_part := p,
    head_block := n + length bs + 2\<rparr>"
  let ?vol' = "?v\<lparr>ip_coh := c, dp_coh := d, mam_attr := m, device := dev', index := ?idx\<rparr>"
  have "index_writable vol = 0" by (rule index_writable_ok) (rule assms(8,9))+
  then have run: "ltfs_write_index document True now prt reason vol = Some (0, ?vol')"
    using 1(1) by (simp add: ltfs_write_index_direct [OF assms(5)] Let_def)
  have room: "has_room ?t p (n + 1)"
    using has_room_mono [OF _ fits(3), of "n + 1"] by (simp add: has_room_def)
  have "\<exists>dev1. tape_seek (seek_to p (of_nat (n + 1))) dev' = (0, dev1) \<and> fd.ready dev1 (img_at p (n + 1) ?t) \<and>
    (\<exists>inp' dev2. read_pieces True lens inp dev1 = Some (take (sum_list lens) (concat bs), inp', dev2))"
    by (rule fds.read_document_ready [OF 1(4,5) _ room, where pre = "take n (items t p) @ [Filemark]" and post = "[]"])
       (use volume_ok_partition(1) [OF assms(3,6)] assms(7,13) fits(1) size 1(2) in \<open>simp_all add: index_file_def\<close>)
  then obtain dev1 inp' dev2 where r: "tape_seek (seek_to p (of_nat n + 1)) dev' = (0, dev1)"
    "read_pieces True lens inp dev1 = Some (take (sum_list lens) (concat pieces), inp', dev2)"
    using 1(3) by (auto simp: add.commute)
  have "device ?vol' = dev'" "selfptr (index ?vol') = \<lparr>off_block = of_nat n + 1, off_partition = prt\<rparr>"
    "ltfs_part_id2num prt ?vol' = p" "\<not> ltfs_is_dirty ?vol'"
    using assms(7) by (simp_all add: ltfs_is_dirty_def)
  then show ?thesis using run r by (intro exI [of _ ?vol'] exI [of _ dev1] exI [of _ inp'] exI [of _ dev2]) simp
qed

theorem index_found_at_selfptr_witness:
  "\<exists>vol' dev1 inp' dev2. ltfs_write_index sample_document True sample_time CHR ''b'' ''Sync'' sample_volume = Some (0, vol') \<and>
    tape_seek (seek_to (ltfs_part_id2num (off_partition (selfptr (index vol'))) vol')
      (off_block (selfptr (index vol')))) (device vol') = (0, dev1) \<and>
    read_pieces True [2, 8] \<lparr>current_pos = 1, eod_pos = 0, saw_small_block = False, saw_file_mark = False,
      in_size = 4, in_buf = [], in_blocksize = 4, in_kmi = None\<rparr> dev1 = Some ([1, 2, 3, 2, 9], inp', dev2)"
proof -
  note sv = sample_volume_ready
  have app: "append_block (device sample_volume) sample_image 1 = 0"
    using sv(6) by (simp add: append_block_def sample_image_def)
  have size: "lbl_blocksize (label sample_volume) = 4" by (simp add: sample_volume_defs)
  have fits: "index_fits sample_image 1 0 (sample_document title idx) (unat (lbl_blocksize (label sample_volume)))" for title idx
    using sample_document_fits [of 1 0] by (simp add: size) (simp add: sample_image_def)
  have gen: "generation (index sample_volume) = 1" by (simp add: sample_volume_defs)
  have direct: "\<not> (CHR ''b'' = ltfs_ip_id sample_volume \<and> dp_index_needed sample_volume)" using sv(8) by simp
  have letter: "CHR ''b'' = ltfs_dp_id sample_volume \<or> CHR ''b'' = ltfs_ip_id sample_volume" using sv(7) by simp
  show ?thesis
    using index_found_at_selfptr [where document = sample_document and now = sample_time and reason = "''Sync''"
        and lens = "[2, 8]" and kmi = None, OF sv(1-4) direct letter sv(10) [symmetric] sv(5,5) app [symmetric] refl fits refl]
      sv(12) gen size
    by (auto simp: sample_document_def)
qed

section \<open>On any drive\<close>

text \<open>
  C20: Whatever the drive answers, \<open>ltfs_write_index\<close> returns, if the block size is not 0 and the two
  partitions have different letters: its call for the data partition is the only one, and every
  document is written out in finitely many blocks.
\<close>

theorem index_write_returns:
  assumes "0 < unat (lbl_blocksize (label vol))" "ltfs_dp_id vol \<noteq> ltfs_ip_id vol"
  shows "\<exists>ret vol'. ltfs_write_index document memory now prt reason vol = Some (ret, vol') \<and> label vol' = label vol"
  by (rule write_index_ends [OF assms])

text \<open>A device whose drive fails to write filemarks.\<close>

definition broken_device :: "unit device_data" where
  "broken_device = (tape_device_alloc False)\<lparr>backend := Some
     (idle_ops\<lparr>op_writefm := (\<lambda>_ b pos. (- EDEV_WRITE_PERM, b, pos))\<rparr>, ())\<rparr>"

definition broken_volume :: "unit ltfs_volume" where
  "broken_volume = \<lparr>device = broken_device,
     label = sample_label, index = sample_idx, ip_coh = sample_coherency, dp_coh = sample_coherency,
     mam_attr = mam_attr sample_volume, ip_index_file_end = False, dp_index_file_end = False,
     last_pos = \<lparr>off_block = 0, off_partition = CHR 0x00\<rparr>, last_size = 0, last_block = None,
     reval = 0, kmi_handle = None, creator = ''LTFS''\<rparr>"

theorem index_write_returns_witness:
  "\<exists>ret vol'. ltfs_write_index sample_document True sample_time CHR ''a'' ''Sync'' broken_volume = Some (ret, vol') \<and>
    lbl_blocksize (label vol') = 4"
  using index_write_returns [where vol = broken_volume and document = sample_document and memory = True
      and now = sample_time and prt = "CHR ''a''" and reason = "''Sync''"]
  by (auto simp: broken_volume_def sample_label_def ltfs_dp_id_def ltfs_ip_id_def)

text \<open>
  C19: When the writing of an index fails, on any drive and wherever it fails, the index keeps its
  generation, its time, its pointers and its dirty flags: what is on the tape may have grown, but
  the volume still describes the index written before. That is the index before the call, or, when a write to the
  index partition was asked for and the index of the data partition was due and was written first, the index as this
  successful write left it.
\<close>

theorem failed_index_write_restores:
  assumes "0 < unat (lbl_blocksize (label vol))"
    and "prt = ltfs_ip_id vol \<and> dp_index_needed vol \<longrightarrow> ltfs_dp_id vol \<noteq> ltfs_ip_id vol"
    and "ltfs_write_index document memory now prt reason vol = Some (ret, vol')" "ret < 0"
  shows "\<exists>vol1. (vol1 = vol \<or> prt = ltfs_ip_id vol \<and> dp_index_needed vol \<and>
      ltfs_write_index document memory now (ltfs_dp_id vol) reason vol = Some (0, vol1)) \<and>
    generation (index vol') = generation (index vol1) \<and> mod_time (index vol') = mod_time (index vol1) \<and>
    selfptr (index vol') = selfptr (index vol1) \<and> backptr (index vol') = backptr (index vol1) \<and>
    idx_flags (index vol') = idx_flags (index vol1)"
  by (rule write_index_failed [OF assms]) (auto simp: restored_def)

lemma broken_device_run:
  "\<exists>dev1 dev2. tape_seek_append_position 1 False broken_device = (0, dev1) \<and>
     tape_write_filemark 1 True True dev1 = (- EDEV_WRITE_PERM, dev2)"
  by (simp add: broken_device_def idle_ops_def tape_device_alloc_def tape_seek_append_position_def tape_seek_def
      on_drive_def note_warnings_def seek_to_def tape_write_filemark_def Let_def)

lemma broken_volume_fields:
  "device broken_volume = broken_device" "ltfs_dp_id broken_volume = CHR ''b''"
  "ltfs_ip_id broken_volume = CHR ''a''" "partid_ip (label broken_volume) = CHR ''a''"
  "ltfs_part_id2num CHR ''b'' broken_volume = 1" "ltfs_part_id2num CHR ''a'' broken_volume = 0"
  "ltfs_is_dirty broken_volume" "0 < unat (lbl_blocksize (label broken_volume))"
  by (simp_all add: broken_volume_def ltfs_dp_id_def ltfs_ip_id_def ltfs_part_id2num_def sample_label_def
      ltfs_is_dirty_def sample_idx_def)

lemma broken_write:
  "\<exists>vol'. ltfs_write_index sample_document True sample_time CHR ''b'' ''Sync'' broken_volume = Some (- EDEV_WRITE_PERM, vol')"
proof -
  obtain dev1 dev2 where d: "tape_seek_append_position 1 False broken_device = (0, dev1)"
    "tape_write_filemark 1 True True dev1 = (- EDEV_WRITE_PERM, dev2)"
    using broken_device_run by blast
  have "index_writable broken_volume = 0"
    by (rule index_writable_ok)
      (simp_all add: broken_volume_fields writable_def tape_read_only_def broken_device_def tape_device_alloc_def)
  then show ?thesis
    using d by (simp add: ltfs_write_index_direct broken_volume_fields Let_def write_index_here_def
        on_device_def new_generation_def tape_get_position_def point_index_def)
qed

theorem failed_index_write_restores_witness:
  "\<exists>vol'. ltfs_write_index sample_document True sample_time CHR ''b'' ''Sync'' broken_volume =
      Some (- EDEV_WRITE_PERM, vol') \<and>
    generation (index vol') = 1 \<and> selfptr (index vol') = \<lparr>off_block = 5, off_partition = CHR ''a''\<rparr>"
proof -
  have direct: "\<not> (CHR ''b'' = ltfs_ip_id broken_volume \<and> dp_index_needed broken_volume)"
    by (simp add: broken_volume_fields)
  obtain vol' where run:
    "ltfs_write_index sample_document True sample_time CHR ''b'' ''Sync'' broken_volume = Some (- EDEV_WRITE_PERM, vol')"
    using broken_write by blast
  then show ?thesis
    using failed_index_write_restores [OF broken_volume_fields(8) _ run] direct
    by (auto simp: broken_volume_def sample_idx_def)
qed

end
