(* ===== verification/FileData.thy ===== *)
theory FileData imports FileVolume begin

text \<open>
  Reading and writing files on the file backend, and what holds of a failed write on any drive.
\<close>

section \<open>A sample file\<close>

text \<open>
  Three zero bytes, the two bytes of block 0 of the index partition, and a hole of two bytes at the
  end.
\<close>

definition sample_stored :: dentry where
  "sample_stored = sample_file\<lparr>extentlist := [\<lparr>start_block = 0, start_partition = CHR ''a'', byteoffset = 0,
       bytecount = 2, fileoffset = 3\<rparr>], realsize := 2, d_size := 7\<rparr>"

definition sample_env :: "filedebug_data fs_env" where
  "sample_env = \<lparr>env_document = sample_document, env_memory = True, env_now = sample_time,
     env_others = id, env_revalidate = (\<lambda>vol. (- LTFS_REVAL_FAILED, vol))\<rparr>"

lemma sample_readable: "fdv.readable sample_image sample_volume"
proof -
  have "has_room sample_image p k" for p k by (simp add: has_room_def in_zone_def sample_image_def)
  then show ?thesis
    using sample_volume_ready(1-3)
    by (simp add: fdv.readable_def) (simp add: sample_volume_defs cache_valid_def Let_def ltfs_dp_id_def ltfs_ip_id_def)
qed

lemma sample_stored_ready:
  "dentry_wf (ucast (lbl_blocksize (label sample_volume))) sample_stored"
  "file_stored sample_volume sample_image (extentlist sample_stored)"
  "reval sample_volume = 0" "\<not> fence (device sample_volume)"
proof -
  have "byte_stored sample_volume sample_image CHR ''a'' k" if "k < 2" for k
    using that by (simp add: byte_stored_def sample_volume_defs ltfs_part_id2num_def ltfs_ip_id_def
        sample_image_def sample_items_def)
  then show "file_stored sample_volume sample_image (extentlist sample_stored)"
    by (auto simp: file_stored_def sample_stored_def ext_map_def ext_addr_def ext_lo_def ext_hi_def
        ext_len_def less_diff_conv2)
qed (simp_all add: sample_stored_def sample_file_def sample_volume_defs dentry_wf_def exts_wf_def ext_wf_def
      ext_hi_def ext_lo_def ext_len_def total_bytes_def sample_mounted_def tape_device_alloc_def)

definition sample_ready :: "filedebug_data ltfs_volume" where
  "sample_ready = sample_volume\<lparr>ip_index_file_end := True\<rparr>"

lemma sample_ready_eqs [simp]:
  "device sample_ready = device sample_volume" "label sample_ready = label sample_volume"
  "reval sample_ready = reval sample_volume" "ip_index_file_end sample_ready"
  "ltfs_volume.last_block sample_ready = ltfs_volume.last_block sample_volume" "last_size sample_ready = last_size sample_volume"
  "ip_coh sample_ready = ip_coh sample_volume" "dp_coh sample_ready = dp_coh sample_volume" "last_pos sample_ready = last_pos sample_volume"
  "ltfs_part_id2num prt sample_ready = ltfs_part_id2num prt sample_volume"
  "ltfs_dp_id sample_ready = ltfs_dp_id sample_volume" "ltfs_ip_id sample_ready = ltfs_ip_id sample_volume"
  by (simp_all add: sample_ready_def ltfs_part_id2num_def ltfs_dp_id_def ltfs_ip_id_def)

section \<open>Volumes in use\<close>







section \<open>Properties\<close>




text \<open>
  C21: A write to a file succeeds when the blocks fit, and a later read anywhere in the file gives
  the bytes written within the range of the write and the bytes of the file before it
  everywhere else; the size is extended to the end of the write.
\<close>

theorem write_then_read:
  assumes "fdv.readable t vol" "reval vol = 0" "\<not> fence (device vol)" "ip_index_file_end vol"
    and "prt = ltfs_dp_id vol" "p = ltfs_part_id2num prt vol" "writable (device vol) p"
    and "append_pos (device vol) p = 0 \<or> append_pos (device vol) p = of_nat (length (items t p))"
    and "block_size_ok vol t" "bsize = unat (lbl_blocksize (label vol))"
    and "has_room t p (length (items t p) + Suc (length buf div bsize))"
    and "length (items t p) + Suc (length buf div bsize) < 2 ^ 64 - 1"
    and "buf \<noteq> []" "0 \<le> offset" "nat offset + length buf + bsize \<le> 2 ^ 64"
    and "dentry_wf (ucast (lbl_blocksize (label vol))) d" "file_stored vol t (extentlist d)"
    and "0 \<le> off" "nat off + count < 2 ^ 64" "count \<noteq> 0"
  shows "\<exists>d' vol' out d'' vol''. ltfs_fsraw_write env True True d buf offset prt upd vol = Some (0, d', vol') \<and>
    unat (d_size d') = max (unat (d_size d)) (nat offset + length buf) \<and>
    ltfs_fsraw_read env True d' count off vol' = Some (int (length out), out, d'', vol'') \<and>
    out = map (\<lambda>x. if nat offset \<le> x \<and> x < nat offset + length buf then buf ! (x - nat offset)
                   else file_byte vol t (extentlist d) x)
      [nat off..<min (nat off + count) (unat (d_size d'))]"
proof -
  have bs: "unat (lbl_blocksize (label vol)) \<le> block_limit t"
    "unat (lbl_blocksize (label vol)) \<le> unat (dev_max_block_size (device vol))"
    using assms(9) by (simp_all add: block_size_ok_def Let_def)
  obtain d' vol' t' where w: "ltfs_fsraw_write env True True d buf offset prt upd vol = Some (0, d', vol')"
    "fdv.readable t' vol'" "reval vol' = 0" "\<not> fence (device vol')" "label vol' = label vol"
    "dentry_wf (ucast (lbl_blocksize (label vol))) d'" "file_stored vol' t' (extentlist d')"
    "unat (d_size d') = max (unat (d_size d)) (nat offset + length buf)"
    "\<forall>x. file_byte vol' t' (extentlist d') x =
      (if nat offset \<le> x \<and> x < nat offset + length buf then buf ! (x - nat offset)
       else file_byte vol t (extentlist d) x)"
    using fdv.fsraw_write_ready [OF assms(1-7) refl assms(8) bs, of buf offset d env upd] assms(10-17) by blast
  have "\<forall>e \<in> set (extentlist d'). extent_stored vol' t' e"
    using file_stored_extents [OF w(7)] w(5,6) by (simp add: dentry_wf_def)
  then obtain out vol'' where "ltfs_fsraw_read env True d' count off vol' =
      Some (int (length out), out, d'\<lparr>access_time := env_now env\<rparr>, vol'')"
    "out = map (file_byte vol' t' (extentlist d')) [nat off..<min (nat off + count) (unat (d_size d'))]"
    using fdv.fsraw_read_ready [OF w(2-4) _ _ assms(18,19), of d' env] w(5,6) assms(20) by auto
  then show ?thesis using w(1,8,9)
    by (intro exI [of _ d'] exI [of _ vol'] exI [of _ out] exI [of _ "d'\<lparr>access_time := env_now env\<rparr>"] exI [of _ vol''])
      simp
qed

theorem write_then_read_witness:
  "\<exists>d' vol' out d'' vol''. ltfs_fsraw_write sample_env True True sample_stored [1, 2, 3, 4, 5] 4 CHR ''b'' True
      sample_ready = Some (0, d', vol') \<and> unat (d_size d') = 9 \<and>
    ltfs_fsraw_read sample_env True d' 20 2 vol' = Some (7, out, d'', vol'') \<and> out = [0, 7, 1, 2, 3, 4, 5]"
proof -
  note sr = sample_readable sample_stored_ready sample_volume_ready(4,10)
  have bytes: "file_byte sample_ready = file_byte sample_volume" "byte_stored sample_ready = byte_stored sample_volume"
    by (intro ext, simp add: file_byte_def tape_byte_def byte_stored_def cong: option.case_cong tape_item.case_cong)+
  have ready: "fdv.readable sample_image sample_ready" "block_size_ok sample_ready sample_image"
    "file_stored sample_ready sample_image (extentlist sample_stored)"
    using sr(1,3,6) bytes(2)
    by (simp_all add: fdv.readable_def volume_ok_def cache_valid_def cache_allocated_def block_size_ok_def file_stored_def
        cong: tape_item.case_cong)
  have room: "length (items sample_image 1) = 0" "has_room sample_image 1 k" for k
    by (simp_all add: sample_image_def has_room_def in_zone_def)
  have size: "lbl_blocksize (label sample_volume) = 4" "d_size sample_stored = 7"
    by (simp_all add: sample_volume_defs sample_stored_def)
  obtain d' vol' out d'' vol'' where "ltfs_fsraw_write sample_env True True sample_stored [1, 2, 3, 4, 5] 4 CHR ''b'' True
      sample_ready = Some (0, d', vol')" "unat (d_size d') = 9"
    "ltfs_fsraw_read sample_env True d' 20 2 vol' = Some (int (length out), out, d'', vol'')"
    "out = map (\<lambda>x. if 4 \<le> x \<and> x < 9 then [1, 2, 3, 4, 5] ! (x - 4)
        else file_byte sample_volume sample_image (extentlist sample_stored) x) [2..<9]"
    using write_then_read [where off = 2 and count = 20 and prt = "CHR ''b''" and p = 1 and bsize = 4 and t = sample_image
        and vol = sample_ready and d = sample_stored and buf = "[1, 2, 3, 4, 5]" and offset = 4 and upd = True
        and env = sample_env] ready sr(2,4,5) sr(7) room size bytes(1) sample_volume_ready(5,6,7)
    by auto
  moreover have "map (\<lambda>x. if 4 \<le> x \<and> x < 9 then [1, 2, 3, 4, 5] ! (x - 4)
        else file_byte sample_volume sample_image (extentlist sample_stored) x) [2..<9] = [0, 7, 1, 2, 3, 4, 5]"
    by (simp add: upt_rec file_byte_def sample_stored_def ext_map_def ext_addr_def ext_lo_def ext_hi_def ext_len_def)
      (simp add: tape_byte_def sample_volume_defs ltfs_part_id2num_def sample_image_def sample_items_def)
  ultimately show ?thesis by fastforce
qed

end
