(* ===== verification/ChecksumSpec.thy ===== *)
theory ChecksumSpec imports Checksum begin

text \<open>
  The checksums as codes. A table of 256 words that doubles from 8 basis words is linear for XOR;
  from there a locale for registers that take a byte and turn gives the laws both codes
  share: the register tells blocks apart that differ in at most four consecutive bytes. The
  reference definitions are the division by the CRC32C polynomial bit by bit and by the
  Reed-Solomon generator over GF(256).
\<close>

section \<open>Cancelling\<close>

lemma xor_twice: "(a XOR b) XOR b = (a :: 'a::len word)"
  by (simp add: xor.assoc)

lemma xor_cancel: "a XOR c = b XOR c \<longleftrightarrow> a = (b :: 'a::len word)"
  by (metis xor_twice)

lemma xor_zero_iff: "a XOR b = 0 \<longleftrightarrow> a = (b :: 'a::len word)"
  using xor_cancel [of a b b] by simp

section \<open>Tables that are linear\<close>

primrec doubled :: "u32 list \<Rightarrow> u32 list" where
  "doubled [] = [0]"
| "doubled (b # bs) = (let t = doubled bs in t @ map (\<lambda>x. x XOR b) t)"

primrec combine :: "u32 list \<Rightarrow> nat \<Rightarrow> u32" where
  "combine [] n = 0"
| "combine (b # bs) n = combine bs n XOR (if bit n (length bs) then b else 0)"

lemma length_doubled [simp]: "length (doubled bs) = 2 ^ length bs"
  by (induction bs) (simp_all add: Let_def)

lemma doubled_nth: "doubled bs ! take_bit (length bs) n = combine bs n"
proof (induction bs)
  case (Cons b bs)
  have "take_bit (length bs) n < 2 ^ length bs" by simp
  moreover have "take_bit (Suc (length bs)) n =
      (if bit n (length bs) then 2 ^ length bs else 0) + take_bit (length bs) n"
    by (simp add: take_bit_Suc_from_most)
  ultimately show ?case using Cons by (simp add: Let_def nth_append)
qed simp

lemma combine_xor: "combine bs (m XOR n) = combine bs m XOR combine bs n"
  by (induction bs) (auto simp: bit_xor_iff xor.left_commute xor.commute xor.assoc)

definition basis :: "u32 list \<Rightarrow> u32 list" where
  "basis t = map (\<lambda>i. t ! (2 ^ i)) [7, 6, 5, 4, 3, 2, 1, 0]"

lemma byte_bound: "unat (x :: u8) < 256"
  using unsigned_less [of x] by simp

lemma unat_ucast_u8_u32: "unat (ucast (b :: u8) :: u32) = unat b"
  using byte_bound [of b] by (simp add: unsigned_ucast_eq take_bit_nat_eq_self)

lemma doubled_byte:
  assumes "t = doubled (basis t)"
  shows "t ! unat (x :: u8) = combine (basis t) (unat x)"
proof -
  have "take_bit (length (basis t)) (unat x) = unat x"
    using byte_bound by (simp add: basis_def take_bit_nat_eq_self)
  then show ?thesis using doubled_nth [of "basis t" "unat x"] assms by metis
qed

lemma linear_byte:
  assumes "\<And>x y :: u8. f (x XOR y) = f x XOR f y"
    and "map f [128, 64, 32, 16, 8, 4, 2, 1] = basis t" and "t = doubled (basis t)"
  shows "t ! unat x = f x"
proof -
  have zero: "f 0 = 0" using assms(1) [of 0 0] by simp
  have "f (take_bit n x) = combine (map (\<lambda>i. f (push_bit i 1)) (rev [0..<n])) (unat x)" for n
  proof (induction n)
    case (Suc n)
    have "take_bit (Suc n) x = take_bit n x XOR (if bit x n then push_bit n 1 else 0)"
      by (intro bit_eqI) (auto simp: bit_simps less_Suc_eq bit_1_iff)
    then show ?case using Suc zero assms(1) by (simp add: bit_unsigned_iff bit_imp_possible_bit)
  qed (simp add: zero)
  moreover have "map (\<lambda>i. f (push_bit i 1)) (rev [0..<8]) = basis t"
    using assms(2) by (simp add: upt_rec)
  ultimately have "f (take_bit 8 x) = combine (basis t) (unat x)" by metis
  moreover have "take_bit 8 x = x" by (simp add: take_bit_word_eq_self)
  ultimately show ?thesis using doubled_byte [OF assms(3)] by simp
qed

lemma rs_table: "rs_gf256_table = doubled (basis rs_gf256_table)"
  unfolding basis_def by (simp add: rs_gf256_table_def)

lemma crc32c_doubled: "crc32c_table = doubled (basis crc32c_table)"
  unfolding basis_def by (simp add: crc32c_table_def)

section \<open>Registers that take a byte and turn\<close>

locale byte_register =
  fixes place :: "nat \<Rightarrow> u8 \<Rightarrow> u32" and turn :: "u32 \<Rightarrow> u32" and take_byte :: "u8 \<Rightarrow> u32 \<Rightarrow> u32"
  assumes take_turn: "take_byte b r = turn (r XOR place 0 b)"
    and turn_xor: "turn (r XOR s) = turn r XOR turn s"
    and turn_zero: "turn r = 0 \<Longrightarrow> r = 0"
    and turn_place: "k < 3 \<Longrightarrow> turn (place (Suc k) b) = place k b"
    and place_xor: "place k (a XOR b) = place k a XOR place k b"
    and place_zero: "place 0 a XOR place 1 b XOR place 2 c XOR place 3 d = 0 \<Longrightarrow> a = 0 \<and> b = 0 \<and> c = 0 \<and> d = 0"
begin

definition word_of :: "u8 list \<Rightarrow> u32" where
  "word_of bs = place 0 (bs ! 0) XOR place 1 (bs ! 1) XOR place 2 (bs ! 2) XOR place 3 (bs ! 3)"

lemma turn_inj: "turn r = turn s \<longleftrightarrow> r = s"
  using turn_zero [of "r XOR s"] by (auto simp: turn_xor xor_zero_iff)

lemma fold_four: "length bs = 4 \<Longrightarrow> fold take_byte bs r = turn (turn (turn (turn (r XOR word_of bs))))"
proof -
  assume "length bs = 4"
  then obtain a b c d where bs: "bs = [a, b, c, d]" by (auto simp: eval_nat_numeral length_Suc_conv)
  have "place 0 b = turn (place 1 b)" "place 0 c = turn (turn (place 2 c))"
    "place 0 d = turn (turn (turn (place 3 d)))"
    using turn_place [of 0 b] turn_place [of 0 c] turn_place [of 1 c] turn_place [of 0 d] turn_place [of 1 d]
      turn_place [of 2 d] by (simp_all add: eval_nat_numeral)
  then show ?thesis by (simp add: bs take_turn turn_xor word_of_def xor.assoc)
qed

lemma fold_four_iff: "length bs = 4 \<Longrightarrow> fold take_byte bs r = turn (turn (turn (turn c))) \<longleftrightarrow> r XOR word_of bs = c"
  by (simp add: fold_four turn_inj)

lemma fold_inj: "fold take_byte bs r = fold take_byte bs s \<longleftrightarrow> r = s"
proof (induction bs arbitrary: r s)
  case (Cons b bs)
  then show ?case by (simp add: take_turn turn_inj xor_cancel)
qed simp

lemma fold_xor:
  "length bs = length cs \<Longrightarrow> fold take_byte (map2 (XOR) bs cs) (r XOR s) = fold take_byte bs r XOR fold take_byte cs s"
proof (induction bs cs arbitrary: r s rule: list_induct2)
  case (Cons b bs c cs)
  have "take_byte (b XOR c) (r XOR s) = take_byte b r XOR take_byte c s"
    by (simp add: take_turn place_xor flip: turn_xor) (simp add: xor.assoc xor.left_commute)
  then show ?case using Cons by simp
qed simp

lemma word_of_zero: "length bs = 4 \<Longrightarrow> word_of bs = 0 \<Longrightarrow> bs = replicate 4 0"
  using place_zero by (auto simp: word_of_def eval_nat_numeral length_Suc_conv)

lemma burst_zero:
  assumes "length bs \<le> 4" "fold take_byte bs 0 = 0"
  shows "\<forall>b \<in> set bs. b = 0"
proof -
  have turn0: "turn 0 = 0" using turn_xor [of 0 0] by simp
  have "take_byte 0 0 = 0" using place_xor [of 0 0 0] by (simp add: take_turn turn0)
  then have "fold take_byte (replicate n 0) 0 = 0" for n by (induction n) simp_all
  then have "fold take_byte (bs @ replicate (4 - length bs) 0) 0 = 0" using assms(2) by simp
  moreover have len: "length (bs @ replicate (4 - length bs) 0) = 4" using assms(1) by simp
  ultimately have "word_of (bs @ replicate (4 - length bs) 0) = 0"
    using turn_zero by (simp only: fold_four) simp
  from word_of_zero [OF len this] show ?thesis
    by (metis UnI1 in_set_replicate set_append)
qed

text \<open>Two blocks that differ in at most four consecutive bytes have different registers.\<close>

lemma burst_differs:
  assumes "length bs = length cs" "\<And>i. i < length bs \<Longrightarrow> i < k \<or> k + 4 \<le> i \<Longrightarrow> bs ! i = cs ! i"
    and "fold take_byte bs r = fold take_byte cs r"
  shows "bs = cs"
proof -
  let ?m = "\<lambda>xs. take 4 (drop k xs)"
  have same: "take k bs = take k cs" "drop (k + 4) bs = drop (k + 4) cs"
    using assms(1,2) by (auto intro: nth_equalityI)
  have split: "xs = take k xs @ ?m xs @ drop (k + 4) xs" for xs :: "u8 list"
    by (metis append_take_drop_id drop_drop add.commute)
  let ?s = "fold take_byte (take k bs) r"
  have "fold take_byte (?m bs) ?s = fold take_byte (?m cs) ?s"
    using assms(3) fold_inj same split [of bs] split [of cs]
    by (metis (no_types, lifting) comp_apply fold_append)
  then have "fold take_byte (map2 (XOR) (?m bs) (?m cs)) 0 = 0"
    using fold_xor [of "?m bs" "?m cs" ?s ?s] assms(1) by simp
  then have zero: "\<forall>b \<in> set (map2 (XOR) (?m bs) (?m cs)). b = 0"
    by (intro burst_zero) simp
  have "?m bs = ?m cs"
  proof (rule nth_equalityI)
    fix i assume i: "i < length (?m bs)"
    then have "map2 (XOR) (?m bs) (?m cs) ! i \<in> set (map2 (XOR) (?m bs) (?m cs))"
      using assms(1) by (intro nth_mem) simp
    then have "map2 (XOR) (?m bs) (?m cs) ! i = 0" using zero by blast
    moreover have "map2 (XOR) (?m bs) (?m cs) ! i = ?m bs ! i XOR ?m cs ! i" using i assms(1) by simp
    ultimately have "?m bs ! i XOR ?m cs ! i = 0" by simp
    then show "?m bs ! i = ?m cs ! i" by (simp only: xor_zero_iff)
  qed (use assms(1) in simp)
  then show ?thesis using same split by metis
qed

end


section \<open>Reed-Solomon as division by its generator\<close>

definition rs_place :: "nat \<Rightarrow> u8 \<Rightarrow> u32" where
  "rs_place k b = push_bit (24 - 8 * k) (ucast b)"

definition rs_turn :: "u32 \<Rightarrow> u32" where
  "rs_turn r = push_bit 8 r XOR rs_gf256_table ! unat (ucast (drop_bit 24 r) :: u8)"

lemma top_byte: "unat (drop_bit 24 (r :: u32)) = unat (ucast (drop_bit 24 r) :: u8)"
proof -
  have "unat (drop_bit 24 r) < 256"
    using u32_less_bound [of r] by (simp add: drop_bit_eq_div unat_div)
  then show ?thesis by (simp add: unsigned_ucast_eq take_bit_nat_eq_self)
qed

lemma enc4_turn: "enc4 b r = rs_turn (r XOR rs_place 0 b)"
proof -
  have "push_bit 8 (rs_place 0 b) = 0" "drop_bit 24 (rs_place 0 b) = ucast b"
    unfolding rs_place_def by (intro bit_eqI; auto simp: bit_simps dest: bit_imp_le_length)+
  then have "push_bit 8 (r XOR rs_place 0 b) = push_bit 8 r"
    "drop_bit 24 (r XOR rs_place 0 b) = ucast b XOR drop_bit 24 r"
    by (simp_all add: push_bit_xor drop_bit_xor xor.commute)
  then show ?thesis unfolding enc4_def rs_turn_def top_byte [symmetric] by (simp only:)
qed

lemma rs_table_byte: "rs_gf256_table ! unat (x :: u8) = combine (basis rs_gf256_table) (unat x)"
  by (rule doubled_byte) (rule rs_table)

lemma rs_table_xor:
  "rs_gf256_table ! unat (x XOR y :: u8) = rs_gf256_table ! unat x XOR rs_gf256_table ! unat y"
  unfolding rs_table_byte by (simp only: unsigned_xor_eq combine_xor)

lemma rs_table_low: "map (\<lambda>w. ucast w :: u8) rs_gf256_table = map of_nat [0..<256]"
  by (simp add: rs_gf256_table_def upt_rec)

lemma rs_table_low_byte: "ucast (rs_gf256_table ! unat (x :: u8)) = x"
proof -
  have "length rs_gf256_table = 256" by (simp add: rs_gf256_table_def)
  then show ?thesis using arg_cong [OF rs_table_low, of "\<lambda>xs. xs ! unat x"] byte_bound [of x] by simp
qed

lemma rs_turn_zero: "rs_turn r = 0 \<Longrightarrow> r = 0"
proof -
  assume a: "rs_turn r = 0"
  let ?x = "ucast (drop_bit 24 r) :: u8"
  have "ucast (push_bit 8 r) = (0 :: u8)" by (intro bit_eqI) (simp add: bit_simps)
  moreover have "push_bit 8 r = rs_gf256_table ! unat ?x" using a by (simp add: rs_turn_def xor_zero_iff)
  ultimately have x: "?x = 0" using rs_table_low_byte [of ?x] by simp
  then have "push_bit 8 r = 0" using a by (simp add: rs_turn_def rs_gf256_table_def)
  then have "\<not> bit r n" if "n < 24" for n
    using that bit_push_bit_iff [of 8 r "n + 8"] by simp
  moreover have "\<not> bit r n" if "24 \<le> n" "n < 32" for n
  proof -
    have "bit ?x (n - 24) = bit r n" using that by (auto simp: bit_simps)
    then show ?thesis using x by simp
  qed
  ultimately have "\<not> bit r n" if "n < 32" for n using that by (cases "n < 24") auto
  then show "r = 0" by (intro bit_word_eqI) simp
qed


interpretation rs: byte_register rs_place rs_turn enc4
proof (unfold_locales, goal_cases)
  case (2 r s)
  have "ucast (drop_bit 24 (r XOR s)) = (ucast (drop_bit 24 r) XOR ucast (drop_bit 24 s) :: u8)"
    by (simp add: drop_bit_xor unsigned_xor_eq)
  then show ?case unfolding rs_turn_def push_bit_xor
    by (simp only: rs_table_xor) (simp add: xor.assoc xor.left_commute)
next
  case (4 k b)
  have "push_bit 8 (rs_place (Suc k) b) = rs_place k b" "ucast (drop_bit 24 (rs_place (Suc k) b)) = (0 :: u8)"
    unfolding rs_place_def using 4 by (intro bit_eqI; auto simp: bit_simps dest: bit_imp_le_length)+
  then show ?case by (simp add: rs_turn_def rs_gf256_table_def)
next
  case (6 a b c d)
  let ?w = "rs_place 0 a XOR rs_place 1 b XOR rs_place 2 c XOR rs_place 3 d"
  have e: "ucast (drop_bit 24 ?w) = a" "ucast (drop_bit 16 ?w) = b" "ucast (drop_bit 8 ?w) = c" "ucast ?w = d"
    unfolding rs_place_def by (intro bit_eqI; auto simp: bit_simps dest: bit_imp_le_length)+
  then show ?case unfolding 6 by simp
qed (simp_all add: enc4_turn rs_turn_zero, simp_all add: rs_place_def unsigned_xor_eq push_bit_xor)

text \<open>
  The field GF(256) with the polynomial \<open>x^8 + x^4 + x^3 + x^2 + 1\<close>, and one step of the division by
  the generator with the coefficients 1, 38, cf, 38, 1 (hexadecimal).
\<close>

definition xtime :: "u8 \<Rightarrow> u8" where
  "xtime a = push_bit 1 a XOR (if bit a 7 then 0x1D else 0)"

fun gf_times :: "nat \<Rightarrow> u8 \<Rightarrow> u8 \<Rightarrow> u8" where
  "gf_times 0 a x = 0"
| "gf_times (Suc n) a x = (if bit x 0 then a else 0) XOR gf_times n (xtime a) (drop_bit 1 x)"

definition generator_times :: "u8 \<Rightarrow> u32" where
  "generator_times x = rs_place 0 (gf_times 8 0x38 x) XOR rs_place 1 (gf_times 8 0xCF x) XOR
     rs_place 2 (gf_times 8 0x38 x) XOR rs_place 3 x"

definition divide_step :: "u8 \<Rightarrow> u32 \<Rightarrow> u32" where
  "divide_step b r = push_bit 8 r XOR generator_times (b XOR ucast (drop_bit 24 r))"

lemma gf_times_xor: "gf_times n a (x XOR y) = gf_times n a x XOR gf_times n a y"
proof (induction n arbitrary: a x y)
  case (Suc n)
  then show ?case by (auto simp: drop_bit_xor bit_xor_iff xor.assoc xor.left_commute)
qed simp

lemma generator_times_table: "rs_gf256_table ! unat x = generator_times x"
proof (rule linear_byte [OF _ _ rs_table])
  show "generator_times (x XOR y) = generator_times x XOR generator_times y" for x y
    by (simp add: generator_times_def gf_times_xor rs.place_xor xor.assoc xor.left_commute xor.commute)
  have "map (\<lambda>i. rs_gf256_table ! (2 ^ i)) [7, 6, 5, 4, 3, 2, 1, 0] =
    [0x51475180, 0xA6ADA640, 0x53D85320, 0xA76CA710, 0xDD36DD08, 0xE01BE004, 0x70837002, 0x38CF3801]"
    by (simp add: rs_gf256_table_def)
  moreover have "map generator_times [128, 64, 32, 16, 8, 4, 2, 1] =
    [0x51475180, 0xA6ADA640, 0x53D85320, 0xA76CA710, 0xDD36DD08, 0xE01BE004, 0x70837002, 0x38CF3801]"
    by code_simp
  ultimately show "map generator_times [128, 64, 32, 16, 8, 4, 2, 1] = basis rs_gf256_table"
    by (simp only: basis_def)
qed

lemma enc4_divides: "enc4 b r = divide_step b r"
proof -
  have "unat (ucast b XOR drop_bit 24 r) = unat (b XOR ucast (drop_bit 24 r))"
    unfolding unsigned_xor_eq unat_ucast_u8_u32 top_byte ..
  then show ?thesis by (simp add: enc4_def divide_step_def generator_times_table)
qed


section \<open>CRC32C as division by its polynomial\<close>

definition crc_place :: "nat \<Rightarrow> u8 \<Rightarrow> u32" where
  "crc_place k b = push_bit (8 * k) (ucast b)"

definition crc_turn :: "u32 \<Rightarrow> u32" where
  "crc_turn r = drop_bit 8 r XOR crc32c_table ! unat (ucast r :: u8)"

text \<open>Division bit by bit, the lowest bit first, by the reflected polynomial.\<close>

definition divide_bit :: "u32 \<Rightarrow> u32" where
  "divide_bit r = drop_bit 1 r XOR (if bit r 0 then 0x82F63B78 else 0)"

definition divide_byte :: "u8 \<Rightarrow> u32 \<Rightarrow> u32" where
  "divide_byte b r = (divide_bit ^^ 8) (r XOR ucast b)"

lemma low_byte: "(r :: u32) AND 0xff = ucast (ucast r :: u8)"
proof -
  have "r AND 0xff = take_bit 8 r" by (simp add: take_bit_eq_mask mask_eq_exp_minus_1)
  also have "\<dots> = ucast (ucast r :: u8)"
    by (intro bit_eqI) (auto simp: bit_simps dest: bit_imp_le_length)
  finally show ?thesis .
qed

lemma divide_bits_xor: "(divide_bit ^^ n) (r XOR s) = (divide_bit ^^ n) r XOR (divide_bit ^^ n) s"
  by (induction n) (auto simp: divide_bit_def drop_bit_xor bit_xor_iff xor.assoc xor.left_commute)

lemma divide_bits_zero: "\<forall>i < n. \<not> bit r i \<Longrightarrow> (divide_bit ^^ n) r = drop_bit n r"
  by (induction n) (auto simp: divide_bit_def bit_drop_bit_eq drop_bit_drop_bit)

lemma crc32c_table_divides: "crc32c_table ! unat (x :: u8) = (divide_bit ^^ 8) (ucast x)"
proof (rule linear_byte [OF _ _ crc32c_doubled])
  show "(divide_bit ^^ 8) (ucast (x XOR y :: u8)) = (divide_bit ^^ 8) (ucast x) XOR (divide_bit ^^ 8) (ucast y)" for x y
    by (simp add: unsigned_xor_eq divide_bits_xor)
  have "map (\<lambda>i. crc32c_table ! (2 ^ i)) [7, 6, 5, 4, 3, 2, 1, 0] =
    [0x82F63B78, 0x417B1DBC, 0x20BD8EDE, 0x105EC76F, 0x8AD958CF, 0xC79A971F, 0xE13B70F7, 0xF26B8303]"
    by (simp add: crc32c_table_def)
  moreover have "map (\<lambda>x :: u8. (divide_bit ^^ 8) (ucast x)) [128, 64, 32, 16, 8, 4, 2, 1] =
    [0x82F63B78, 0x417B1DBC, 0x20BD8EDE, 0x105EC76F, 0x8AD958CF, 0xC79A971F, 0xE13B70F7, 0xF26B8303]"
    by code_simp
  ultimately show "map (\<lambda>x :: u8. (divide_bit ^^ 8) (ucast x)) [128, 64, 32, 16, 8, 4, 2, 1] = basis crc32c_table"
    by (simp only: basis_def)
qed

lemma crc_turn_divides: "crc_turn r = (divide_bit ^^ 8) r"
proof -
  have "r = push_bit 8 (drop_bit 8 r) XOR ucast (ucast r :: u8)"
    by (intro bit_eqI) (auto simp: bit_simps dest: bit_imp_le_length)
  moreover have "(divide_bit ^^ 8) (push_bit 8 (drop_bit 8 r)) = drop_bit 8 r"
  proof -
    have "drop_bit 8 (push_bit 8 (drop_bit 8 r)) = drop_bit 8 r"
      by (intro bit_eqI) (auto simp: bit_simps dest: bit_imp_le_length)
    then show ?thesis by (simp add: divide_bits_zero bit_push_bit_iff)
  qed
  ultimately have "(divide_bit ^^ 8) r = drop_bit 8 r XOR (divide_bit ^^ 8) (ucast (ucast r :: u8))"
    by (metis divide_bits_xor)
  then show ?thesis by (simp add: crc_turn_def crc32c_table_divides)
qed

lemma crc32c_calc_turn: "crc32c_calc b r = crc_turn (r XOR crc_place 0 b)"
proof -
  have "drop_bit 8 (crc_place 0 b) = 0" 
    unfolding crc_place_def by (intro bit_eqI) (auto simp: bit_simps dest: bit_imp_le_length)
  moreover have "ucast (r XOR crc_place 0 b) = (ucast b XOR (ucast r) :: u8)"
    unfolding crc_place_def by (intro bit_eqI) (auto simp: bit_simps dest: bit_imp_le_length)
  moreover have "unat (ucast b XOR (r AND 0xff) :: u32) = unat (b XOR ucast r)"
    unfolding low_byte unsigned_xor_eq unat_ucast_u8_u32 ..
  ultimately show ?thesis by (simp add: crc32c_calc_def crc_turn_def drop_bit_xor)
qed

lemma crc32c_divides: "crc32c_calc b r = divide_byte b r"
  by (simp add: crc32c_calc_turn crc_turn_divides divide_byte_def crc_place_def)


lemma crc32c_table_high: "list_all (\<lambda>w. drop_bit 24 w \<noteq> 0) (tl crc32c_table)"
  by (simp add: crc32c_table_def)

lemma crc_turn_zero: "crc_turn r = 0 \<Longrightarrow> r = 0"
proof -
  assume a: "crc_turn r = 0"
  let ?x = "ucast r :: u8"
  have e: "drop_bit 8 r = crc32c_table ! unat ?x" using a by (simp add: crc_turn_def xor_zero_iff)
  have "drop_bit 24 (drop_bit 8 r) = 0"
    by (intro bit_eqI) (auto simp: bit_simps dest: bit_imp_le_length)
  then have high: "drop_bit 24 (crc32c_table ! unat ?x) = 0" by (simp only: e)
  have "unat ?x = 0"
  proof (rule ccontr)
    assume n: "unat ?x \<noteq> 0"
    have len: "length crc32c_table = 256" by (simp add: crc32c_table_def)
    then have bound: "unat ?x - 1 < length (tl crc32c_table)" using byte_bound [of ?x] n by simp
    then have "tl crc32c_table ! (unat ?x - 1) = crc32c_table ! unat ?x" using n by (simp only: nth_tl) simp
    moreover have "drop_bit 24 (tl crc32c_table ! (unat ?x - 1)) \<noteq> 0"
      using crc32c_table_high bound unfolding list_all_length by blast
    ultimately show False using high by (simp only:)
  qed
  then have x: "?x = 0" by (simp add: unat_eq_zero)
  then have d: "drop_bit 8 r = 0" using e by (simp add: crc32c_table_def)
  have "\<not> bit r n" for n
  proof (cases "n < 8")
    case True
    then have "bit ?x n = bit r n" by (simp add: bit_simps)
    then show ?thesis using x by simp
  next
    case False
    then have "bit (drop_bit 8 r) (n - 8) = bit r n" by (simp add: bit_simps)
    then show ?thesis using d by simp
  qed
  then show "r = 0" by (intro bit_word_eqI) simp
qed

interpretation crc: byte_register crc_place crc_turn crc32c_calc
proof (unfold_locales, goal_cases)
  case (2 r s)
  then show ?case by (simp add: crc_turn_divides divide_bits_xor)
next
  case (4 k b)
  have "drop_bit 8 (crc_place (Suc k) b) = crc_place k b" "ucast (crc_place (Suc k) b) = (0 :: u8)"
    unfolding crc_place_def using 4 by (intro bit_eqI; auto simp: bit_simps dest: bit_imp_le_length)+
  then show ?case by (simp add: crc_turn_def crc32c_table_def)
next
  case (6 a b c d)
  let ?w = "crc_place 0 a XOR crc_place 1 b XOR crc_place 2 c XOR crc_place 3 d"
  have e: "ucast ?w = a" "ucast (drop_bit 8 ?w) = b" "ucast (drop_bit 16 ?w) = c" "ucast (drop_bit 24 ?w) = d"
    unfolding crc_place_def by (intro bit_eqI; auto simp: bit_simps dest: bit_imp_le_length)+
  then show ?case unfolding 6 by simp
qed (simp_all add: crc32c_calc_turn crc_turn_zero, simp_all add: crc_place_def unsigned_xor_eq push_bit_xor)

section \<open>The loops are folds\<close>

lemma rs_loop_fold: "i + n \<le> length buf \<Longrightarrow> rs_loop n i buf reg = fold enc4 (take n (drop i buf)) reg"
  by (induction n arbitrary: i reg) (simp_all add: take_Suc_conv_app_nth Cons_nth_drop_Suc [symmetric])

lemma crc32c_loop_fold: "i + n \<le> length buf \<Longrightarrow> crc32c_loop n i buf reg = fold crc32c_calc (take n (drop i buf)) reg"
  by (induction n arbitrary: i reg) (simp_all add: take_Suc_conv_app_nth Cons_nth_drop_Suc [symmetric])

lemma copy_step:
  "i < length dest \<Longrightarrow> i < length src \<Longrightarrow>
    take (Suc i) (dest[i := src ! i]) = take i dest @ [src ! i]"
  by (simp add: take_Suc_conv_app_nth)

lemma memcpy_rs_loop_fold: "i + n \<le> length src \<Longrightarrow> i + n \<le> length dest \<Longrightarrow>
    memcpy_rs_loop n i dest src reg =
      (take i dest @ take n (drop i src) @ drop (i + n) dest, fold enc4 (take n (drop i src)) reg)"
  by (induction n arbitrary: i reg dest)
    (simp_all add: copy_step Cons_nth_drop_Suc [symmetric] drop_update_cancel)

lemma memcpy_crc32c_loop_fold: "i + n \<le> length src \<Longrightarrow> i + n \<le> length dest \<Longrightarrow>
    memcpy_crc32c_loop n i dest src reg =
      (take i dest @ take n (drop i src) @ drop (i + n) dest, fold crc32c_calc (take n (drop i src)) reg)"
  by (induction n arbitrary: i reg dest)
    (simp_all add: copy_step Cons_nth_drop_Suc [symmetric] drop_update_cancel)


section \<open>Valid blocks\<close>

text \<open>A block is accepted when the register over the data and the stored checksum has a fixed value.\<close>

lemma take_four: "n + 4 \<le> length buf \<Longrightarrow> take 4 (drop n buf) = [buf ! n, buf ! (n + 1), buf ! (n + 2), buf ! (n + 3)]"
  by (rule nth_equalityI) (auto simp: less_Suc_eq eval_nat_numeral)

lemma fold_block: "fold f (take (n + 4) buf) r = fold f (take 4 (drop n buf)) (fold f (take n buf) r)"
  by (simp add: take_add)

lemma rs_stored_word:
  assumes "n + 4 \<le> length buf"
  shows "ltfs_betou32 (\<lambda>i. buf ! (n + i)) = rs.word_of (take 4 (drop n buf))"
  unfolding rs.word_of_def take_four [OF assms] ltfs_betou32_def rs_place_def
  by (intro bit_eqI) (auto simp: bit_simps dest: bit_imp_le_length)

lemma crc_stored_word:
  assumes "n + 4 \<le> length buf"
  shows "crc32c_stored buf n = crc.word_of (take 4 (drop n buf))"
  unfolding crc.word_of_def take_four [OF assms] crc32c_stored_def crc_place_def
  by (intro bit_eqI) (auto simp: bit_simps dest: bit_imp_le_length)

lemma rs_valid:
  assumes "n + 4 \<le> length buf"
  shows "ltfs_betou32 (\<lambda>i. buf ! (n + i)) = rs_loop n 0 buf 0 \<longleftrightarrow> fold enc4 (take (n + 4) buf) 0 = 0"
proof -
  have "rs_turn 0 = 0" using rs.turn_xor [of 0 0] by simp
  then show ?thesis
    using assms rs.fold_four_iff [of "take 4 (drop n buf)" "fold enc4 (take n buf) 0" 0]
    by (auto simp: rs_stored_word rs_loop_fold fold_block xor_zero_iff)
qed

definition crc_residue :: u32 where
  "crc_residue = crc_turn (crc_turn (crc_turn (crc_turn 0xffffffff)))"

lemma xor_ones: "r XOR w = 0xffffffff \<longleftrightarrow> w = NOT (r :: u32)"
proof -
  have "(0xffffffff :: u32) = - 1" by simp
  then show ?thesis unfolding bit_eq_iff by (auto simp: bit_simps)
qed

lemma crc_valid:
  assumes "n + 4 \<le> length buf"
  shows "crc32c_stored buf n = crc32c buf n \<longleftrightarrow> fold crc32c_calc (take (n + 4) buf) 0xffffffff = crc_residue"
  using assms crc.fold_four_iff [of "take 4 (drop n buf)" "fold crc32c_calc (take n buf) 0xffffffff" "0xffffffff"]
  by (simp add: crc_stored_word crc32c_def crc32c_loop_fold fold_block crc_residue_def xor_ones)

lemma int_of_size_small: "n < 2 ^ 31 \<Longrightarrow> int_of_size n = int n"
  by (simp add: int_of_size_def signed_of_nat signed_take_bit_int_eq_self)

lemma rs_check_eq:
  assumes "n + 4 \<le> length buf"
  shows "rs_gf256_check buf n = (if fold enc4 (take (n + 4) buf) 0 = 0 then int_of_size n else - 1)"
    "n \<le> length dest \<Longrightarrow> memcpy_rs_gf256_check dest buf n = (rs_gf256_check buf n, take n buf @ drop n dest)"
  using rs_valid [OF assms] assms
  by (auto simp: rs_gf256_check_def memcpy_rs_gf256_check_def Let_def memcpy_rs_loop_fold rs_loop_fold)

lemma crc_check_eq:
  assumes "n + 4 \<le> length buf"
  shows "crc32c_check buf n = (if fold crc32c_calc (take (n + 4) buf) 0xffffffff = crc_residue then int_of_size n else - 1)"
    "n \<le> length dest \<Longrightarrow> memcpy_crc32c_check dest buf n = (crc32c_check buf n, take n buf @ drop n dest)"
  using crc_valid [OF assms] assms
  by (auto simp: crc32c_check_def memcpy_crc32c_check_def Let_def memcpy_crc32c_loop_fold crc32c_loop_fold
      crc32c_def memcpy_crc32c_def)

lemma store_at_simps:
  "n + length bytes \<le> length buf \<Longrightarrow> length (store_at n bytes buf) = length buf"
  "n + length bytes \<le> length buf \<Longrightarrow> take n (store_at n bytes buf) = take n buf"
  "n + length bytes \<le> length buf \<Longrightarrow> i < length bytes \<Longrightarrow> store_at n bytes buf ! (n + i) = bytes ! i"
  by (auto simp: store_at_def nth_append)

lemma rs_stored_back:
  assumes "n + 4 \<le> length buf"
  shows "ltfs_betou32 (\<lambda>i. store_at n (ltfs_u32tobe w) buf ! (n + i)) = w"
proof -
  have e: "store_at n (ltfs_u32tobe w) buf ! (n + i) = ltfs_u32tobe w ! i" if "i < 4" for i
    using assms that store_at_simps(3) [of n "ltfs_u32tobe w" buf i] by (simp add: ltfs_u32tobe_def)
  have "ltfs_betou32 (\<lambda>i. store_at n (ltfs_u32tobe w) buf ! (n + i)) = ltfs_betou32 (\<lambda>i. ltfs_u32tobe w ! i)"
    by (simp add: ltfs_betou32_def e [of 0, simplified] e [of 1, simplified] e [of 2, simplified] e [of 3])
  then show ?thesis by (simp only: betou32_u32tobe)
qed

lemma crc_stored_back:
  assumes "n + 4 \<le> length buf"
  shows "crc32c_stored (store_at n (crc32c_bytes w) buf) n = w"
proof -
  have e: "store_at n (crc32c_bytes w) buf ! (n + i) = crc32c_bytes w ! i" if "i < 4" for i
    using assms that store_at_simps(3) [of n "crc32c_bytes w" buf i] by (simp add: crc32c_bytes_def)
  have "crc32c_stored (store_at n (crc32c_bytes w) buf) n =
      ucast (crc32c_bytes w ! 0) OR push_bit 8 (ucast (crc32c_bytes w ! 1)) OR
      push_bit 16 (ucast (crc32c_bytes w ! 2)) OR push_bit 24 (ucast (crc32c_bytes w ! 3))"
    using e [of 0] e [of 1] e [of 2] e [of 3] by (simp add: crc32c_stored_def)
  also have "\<dots> = w"
    unfolding crc32c_bytes_def low_byte
    by (simp add: numeral_3_eq_3, intro bit_eqI, rename_tac k, case_tac "k < 24", case_tac "k < 16")
      (auto simp: bit_simps dest: bit_imp_le_length)
  finally show ?thesis .
qed


lemma length_stored: "length (ltfs_u32tobe w) = 4" "length (crc32c_bytes w) = 4"
  by (simp_all add: ltfs_u32tobe_def crc32c_bytes_def)

lemma rs_enc_check:
  assumes "n + 4 \<le> length buf" "n < 2 ^ 31"
  shows "rs_gf256_check (rs_gf256_enc buf n) n = int n" "take n (rs_gf256_enc buf n) = take n buf"
    "length (rs_gf256_enc buf n) = length buf"
  using assms
  by (simp_all add: rs_gf256_check_def rs_gf256_enc_def rs_stored_back rs_loop_fold store_at_simps length_stored
      int_of_size_small)

lemma crc_enc_check:
  assumes "n + 4 \<le> length buf" "n < 2 ^ 31"
  shows "crc32c_check (crc32c_enc buf n) n = int n" "take n (crc32c_enc buf n) = take n buf"
    "length (crc32c_enc buf n) = length buf"
  using assms
  by (simp_all add: crc32c_check_def crc32c_enc_def crc_stored_back crc32c_def crc32c_loop_fold store_at_simps
      length_stored int_of_size_small)

section \<open>Properties\<close>

text \<open>
  C25: The table driven loops compute the remainders they stand for: the Reed-Solomon register is
  the division of the data by the generator polynomial over GF(256), the CRC32C the inverted
  remainder of the division by its polynomial bit by bit, started with all ones.
\<close>

theorem checksums_divide:
  assumes "n \<le> length buf"
  shows "rs_loop n 0 buf 0 = fold divide_step (take n buf) 0 \<and>
    crc32c buf n = NOT (fold divide_byte (take n buf) 0xffffffff)"
proof -
  have "enc4 = divide_step" "crc32c_calc = divide_byte"
    by (intro ext, simp only: enc4_divides crc32c_divides)+
  then show ?thesis using assms by (simp add: rs_loop_fold crc32c_def crc32c_loop_fold)
qed

theorem checksums_divide_witness:
  "crc32c [1, 2, 3] 2 = NOT (fold divide_byte [1, 2] 0xffffffff) \<and> rs_loop 2 0 [1, 2, 3] 0 = fold divide_step [1, 2] 0"
  using checksums_divide [of 2 "[1, 2, 3]"] by simp

text \<open>
  C24: A block a sender has protected is accepted: the copying and the in-place encoders keep the
  data, and the checks return its length and copy the data, for both checksums.
\<close>

theorem protected_block_accepted:
  assumes "n \<le> length src" "n + 4 \<le> length dest" "n + 4 \<le> length buf" "n \<le> length copy" "n < 2 ^ 31"
  shows "memcpy_rs_gf256_check copy (memcpy_rs_gf256_enc dest src n) n = (int n, take n src @ drop n copy) \<and>
    rs_gf256_check (rs_gf256_enc buf n) n = int n \<and> take n (rs_gf256_enc buf n) = take n buf \<and>
    memcpy_crc32c_check copy (memcpy_crc32c_enc dest src n) n = (int n, take n src @ drop n copy) \<and>
    crc32c_check (crc32c_enc buf n) n = int n \<and> take n (crc32c_enc buf n) = take n buf"
proof -
  define d where "d = take n src @ drop n dest"
  have d: "n + 4 \<le> length d" "take n d = take n src" using assms(1,2) by (simp_all add: d_def)
  have enc: "memcpy_rs_gf256_enc dest src n = rs_gf256_enc d n" "memcpy_crc32c_enc dest src n = crc32c_enc d n"
    using assms(1,2) by (simp_all add: memcpy_rs_gf256_enc_def rs_gf256_enc_def memcpy_crc32c_enc_def crc32c_enc_def
      memcpy_crc32c_def crc32c_def memcpy_rs_loop_fold memcpy_crc32c_loop_fold rs_loop_fold crc32c_loop_fold d_def)
  show ?thesis
    using rs_enc_check [OF d(1) assms(5)] rs_enc_check [OF assms(3,5)] crc_enc_check [OF d(1) assms(5)]
      crc_enc_check [OF assms(3,5)] d assms(4)
    by (simp add: enc rs_check_eq(2) crc_check_eq(2))
qed

theorem protected_block_accepted_witness:
  "memcpy_rs_gf256_check [9, 9, 9] (memcpy_rs_gf256_enc (replicate 6 0) [1, 2] 2) 2 = (2, [1, 2, 9]) \<and>
   memcpy_crc32c_check [9, 9, 9] (memcpy_crc32c_enc (replicate 6 0) [1, 2] 2) 2 = (2, [1, 2, 9])"
  using protected_block_accepted [of 2 "[1, 2]" "replicate 6 0" "replicate 6 0" "[9, 9, 9]"] by simp

text \<open>
  C23: Damage to at most four consecutive bytes of a protected block is found, wherever it is and
  also across the border between the data and the checksum: if a block is accepted, any
  other block of its length that differs from it only there is rejected with -1.
\<close>

theorem damaged_block_rejected:
  assumes "n + 4 \<le> length good" "length bad = length good" "n \<le> length copy"
    and "\<And>i. i < n + 4 \<Longrightarrow> i < k \<or> k + 4 \<le> i \<Longrightarrow> bad ! i = good ! i" and "take (n + 4) bad \<noteq> take (n + 4) good"
  shows "(rs_gf256_check good n \<noteq> - 1 \<longrightarrow>
      rs_gf256_check bad n = - 1 \<and> fst (memcpy_rs_gf256_check copy bad n) = - 1) \<and>
    (crc32c_check good n \<noteq> - 1 \<longrightarrow>
      crc32c_check bad n = - 1 \<and> fst (memcpy_crc32c_check copy bad n) = - 1)"
proof -
  have same: "take (n + 4) bad ! i = take (n + 4) good ! i" if "i < length (take (n + 4) bad)" "i < k \<or> k + 4 \<le> i" for i
    using assms(4) that by simp
  have len: "length (take (n + 4) bad) = length (take (n + 4) good)" using assms(2) by simp
  have "n + 4 \<le> length bad" using assms(1,2) by simp
  moreover have "fold enc4 (take (n + 4) bad) 0 \<noteq> fold enc4 (take (n + 4) good) 0"
    using rs.burst_differs [OF len, of k 0] same assms(5) by blast
  moreover have "fold crc32c_calc (take (n + 4) bad) 0xffffffff \<noteq> fold crc32c_calc (take (n + 4) good) 0xffffffff"
    using crc.burst_differs [OF len, of k "0xffffffff"] same assms(5) by blast
  ultimately show ?thesis using assms(1,3) by (auto simp: rs_check_eq crc_check_eq)
qed

theorem damaged_block_rejected_witness:
  "rs_gf256_check (rs_gf256_enc [1, 2, 3, 0, 0, 0, 0] 3) 3 = 3 \<and>
   rs_gf256_check ((rs_gf256_enc [1, 2, 3, 0, 0, 0, 0] 3)[2 := 9, 4 := 9]) 3 = - 1"
proof -
  let ?good = "rs_gf256_enc [1, 2, 3, 0, 0, 0, 0] 3"
  have good: "rs_gf256_check ?good 3 = 3" "take 3 ?good = [1, 2, 3]" "length ?good = 7"
    using rs_enc_check [of 3 "[1, 2, 3, 0, 0, 0, 0]"] by simp_all
  have "?good ! 2 = 3" using arg_cong [OF good(2), of "\<lambda>xs. xs ! 2"] by simp
  then have "take 7 (?good[2 := 9, 4 := 9]) ! 2 \<noteq> take 7 ?good ! 2" using good(3) by simp
  then have "take 7 (?good[2 := 9, 4 := 9]) \<noteq> take 7 ?good" by metis
  moreover have "?good[2 := 9, 4 := 9] ! i = ?good ! i" if "i < 2 \<or> 2 + 4 \<le> i" for i
    using that by auto
  ultimately show ?thesis
    using damaged_block_rejected [of 3 ?good "?good[2 := 9, 4 := 9]" "[0, 0, 0]" 2] good by auto
qed

end
