(* ===== verification/Times.thy ===== *)
theory Times imports Prelude "HOL-Library.Signed_Division" begin

text \<open>
  Calendar time: \<open>src/ltfs/src/libltfs/arch/time_internal.c\<close>, the range checks of
  \<open>time_internal.h\<close>, and the time stamps of the index in \<open>xml_writer.c\<close> and \<open>xml_reader.c\<close>. C's
  division and remainder are \<open>sdiv\<close> and \<open>smod\<close>. An \<open>int\<close> wraps at 32 bits (\<open>i32\<close>) wherever its
  operands are not known to be small; \<open>int64_t\<close> values stay in range because they only shrink.
\<close>

definition i32 :: "int \<Rightarrow> int" where
  "i32 x = sint (of_int x :: u32)"

text \<open>\<open>struct tm\<close>.\<close>

record tm =
  tm_sec :: int
  tm_min :: int
  tm_hour :: int
  tm_mday :: int
  tm_mon :: int
  tm_year :: int
  tm_wday :: int
  tm_yday :: int
  tm_isdst :: int

section \<open>From the calendar to seconds\<close>

definition ltfs_timegm :: "tm \<Rightarrow> int" where
  "ltfs_timegm t =
     (let tmp = (tm_mon t - 13) sdiv 12
      in 86400 * i32 (i32 (1461 * i32 (tm_year t + 6700 + tmp)) sdiv 4
                 + (367 * (tm_mon t - 1 - 12 * tmp)) sdiv 12
                 - i32 (3 * (i32 (tm_year t + 6800 + tmp) sdiv 100)) sdiv 4
                 + tm_mday t - 2472663)
         + 3600 * tm_hour t + 60 * tm_min t + tm_sec t)"

section \<open>From seconds to the calendar\<close>

definition ltfs_get_days_of_year :: "int \<Rightarrow> int" where
  "ltfs_get_days_of_year nYear =
     (if nYear smod 400 = 0 \<or> nYear smod 100 \<noteq> 0 \<and> nYear smod 4 = 0 then 366 else 365)"

text \<open>The loop over the months: the month, or -1, and what is left of the days.\<close>

fun find_month :: "int \<Rightarrow> int list \<Rightarrow> int \<Rightarrow> int \<times> int" where
  "find_month i [] nMday = (-1, nMday)"
| "find_month i (days # months) nMday =
     (if nMday < days then (i, nMday) else find_month (i + 1) months (nMday - days))"

definition days_of_month :: "int \<Rightarrow> int list" where
  "days_of_month nYear =
     [31, if ltfs_get_days_of_year nYear = 365 then 28 else 29, 31, 30, 31, 30, 31, 31, 30, 31, 30, 31]"

definition ltfs_get_mday_from_yday :: "int \<Rightarrow> int \<Rightarrow> int \<times> int" where
  "ltfs_get_mday_from_yday nYear nYday =
     (case find_month 0 (days_of_month nYear) nYday of (nMonth, nMday) \<Rightarrow>
        let nMday = (if nMday < 0 \<or> nMonth = -1 then -2 else nMday)
        in (nMday + 1, nMonth))"

text \<open>One unit of the clock: its value and the remaining time in the next unit.\<close>

definition clock_unit :: "int \<Rightarrow> int \<Rightarrow> int \<times> int" where
  "clock_unit unit nSrcTime =
     (let n = nSrcTime smod unit; rest = nSrcTime sdiv unit
      in if 0 \<le> n then (n, rest) else (n + unit, rest - 1))"

text \<open>The years since March 2000 and the days since the first of March, from the days since 2000-03-01.\<close>

definition years_since_march :: "int \<Rightarrow> int \<times> int" where
  "years_since_march nSrcTime =
     (let n400Y = nSrcTime sdiv 146097; nYears = n400Y * 400; nSrcTime = nSrcTime smod 146097;
          n100Y = nSrcTime sdiv 36524; nYears = nYears + n100Y * 100; nSrcTime = nSrcTime smod 36524;
          nSrcTime = (if n100Y = 4 then nSrcTime - 1 else nSrcTime);
          n4Y = nSrcTime sdiv 1461; nYears = nYears + n4Y * 4; nSrcTime = nSrcTime smod 1461;
          nSrcTime = (if n100Y < 0 \<and> n4Y = 0 then nSrcTime + 1 else nSrcTime);
          n1Y = nSrcTime sdiv 365; nYears = nYears + n1Y; nSrcTime = nSrcTime smod 365;
          nSrcTime = (if n1Y = 4 then nSrcTime - 1 else nSrcTime);
          nSrcTime = (if n1Y < 0 \<and> \<not> (n100Y < 0 \<and> n4Y = 0) then nSrcTime + 1 else nSrcTime)
      in (nYears, nSrcTime))"

text \<open>The year and the day of the year, moved to the year before or after when it is not in the year.\<close>

definition year_and_day :: "int \<Rightarrow> int \<Rightarrow> int \<times> int" where
  "year_and_day nYears nSrcTime =
     (let nDaysOfYear = ltfs_get_days_of_year (nYears + 2000);
          nYday = nSrcTime + 31 + 28 + (nDaysOfYear - 365)
      in if nDaysOfYear \<le> nYday then (nYears + 1, nYday - nDaysOfYear)
         else if nYday < 0 then (nYears - 1, nYday + ltfs_get_days_of_year (nYears - 1 + 2000))
         else (nYears, nYday))"

definition ltfs_gmtime :: "int \<Rightarrow> tm" where
  "ltfs_gmtime timep =
     (case clock_unit 60 timep of (sec, nSrcTime) \<Rightarrow>
      case clock_unit 60 nSrcTime of (minute, nSrcTime) \<Rightarrow>
      case clock_unit 24 nSrcTime of (hour, nSrcTime) \<Rightarrow>
      let nSrcTime = nSrcTime - 11017;
          wday = (nSrcTime + 3) smod 7;
          wday = (if wday < 0 then wday + 7 else wday)
      in case years_since_march nSrcTime of (nYears, nSrcTime) \<Rightarrow>
      case year_and_day nYears nSrcTime of (nYears, nYday) \<Rightarrow>
      case ltfs_get_mday_from_yday (nYears + 2000) nYday of (mday, mon) \<Rightarrow>
      \<lparr>tm_sec = sec, tm_min = minute, tm_hour = hour, tm_mday = mday, tm_mon = mon,
       tm_year = i32 (nYears + 2000 - 1900), tm_wday = wday, tm_yday = nYday, tm_isdst = -1\<rparr>)"

section \<open>Ranges\<close>

definition LTFS_TIME_T_MAX :: int where "LTFS_TIME_T_MAX = 253402300799"
definition LTFS_TIME_T_MIN :: int where "LTFS_TIME_T_MIN = -62167219200"
definition LTFS_TIME_OUT_OF_RANGE :: int where "LTFS_TIME_OUT_OF_RANGE = 1"
definition LTFS_NSEC_MAX :: int where "LTFS_NSEC_MAX = 999999999"
definition LTFS_NSEC_MIN :: int where "LTFS_NSEC_MIN = 0"

definition normalize_ltfs_time :: "ltfs_timespec \<Rightarrow> int \<times> ltfs_timespec" where
  "normalize_ltfs_time t =
     (if tv_sec t > LTFS_TIME_T_MAX then
        (LTFS_TIME_OUT_OF_RANGE, t\<lparr>tv_sec := LTFS_TIME_T_MAX, tv_nsec := LTFS_NSEC_MAX\<rparr>)
      else if tv_sec t < LTFS_TIME_T_MIN then
        (LTFS_TIME_OUT_OF_RANGE, t\<lparr>tv_sec := LTFS_TIME_T_MIN, tv_nsec := LTFS_NSEC_MIN\<rparr>)
      else (0, t))"

text \<open>The clock of the host is a parameter: its return value and the time it gives.\<close>

definition get_current_timespec :: "int \<times> ltfs_timespec \<Rightarrow> int \<times> ltfs_timespec" where
  "get_current_timespec clock = (case clock of (ret, now) \<Rightarrow> if ret = 0 then normalize_ltfs_time now else (ret, now))"

text \<open>Differences of time stamps; a 32 bit \<open>long\<close> holds the nanoseconds.\<close>

definition timer_sub :: "ltfs_timespec \<Rightarrow> ltfs_timespec \<Rightarrow> ltfs_timespec" where
  "timer_sub a b =
     (let s = tv_sec a - tv_sec b; n = tv_nsec a - tv_nsec b
      in if n < 0 then \<lparr>tv_sec = s - 1, tv_nsec = n + 1000000000\<rparr> else \<lparr>tv_sec = s, tv_nsec = n\<rparr>)"

definition diff_time :: "ltfs_timespec \<Rightarrow> ltfs_timespec \<Rightarrow> ltfs_timespec" where
  "diff_time stop start =
     (let s = tv_sec stop - tv_sec start
      in if tv_nsec stop < tv_nsec start
         then \<lparr>tv_sec = s - 1, tv_nsec = 1000000000 - tv_nsec start + tv_nsec stop\<rparr>
         else \<lparr>tv_sec = s, tv_nsec = tv_nsec stop - tv_nsec start\<rparr>)"

end
