(* ===== verification/Values.thy ===== *)
theory Values imports Errors Times begin

text \<open>
  The values inside an index document: numbers, flags, UUIDs and time stamps as text
  (\<open>src/ltfs/src/libltfs/xml_reader.c\<close>, \<open>xml_writer.c\<close>) and binary attribute values in base 64
  (\<open>src/ltfs/src/libltfs/base64.c\<close>). What the code uses of \<open>sprintf\<close>, \<open>sscanf\<close> and \<open>strtoull\<close> is
  modelled on character lists: field widths, leading white space, signs and saturation.
  The pointer checks and the log messages are left out.
\<close>

unbundle bit_operations_syntax

section \<open>Printing and scanning numbers\<close>

definition digit_char :: "nat \<Rightarrow> char" where
  "digit_char d = char_of (48 + d)"

fun decimal :: "nat \<Rightarrow> string" where
  "decimal n = (if n < 10 then [digit_char n] else decimal (n div 10) @ [digit_char (n mod 10)])"

declare decimal.simps [simp del]

text \<open>\<open>%0wd\<close>\<close>

definition zero_pad :: "nat \<Rightarrow> string \<Rightarrow> string" where
  "zero_pad w s = replicate (w - length s) CHR ''0'' @ s"

definition print_int :: "nat \<Rightarrow> int \<Rightarrow> string" where
  "print_int w i =
     (if i < 0 then CHR ''-'' # zero_pad (w - 1) (decimal (nat (- i))) else zero_pad w (decimal (nat i)))"

definition is_space :: "char \<Rightarrow> bool" where
  "is_space c \<longleftrightarrow> c = CHR '' '' \<or> 9 \<le> (of_char c :: nat) \<and> (of_char c :: nat) \<le> 13"

text \<open>The value of a digit in a base, if it is one.\<close>

definition digit_value :: "nat \<Rightarrow> char \<Rightarrow> nat option" where
  "digit_value base c =
     (let n = of_char c :: nat;
          d = (if 48 \<le> n \<and> n \<le> 57 then n - 48
               else if 97 \<le> n \<and> n \<le> 122 then n - 87
               else if 65 \<le> n \<and> n \<le> 90 then n - 55 else base)
      in if d < base then Some d else None)"

text \<open>At most \<open>w\<close> digits from the front; how many there were, their value and the rest.\<close>

fun scan_digits :: "nat \<Rightarrow> nat \<Rightarrow> nat \<Rightarrow> nat \<Rightarrow> string \<Rightarrow> nat \<times> nat \<times> string" where
  "scan_digits base 0 count acc s = (count, acc, s)"
| "scan_digits base (Suc w) count acc [] = (count, acc, [])"
| "scan_digits base (Suc w) count acc (c # s) =
     (case digit_value base c of
        Some d \<Rightarrow> scan_digits base w (Suc count) (base * acc + d) s
      | None \<Rightarrow> (count, acc, c # s))"

definition scan_sign :: "nat \<Rightarrow> string \<Rightarrow> int \<times> nat \<times> string" where
  "scan_sign w s =
     (case s of
        c # rest \<Rightarrow> if 0 < w \<and> c = CHR ''-'' then (-1, w - 1, rest)
                   else if 0 < w \<and> c = CHR ''+'' then (1, w - 1, rest) else (1, w, s)
      | [] \<Rightarrow> (1, w, s))"

text \<open>A conversion \<open>%wd\<close>; without a width the length of the string is no limit. An \<open>int\<close> keeps 32 bits.\<close>

definition scan_int :: "nat \<Rightarrow> string \<Rightarrow> (int \<times> string) option" where
  "scan_int w s =
     (case scan_sign w (dropWhile is_space s) of (sign, w, s) \<Rightarrow>
      case scan_digits 10 w 0 0 s of (count, n, s) \<Rightarrow>
        if count = 0 then None else Some (i32 (sign * int n), s))"

datatype directive = Number nat | Literal char

text \<open>The numbers \<open>sscanf\<close> converts before the format ends or the input does not match.\<close>

fun scan :: "directive list \<Rightarrow> string \<Rightarrow> int list" where
  "scan [] s = []"
| "scan (Literal c # ds) s = (case s of x # xs \<Rightarrow> if x = c then scan ds xs else [] | [] \<Rightarrow> [])"
| "scan (Number w # ds) s = (case scan_int w s of None \<Rightarrow> [] | Some (n, rest) \<Rightarrow> n # scan ds rest)"

section \<open>Time stamps\<close>

text \<open>The result \<open>None\<close> of the text is a failed allocation.\<close>

definition xml_format_time :: "bool \<Rightarrow> ltfs_timespec \<Rightarrow> int \<times> string option" where
  "xml_format_time memory t =
     (case normalize_ltfs_time t of (noramized, t) \<Rightarrow>
      let tm = ltfs_gmtime (tv_sec t)
      in if \<not> memory then (- 1, None)
         else (noramized, Some (print_int 4 (tm_year tm + 1900) @ ''-'' @ print_int 2 (tm_mon tm + 1) @ ''-'' @
                 print_int 2 (tm_mday tm) @ ''T'' @ print_int 2 (tm_hour tm) @ '':'' @
                 print_int 2 (tm_min tm) @ '':'' @ print_int 2 (tm_sec tm) @ ''.'' @
                 print_int 9 (tv_nsec t) @ ''Z'')))"

definition time_format :: "nat \<Rightarrow> directive list" where
  "time_format unlimited =
     [Number unlimited, Literal CHR ''-'', Number 2, Literal CHR ''-'', Number 2, Literal CHR ''T'',
      Number 2, Literal CHR '':'', Number 2, Literal CHR '':'', Number 2, Literal CHR ''.'',
      Number 9, Literal CHR ''Z'']"

definition xml_parse_time :: "string \<Rightarrow> ltfs_timespec \<Rightarrow> int \<times> ltfs_timespec" where
  "xml_parse_time fmt_time rawtime =
     (case scan (time_format (length fmt_time)) fmt_time of
        [year, mon, mday, hour, minute, sec, nsec] \<Rightarrow>
          let tm = \<lparr>tm_sec = sec, tm_min = minute, tm_hour = hour, tm_mday = mday, tm_mon = mon - 1,
                tm_year = i32 (year - 1900), tm_wday = 0, tm_yday = 0, tm_isdst = 0\<rparr>
          in normalize_ltfs_time \<lparr>tv_sec = ltfs_timegm tm, tv_nsec = nsec\<rparr>
      | _ \<Rightarrow> (- 1, rawtime))"

section \<open>Flags, numbers and UUIDs\<close>

definition xml_parse_bool :: "string \<Rightarrow> int \<times> bool option" where
  "xml_parse_bool v =
     (if v = ''true'' \<or> v = ''1'' then (0, Some True)
      else if v = ''false'' \<or> v = ''0'' then (0, Some False) else (- 1, None))"

text \<open>\<open>strtoull\<close>: the value and where the conversion ended, the whole string when there was no digit.\<close>

definition hex_prefix :: "nat \<Rightarrow> string \<Rightarrow> string" where
  "hex_prefix base s =
     (case s of
        z # x # d # rest \<Rightarrow>
          if base = 16 \<and> z = CHR ''0'' \<and> (x = CHR ''x'' \<or> x = CHR ''X'') \<and> digit_value 16 d \<noteq> None then d # rest else s
      | _ \<Rightarrow> s)"

definition scan_number :: "nat \<Rightarrow> string \<Rightarrow> (int \<times> string) option" where
  "scan_number base val =
     (case scan_sign (Suc (length val)) (dropWhile is_space val) of (sign, w, s) \<Rightarrow>
      case scan_digits base w 0 0 (hex_prefix base s) of (count, n, rest) \<Rightarrow>
        if count = 0 then None else Some (sign * int n, rest))"

definition strtoull :: "nat \<Rightarrow> string \<Rightarrow> u64 \<times> string" where
  "strtoull base val =
     (case scan_number base val of
        None \<Rightarrow> (0, val)
      | Some (n, rest) \<Rightarrow> (if 2 ^ 64 \<le> \<bar>n\<bar> then 2 ^ 64 - 1 else of_int n, rest))"

definition strtoll :: "string \<Rightarrow> int \<times> string" where
  "strtoll val =
     (case scan_number 10 val of
        None \<Rightarrow> (0, val)
      | Some (n, rest) \<Rightarrow> (if n < - (2 ^ 63) then - (2 ^ 63) else if 2 ^ 63 \<le> n then 2 ^ 63 - 1 else n, rest))"

definition xml_parse_ll :: "string \<Rightarrow> int \<times> int option" where
  "xml_parse_ll val =
     (if length val = 0 then (- 1, None)
      else case strtoll val of (n, invalid_start) \<Rightarrow>
        if invalid_start \<noteq> [] then (- 1, Some n) else (0, Some n))"

definition xml_parse_ull :: "string \<Rightarrow> int \<times> u64 option" where
  "xml_parse_ull val =
     (if length val = 0 then (- 1, None)
      else case strtoull 10 val of (n, invalid_start) \<Rightarrow>
        if invalid_start \<noteq> [] then (- 1, Some n) else (0, Some n))"

definition xml_parse_xll :: "string \<Rightarrow> int \<times> u64 option" where
  "xml_parse_xll val =
     (if length val = 0 then (- 1, None)
      else case strtoull 16 val of (n, invalid_start) \<Rightarrow>
        if invalid_start \<noteq> [] then (- 1, Some n) else (0, Some n))"

definition in_range :: "char \<Rightarrow> char \<Rightarrow> char \<Rightarrow> bool" where
  "in_range a b c \<longleftrightarrow> (of_char a :: nat) \<le> of_char c \<and> (of_char c :: nat) \<le> of_char b"

text \<open>The loop over the 36 characters; the output is changed up to the place of an error.\<close>

fun uuid_loop :: "nat \<Rightarrow> nat \<Rightarrow> string \<Rightarrow> string \<Rightarrow> int \<times> string" where
  "uuid_loop 0 i val out = (0, out)"
| "uuid_loop (Suc n) i val out =
     (let c = val ! i
      in if (if i = 8 \<or> i = 13 \<or> i = 18 \<or> i = 23 then c \<noteq> CHR ''-''
             else \<not> in_range CHR ''0'' CHR ''9'' c \<and> \<not> in_range CHR ''a'' CHR ''f'' c \<and>
                  \<not> in_range CHR ''A'' CHR ''F'' c)
         then (- 1, out)
         else uuid_loop n (Suc i) val
           (if in_range CHR ''A'' CHR ''F'' c then out[i := char_of (of_char (out ! i) + 32 :: nat)] else out))"

definition xml_parse_uuid :: "string \<Rightarrow> string \<Rightarrow> int \<times> string" where
  "xml_parse_uuid out_val val = (if length val \<noteq> 36 then (- 1, out_val) else uuid_loop 36 0 val val)"

section \<open>Base 64\<close>

definition base64_enc :: string where
  "base64_enc = ''ABCDEFGHIJKLMNOPQRSTUVWXYZabcdefghijklmnopqrstuvwxyz0123456789+/''"

text \<open>The decode map, 255 where there is no entry.\<close>

definition base64_dec :: "char \<Rightarrow> u8" where
  "base64_dec = fold (\<lambda>i m. m(base64_enc ! i := of_nat i)) [0..<64] (\<lambda>_. 255)"

definition skipped :: "char \<Rightarrow> bool" where
  "skipped c \<longleftrightarrow> c = CHR 0x0D \<or> c = CHR 0x0A \<or> c = CHR '' '' \<or> c = CHR 0x09"

text \<open>
  The first loop counts the padding and the characters that are not white space; an invalid character
  ends it. The character before the input is read when the input is a single equals sign.
\<close>

primrec base64_check :: "char \<Rightarrow> string \<Rightarrow> nat \<Rightarrow> nat \<Rightarrow> nat \<Rightarrow> nat \<Rightarrow> (nat \<times> nat) option" where
  "base64_check before enc 0 i nequal nbytes_real = Some (nequal, nbytes_real)"
| "base64_check before enc (Suc n) i nequal nbytes_real =
     (let nbytes_in = length enc;
          prev = (if i = 0 then before else enc ! (i - 1))
      in if i + 2 = nbytes_in \<and> enc ! i = CHR ''='' \<and> enc ! (i + 1) = CHR ''=''
         then base64_check before enc n (Suc i) 2 nbytes_real
         else if i + 1 = nbytes_in \<and> enc ! i = CHR ''=''
         then base64_check before enc n (Suc i) (if prev \<noteq> CHR ''='' then 1 else nequal) nbytes_real
         else if skipped (enc ! i)
         then base64_check before enc n (Suc i) nequal (nbytes_real - 1)
         else if base64_dec (enc ! i) = 255 then None
         else base64_check before enc n (Suc i) nequal nbytes_real)"

text \<open>A full quad is stored at \<open>out_pos\<close>; \<open>None\<close> is a byte of the buffer that was never written.\<close>

definition store_quad :: "u8 list \<Rightarrow> nat \<Rightarrow> (nat \<Rightarrow> u8 option) \<Rightarrow> nat \<Rightarrow> u8 option" where
  "store_quad q out_pos m =
     (let m = m(out_pos := Some (push_bit 2 (q ! 0) OR drop_bit 4 (q ! 1 AND 0x30)))
      in if q ! 2 \<noteq> 255 then
           (let m = m(out_pos + 1 := Some (push_bit 4 (q ! 1 AND 0xF) OR drop_bit 2 (q ! 2 AND 0x3C)))
            in if q ! 3 \<noteq> 255 then m(out_pos + 2 := Some (push_bit 6 (q ! 2 AND 0x3) OR q ! 3)) else m)
         else m)"

fun base64_loop :: "string \<Rightarrow> u8 list \<Rightarrow> nat \<Rightarrow> (nat \<Rightarrow> u8 option) \<Rightarrow> nat \<Rightarrow> u8 option" where
  "base64_loop [] cur_quad out_pos m = m"
| "base64_loop (c # enc) cur_quad out_pos m =
     (if skipped c then base64_loop enc cur_quad out_pos m
      else
        let cur_quad = cur_quad @ [base64_dec c]
        in if length cur_quad = 4 then base64_loop enc [] (out_pos + 3) (store_quad cur_quad out_pos m)
           else base64_loop enc cur_quad out_pos m)"

definition base64_decode :: "(nat \<Rightarrow> bool) \<Rightarrow> char \<Rightarrow> string \<Rightarrow> nat \<times> (nat \<Rightarrow> u8 option) option" where
  "base64_decode memory before enc =
     (if length enc = 0 then (0, None)
      else case base64_check before enc (length enc) 0 0 (length enc) of
        None \<Rightarrow> (0, None)
      | Some (nequal, nbytes_real) \<Rightarrow>
          if nbytes_real mod 4 \<noteq> 0 then (0, None)
          else
            let nout = 3 * (nbytes_real div 4) - nequal
            in if \<not> memory nout then (0, None) else (nout, Some (base64_loop enc [] 0 (\<lambda>_. None))))"

end
