(* ===== verification/TimesSpec.thy ===== *)
theory TimesSpec imports Times begin

text \<open>
  The proleptic Gregorian calendar and the conversions. \<open>jan1\<close> counts the days before a year; the
  code's way through periods of 400, 100, 4 and 1 years, with truncating division for times
  before 2000, ends at the year and day of the year that \<open>jan1\<close> gives, and the closed formula of
  \<open>ltfs_timegm\<close> is its inverse.
\<close>

lemma i32_id: "- (2 ^ 31) \<le> x \<Longrightarrow> x < 2 ^ 31 \<Longrightarrow> i32 x = x"
  by (simp add: i32_def signed_of_int signed_take_bit_int_eq_self)

section \<open>Truncating division\<close>

lemma truncated:
  "0 \<le> x \<Longrightarrow> 0 < n \<Longrightarrow> x sdiv n = x div n" "0 \<le> x \<Longrightarrow> 0 < n \<Longrightarrow> x smod n = x mod n"
  "0 \<le> x \<Longrightarrow> 0 < n \<Longrightarrow> (- x) sdiv n = - (x div n)" "0 \<le> x \<Longrightarrow> 0 < n \<Longrightarrow> (- x) smod n = - (x mod n)"
  for x n :: int
  by (simp_all add: signed_divide_int_def signed_modulo_int_def sgn_if)

lemma truncated_to:
  "0 < n \<Longrightarrow> 0 \<le> x \<Longrightarrow> x div n = q \<Longrightarrow> x mod n = r \<Longrightarrow> x sdiv n = q \<and> x smod n = r"
  "0 < n \<Longrightarrow> 0 \<le> x \<Longrightarrow> x div n = q \<Longrightarrow> x mod n = r \<Longrightarrow> (- x) sdiv n = - q \<and> (- x) smod n = - r"
  for x n :: int
  by (simp_all add: truncated)

lemma smod_zero_iff: "0 < n \<Longrightarrow> x smod n = 0 \<longleftrightarrow> x mod n = 0" for x n :: int
proof (cases "0 \<le> x")
  case False
  assume "0 < n"
  then have "x smod n = - ((- x) mod n)" using truncated(4) [of "- x" n] False by simp
  then show ?thesis using mod_minus_minus [of x n] by (simp add: zmod_zminus1_not_zero mod_eq_0_iff_dvd)
qed (simp add: truncated)

lemma clock_unit_eq: "0 < n \<Longrightarrow> clock_unit n x = (x mod n, x div n)"
proof (cases "0 \<le> x")
  case True
  then show "0 < n \<Longrightarrow> ?thesis" by (simp add: clock_unit_def truncated)
next
  case False
  assume n: "0 < n"
  have "x smod n = - ((- x) mod n)" "x sdiv n = - ((- x) div n)"
    using truncated(3,4) [of "- x" n] False n by simp_all
  moreover have "0 \<le> (- x) mod n" "(- x) mod n < n" using n by simp_all
  moreover have "x mod n \<noteq> n" using pos_mod_bound [OF n, of x] by linarith
  ultimately show ?thesis
    using n by (auto simp: clock_unit_def Let_def zmod_zminus1_eq_if zdiv_zminus1_eq_if)
qed

lemma weekday: "(let wday = x smod 7 in if wday < 0 then wday + 7 else wday) = x mod 7" for x :: int
  using arg_cong [OF clock_unit_eq [of 7 x], of fst] by (simp add: clock_unit_def Let_def split: if_splits)

lemma div_is: "n * q \<le> x \<Longrightarrow> x < n * q + n \<Longrightarrow> x div n = q" for x n q :: int
  by (rule int_div_pos_eq [of _ _ _ "x - n * q"]) simp_all

section \<open>Years\<close>

definition leap :: "int \<Rightarrow> int" where
  "leap y = (if y mod 400 = 0 \<or> y mod 100 \<noteq> 0 \<and> y mod 4 = 0 then 1 else 0)"

lemma days_of_year_leap: "ltfs_get_days_of_year y = 365 + leap y"
  by (simp add: ltfs_get_days_of_year_def leap_def smod_zero_iff)

lemma leap_range: "0 \<le> leap y" "leap y \<le> 1"
  by (simp_all add: leap_def)

text \<open>The days from the first of January of the year 0 to that of a year, and from 2000-03-01 to the first of March.\<close>

definition jan1 :: "int \<Rightarrow> int" where
  "jan1 y = 365 * y + (y + 3) div 4 - (y + 99) div 100 + (y + 399) div 400"

definition march1 :: "int \<Rightarrow> int" where
  "march1 y = 365 * y + y div 4 - y div 100 + y div 400"

lemma quotient:
  fixes x n :: int
  assumes "0 < n"
  obtains q r where "x = n * q + r" "0 \<le> x \<Longrightarrow> 0 \<le> q" "0 \<le> r" "r < n" "x div n = q" "x mod n = r"
  using assms by (metis mult_div_mod_eq pos_imp_zdiv_nonneg_iff pos_mod_bound pos_mod_sign)

lemma ceiling:
  fixes y n :: int
  assumes "0 < n"
  shows "(y + (n - 1)) div n = y div n + (if y mod n = 0 then 0 else 1)"
proof -
  obtain q r where q: "y = n * q + r" "0 \<le> r" "r < n" "y div n = q" "y mod n = r"
    using quotient [OF assms, of y] by metis
  have "(n * q + r + (n - 1)) div n = q + (if r = 0 then 0 else 1)"
    by (rule div_is) (use q(2,3) in \<open>auto simp: distrib_left\<close>)
  then show ?thesis using q by simp
qed

lemmas ceilings = ceiling [of 4, simplified] ceiling [of 100, simplified] ceiling [of 400, simplified]

lemma jan1_march1: "march1 y = jan1 y - 1 + leap y"
proof -
  have "y mod 100 = 0" if "y mod 400 = 0" using that dvd_trans [of 100 400 y] by (simp add: mod_eq_0_iff_dvd)
  moreover have "y mod 4 = 0" if "y mod 100 = 0" using that dvd_trans [of 4 100 y] by (simp add: mod_eq_0_iff_dvd)
  ultimately show ?thesis by (auto simp: march1_def jan1_def ceilings leap_def)
qed

lemma march1_cycle: "march1 (400 * a + z) = 146097 * a + march1 z"
  using div_mult_self1 [of 4 z "100 * a"] div_mult_self1 [of 100 z "4 * a"] div_mult_self1 [of 400 z a]
  by (simp add: march1_def add.commute)

lemma march1_bound: "\<bar>march1 y\<bar> \<le> 366 * \<bar>y\<bar> + 2"
proof -
  have "4 * (y div 4) \<le> y" "y < 4 * (y div 4) + 4" "100 * (y div 100) \<le> y" "y < 100 * (y div 100) + 100"
    "400 * (y div 400) \<le> y" "y < 400 * (y div 400) + 400" by simp_all
  then show ?thesis by (simp add: march1_def abs_if split: if_splits)
qed

lemma march1_2000: "march1 (y + 2000) = march1 y + 730485"
  using march1_cycle [of 5 y] by (simp add: add.commute)

lemma march1_is:
  assumes "4 * p \<le> y" "y < 4 * p + 4" "100 * q \<le> y" "y < 100 * q + 100" "400 * r \<le> y" "y < 400 * r + 400"
  shows "march1 y = 365 * y + p - q + r"
  using div_is [OF assms(1,2)] div_is [OF assms(3,4)] div_is [OF assms(5,6)] by (simp add: march1_def)

lemma march1_up:
  assumes "0 \<le> b" "b \<le> 3" "0 \<le> c" "c \<le> 24" "0 \<le> e" "e \<le> 3"
  shows "march1 (100 * b + 4 * c + e) = 36524 * b + 1461 * c + 365 * e"
  using assms by (subst march1_is [of "25 * b + c" _ b 0]) simp_all

lemma march1_down:
  assumes "0 \<le> b" "b \<le> 3" "0 \<le> c" "c \<le> 24" "0 < e" "e \<le> 4" "c < 24 \<or> e < 4"
  shows "march1 (- (100 * b + 4 * c + e)) = - (36524 * b + 1461 * c + 365 * e + 1)"
  using assms by (subst march1_is [of "- (25 * b + c + 1)" _ "- b - 1" "- 1"]) simp_all

lemma march1_down_4:
  assumes "0 \<le> b" "b \<le> 3" "0 < c" "c \<le> 24"
  shows "march1 (- (100 * b + 4 * c)) = - (36524 * b + 1461 * c)"
  using assms by (subst march1_is [of "- (25 * b + c)" _ "- b - 1" "- 1"]) simp_all

lemma march1_down_100: "0 < b \<Longrightarrow> b \<le> 4 \<Longrightarrow> march1 (- (100 * b)) = - (36524 * b + 1)"
  by (subst march1_is [of "- (25 * b)" _ "- b" "- 1"]) simp_all

lemma years_since_march_up:
  assumes "0 \<le> d" "years_since_march d = (y, s)"
  shows "d = march1 y + s \<and> -1 \<le> s \<and> s < 365"
proof -
  obtain a r where a: "d = 146097 * a + r" "0 \<le> a" "0 \<le> r" "r < 146097" "d div 146097 = a" "d mod 146097 = r"
    using quotient [of 146097 d] assms(1) by (metis zero_less_numeral)
  obtain b s1 where b: "r = 36524 * b + s1" "0 \<le> b" "0 \<le> s1" "s1 < 36524" "r div 36524 = b" "r mod 36524 = s1"
    using quotient [of 36524 r] a(3) by (metis zero_less_numeral)
  obtain c s2 where c: "s1 = 1461 * c + s2" "0 \<le> c" "0 \<le> s2" "s2 < 1461" "s1 div 1461 = c" "s1 mod 1461 = s2"
    using quotient [of 1461 s1] b(3) by (metis zero_less_numeral)
  obtain e s3 where e: "s2 = 365 * e + s3" "0 \<le> e" "0 \<le> s3" "s3 < 365" "s2 div 365 = e" "s2 mod 365 = s3"
    using quotient [of 365 s2] c(3) by (metis zero_less_numeral)
  have cy: "march1 (400 * a + z) = 146097 * a + march1 z" for z by (rule march1_cycle)
  show ?thesis
  proof (cases "b = 4")
    case True
    then have "s1 = 0" using a(4) b(1,3) by simp
    then have "years_since_march d = (400 * a + 400, -1)"
      using a b True assms(1) \<open>s1 = 0\<close> by (simp add: years_since_march_def Let_def truncated)
    then show ?thesis using assms(2) cy [of 400] a(1) b(1) True \<open>s1 = 0\<close> by (simp add: march1_def)
  next
    case False
    then have b3: "b \<le> 3" and c24: "c \<le> 24" and e4: "e \<le> 4" using a(4) b c e by simp_all
    have run: "years_since_march d = (400 * a + 100 * b + 4 * c + e, if e = 4 then s3 - 1 else s3)"
    proof -
      have "d sdiv 146097 = a" "d smod 146097 = r" "r sdiv 36524 = b" "r smod 36524 = s1"
        "s1 sdiv 1461 = c" "s1 smod 1461 = s2" "s2 sdiv 365 = e" "s2 smod 365 = s3"
        using truncated_to(1) [OF _ assms(1) a(5,6)] truncated_to(1) [OF _ a(3) b(5,6)]
          truncated_to(1) [OF _ b(3) c(5,6)] truncated_to(1) [OF _ c(3) e(5,6)] by simp_all
      then show ?thesis using False b(2) e(2) by (simp add: years_since_march_def Let_def)
    qed
    show ?thesis
    proof (cases "e = 4")
      case True
      then have "c < 24" "s3 = 0" using b(4) c e by simp_all
      then have "march1 (100 * b + 4 * c + 4) = 36524 * b + 1461 * (c + 1)"
        using march1_up [of b "c + 1" 0] b(2) b3 c(2) by (simp add: algebra_simps)
      then show ?thesis using run assms(2) cy [of "100 * b + 4 * c + 4"] a(1) b(1) c(1) e(1) True \<open>s3 = 0\<close>
        by (simp add: add.assoc)
    next
      case False
      then have "march1 (100 * b + 4 * c + e) = 36524 * b + 1461 * c + 365 * e"
        using march1_up [of b c e] b(2) b3 c(2) c24 e(2) e4 by simp
      then show ?thesis using run assms(2) cy [of "100 * b + 4 * c + e"] a(1) b(1) c(1) e False
        by (auto simp: add.assoc)
    qed
  qed
qed


lemma years_since_march_down:
  assumes "d < 0" "years_since_march d = (y, s)"
  shows "d = march1 y + s \<and> -365 < s \<and> s \<le> 1"
proof -
  obtain a r where a: "- d = 146097 * a + r" "0 \<le> a" "0 \<le> r" "r < 146097" "- d div 146097 = a" "- d mod 146097 = r"
    using quotient [of 146097 "- d"] assms(1) by (auto simp: less_imp_le)
  obtain b s1 where b: "r = 36524 * b + s1" "0 \<le> b" "0 \<le> s1" "s1 < 36524" "r div 36524 = b" "r mod 36524 = s1"
    using quotient [of 36524 r] a(3) by (metis zero_less_numeral)
  obtain c s2 where c: "s1 = 1461 * c + s2" "0 \<le> c" "0 \<le> s2" "s2 < 1461" "s1 div 1461 = c" "s1 mod 1461 = s2"
    using quotient [of 1461 s1] b(3) by (metis zero_less_numeral)
  have d: "d sdiv 146097 = - a" "d smod 146097 = - r" "r sdiv 36524 = b" "r smod 36524 = s1"
    "s1 sdiv 1461 = c" "s1 smod 1461 = s2"
    using truncated_to(2) [OF _ _ a(5,6)] truncated_to(1) [OF _ a(3) b(5,6)] truncated_to(1) [OF _ b(3) c(5,6)] assms(1)
    by simp_all
  have cy: "march1 (- (400 * a) - z) = - (146097 * a) + march1 (- z)" for z
    using march1_cycle [of "- a" "- z"] by simp
  have b4: "b \<le> 4" "b = 4 \<longrightarrow> s1 = 0" and c24: "c \<le> 24" using a(4) b c by simp_all
  show ?thesis
  proof (cases "0 < b \<and> c = 0")
    case edge: True
    show ?thesis
    proof (cases "s2 = 0")
      case True
      have "(1 :: int) sdiv 365 = 0" "(1 :: int) smod 365 = 1"
        by (simp_all add: signed_divide_int_def signed_modulo_int_def)
      then have "years_since_march d = (- (400 * a) - 100 * b, 1)"
        using edge True by (simp add: years_since_march_def Let_def d)
      then show ?thesis using assms(2) cy [of "100 * b"] march1_down_100 [of b] edge b4 a(1) b(1) c(1) True by simp
    next
      case False
      then have pos: "0 \<le> s2 - 1" using c(3) by simp
      define e s3 where "e = (s2 - 1) div 365" and "s3 = (s2 - 1) mod 365"
      then have e: "s2 - 1 = 365 * e + s3" "0 \<le> e" "0 \<le> s3" "s3 < 365" "(s2 - 1) div 365 = e" "(s2 - 1) mod 365 = s3"
        using pos by (simp_all add: pos_imp_zdiv_nonneg_iff)
      have "(1 - s2) sdiv 365 = - e" "(1 - s2) smod 365 = - s3"
        using truncated_to(2) [OF _ _ e(5,6)] c(3) False by simp_all
      then have run: "years_since_march d = (- (400 * a) - 100 * b - e, - s3)"
        using edge e(2) by (simp add: years_since_march_def Let_def d)
      have "march1 (- (100 * b + e)) = - (36524 * b + 365 * e + 1)"
      proof (cases "e = 0")
        case True
        then show ?thesis using march1_down_100 [of b] edge b4 by simp
      next
        case False
        then have "b \<le> 3" "e \<le> 4" using b4 c e by auto
        then show ?thesis using march1_down [of b 0 e] edge e(2) False by simp
      qed
      then show ?thesis using run assms(2) cy [of "100 * b + e"] a(1) b(1) c(1) e edge
        by (simp add: diff_diff_eq)
    qed
  next
    case False
    obtain e s3 where e: "s2 = 365 * e + s3" "0 \<le> e" "0 \<le> s3" "s3 < 365" "s2 div 365 = e" "s2 mod 365 = s3"
      using quotient [of 365 s2] c(3) by (metis zero_less_numeral)
    have "s2 sdiv 365 = e" "s2 smod 365 = s3"
      using truncated_to(1) [OF _ c(3) e(5,6)] by simp_all
    then have run: "years_since_march d = (- (400 * a) - 100 * b - 4 * c - e, if 0 < e then 1 - s3 else - s3)"
    proof -
      assume s2: "s2 sdiv 365 = e" "s2 smod 365 = s3"
      have "- b \<noteq> 4" "- e \<noteq> 4" using b(2) e(2) by simp_all
      then show ?thesis using False by (cases "0 < b") (simp_all add: years_since_march_def Let_def d s2)
    qed
    have lim: "b \<le> 3" "e \<le> 4" "c < 24 \<or> e < 4" using False b4 b(4) c e by auto
    have "march1 (- (100 * b + 4 * c + e)) = - (36524 * b + 1461 * c + 365 * e + (if 0 < e then 1 else 0))"
    proof (cases "0 < e")
      case True
      then show ?thesis using march1_down [of b c e] b(2) c(2) c24 lim by simp
    next
      case e0: False
      show ?thesis
      proof (cases "c = 0")
        case True
        then show ?thesis using e0 e(2) False b(2) by (simp add: march1_def)
      next
        case False
        then show ?thesis using e0 e(2) march1_down_4 [of b c] b(2) c(2) c24 lim by simp
      qed
    qed
    then show ?thesis using run assms(2) cy [of "100 * b + 4 * c + e"] a(1) b(1) c(1) e(1,3,4)
      by (auto simp: diff_diff_eq split: if_splits)
  qed
qed


lemma years_since_march:
  assumes "years_since_march d = (y, s)"
  shows "d = march1 y + s" "- 365 < s" "s < 365"
  using years_since_march_up [OF _ assms] years_since_march_down [OF _ assms] by (cases "0 \<le> d"; simp)+

lemma jan1_next: "jan1 (y + 1) = jan1 y + 365 + leap y"
proof -
  have "y + 1 + 3 = y + 1 * 4" "y + 1 + 99 = y + 1 * 100" "y + 1 + 399 = y + 1 * 400" by simp_all
  then have "(y + 1 + 3) div 4 = y div 4 + 1" "(y + 1 + 99) div 100 = y div 100 + 1"
    "(y + 1 + 399) div 400 = y div 400 + 1"
    by (simp_all only: div_mult_self1)
  then have "jan1 (y + 1) = 365 * (y + 1) + (y div 4 + 1) - (y div 100 + 1) + (y div 400 + 1)"
    by (simp only: jan1_def)
  moreover have "365 * (y + 1) + (a + 1) - (b + 1) + (c + 1) = (365 * y + a - b + c) + 366" for a b c :: int
    by simp
  ultimately have "jan1 (y + 1) = march1 y + 366" by (simp only: march1_def)
  then show ?thesis using jan1_march1 [of y] by simp
qed

lemma year_and_day:
  assumes "year_and_day n s = (y, yday)" "- 365 < s" "s < 365"
  shows "march1 (n + 2000) + s + 60 = jan1 (y + 2000) + yday" "0 \<le> yday" "yday < 365 + leap (y + 2000)"
proof -
  have "jan1 (n + 1 + 2000) = jan1 (n + 2000) + 365 + leap (n + 2000)"
    "jan1 (n + 2000) = jan1 (n - 1 + 2000) + 365 + leap (n - 1 + 2000)"
    using jan1_next [of "n + 2000"] jan1_next [of "n - 1 + 2000"] by (simp_all add: algebra_simps)
  then show "march1 (n + 2000) + s + 60 = jan1 (y + 2000) + yday" "0 \<le> yday" "yday < 365 + leap (y + 2000)"
    using assms leap_range [of "n + 2000"] leap_range [of "n - 1 + 2000"] leap_range [of "n + 1 + 2000"]
    by (auto simp: year_and_day_def Let_def days_of_year_leap jan1_march1 split: if_splits)
qed

section \<open>Months\<close>

text \<open>The days of a year before a month.\<close>

definition before_month :: "int \<Rightarrow> int \<Rightarrow> int" where
  "before_month y m = sum_list (take (nat m) (days_of_month y))"

text \<open>
  The months of the Gregorian calendar, independent of the table of the code: April, June, September and November have 30 days.
\<close>

definition days_in_month :: "int \<Rightarrow> int \<Rightarrow> int" where
  "days_in_month y m = (if m = 1 then 28 + leap y else if m \<in> {3, 5, 8, 10} then 30 else 31)"

lemma days_of_month_leap:
  "days_of_month y = [31, 28 + leap y, 31, 30, 31, 30, 31, 31, 30, 31, 30, 31]"
  using leap_range [of y] by (auto simp: days_of_month_def days_of_year_leap)

lemma twelve: "0 \<le> m \<Longrightarrow> m < 12 \<Longrightarrow> m \<in> {0, 1, 2, 3, 4, 5, 6, 7, 8, 9, 10, 11}" for m :: int
proof -
  assume "0 \<le> m" "m < 12"
  then have "m \<in> set [0..11]" by simp
  then show ?thesis by (simp add: upto_rec1 del: set_upto)
qed

lemma days_of_month_nth:
  assumes "0 \<le> m" "m < 12"
  shows "days_of_month y ! nat m = days_in_month y m"
proof -
  have "m \<in> {0, 1, 2, 3, 4, 5, 6, 7, 8, 9, 10, 11}" using assms by (rule twelve)
  then show ?thesis by (auto simp: days_of_month_leap days_in_month_def)
qed

lemma find_month:
  assumes "0 \<le> d" "d < sum_list ms" "find_month i ms d = (m, r)"
  shows "i \<le> m \<and> m < i + int (length ms) \<and> d = sum_list (take (nat (m - i)) ms) + r \<and> 0 \<le> r \<and> r < ms ! nat (m - i)"
  using assms
proof (induction ms arbitrary: i d)
  case (Cons a ms)
  show ?case
  proof (cases "d < a")
    case False
    then have "i + 1 \<le> m \<and> m < i + 1 + int (length ms) \<and> d - a = sum_list (take (nat (m - (i + 1))) ms) + r \<and>
        0 \<le> r \<and> r < ms ! nat (m - (i + 1))"
      using Cons.IH [of "d - a" "i + 1"] Cons.prems by simp
    moreover from this have "nat (m - i) = Suc (nat (m - (i + 1)))" by arith
    ultimately show ?thesis by simp
  qed (use Cons.prems in simp)
qed simp

lemma mday_from_yday:
  assumes "0 \<le> yday" "yday < 365 + leap y" "ltfs_get_mday_from_yday y yday = (mday, mon)"
  shows "0 \<le> mon" "mon < 12" "yday = before_month y mon + mday - 1" "1 \<le> mday" "mday \<le> days_in_month y mon"
proof -
  obtain m r where f: "find_month 0 (days_of_month y) yday = (m, r)" by fastforce
  have "sum_list (days_of_month y) = 365 + leap y" "length (days_of_month y) = 12"
    by (simp_all add: days_of_month_leap)
  then have "0 \<le> m \<and> m < 12 \<and> yday = before_month y m + r \<and> 0 \<le> r \<and> r < days_in_month y m"
    using find_month [OF assms(1) _ f] assms(2) by (auto simp: before_month_def days_of_month_nth)
  then show "0 \<le> mon" "mon < 12" "yday = before_month y mon + mday - 1" "1 \<le> mday" "mday \<le> days_in_month y mon"
    using assms(3) f by (auto simp: ltfs_get_mday_from_yday_def)
qed

text \<open>A date is valid when the month and the day exist; its day number counts from 1970.\<close>

definition valid_date :: "int \<Rightarrow> int \<Rightarrow> int \<Rightarrow> bool" where
  "valid_date y m d \<longleftrightarrow> 0 \<le> m \<and> m < 12 \<and> 1 \<le> d \<and> d \<le> days_in_month y m"

definition day_number :: "int \<Rightarrow> int \<Rightarrow> int \<Rightarrow> int" where
  "day_number y m d = jan1 y + before_month y m + d - 1 - 719528"

lemma year_bound:
  fixes j y q yday :: int
  assumes "\<bar>j - 365 * (y + 2000)\<bar> \<le> \<bar>y\<bar> + 4000" "\<bar>q\<bar> < 2 ^ 32" "j + yday - 719528 = q" "0 \<le> yday"
  shows "yday < 367 \<Longrightarrow> \<bar>y\<bar> < 2 ^ 30"
  using assms by (simp add: abs_if split: if_splits)

lemma gmtime_date:
  assumes "tm = ltfs_gmtime t" "\<bar>t\<bar> < 2 ^ 48"
  shows "valid_date (tm_year tm + 1900) (tm_mon tm) (tm_mday tm)"
    "day_number (tm_year tm + 1900) (tm_mon tm) (tm_mday tm) = t div 86400"
    "tm_sec tm = t mod 60" "tm_min tm = t div 60 mod 60" "tm_hour tm = t div 3600 mod 24"
    "tm_wday tm = (t div 86400 + 4) mod 7" "tm_yday tm = before_month (tm_year tm + 1900) (tm_mon tm) + tm_mday tm - 1"
proof -
  let ?d = "t div 60 div 60 div 24 - 11017"
  obtain n s where 1: "years_since_march ?d = (n, s)" by fastforce
  obtain y yday where 2: "year_and_day n s = (y, yday)" by fastforce
  obtain mday mon where 3: "ltfs_get_mday_from_yday (y + 2000) yday = (mday, mon)" by fastforce
  note y = years_since_march [OF 1] and yd = year_and_day [OF 2 years_since_march(2,3) [OF 1]]
  note md = mday_from_yday [OF yd(2,3) 3]
  have units: "t div 60 div 60 div 24 = t div 86400" "t div 60 div 60 = t div 3600"
    by (simp_all flip: zdiv_zmult2_eq)
  have y0: "march1 (n + 2000) = march1 n + 730485" by (rule march1_2000)
  then have num: "jan1 (y + 2000) + yday - 719528 = t div 86400"
    using y(1) yd(1) by (simp add: units)
  have "\<bar>y\<bar> < 2 ^ 30"
  proof -
    have "\<bar>jan1 (y + 2000) - 365 * (y + 2000)\<bar> \<le> \<bar>y\<bar> + 4000" by (simp add: jan1_def)
    moreover have "86400 * (t div 86400) \<le> t" "t < 86400 * (t div 86400) + 86400" by simp_all
    moreover from this have "\<bar>t div 86400\<bar> < 2 ^ 32" using assms(2) by (simp add: abs_less_iff)
    ultimately have "yday < 367 \<Longrightarrow> ?thesis" by (intro year_bound [OF _ _ num yd(2)])
    then show ?thesis using yd(3) leap_range [of "y + 2000"] by simp
  qed
  then have year: "i32 (y + 2000 - 1900) = y + 100" by (subst i32_id) simp_all
  have week: "(let wday = (?d + 3) smod 7 in if wday < 0 then wday + 7 else wday) = (t div 86400 + 4) mod 7"
  proof -
    have "(let wday = (?d + 3) smod 7 in if wday < 0 then wday + 7 else wday) = (?d + 3) mod 7" by (rule weekday)
    also have "\<dots> = (?d + 3 + 7 * 1574) mod 7" by (simp only: mod_mult_self2)
    also have "?d + 3 + 7 * 1574 = t div 86400 + 4" by (simp add: units(1))
    finally show ?thesis .
  qed
  have "tm = \<lparr>tm_sec = t mod 60, tm_min = t div 60 mod 60, tm_hour = t div 60 div 60 mod 24, tm_mday = mday,
      tm_mon = mon, tm_year = i32 (y + 2000 - 1900),
      tm_wday = (let wday = (?d + 3) smod 7 in if wday < 0 then wday + 7 else wday),
      tm_yday = yday, tm_isdst = -1\<rparr>"
    unfolding assms(1) ltfs_gmtime_def clock_unit_eq [OF zero_less_numeral] Let_def prod.case 1 2 3 ..
  then have eq: "tm = \<lparr>tm_sec = t mod 60, tm_min = t div 60 mod 60, tm_hour = t div 3600 mod 24, tm_mday = mday,
      tm_mon = mon, tm_year = y + 100, tm_wday = (t div 86400 + 4) mod 7, tm_yday = yday, tm_isdst = -1\<rparr>"
    by (simp only: week) (simp only: year units(2))
  have tm: "tm_year tm + 1900 = y + 2000" "tm_mon tm = mon" "tm_mday tm = mday" "tm_sec tm = t mod 60"
    "tm_min tm = t div 60 mod 60" "tm_hour tm = t div 3600 mod 24" "tm_wday tm = (t div 86400 + 4) mod 7" "tm_yday tm = yday"
    by (simp_all only: eq tm.simps)
  show "valid_date (tm_year tm + 1900) (tm_mon tm) (tm_mday tm)"
    unfolding tm valid_date_def using md(1,2,4,5) by blast
  show "day_number (tm_year tm + 1900) (tm_mon tm) (tm_mday tm) = t div 86400"
    unfolding tm day_number_def using num md(3) by linarith
  show "tm_yday tm = before_month (tm_year tm + 1900) (tm_mon tm) + tm_mday tm - 1"
    unfolding tm by (rule md(3))
  show "tm_sec tm = t mod 60" "tm_min tm = t div 60 mod 60" "tm_hour tm = t div 3600 mod 24"
    "tm_wday tm = (t div 86400 + 4) mod 7"
    by (rule tm)+
qed

section \<open>The closed formula\<close>

lemma timegm_day:
  assumes "0 \<le> y" "y < 1000000" "0 \<le> m" "m < 12" "0 \<le> d" "d < 1000" "tm_year t = y - 1900" "tm_mon t = m" "tm_mday t = d"
  shows "ltfs_timegm t = 86400 * day_number y m d + 3600 * tm_hour t + 60 * tm_min t + tm_sec t"
proof -
  define tmp where "tmp = (m - 13) sdiv 12"
  have "m \<in> {0, 1, 2, 3, 4, 5, 6, 7, 8, 9, 10, 11}" using assms(3,4) by (rule twelve)
  then have tmp: "tmp = (if m < 2 then - 1 else 0)"
    by (auto simp: tmp_def signed_divide_int_def)
  let ?y = "y + tmp"
  have small: "i32 (y - 1900 + 6700 + tmp) = ?y + 4800" "i32 (1461 * (?y + 4800)) = 1461 * (?y + 4800)"
    "i32 (y - 1900 + 6800 + tmp) = ?y + 4900"
    using assms(1,2) tmp by (auto simp: i32_id)
  have div: "(1461 * (?y + 4800)) sdiv 4 = 365 * (?y + 4800) + (?y div 4 + 1200)"
    "(?y + 4900) sdiv 100 = ?y div 100 + 49"
    "i32 (3 * (?y div 100 + 49)) = 3 * (?y div 100 + 49)"
  proof -
    have "1461 * (?y + 4800) = (?y + 1200 * 4) + (365 * (?y + 4800)) * 4" by simp
    then show "(1461 * (?y + 4800)) sdiv 4 = 365 * (?y + 4800) + (?y div 4 + 1200)"
      using assms(1) tmp by (simp only: truncated div_mult_self1) (simp add: truncated)
    have "?y + 4900 = ?y + 49 * 100" by simp
    then show "(?y + 4900) sdiv 100 = ?y div 100 + 49"
      using assms(1) tmp by (simp only: truncated div_mult_self1) (simp add: truncated)
    have "100 * (?y div 100) \<le> ?y" "?y < 100 * (?y div 100) + 100" by simp_all
    then have "?y div 100 \<le> 10000" "- 1 \<le> ?y div 100" using assms(1,2) tmp by (simp_all split: if_splits)
    then show "i32 (3 * (?y div 100 + 49)) = 3 * (?y div 100 + 49)" by (intro i32_id) simp_all
  qed
  have century: "(3 * (?y div 100 + 49)) sdiv 4 = ?y div 100 + 49 - (?y div 400 + 13)"
  proof -
    have "(3 * x) div 4 = x - (x + 3) div 4" for x :: int by presburger
    moreover have "(?y div 100 + 49 + 3) div 4 = ?y div 400 + 13"
    proof -
      have "?y div 100 + 49 + 3 = ?y div 100 + 13 * 4" by simp
      then show ?thesis by (simp only: div_mult_self1)
    qed
    moreover have "?y < 100 * (?y div 100) + 100" by simp
    then have "0 \<le> 3 * (?y div 100 + 49)" using assms(1) tmp by (simp split: if_splits)
    ultimately show ?thesis by (simp add: truncated)
  qed
  define k where "k = (367 * (m - 1 - 12 * tmp)) sdiv 12"
  have k: "k = (if m < 2 then 336 + 31 * m else [30, 61, 91, 122, 152, 183, 214, 244, 275, 305] ! nat (m - 2))"
    using \<open>m \<in> _\<close> unfolding k_def tmp by (auto simp: signed_divide_int_def)
  have k_range: "0 \<le> k" "k < 400" using \<open>m \<in> _\<close> k by auto
  define days where "days = 365 * (?y + 4800) + (?y div 4 + 1200) + k - (?y div 100 + 49 - (?y div 400 + 13)) + d - 2472663"
  have eq: "days = march1 ?y + k + d - 719499" by (simp add: days_def march1_def)
  have "\<bar>days\<bar> < 2 ^ 31"
    using march1_bound [of ?y] eq k_range assms(1,2,5,6) tmp by (auto simp: abs_if split: if_splits)
  then have "i32 days = days" by (intro i32_id) simp_all
  then have "ltfs_timegm t = 86400 * days + 3600 * tm_hour t + 60 * tm_min t + tm_sec t"
    by (simp only: ltfs_timegm_def Let_def assms(7-9) tmp_def [symmetric] small div century k_def [symmetric]
        days_def [symmetric])
  moreover have "days = day_number y m d"
  proof (cases "m < 2")
    case True
    then have "m = 0 \<or> m = 1" using assms(3) by auto
    then show ?thesis using eq k tmp jan1_march1 [of "y - 1"] jan1_next [of "y - 1"]
      by (auto simp: day_number_def before_month_def days_of_month_leap)
  next
    case False
    then show ?thesis using eq k tmp jan1_march1 [of y] \<open>m \<in> _\<close>
      by (auto simp: day_number_def before_month_def days_of_month_leap)
  qed
  ultimately show ?thesis by simp
qed


section \<open>One date for one day\<close>

lemma find_month_back:
  assumes "k < length ms" "0 \<le> r" "r < ms ! k" "\<forall>x \<in> set ms. 0 \<le> x"
  shows "find_month i ms (sum_list (take k ms) + r) = (i + int k, r)"
  using assms
proof (induction ms arbitrary: i k)
  case (Cons a ms)
  show ?case
  proof (cases k)
    case (Suc j)
    have "0 \<le> sum_list (take j ms)"
      using Cons.prems(4) by (intro sum_list_nonneg) (auto dest: in_set_takeD)
    then show ?thesis using Cons Suc by simp
  qed (use Cons.prems in simp)
qed simp

lemma valid_date_yday:
  assumes "valid_date y m d"
  shows "ltfs_get_mday_from_yday y (before_month y m + d - 1) = (d, m)"
    "0 \<le> before_month y m + d - 1" "before_month y m + d - 1 < 365 + leap y"
proof -
  have m: "0 \<le> m" "nat m < length (days_of_month y)" "1 \<le> d" "d - 1 < days_of_month y ! nat m"
    using assms by (auto simp: valid_date_def days_of_month_nth) (simp add: days_of_month_leap)
  have "find_month 0 (days_of_month y) (sum_list (take (nat m) (days_of_month y)) + (d - 1)) = (0 + int (nat m), d - 1)"
    using m leap_range [of y] by (intro find_month_back) (auto simp: days_of_month_leap)
  then show "ltfs_get_mday_from_yday y (before_month y m + d - 1) = (d, m)"
    using m by (simp add: ltfs_get_mday_from_yday_def before_month_def algebra_simps)
  have "m \<in> {0, 1, 2, 3, 4, 5, 6, 7, 8, 9, 10, 11}" using assms by (intro twelve) (simp_all add: valid_date_def)
  then show "0 \<le> before_month y m + d - 1" "before_month y m + d - 1 < 365 + leap y"
    using m leap_range [of y] by (auto simp: before_month_def days_of_month_leap)
qed

lemma jan1_mono: "y < z \<Longrightarrow> jan1 y + 365 + leap y \<le> jan1 z"
proof (induction z rule: int_gr_induct [of y])
  case base
  show ?case using jan1_next [of y] by simp
next
  case (step z)
  then show ?case using jan1_next [of z] leap_range [of z] by simp
qed

lemma date_unique:
  assumes "valid_date y m d" "valid_date y' m' d'" "day_number y m d = day_number y' m' d'"
  shows "y = y'" "m = m'" "d = d'"
proof -
  note v = valid_date_yday [OF assms(1)] and v' = valid_date_yday [OF assms(2)]
  have n: "jan1 y + (before_month y m + d - 1) = jan1 y' + (before_month y' m' + d' - 1)"
    using assms(3) by (simp add: day_number_def)
  show y: "y = y'"
  proof (rule ccontr)
    assume "y \<noteq> y'"
    then consider "y < y'" | "y' < y" by linarith
    then show False using jan1_mono [of y y'] jan1_mono [of y' y] n v(2,3) v'(2,3) by cases linarith+
  qed
  then have "before_month y m + d - 1 = before_month y' m' + d' - 1" using n by simp
  then have "(d, m) = (d', m')" using v(1) v'(1) y by metis
  then show "m = m'" "d = d'" by simp_all
qed

text \<open>The day after a date.\<close>

fun next_date :: "int \<times> int \<times> int \<Rightarrow> int \<times> int \<times> int" where
  "next_date (y, m, d) =
     (if d < days_in_month y m then (y, m, d + 1) else if m < 11 then (y, m + 1, 1) else (y + 1, 0, 1))"

lemma before_month_step:
  assumes "0 \<le> m" "m < 12"
  shows "before_month y m + days_in_month y m = (if m < 11 then before_month y (m + 1) else 365 + leap y)"
    "28 \<le> days_in_month y m"
proof -
  have "nat m < length (days_of_month y)" using assms by (simp add: days_of_month_leap)
  then have "before_month y m + days_in_month y m = sum_list (take (Suc (nat m)) (days_of_month y))"
    using assms by (simp add: before_month_def days_of_month_nth take_Suc_conv_app_nth)
  moreover have "Suc (nat m) = nat (m + 1)" using assms by simp
  moreover have "sum_list (take 12 (days_of_month y)) = 365 + leap y" by (simp add: days_of_month_leap)
  moreover have "nat (m + 1) = 12" if "\<not> m < 11" using assms that by simp
  ultimately show "before_month y m + days_in_month y m = (if m < 11 then before_month y (m + 1) else 365 + leap y)"
    by (simp add: before_month_def)
  show "28 \<le> days_in_month y m" using leap_range [of y] by (simp add: days_in_month_def)
qed

lemma next_date_number:
  assumes "valid_date y m d" "next_date (y, m, d) = (y', m', d')"
  shows "valid_date y' m' d'" "day_number y' m' d' = day_number y m d + 1"
proof -
  have m: "0 \<le> m" "m < 12" "1 \<le> d" "d \<le> days_in_month y m" using assms(1) by (simp_all add: valid_date_def)
  show "valid_date y' m' d'"
    using assms(2) m before_month_step(2) [of "m + 1" y] before_month_step(2) [of 0 "y + 1"]
    by (auto simp: valid_date_def split: if_splits)
  show "day_number y' m' d' = day_number y m d + 1"
    using assms(2) m before_month_step(1) [of m y] jan1_next [of y]
    by (auto simp: day_number_def before_month_def [of _ 0] split: if_splits)
qed

definition date_of :: "tm \<Rightarrow> int \<times> int \<times> int" where
  "date_of t = (tm_year t + 1900, tm_mon t, tm_mday t)"

definition clock_of :: "tm \<Rightarrow> int \<times> int \<times> int" where
  "clock_of t = (tm_hour t, tm_min t, tm_sec t)"

lemma seconds_of_day: "3600 * (t div 3600 mod 24) + 60 * (t div 60 mod 60) + t mod 60 = t mod 86400" for t :: int
proof -
  have "t div 60 div 60 = t div 3600" "t div 3600 div 24 = t div 86400" by (simp_all flip: zdiv_zmult2_eq)
  moreover have "60 * (t div 60) + t mod 60 = t" "60 * (t div 60 div 60) + t div 60 mod 60 = t div 60"
    "24 * (t div 3600 div 24) + t div 3600 mod 24 = t div 3600" "86400 * (t div 86400) + t mod 86400 = t"
    by (rule mult_div_mod_eq)+
  ultimately show ?thesis by linarith
qed

lemma year_in_range:
  assumes "valid_date y m d" "day_number y m d = n" "- 719528 \<le> n" "n < 2932897"
  shows "0 \<le> y" "y < 10000"
proof -
  note v = valid_date_yday [OF assms(1)]
  have "jan1 y + (before_month y m + d - 1) = n + 719528" using assms(2) by (simp add: day_number_def)
  moreover have "jan1 0 = 0" "jan1 10000 = 3652425" by (simp_all add: jan1_def)
  ultimately have n: "jan1 y + (before_month y m + d - 1) = n + 719528" "jan1 0 = 0" "jan1 10000 = 3652425" by blast+
  show "0 \<le> y"
  proof (rule ccontr)
    assume "\<not> 0 \<le> y"
    then have "jan1 y + 365 + leap y \<le> jan1 0" by (intro jan1_mono) simp
    then show False using n v(3) assms(3) by linarith
  qed
  show "y < 10000"
  proof (rule ccontr)
    assume "\<not> y < 10000"
    then have "jan1 10000 \<le> jan1 y" using jan1_mono [of 10000 y] leap_range [of 10000] by (cases "y = 10000") simp_all
    then show False using n v(2) assms(4) by linarith
  qed
qed

lemma gmtime_inverse:
  assumes "LTFS_TIME_T_MIN \<le> t" "t \<le> LTFS_TIME_T_MAX"
  shows "ltfs_timegm (ltfs_gmtime t) = t" "0 \<le> tm_year (ltfs_gmtime t) + 1900" "tm_year (ltfs_gmtime t) + 1900 < 10000"
proof -
  have "\<bar>t\<bar> < 2 ^ 48" using assms by (simp add: LTFS_TIME_T_MIN_def LTFS_TIME_T_MAX_def abs_if)
  note g = gmtime_date [OF refl this]
  have "- 719528 \<le> t div 86400" "t div 86400 < 2932897"
    using div_is [of 86400 "- 719528" "LTFS_TIME_T_MIN"] zdiv_mono1 [OF assms(1), of 86400] zdiv_mono1 [OF assms(2), of 86400]
    by (simp_all add: LTFS_TIME_T_MIN_def LTFS_TIME_T_MAX_def)
  note y = year_in_range [OF g(1,2) this]
  then show "0 \<le> tm_year (ltfs_gmtime t) + 1900" "tm_year (ltfs_gmtime t) + 1900 < 10000" by simp_all
  have f: "tm_mday (ltfs_gmtime t) < 1000" "0 \<le> tm_mday (ltfs_gmtime t)" "0 \<le> tm_mon (ltfs_gmtime t)"
    "tm_mon (ltfs_gmtime t) < 12"
  proof -
    have "0 \<le> sum_list (take n (days_of_month z))" for n z
      using leap_range [of z] by (intro sum_list_nonneg) (auto simp: days_of_month_leap dest!: in_set_takeD)
    then have "0 \<le> before_month (tm_year (ltfs_gmtime t) + 1900) (tm_mon (ltfs_gmtime t))"
      by (simp add: before_month_def)
    then show "tm_mday (ltfs_gmtime t) < 1000"
      using valid_date_yday(3) [OF g(1)] leap_range [of "tm_year (ltfs_gmtime t) + 1900"] by linarith
  qed (use g(1) in \<open>simp_all add: valid_date_def\<close>)
  have "tm_year (ltfs_gmtime t) + 1900 < 1000000" "tm_year (ltfs_gmtime t) = tm_year (ltfs_gmtime t) + 1900 - 1900"
    using y(2) by simp_all
  then have "ltfs_timegm (ltfs_gmtime t) = 86400 * (t div 86400) + 3600 * (t div 3600 mod 24) + 60 * (t div 60 mod 60) + t mod 60"
    by (rule timegm_day [OF y(1) _ f(3,4,2,1) _ refl refl, unfolded g(2-5)])
  then show "ltfs_timegm (ltfs_gmtime t) = t" using seconds_of_day [of t] mult_div_mod_eq [of 86400 t] by linarith
qed

section \<open>Properties\<close>

text \<open>
  C27: In the whole range a time stamp can have, from the year 0 to the year 9999, \<open>ltfs_timegm\<close>
  gives back the seconds that \<open>ltfs_gmtime\<close> has turned into a date and a time of day, no
  intermediate value of the 32 bit computation wraps, and the fields are in their ranges.
\<close>

theorem gmtime_roundtrip:
  assumes "LTFS_TIME_T_MIN \<le> t" "t \<le> LTFS_TIME_T_MAX"
  shows "ltfs_timegm (ltfs_gmtime t) = t \<and>
    valid_date (tm_year (ltfs_gmtime t) + 1900) (tm_mon (ltfs_gmtime t)) (tm_mday (ltfs_gmtime t)) \<and>
    tm_year (ltfs_gmtime t) + 1900 \<in> {0..9999} \<and> tm_hour (ltfs_gmtime t) \<in> {0..23} \<and>
    tm_min (ltfs_gmtime t) \<in> {0..59} \<and> tm_sec (ltfs_gmtime t) \<in> {0..59}"
proof -
  have "\<bar>t\<bar> < 2 ^ 48" using assms by (simp add: LTFS_TIME_T_MIN_def LTFS_TIME_T_MAX_def abs_if)
  note g = gmtime_date [OF refl this]
  have "t div 3600 mod 24 \<le> 23" "t div 60 mod 60 \<le> 59" "t mod 60 \<le> 59"
    using pos_mod_bound [of 24 "t div 3600"] pos_mod_bound [of 60 "t div 60"] pos_mod_bound [of 60 t] by linarith+
  moreover have "0 \<le> t div 3600 mod 24" "0 \<le> t div 60 mod 60" "0 \<le> t mod 60" by simp_all
  moreover have "tm_year (ltfs_gmtime t) + 1900 \<le> 9999" using gmtime_inverse(3) [OF assms] by linarith
  ultimately show ?thesis unfolding g(3-5) atLeastAtMost_iff using g(1) gmtime_inverse(1,2) [OF assms] by blast
qed

theorem gmtime_roundtrip_witness:
  "ltfs_timegm (ltfs_gmtime (- 2203977600)) = - 2203977600"
  using gmtime_roundtrip [of "- 2203977600"] by (simp add: LTFS_TIME_T_MIN_def LTFS_TIME_T_MAX_def)

text \<open>
  C26: The dates follow the Gregorian calendar, also before 1970 and before 2000 where the code
  divides negative numbers: the second 0 is 1970-01-01 00:00:00 and a day later is the next
  date of the calendar, at the same time of day and on the next day of the week.
\<close>

theorem gmtime_next_day:
  assumes "\<bar>t\<bar> < 2 ^ 47"
  shows "date_of (ltfs_gmtime 0) = (1970, 0, 1) \<and> clock_of (ltfs_gmtime 0) = (0, 0, 0) \<and>
    date_of (ltfs_gmtime (t + 86400)) = next_date (date_of (ltfs_gmtime t)) \<and>
    clock_of (ltfs_gmtime (t + 86400)) = clock_of (ltfs_gmtime t) \<and>
    tm_wday (ltfs_gmtime (t + 86400)) = (tm_wday (ltfs_gmtime t) + 1) mod 7"
proof -
  have r: "\<bar>t\<bar> < 2 ^ 48" "\<bar>t + 86400\<bar> < 2 ^ 48" "\<bar>0 :: int\<bar> < 2 ^ 48" using assms by (simp_all add: abs_if split: if_splits)
  note g = gmtime_date [OF refl r(1)] and g' = gmtime_date [OF refl r(2)] and g0 = gmtime_date [OF refl r(3)]
  have sum: "t + 86400 = t + 1 * 86400" "t + 86400 = t + 1440 * 60" "t + 86400 = t + 24 * 3600" by simp_all
  have day: "(t + 86400) div 86400 = t div 86400 + 1" unfolding sum(1) by simp
  have clock: "(t + 86400) mod 60 = t mod 60" "(t + 86400) div 60 mod 60 = t div 60 mod 60"
    "(t + 86400) div 3600 mod 24 = t div 3600 mod 24"
  proof -
    show "(t + 86400) mod 60 = t mod 60" unfolding sum(2) by (rule mod_mult_self1)
    have "(t + 86400) div 60 = t div 60 + 24 * 60" unfolding sum(2) by simp
    then show "(t + 86400) div 60 mod 60 = t div 60 mod 60" by (simp only: mod_mult_self1)
    have "(t + 86400) div 3600 = t div 3600 + 1 * 24" unfolding sum(3) by simp
    then show "(t + 86400) div 3600 mod 24 = t div 3600 mod 24" by (simp only: mod_mult_self1)
  qed
  obtain y m d where n: "next_date (tm_year (ltfs_gmtime t) + 1900, tm_mon (ltfs_gmtime t), tm_mday (ltfs_gmtime t)) = (y, m, d)"
    by (metis prod_cases3)
  note nd = next_date_number [OF g(1) n]
  have "date_of (ltfs_gmtime (t + 86400)) = next_date (date_of (ltfs_gmtime t))"
    using date_unique [OF g'(1) nd(1)] nd(2) g(2) g'(2) day n by (simp add: date_of_def)
  moreover have "valid_date 1970 0 1" by (simp add: valid_date_def days_in_month_def days_of_month_leap)
  then have "date_of (ltfs_gmtime 0) = (1970, 0, 1)"
    using date_unique [OF g0(1), of 1970 0 1] g0(2)
    by (simp add: date_of_def day_number_def jan1_def before_month_def)
  moreover have "tm_wday (ltfs_gmtime (t + 86400)) = (tm_wday (ltfs_gmtime t) + 1) mod 7"
    unfolding g(6) g'(6) day by (simp add: mod_simps ac_simps)
  moreover have "clock_of (ltfs_gmtime (t + 86400)) = clock_of (ltfs_gmtime t)"
    by (simp only: clock_of_def g(3-5) g'(3-5) clock)
  moreover have "clock_of (ltfs_gmtime 0) = (0, 0, 0)" by (simp only: clock_of_def g0(3-5)) simp
  ultimately show ?thesis by blast
qed

theorem gmtime_next_day_witness:
  "date_of (ltfs_gmtime (0 + 86400)) = (1970, 0, 2) \<and> tm_wday (ltfs_gmtime (0 + 86400)) = (tm_wday (ltfs_gmtime 0) + 1) mod 7"
  using gmtime_next_day [of 0] by (simp add: days_in_month_def days_of_month_leap)

end
