(* ===== verification/ValuesSpec.thy ===== *)
theory ValuesSpec imports Values TimesSpec begin

text \<open>
  Round trips of the values of an index document: a printed number is scanned back, a printed time
  stamp is parsed back, and the base 64 text of a byte string, white space included, decodes to it.
\<close>

unbundle bit_operations_syntax

section \<open>Decimal numbers\<close>

definition digit10 :: "char \<Rightarrow> bool" where
  "digit10 c \<longleftrightarrow> digit_value 10 c \<noteq> None"

definition value10 :: "nat \<Rightarrow> string \<Rightarrow> nat" where
  "value10 = foldl (\<lambda>acc c. 10 * acc + the (digit_value 10 c))"

lemma digit_char_value: "d < 10 \<Longrightarrow> digit_value 10 (digit_char d) = Some d"
  by (simp add: digit_value_def digit_char_def Let_def)

lemma decimal_digits: "\<forall>c \<in> set (decimal n). digit10 c"
proof (induction n rule: decimal.induct)
  case (1 n)
  then show ?case
    by (subst decimal.simps) (auto simp: digit10_def digit_char_value)
qed

lemma decimal_value: "value10 0 (decimal n) = n"
proof (induction n rule: decimal.induct)
  case (1 n)
  then show ?case
    by (subst decimal.simps) (auto simp: value10_def digit_char_value)
qed

lemma decimal_not_empty: "decimal n \<noteq> []"
  by (subst decimal.simps) simp

lemma decimal_length: "0 < k \<Longrightarrow> n < 10 ^ k \<Longrightarrow> length (decimal n) \<le> k"
proof (induction n arbitrary: k rule: decimal.induct)
  case (1 n)
  show ?case
  proof (cases "n < 10")
    case False
    then have "k \<noteq> 1" using "1.prems"(2) by auto
    then have k: "1 < k" using "1.prems"(1) by linarith
    then have "n div 10 < 10 ^ (k - 1)"
      using "1.prems" by (simp add: less_mult_imp_div_less mult.commute flip: power_Suc)
    then show ?thesis using "1.IH" [OF False, of "k - 1"] k False by (subst decimal.simps) simp
  qed (use "1.prems" in \<open>subst decimal.simps, simp\<close>)
qed

lemma zero_pad_digits: "\<forall>c \<in> set (zero_pad w (decimal n)). digit10 c"
  using decimal_digits [of n] by (auto simp: zero_pad_def digit10_def digit_value_def)

lemma zero_pad_value: "value10 0 (zero_pad w (decimal n)) = n"
proof -
  have "value10 0 (replicate k CHR ''0'') = 0" for k
    by (induction k) (simp_all add: value10_def digit_value_def)
  then show ?thesis using decimal_value [of n] by (simp add: zero_pad_def value10_def)
qed

lemma zero_pad_length: "0 < w \<Longrightarrow> n < 10 ^ w \<Longrightarrow> length (zero_pad w (decimal n)) = w"
  using decimal_length [of w n] by (simp add: zero_pad_def)

lemma scan_digits_all:
  "\<forall>c \<in> set ds. digit10 c \<Longrightarrow> length ds \<le> w \<Longrightarrow>
    scan_digits 10 w count acc (ds @ rest) = scan_digits 10 (w - length ds) (count + length ds) (value10 acc ds) rest"
proof (induction ds arbitrary: w count acc)
  case (Cons c ds)
  then show ?case by (cases w) (auto simp: value10_def digit10_def)
qed (simp add: value10_def)

lemma scan_digits_stop:
  "w = 0 \<or> rest = [] \<or> \<not> digit10 (hd rest) \<Longrightarrow> scan_digits 10 w count acc rest = (count, acc, rest)"
  by (cases w; cases rest) (auto simp: digit10_def)

lemma digit_not_sign: "digit10 c \<Longrightarrow> c \<noteq> CHR ''-'' \<and> c \<noteq> CHR ''+'' \<and> \<not> is_space c"
  by (auto simp: digit10_def digit_value_def is_space_def Let_def split: if_splits)

lemma scan_int_digits:
  assumes "\<forall>c \<in> set ds. digit10 c" "ds \<noteq> []" "length ds \<le> w" "w = length ds \<or> rest = [] \<or> \<not> digit10 (hd rest)"
    and "value10 0 ds < 2 ^ 31"
  shows "scan_int w (ds @ rest) = Some (int (value10 0 ds), rest)"
proof -
  obtain c cs where ds: "ds = c # cs" using assms(2) by (cases ds) auto
  then have "digit10 c" using assms(1) by simp
  note c = digit_not_sign [OF this]
  have 1: "dropWhile is_space (ds @ rest) = ds @ rest" "scan_sign w (ds @ rest) = (1, w, ds @ rest)"
    using c by (simp_all add: ds scan_sign_def)
  have "scan_digits 10 w 0 0 (ds @ rest) = (length ds, value10 0 ds, rest)"
    using scan_digits_all [OF assms(1,3), of 0 0 rest] scan_digits_stop [of "w - length ds" rest] assms(4) by auto
  then show ?thesis using 1 assms(2,5) by (simp add: scan_int_def i32_id)
qed

lemma scan_padded:
  assumes "0 < w" "n < 10 ^ w" "n < 2 ^ 31" "w \<le> v" "w = v \<or> rest = [] \<or> \<not> digit10 (hd rest)"
  shows "scan_int v (print_int w (int n) @ rest) = Some (int n, rest)"
proof -
  have "zero_pad w (decimal n) \<noteq> []" using decimal_not_empty by (simp add: zero_pad_def)
  then show ?thesis
    using scan_int_digits [of "zero_pad w (decimal n)" v rest] zero_pad_length [OF assms(1,2)] assms(3-5)
    by (auto simp: zero_pad_digits zero_pad_value print_int_def)
qed

section \<open>Time stamps\<close>

lemma padded_length: "0 < w \<Longrightarrow> 0 \<le> i \<Longrightarrow> i < 10 ^ w \<Longrightarrow> length (print_int w i) = w"
  using zero_pad_length [of w "nat i"] by (simp add: print_int_def nat_less_iff)

lemma scan_field:
  assumes "0 < w" "0 \<le> i" "i < 10 ^ w" "w \<le> 9" "w \<le> v" "w = v \<or> rest = [] \<or> \<not> digit10 (hd rest)"
  shows "scan_int v (print_int w i @ rest) = Some (i, rest)"
proof -
  have w: "nat i < 10 ^ w" using assms(2,3) by (simp add: nat_less_iff)
  have "(10 :: nat) ^ w \<le> 10 ^ 9" using assms(4) by (rule power_increasing) simp
  with w have "nat i < 10 ^ 9" by (rule less_le_trans)
  then have "nat i < 2 ^ 31" by simp
  then have "scan_int v (print_int w (int (nat i)) @ rest) = Some (int (nat i), rest)"
    by (rule scan_padded [OF assms(1) w _ assms(5,6)])
  then show ?thesis using assms(2) by simp
qed

lemma separators [simp]: "\<not> digit10 CHR ''-''" "\<not> digit10 CHR ''T''" "\<not> digit10 CHR '':''" "\<not> digit10 CHR ''.''"
  "\<not> digit10 CHR ''Z''"
  by (simp_all add: digit10_def digit_value_def)

lemma timegm_fields:
  "tm_year s = tm_year t \<Longrightarrow> tm_mon s = tm_mon t \<Longrightarrow> tm_mday s = tm_mday t \<Longrightarrow> tm_hour s = tm_hour t \<Longrightarrow>
    tm_min s = tm_min t \<Longrightarrow> tm_sec s = tm_sec t \<Longrightarrow> ltfs_timegm s = ltfs_timegm t"
  by (simp add: ltfs_timegm_def)

lemma valid_date_range: "valid_date y m d \<Longrightarrow> 0 \<le> m \<and> m < 12 \<and> 0 \<le> d \<and> d < 100"
proof -
  assume v: "valid_date y m d"
  then have "days_of_month y ! nat m \<in> set (days_of_month y)"
    by (intro nth_mem) (simp add: valid_date_def days_of_month_leap nat_less_iff)
  then have "days_in_month y m \<le> 31" using leap_range [of y] by (auto simp: days_in_month_def days_of_month_leap)
  then show ?thesis using v by (simp add: valid_date_def)
qed

lemma clock_range: "0 \<le> x mod 60" "x mod 60 < 100" "0 \<le> x mod 24" "x mod 24 < 100" for x :: int
  using pos_mod_bound [of 60 x] pos_mod_bound [of 24 x] by simp_all

lemma time_text:
  assumes "LTFS_TIME_T_MIN \<le> tv_sec t" "tv_sec t \<le> LTFS_TIME_T_MAX" "0 \<le> tv_nsec t" "tv_nsec t \<le> LTFS_NSEC_MAX"
  shows "\<exists>s. xml_format_time True t = (0, Some s) \<and> length s = 30 \<and> xml_parse_time s old = (0, t)"
proof -
  let ?g = "ltfs_gmtime (tv_sec t)"
  have "\<bar>tv_sec t\<bar> < 2 ^ 48" using assms(1,2) by (simp add: LTFS_TIME_T_MIN_def LTFS_TIME_T_MAX_def abs_if)
  note g = gmtime_date [OF refl this]
  note y = gmtime_inverse [OF assms(1,2)]
  have r: "0 \<le> tm_mon ?g" "tm_mon ?g < 12" "0 \<le> tm_mday ?g" "tm_mday ?g < 100"
    "0 \<le> tm_hour ?g" "tm_hour ?g < 100" "0 \<le> tm_min ?g" "tm_min ?g < 100" "0 \<le> tm_sec ?g" "tm_sec ?g < 100"
    using valid_date_range [OF g(1)] unfolding g(3-5) by (simp_all only: clock_range)
  define s where "s = print_int 4 (tm_year ?g + 1900) @ ''-'' @ print_int 2 (tm_mon ?g + 1) @ ''-'' @
                 print_int 2 (tm_mday ?g) @ ''T'' @ print_int 2 (tm_hour ?g) @ '':'' @
                 print_int 2 (tm_min ?g) @ '':'' @ print_int 2 (tm_sec ?g) @ ''.'' @
                 print_int 9 (tv_nsec t) @ ''Z''"
  have n: "normalize_ltfs_time t = (0, t)" using assms by (simp add: normalize_ltfs_time_def)
  then have "xml_format_time True t = (0, Some s)" by (simp add: xml_format_time_def s_def Let_def)
  moreover have len: "length s = 30"
    using r y(2,3) assms(3,4) by (simp add: s_def padded_length LTFS_NSEC_MAX_def)
  moreover have "scan (time_format 30) s =
      [tm_year ?g + 1900, tm_mon ?g + 1, tm_mday ?g, tm_hour ?g, tm_min ?g, tm_sec ?g, tv_nsec t]"
    using r y(2,3) assms(3,4) by (simp add: s_def time_format_def scan_field LTFS_NSEC_MAX_def)
  moreover have "i32 (tm_year ?g + 1900 - 1900) = tm_year ?g" using y(2,3) by (intro trans [OF i32_id]) simp_all
  then have "ltfs_timegm \<lparr>tm_sec = tm_sec ?g, tm_min = tm_min ?g, tm_hour = tm_hour ?g, tm_mday = tm_mday ?g,
      tm_mon = tm_mon ?g + 1 - 1, tm_year = i32 (tm_year ?g + 1900 - 1900), tm_wday = 0, tm_yday = 0, tm_isdst = 0\<rparr> = tv_sec t"
    using y(1) by (subst timegm_fields [of _ ?g]) simp_all
  moreover have "normalize_ltfs_time \<lparr>tv_sec = tv_sec t, tv_nsec = tv_nsec t\<rparr> = (0, t)"
    using assms by (simp add: normalize_ltfs_time_def)
  ultimately show ?thesis using n by (simp add: xml_parse_time_def Let_def)
qed


section \<open>Base 64\<close>

text \<open>The encoding of RFC 4648.\<close>

definition encode6 :: "u8 \<Rightarrow> char" where
  "encode6 v = base64_enc ! unat v"

text \<open>The four groups of six bits of three bytes.\<close>

definition bits1 :: "u8 \<Rightarrow> u8" where "bits1 a = drop_bit 2 a"
definition bits2 :: "u8 \<Rightarrow> u8 \<Rightarrow> u8" where "bits2 a b = push_bit 4 (a AND 3) OR drop_bit 4 b"
definition bits3 :: "u8 \<Rightarrow> u8 \<Rightarrow> u8" where "bits3 b c = push_bit 2 (b AND 15) OR drop_bit 6 c"
definition bits4 :: "u8 \<Rightarrow> u8" where "bits4 c = c AND 63"

fun base64_encode :: "u8 list \<Rightarrow> string" where
  "base64_encode [] = []"
| "base64_encode [a] = [encode6 (bits1 a), encode6 (bits2 a 0), CHR ''='', CHR ''='']"
| "base64_encode [a, b] = [encode6 (bits1 a), encode6 (bits2 a b), encode6 (bits3 b 0), CHR ''='']"
| "base64_encode (a # b # c # bs) =
     [encode6 (bits1 a), encode6 (bits2 a b), encode6 (bits3 b c), encode6 (bits4 c)] @ base64_encode bs"

lemma base64_enc_facts: "length base64_enc = 64" "distinct base64_enc" "list_all (\<lambda>c. \<not> skipped c \<and> c \<noteq> CHR ''='') base64_enc"
  by (simp_all add: base64_enc_def skipped_def)

lemma fold_table:
  assumes "distinct cs" "k < n" "n \<le> length cs"
  shows "fold (\<lambda>i m. m(cs ! i := of_nat i)) [0..<n] f (cs ! k) = (of_nat k :: u8)"
  using assms(2,3)
proof (induction n)
  case (Suc n)
  then show ?case using assms(1) by (auto simp: nth_eq_iff_index_eq less_Suc_eq)
qed simp

lemma fold_table_other:
  "c \<notin> set (take n cs) \<Longrightarrow> n \<le> length cs \<Longrightarrow> fold (\<lambda>i m. m(cs ! i := of_nat i)) [0..<n] f c = f c"
  by (induction n) (auto simp: take_Suc_conv_app_nth)

lemma base64_dec_char: "unat v < 64 \<Longrightarrow> base64_dec (encode6 v) = v"
  using fold_table [OF base64_enc_facts(2), of "unat v" 64] by (simp add: base64_dec_def encode6_def base64_enc_facts(1))

lemma base64_dec_pad: "base64_dec CHR ''='' = 255"
  using fold_table_other [of "CHR ''=''" 64 base64_enc "\<lambda>_. 255"]
  by (simp add: base64_dec_def base64_enc_facts(1)) (simp add: base64_enc_def)

lemma encode6_char: "unat v < 64 \<Longrightarrow> \<not> skipped (encode6 v) \<and> encode6 v \<noteq> CHR ''='' \<and> base64_dec (encode6 v) \<noteq> 255"
  using base64_enc_facts(3) base64_dec_char [of v] by (auto simp: list_all_length base64_enc_facts(1) encode6_def)

lemma u8_less_64: "(\<And>n. 6 \<le> n \<Longrightarrow> n < 8 \<Longrightarrow> \<not> bit (v :: u8) n) \<Longrightarrow> unat v < 64"
proof -
  assume "\<And>n. 6 \<le> n \<Longrightarrow> n < 8 \<Longrightarrow> \<not> bit v n"
  then have "take_bit 6 v = v" by (intro bit_word_eqI) (auto simp: bit_simps not_le [symmetric])
  then have "unat v = take_bit 6 (unat v)" by (metis unsigned_take_bit_eq)
  then have "unat v = unat v mod 64" by (simp add: take_bit_eq_mod)
  then show ?thesis using mod_less_divisor [of 64 "unat v"] by linarith
qed

lemma masks: "(3 :: u8) = mask 2" "(15 :: u8) = mask 4" "(63 :: u8) = mask 6" "(0x30 :: u8) = push_bit 4 (mask 2)"
  "(0x3C :: u8) = push_bit 2 (mask 4)" "(0xF :: u8) = mask 4"
  by (simp_all add: mask_eq_exp_minus_1)

lemma six_bits: "unat (bits1 a) < 64" "unat (bits2 a b) < 64" "unat (bits3 b c) < 64" "unat (bits4 c) < 64"
  unfolding masks bits1_def bits2_def bits3_def bits4_def
  by (rule u8_less_64; auto simp: bit_simps dest: bit_imp_le_length)+

lemma less_64_255: "unat (v :: u8) < 64 \<Longrightarrow> v \<noteq> 255"
  by auto

lemmas six_bits_simps [simp] = six_bits [THEN base64_dec_char] six_bits [THEN encode6_char, THEN conjunct1]
  six_bits [THEN less_64_255]

lemma quad_bytes:
  "push_bit 2 (bits1 a) OR drop_bit 4 (bits2 a b AND 0x30) = a"
  "push_bit 4 (bits2 a b AND 0xF) OR drop_bit 2 (bits3 b c AND 0x3C) = b"
  "push_bit 6 (bits3 b c AND 0x3) OR bits4 c = c"
proof -
  have bits: "n < 8 \<longleftrightarrow> n \<in> {0, 1, 2, 3, 4, 5, 6, 7}" for n :: nat by auto
  have eq: "v = w" if "\<forall>n \<in> {0, 1, 2, 3, 4, 5, 6, 7}. bit v n = bit w n" for v w :: u8
    using that bits by (intro bit_word_eqI) auto
  show "push_bit 2 (bits1 a) OR drop_bit 4 (bits2 a b AND 0x30) = a"
    "push_bit 4 (bits2 a b AND 0xF) OR drop_bit 2 (bits3 b c AND 0x3C) = b"
    "push_bit 6 (bits3 b c AND 0x3) OR bits4 c = c"
    unfolding masks bits1_def bits2_def bits3_def bits4_def
    by (rule eq; auto simp: bit_simps numeral_2_eq_2 [symmetric] numeral_3_eq_3 [symmetric] dest: bit_imp_le_length)+
qed

definition bytes_at :: "nat \<Rightarrow> u8 list \<Rightarrow> (nat \<Rightarrow> u8 option) \<Rightarrow> nat \<Rightarrow> u8 option" where
  "bytes_at pos bs m i = (if pos \<le> i \<and> i < pos + length bs then Some (bs ! (i - pos)) else m i)"

lemma bytes_at_simps: "bytes_at pos [] m = m" "bytes_at pos (b # bs) m = bytes_at (Suc pos) bs (m(pos \<mapsto> b))"
  by (auto simp: bytes_at_def fun_eq_iff nth_Cons' Suc_le_eq)

lemma store_quads:
  "store_quad [bits1 a, bits2 a b, bits3 b c, bits4 c] pos m = bytes_at pos [a, b, c] m"
  "store_quad [bits1 a, bits2 a b, bits3 b 0, 255] pos m = bytes_at pos [a, b] m"
  "store_quad [bits1 a, bits2 a 0, 255, 255] pos m = bytes_at pos [a] m"
proof -
  have nth: "[w, x, y, z] ! 0 = w" "[w, x, y, z] ! 1 = x" "[w, x, y, z] ! 2 = y" "[w, x, y, z] ! 3 = z" for w x y z :: u8
    by simp_all
  have pos: "Suc pos = pos + 1" "Suc (pos + 1) = pos + 2" by simp_all
  show "store_quad [bits1 a, bits2 a b, bits3 b c, bits4 c] pos m = bytes_at pos [a, b, c] m"
    "store_quad [bits1 a, bits2 a b, bits3 b 0, 255] pos m = bytes_at pos [a, b] m"
    "store_quad [bits1 a, bits2 a 0, 255, 255] pos m = bytes_at pos [a] m"
    unfolding store_quad_def Let_def nth quad_bytes bytes_at_simps pos
    by (simp_all only: six_bits_simps simp_thms if_True if_False)
qed

text \<open>How the padding of an encoding and the characters before it are placed.\<close>

lemma base64_encode_shape:
  "\<exists>xs pad. base64_encode bs = xs @ replicate pad CHR ''='' \<and> pad = (3 - length bs mod 3) mod 3 \<and>
    length xs + pad = 4 * ((length bs + 2) div 3) \<and>
    (\<forall>c \<in> set xs. \<not> skipped c \<and> c \<noteq> CHR ''='' \<and> base64_dec c \<noteq> 255)"
proof (induction bs rule: base64_encode.induct)
  case (2 a)
  then show ?case
    by (intro exI [of _ "[encode6 (bits1 a), encode6 (bits2 a 0)]"] exI [of _ "Suc (Suc 0)"])
      (simp add: encode6_char six_bits)
next
  case (3 a b)
  then show ?case
    by (intro exI [of _ "[encode6 (bits1 a), encode6 (bits2 a b), encode6 (bits3 b 0)]"] exI [of _ "Suc 0"])
      (simp add: encode6_char six_bits)
next
  case (4 a b c bs)
  then obtain xs pad where x: "base64_encode bs = xs @ replicate pad CHR ''=''" "pad = (3 - length bs mod 3) mod 3"
    "length xs + pad = 4 * ((length bs + 2) div 3)" "\<forall>c \<in> set xs. \<not> skipped c \<and> c \<noteq> CHR ''='' \<and> base64_dec c \<noteq> 255"
    by blast
  have "(length (a # b # c # bs) + 2) div 3 = (length bs + 2) div 3 + 1" "length (a # b # c # bs) mod 3 = length bs mod 3"
    by (simp_all only: list.size) presburger+
  then show ?case using x
    by (intro exI [of _ "[encode6 (bits1 a), encode6 (bits2 a b), encode6 (bits3 b c), encode6 (bits4 c)] @ xs"] exI [of _ pad])
      (simp add: encode6_char six_bits)
qed simp

text \<open>The loop over the text without its white space.\<close>

lemma base64_loop_skip: "base64_loop enc q pos m = base64_loop (filter (\<lambda>c. \<not> skipped c) enc) q pos m"
  by (induction enc arbitrary: q pos m) (simp_all add: Let_def)

lemma pad_char [simp]: "\<not> skipped CHR ''=''"
  by (simp add: skipped_def)

lemma base64_loop_encode: "base64_loop (base64_encode bs) [] pos m = bytes_at pos bs m"
proof (induction bs arbitrary: pos m rule: base64_encode.induct)
  case (4 a b c bs)
  have "bytes_at (pos + 3) bs (bytes_at pos [a, b, c] m) = bytes_at pos (a # b # c # bs) m"
    by (simp add: bytes_at_simps numeral_3_eq_3)
  then show ?case using 4 by (simp add: store_quads)
qed (simp_all add: base64_dec_pad store_quads bytes_at_simps(1))


text \<open>The first loop, on the characters before the padding and on the padding.\<close>

definition plain :: "char \<Rightarrow> bool" where
  "plain c \<longleftrightarrow> c \<noteq> CHR ''='' \<and> (skipped c \<or> base64_dec c \<noteq> 255)"

lemma base64_check_plain:
  "\<forall>c \<in> set (take k (drop i enc)). plain c \<Longrightarrow> i + k \<le> length enc \<Longrightarrow>
    base64_check before enc (k + n) i nequal nb =
    base64_check before enc n (i + k) nequal (nb - length (filter skipped (take k (drop i enc))))"
proof (induction k arbitrary: i nb)
  case (Suc k)
  have d: "drop i enc = enc ! i # drop (Suc i) enc" using Suc.prems(2) by (simp add: Cons_nth_drop_Suc)
  then show ?case using Suc.IH [of "Suc i"] Suc.prems by (auto simp: plain_def Let_def)
qed simp

lemma base64_check_text:
  assumes "enc = xs @ replicate pad CHR ''=''" "pad \<le> 2" "\<forall>c \<in> set xs. plain c" "xs \<noteq> []"
  shows "base64_check before enc (length enc) 0 0 (length enc) =
    Some (pad, length (filter (\<lambda>c. \<not> skipped c) xs) + pad)"
proof -
  let ?nb = "length enc - length (filter skipped xs)"
  have "base64_check before enc (length xs + pad) 0 0 (length enc) = base64_check before enc pad (length xs) 0 ?nb"
    using base64_check_plain [of "length xs" 0 enc before pad 0 "length enc"] assms(1,3) by simp
  moreover have "?nb = length (filter (\<lambda>c. \<not> skipped c) xs) + pad"
    using sum_length_filter_compl [of skipped xs] assms(1) by simp
  moreover have "base64_check before enc pad (length xs) 0 nb = Some (pad, nb)" for nb
  proof -
    have last: "xs ! (length xs - Suc 0) \<noteq> CHR ''=''" using assms(3,4) by (auto simp: plain_def last_conv_nth)
    consider "pad = 0" | "pad = 1" | "pad = 2" using assms(2) by linarith
    then show ?thesis using assms(1,4) last
      by cases (simp_all add: eval_nat_numeral nth_append)
  qed
  ultimately show ?thesis using assms(1) by simp
qed

lemma padded_unique:
  assumes "xs @ replicate p z = ys @ replicate q z" "z \<notin> set xs" "z \<notin> set ys"
  shows "xs = ys" "p = q"
proof -
  have "takeWhile (\<lambda>c. c \<noteq> z) (zs @ replicate n z) = zs" if "z \<notin> set zs" for zs n
    using that by (auto simp: takeWhile_append takeWhile_replicate)
  then show "xs = ys" using assms by metis
  then show "p = q" using arg_cong [OF assms(1), of length] by simp
qed

lemma padding_count: "3 * ((n + 2) div 3) - (3 - n mod 3) mod 3 = n" for n :: nat
proof -
  define q r where "q = n div 3" and "r = n mod 3"
  then have n: "n = 3 * q + r" "n mod 3 = r" and "r < 3" by simp_all
  then consider "r = 0" | "r = 1" | "r = 2" by linarith
  then have "3 * ((3 * q + r + 2) div 3) - (3 - r) mod 3 = 3 * q + r" by cases simp_all
  then show ?thesis by (simp only: n(2)) (simp only: n(1))
qed

lemma base64_decode_encoded:
  assumes "bs \<noteq> []" "enc = xs @ replicate p CHR ''=''" "CHR ''='' \<notin> set xs"
    and "filter (\<lambda>c. \<not> skipped c) enc = base64_encode bs" "memory (length bs)"
  shows "base64_decode memory before enc = (length bs, Some (bytes_at 0 bs (\<lambda>_. None)))"
proof -
  obtain ys pad where e: "base64_encode bs = ys @ replicate pad CHR ''=''" "pad = (3 - length bs mod 3) mod 3"
    "length ys + pad = 4 * ((length bs + 2) div 3)" "\<forall>c \<in> set ys. \<not> skipped c \<and> c \<noteq> CHR ''='' \<and> base64_dec c \<noteq> 255"
    using base64_encode_shape by blast
  have "filter (\<lambda>c. \<not> skipped c) xs @ replicate p CHR ''='' = ys @ replicate pad CHR ''=''"
    using assms(2,4) e(1) by simp
  moreover have "CHR ''='' \<notin> set (filter (\<lambda>c. \<not> skipped c) xs)" "CHR ''='' \<notin> set ys" using assms(3) e(4) by auto
  ultimately have f: "filter (\<lambda>c. \<not> skipped c) xs = ys" "p = pad" by (rule padded_unique)+
  have "0 < (length bs + 2) div 3" using assms(1) by (cases bs) (simp_all add: div_greater_zero_iff)
  moreover have "pad \<le> 2" by (simp add: e(2))
  ultimately have "ys \<noteq> []" using e(3) by auto
  then have "xs \<noteq> []" using f(1) by auto
  moreover have "\<forall>c \<in> set xs. plain c"
  proof
    fix c assume c: "c \<in> set xs"
    show "plain c"
    proof (cases "skipped c")
      case False
      then have "c \<in> set ys" using c f(1) by auto
      then show ?thesis using e(4) by (simp add: plain_def)
    qed (use c assms(3) in \<open>auto simp: plain_def\<close>)
  qed
  ultimately have "base64_check before enc (length enc) 0 0 (length enc) = Some (pad, length ys + pad)"
    using base64_check_text [OF assms(2)] f \<open>pad \<le> 2\<close> by simp
  moreover have "3 * ((4 * ((length bs + 2) div 3)) div 4) - pad = length bs"
    unfolding e(2) using padding_count [of "length bs"] by simp
  moreover have "enc \<noteq> []" using \<open>xs \<noteq> []\<close> assms(2) by simp
  moreover have "base64_loop enc [] 0 m = bytes_at 0 bs m" for m
    using base64_loop_skip [of enc] assms(4) base64_loop_encode by simp
  ultimately show ?thesis using assms(5) e(3) by (simp add: base64_decode_def)
qed


text \<open>What an accepted text looks like, and where the loop writes.\<close>

lemma base64_check_some:
  "base64_check before enc n i nequal nb = Some r \<Longrightarrow> i + n = length enc \<Longrightarrow> i \<le> j \<Longrightarrow> j < length enc \<Longrightarrow>
    enc ! j = CHR ''='' \<Longrightarrow> j + 1 = length enc \<or> j + 2 = length enc \<and> enc ! (j + 1) = CHR ''=''"
proof (induction n arbitrary: i nequal nb)
  case (Suc n)
  show ?case
  proof (cases "i = j")
    case True
    then show ?thesis using Suc.prems by (auto simp: Let_def base64_dec_pad split: if_splits)
  next
    case False
    then show ?thesis using Suc by (auto simp: Let_def split: if_splits)
  qed
qed simp

lemma base64_check_valid:
  "base64_check before enc n i nequal nb = Some r \<Longrightarrow> i + n = length enc \<Longrightarrow> i \<le> j \<Longrightarrow> j < length enc \<Longrightarrow>
    enc ! j = CHR ''='' \<or> skipped (enc ! j) \<or> base64_dec (enc ! j) \<noteq> 255"
proof (induction n arbitrary: i nequal nb)
  case (Suc n)
  then show ?case by (cases "i = j") (auto simp: Let_def split: if_splits)
qed simp

lemma base64_check_count:
  "base64_check before enc n i nequal nb = Some (nequal', nb') \<Longrightarrow> i + n \<le> length enc \<Longrightarrow> \<forall>c \<in> set enc. \<not> skipped c \<Longrightarrow> nb' = nb"
proof (induction n arbitrary: i nequal)
  case (Suc n)
  then have "\<not> skipped (enc ! i)" by simp
  then show ?case using Suc by (auto simp: Let_def split: if_splits)
qed simp

lemma base64_accepted_shape:
  assumes "base64_check before enc (length enc) 0 0 (length enc) = Some r" "enc \<noteq> []"
  shows "\<exists>xs pad. enc = xs @ replicate pad CHR ''='' \<and> pad \<le> 2 \<and> (\<forall>c \<in> set xs. plain c)"
proof -
  define pad where "pad = length (takeWhile (\<lambda>c. c = CHR ''='') (rev enc))"
  define xs where "xs = rev (dropWhile (\<lambda>c. c = CHR ''='') (rev enc))"
  have "takeWhile (\<lambda>c. c = CHR ''='') (rev enc) = replicate pad CHR ''=''"
    unfolding pad_def by (rule replicate_length_same [symmetric]) (auto dest: set_takeWhileD)
  then have enc: "enc = xs @ replicate pad CHR ''=''"
    using takeWhile_dropWhile_id [of "\<lambda>c. c = CHR ''=''" "rev enc"] unfolding xs_def
    by (metis rev_append rev_replicate rev_rev_ident)
  have eq: "enc ! j = CHR ''='' \<Longrightarrow> j < length enc \<Longrightarrow> j + 1 = length enc \<or> j + 2 = length enc \<and> enc ! (j + 1) = CHR ''=''" for j
    using base64_check_some [OF assms(1)] by simp
  have "pad \<le> 2"
  proof (rule ccontr)
    assume "\<not> pad \<le> 2"
    then show False using eq [of "length xs"] by (simp add: enc nth_append)
  qed
  moreover have "plain c" if "c \<in> set xs" for c
  proof -
    obtain j where j: "j < length xs" "c = xs ! j" using \<open>c \<in> set xs\<close> by (metis in_set_conv_nth)
    then have jc: "enc ! j = c" "j < length enc" by (simp_all add: enc nth_append)
    have "c \<noteq> CHR ''=''"
    proof
      assume c: "c = CHR ''=''"
      have ne: "xs \<noteq> []" using j(1) by auto
      then have "last xs \<noteq> CHR ''=''" using hd_dropWhile [of "\<lambda>c. c = CHR ''=''" "rev enc"]
        unfolding xs_def by (simp add: last_rev)
      then have l: "xs ! (length xs - 1) \<noteq> CHR ''=''" using ne by (simp add: last_conv_nth)
      then have "j \<noteq> length xs - 1" using c j(2) by auto
      then have "j + 1 < length xs" using j(1) by simp
      then have "j + 2 = length enc" "enc ! (j + 1) = CHR ''=''" using eq [of j] jc c by (auto simp: enc)
      moreover from this have "pad = 0" "length xs - 1 = j + 1" using \<open>j + 1 < length xs\<close> by (simp_all add: enc)
      ultimately show False using l by (simp add: enc)
    qed
    then show ?thesis using base64_check_valid [OF assms(1), of j] jc by (auto simp: plain_def)
  qed
  ultimately show ?thesis using enc by blast
qed

definition written :: "(nat \<Rightarrow> u8 option) \<Rightarrow> nat set" where
  "written m = {i. m i \<noteq> None}"

lemma written_quad:
  "written (store_quad q pos m) = written m \<union> {pos..<pos + (if q ! 2 = 255 then 1 else if q ! 3 = 255 then 2 else 3)}"
  by (auto simp: written_def store_quad_def Let_def split: if_splits)

lemma base64_loop_quads:
  assumes "length ys = 4 * k" "\<forall>c \<in> set ys. \<not> skipped c \<and> base64_dec c \<noteq> 255"
  shows "\<exists>m'. base64_loop (ys @ rest) [] pos m = base64_loop rest [] (pos + 3 * k) m' \<and>
    written m' = written m \<union> {pos..<pos + 3 * k}"
  using assms
proof (induction k arbitrary: ys pos m)
  case (Suc k)
  then obtain a b c d zs where ys: "ys = a # b # c # d # zs" "length zs = 4 * k"
    by (auto simp: eval_nat_numeral length_Suc_conv)
  let ?m = "store_quad [base64_dec a, base64_dec b, base64_dec c, base64_dec d] pos m"
  have "written ?m = written m \<union> {pos..<pos + 3}" using Suc.prems(2) by (simp add: written_quad ys)
  moreover obtain m' where "base64_loop (zs @ rest) [] (pos + 3) ?m = base64_loop rest [] (pos + 3 + 3 * k) m'"
    "written m' = written ?m \<union> {pos + 3..<pos + 3 + 3 * k}"
    using Suc.IH [OF ys(2)] Suc.prems(2) ys(1) by fastforce
  ultimately show ?case using Suc.prems(2) by (intro exI [of _ m']) (auto simp: ys(1) ac_simps)
qed auto


lemma last_quads:
  "\<not> skipped a \<Longrightarrow> \<not> skipped b \<Longrightarrow> \<not> skipped c \<Longrightarrow>
    base64_loop ([a, b, c] @ replicate 1 CHR ''='') [] pos m =
    store_quad [base64_dec a, base64_dec b, base64_dec c, 255] pos m"
  "\<not> skipped a \<Longrightarrow> \<not> skipped b \<Longrightarrow>
    base64_loop ([a, b] @ replicate 2 CHR ''='') [] pos m = store_quad [base64_dec a, base64_dec b, 255, 255] pos m"
  by (simp_all add: base64_dec_pad numeral_2_eq_2)

lemma base64_loop_bounds:
  assumes "\<forall>c \<in> set ys. \<not> skipped c \<and> base64_dec c \<noteq> 255" "pad \<le> 2" "(length ys + pad) mod 4 = 0"
  shows "written (base64_loop (ys @ replicate pad CHR ''='') [] 0 (\<lambda>_. None)) = {..<3 * ((length ys + pad) div 4) - pad}"
proof -
  define k r where "k = length ys div 4" and "r = length ys mod 4"
  then have len: "length ys = 4 * k + r" "r < 4" by simp_all
  define zs where "zs = drop (4 * k) ys"
  have split: "ys = take (4 * k) ys @ zs" "length (take (4 * k) ys) = 4 * k" "length zs = r" using len by (simp_all add: zs_def)
  have ok: "\<forall>c \<in> set (take (4 * k) ys). \<not> skipped c \<and> base64_dec c \<noteq> 255"
    "\<forall>c \<in> set zs. \<not> skipped c \<and> base64_dec c \<noteq> 255"
    using assms(1) by (auto simp: zs_def dest: in_set_takeD in_set_dropD)
  obtain m' where "base64_loop (take (4 * k) ys @ (zs @ replicate pad CHR ''='')) [] 0 (\<lambda>_. None) =
      base64_loop (zs @ replicate pad CHR ''='') [] (3 * k) m'" "written m' = {..<3 * k}"
    using base64_loop_quads [OF split(2) ok(1), of "zs @ replicate pad CHR ''=''" 0 "\<lambda>_. None"]
    by (auto simp: written_def atLeast0LessThan)
  then have run: "base64_loop (ys @ replicate pad CHR ''='') [] 0 (\<lambda>_. None) =
      base64_loop (zs @ replicate pad CHR ''='') [] (3 * k) m'" "written m' = {..<3 * k}"
    using split(1) by (metis append.assoc)+
  have "(r + pad) mod 4 = 0" using assms(3) by (simp add: len(1) mod_simps add.assoc)
  then have "r + pad \<notin> {1, 2, 3, 5}" by auto
  moreover have "r = 0 \<or> r = 1 \<or> r = 2 \<or> r = 3" "pad = 0 \<or> pad = 1 \<or> pad = 2" using assms(2) len(2) by linarith+
  ultimately consider "r = 0" "pad = 0" | "r = 3" "pad = 1" | "r = 2" "pad = 2" by auto
  then show ?thesis
  proof cases
    case 1
    then show ?thesis using run split(3) len(1) by simp
  next
    case 2
    then obtain a b c where zs: "zs = [a, b, c]" using split(3) by (auto simp: eval_nat_numeral length_Suc_conv)
    have "base64_loop (zs @ replicate pad CHR ''='') [] (3 * k) m' =
        store_quad [base64_dec a, base64_dec b, base64_dec c, 255] (3 * k) m'"
      using last_quads(1) [of a b c] ok(2) 2(2) by (simp only: zs) simp
    moreover have "written (store_quad [base64_dec a, base64_dec b, base64_dec c, 255] (3 * k) m') = {..<3 * k} \<union> {3 * k..<3 * k + 2}"
      using ok(2) by (simp add: written_quad run(2) zs)
    moreover have "3 * ((length ys + pad) div 4) - pad = 3 * k + 2" using 2 len(1) by simp
    moreover have "{..<3 * k} \<union> {3 * k..<3 * k + 2} = {..<3 * k + 2}" by auto
    ultimately show ?thesis by (simp only: run(1))
  next
    case 3
    then obtain a b where zs: "zs = [a, b]" using split(3) by (auto simp: eval_nat_numeral length_Suc_conv)
    have "base64_loop (zs @ replicate pad CHR ''='') [] (3 * k) m' =
        store_quad [base64_dec a, base64_dec b, 255, 255] (3 * k) m'"
      using last_quads(2) [of a b] ok(2) 3(2) by (simp only: zs) simp
    moreover have "written (store_quad [base64_dec a, base64_dec b, 255, 255] (3 * k) m') = {..<3 * k} \<union> {3 * k..<3 * k + 1}"
      by (simp add: written_quad run(2))
    moreover have "3 * ((length ys + pad) div 4) - pad = 3 * k + 1" using 3 len(1) by simp
    moreover have "{..<3 * k} \<union> {3 * k..<3 * k + 1} = {..<3 * k + 1}" by auto
    ultimately show ?thesis by (simp only: run(1))
  qed
qed

section \<open>Properties\<close>

text \<open>The two ends of the range as they are printed: the first second of the year 0, the last of the year 9999.\<close>

lemma date_is:
  assumes "valid_date y m d" "day_number y m d = t div 86400" "\<bar>t\<bar> < 2 ^ 48"
  shows "tm_year (ltfs_gmtime t) + 1900 = y" "tm_mon (ltfs_gmtime t) = m" "tm_mday (ltfs_gmtime t) = d"
proof -
  note g = gmtime_date(1,2) [OF refl assms(3)]
  note same = date_unique [OF g(1) assms(1), unfolded g(2) assms(2), OF refl]
  show "tm_year (ltfs_gmtime t) + 1900 = y" "tm_mon (ltfs_gmtime t) = m" "tm_mday (ltfs_gmtime t) = d"
    by (rule same)+
qed

lemma first_time: "xml_format_time True \<lparr>tv_sec = - 62167219200, tv_nsec = 0\<rparr> = (0, Some ''0000-01-01T00:00:00.000000000Z'')"
proof -
  have valid: "valid_date 0 0 1" by (simp add: valid_date_def days_in_month_def)
  have number: "day_number 0 0 1 = - 62167219200 div 86400" by (simp add: day_number_def jan1_def before_month_def)
  have small: "\<bar>- 62167219200 :: int\<bar> < 2 ^ 48" by simp
  note date = date_is [OF valid number small]
  note clock = gmtime_date(3-5) [OF refl small]
  have digits: "print_int 4 0 = ''0000''" "print_int 2 1 = ''01''" "print_int 2 0 = ''00''" "print_int 9 0 = ''000000000''"
    by code_simp+
  have range: "normalize_ltfs_time \<lparr>tv_sec = - 62167219200, tv_nsec = 0\<rparr> = (0, \<lparr>tv_sec = - 62167219200, tv_nsec = 0\<rparr>)"
    by (simp add: normalize_ltfs_time_def LTFS_TIME_T_MIN_def LTFS_TIME_T_MAX_def)
  show ?thesis
    unfolding xml_format_time_def range Let_def by (simp add: date clock digits)
qed

lemma last_time: "xml_format_time True \<lparr>tv_sec = 253402300799, tv_nsec = 999999999\<rparr> = (0, Some ''9999-12-31T23:59:59.999999999Z'')"
proof -
  have valid: "valid_date 9999 11 31" by (simp add: valid_date_def days_in_month_def)
  have number: "day_number 9999 11 31 = 253402300799 div 86400"
    by (simp add: day_number_def jan1_def before_month_def days_of_month_leap leap_def)
  have small: "\<bar>253402300799 :: int\<bar> < 2 ^ 48" by simp
  note date = date_is [OF valid number small]
  note clock = gmtime_date(3-5) [OF refl small]
  have chars: "char_of (49 :: nat) = CHR ''1''" "char_of (50 :: nat) = CHR ''2''" "char_of (51 :: nat) = CHR ''3''"
    "char_of (53 :: nat) = CHR ''5''" "char_of (57 :: nat) = CHR ''9''"
    by code_simp+
  have digits: "print_int 4 9999 = ''9999''" "print_int 2 12 = ''12''" "print_int 2 31 = ''31''" "print_int 2 23 = ''23''"
    "print_int 2 59 = ''59''" "print_int 9 999999999 = ''999999999''"
    by (simp_all add: print_int_def zero_pad_def decimal.simps digit_char_def chars)
  have range: "normalize_ltfs_time \<lparr>tv_sec = 253402300799, tv_nsec = 999999999\<rparr> =
      (0, \<lparr>tv_sec = 253402300799, tv_nsec = 999999999\<rparr>)"
    by (simp add: normalize_ltfs_time_def LTFS_TIME_T_MIN_def LTFS_TIME_T_MAX_def)
  show ?thesis
    unfolding xml_format_time_def range Let_def by (simp add: date clock digits)
qed

lemma format_outside:
  "tv_sec t < - 62167219200 \<Longrightarrow> xml_format_time True t = (LTFS_TIME_OUT_OF_RANGE, Some ''0000-01-01T00:00:00.000000000Z'')"
  "253402300799 < tv_sec t \<Longrightarrow> xml_format_time True t = (LTFS_TIME_OUT_OF_RANGE, Some ''9999-12-31T23:59:59.999999999Z'')"
  using first_time last_time
  by (simp_all add: xml_format_time_def normalize_ltfs_time_def LTFS_TIME_T_MIN_def LTFS_TIME_T_MAX_def
      LTFS_NSEC_MAX_def LTFS_NSEC_MIN_def Let_def)

text \<open>
  C28: A time stamp of the years 0 to 9999 with less than a second of nanoseconds is printed for the index without complaint
  and parsed back to the same second and nanosecond. A time before or after is reported, printed as the first or the last
  nanosecond of these years and parsed back to it. The text always has the 30 characters the buffer of 31 bytes has room for.
\<close>

theorem xml_time_roundtrip:
  assumes "0 \<le> tv_nsec t" "tv_nsec t \<le> 999999999"
  shows "\<exists>ret s. xml_format_time True t = (ret, Some s) \<and> length s = 30 \<and>
    (if tv_sec t < - 62167219200
     then ret = LTFS_TIME_OUT_OF_RANGE \<and> s = ''0000-01-01T00:00:00.000000000Z'' \<and>
       xml_parse_time s old = (0, \<lparr>tv_sec = - 62167219200, tv_nsec = 0\<rparr>)
     else if 253402300799 < tv_sec t
     then ret = LTFS_TIME_OUT_OF_RANGE \<and> s = ''9999-12-31T23:59:59.999999999Z'' \<and>
       xml_parse_time s old = (0, \<lparr>tv_sec = 253402300799, tv_nsec = 999999999\<rparr>)
     else ret = 0 \<and> xml_parse_time s old = (0, t))"
proof -
  have inside: "\<exists>s. xml_format_time True t = (0, Some s) \<and> length s = 30 \<and> xml_parse_time s old = (0, t)"
    if "- 62167219200 \<le> tv_sec t" "tv_sec t \<le> 253402300799" "0 \<le> tv_nsec t" "tv_nsec t \<le> 999999999" for t
    using time_text [of t] that by (simp add: LTFS_TIME_T_MIN_def LTFS_TIME_T_MAX_def LTFS_NSEC_MAX_def)
  have parse: "xml_parse_time s old = (0, u)" if "xml_format_time True u = (0, Some s)"
    "u \<in> {\<lparr>tv_sec = - 62167219200, tv_nsec = 0\<rparr>, \<lparr>tv_sec = 253402300799, tv_nsec = 999999999\<rparr>}" for s u
    using inside [of u] that by auto
  consider (early) "tv_sec t < - 62167219200" | (late) "253402300799 < tv_sec t"
    | (in_range) "- 62167219200 \<le> tv_sec t" "tv_sec t \<le> 253402300799" by linarith
  then show ?thesis
  proof cases
    case early
    then show ?thesis using format_outside(1) [OF early] parse [OF first_time] by simp
  next
    case late
    then show ?thesis using format_outside(2) [OF late] parse [OF last_time] by simp
  next
    case in_range
    then show ?thesis using inside [OF in_range assms] by simp
  qed
qed

theorem xml_time_roundtrip_witness:
  "\<exists>s. xml_format_time True \<lparr>tv_sec = - 1, tv_nsec = 5\<rparr> = (0, Some s) \<and>
    xml_parse_time s \<lparr>tv_sec = 0, tv_nsec = 0\<rparr> = (0, \<lparr>tv_sec = - 1, tv_nsec = 5\<rparr>)"
  using xml_time_roundtrip [of "\<lparr>tv_sec = - 1, tv_nsec = 5\<rparr>" "\<lparr>tv_sec = 0, tv_nsec = 0\<rparr>"] by auto

text \<open>
  C29: The base 64 text of any byte string decodes to it, wherever white space has been put before the
  padding: the length is returned, the bytes are the string and no other byte is written.
\<close>

theorem base64_roundtrip:
  assumes "bs \<noteq> []" "enc = xs @ replicate p CHR ''=''" "CHR ''='' \<notin> set xs"
    and "filter (\<lambda>c. \<not> skipped c) enc = base64_encode bs" "memory (length bs)"
  shows "base64_decode memory before enc = (length bs, Some (\<lambda>i. if i < length bs then Some (bs ! i) else None))"
  using base64_decode_encoded [where memory = memory and before = before, OF assms]
  by (simp add: bytes_at_def [abs_def] cong: if_cong)

theorem base64_roundtrip_witness:
  "\<exists>m. base64_decode (\<lambda>_. True) CHR ''x'' ''AQ ID'' = (3, Some m) \<and>
    map m [0..<3] = [Some 1, Some 2, Some 3]"
proof -
  have "base64_encode [1, 2, 3] = ''AQID''" by code_simp
  then show ?thesis
    using base64_roundtrip [of "[1, 2, 3]" "''AQ ID''" "''AQ ID''" 0 "\<lambda>_. True" "CHR ''x''"]
    by (simp add: skipped_def upt_rec)
qed

text \<open>
  C30: Whatever text is decoded, the decoder writes exactly the bytes of the buffer whose length it
  returns, all of them and none behind: an accepted text never overruns its buffer.
\<close>

theorem base64_in_bounds:
  assumes "base64_decode memory before enc = (n, Some m)"
  shows "(m i \<noteq> None) = (i < n)"
proof -
  obtain ne nb where c: "base64_check before enc (length enc) 0 0 (length enc) = Some (ne, nb)" "enc \<noteq> []" "nb mod 4 = 0"
    "n = 3 * (nb div 4) - ne" "m = base64_loop enc [] 0 (\<lambda>_. None)"
    using assms by (auto simp: base64_decode_def Let_def split: if_splits option.splits)
  obtain xs pad where s: "enc = xs @ replicate pad CHR ''=''" "pad \<le> 2" "\<forall>c \<in> set xs. plain c"
    using base64_accepted_shape [OF c(1,2)] by blast
  let ?ys = "filter (\<lambda>c. \<not> skipped c) xs"
  have "xs \<noteq> []"
  proof
    assume "xs = []"
    then have p: "enc = replicate pad CHR ''=''" "0 < pad" using s(1) c(2) by auto
    then have "nb = pad" using base64_check_count [OF c(1)] by simp
    then show False using c(3) p(2) s(2) by simp
  qed
  then have r: "ne = pad" "nb = length ?ys + pad"
    using base64_check_text [OF s(1-3)] c(1) by simp_all
  have "\<forall>c \<in> set ?ys. \<not> skipped c \<and> base64_dec c \<noteq> 255" using s(3) by (auto simp: plain_def)
  then have "written (base64_loop (?ys @ replicate pad CHR ''='') [] 0 (\<lambda>_. None)) = {..<n}"
    using base64_loop_bounds [of ?ys pad] s(2) c(3,4) r by simp
  then have "written m = {..<n}" using base64_loop_skip [of enc] by (simp add: c(5) s(1))
  then show ?thesis by (auto simp: written_def)
qed

theorem base64_in_bounds_witness:
  "\<exists>m. base64_decode (\<lambda>_. True) CHR ''x'' ''QR=='' = (1, Some m) \<and>
    m 0 \<noteq> None \<and> m 1 = None"
proof -
  have "fst (base64_decode (\<lambda>_. True) CHR ''x'' ''QR=='') = 1" "\<not> Option.is_none (snd (base64_decode (\<lambda>_. True) CHR ''x'' ''QR==''))"
    by code_simp+
  then obtain m where "base64_decode (\<lambda>_. True) CHR ''x'' ''QR=='' = (1, Some m)"
    by (cases "base64_decode (\<lambda>_. True) CHR ''x'' ''QR==''") (auto simp: Option.is_none_def)
  from this base64_in_bounds [OF this, of 0] base64_in_bounds [OF this, of 1] show ?thesis by auto
qed

end
