(* ===== verification/Locking.thy ===== *)
theory Locking imports Prelude begin

text \<open>
  The multi-reader single-writer lock of \<open>ltfs_locking.h\<close>, which guards the volume, the contents
  and the metadata of every dentry.

  A lock is the record \<open>mrsw\<close>: three mutexes, the number of readers and two flags. Every
  function of the header is a list of statements (\<open>stmt\<close>), in the order of the C code; a thread is
  the statements it has still to execute, and a step of the system is one statement of one thread
  (\<open>mrsw_exec\<close>) or the call of a function by a thread that is not inside one (\<open>mrsw_step\<close>).
  A thread calls only what its hold on the lock entitles it to: who holds nothing may acquire,
  who holds the lock may release it, and a writer may become a reader.

  \<open>pthread_mutex_lock\<close> on a locked mutex blocks: the statement has no step. A mutex has no owner
  here, as the code needs it: the mutex of the readers is locked by the first reader and unlocked by the
  last one, which may be another thread.
\<close>

section \<open>Mutexes\<close>

datatype mutex = Write_exclusive_mutex | Reading_mutex | Read_count_mutex

text \<open>\<open>None\<close> is a mutex that is not initialised, \<open>Some True\<close> one that is locked.\<close>

type_synonym ltfs_mutex_t = "bool option"

record mrsw =
  mutexes :: "mutex \<Rightarrow> ltfs_mutex_t"
  read_count :: u32
  writer :: u32
  long_lock :: u32

abbreviation set_mutex :: "mutex \<Rightarrow> ltfs_mutex_t \<Rightarrow> mrsw \<Rightarrow> mrsw" where
  "set_mutex m v l \<equiv> l\<lparr>mutexes := (mutexes l)(m := v)\<rparr>"

text \<open>
  The result of \<open>pthread_mutex_init\<close> for each mutex is the argument \<open>init\<close>: 0 or an error number.
\<close>

definition init_mrsw :: "(mutex \<Rightarrow> int) \<Rightarrow> mrsw \<Rightarrow> int \<times> mrsw" where
  "init_mrsw init l =
    (let l = l\<lparr>read_count := 0, writer := 0, long_lock := 0\<rparr> in
     if init Read_count_mutex \<noteq> 0 then (- init Read_count_mutex, l)
     else let l = set_mutex Read_count_mutex (Some False) l in
     if init Reading_mutex \<noteq> 0
     then (- init Reading_mutex, set_mutex Read_count_mutex None l)
     else let l = set_mutex Reading_mutex (Some False) l in
     if init Write_exclusive_mutex \<noteq> 0
     then (- init Write_exclusive_mutex, set_mutex Reading_mutex None (set_mutex Read_count_mutex None l))
     else (0, set_mutex Write_exclusive_mutex (Some False) l))"

definition destroy_mrsw :: "mrsw \<Rightarrow> mrsw" where
  "destroy_mrsw l =
    set_mutex Write_exclusive_mutex None (set_mutex Reading_mutex None (set_mutex Read_count_mutex None l))"

section \<open>The functions\<close>

datatype cond =
    Count_is u32            \<comment> \<open>\<open>mrsw->read_count == n\<close>\<close>
  | Count_not_positive      \<comment> \<open>\<open>mrsw->read_count <= 0\<close>\<close>
  | Writer                  \<comment> \<open>\<open>mrsw->writer\<close>\<close>
  | Long_lock               \<comment> \<open>\<open>mrsw->long_lock\<close>\<close>

datatype stmt =
    Lock mutex
  | Unlock mutex
  | Set_writer u32
  | Set_long_lock u32
  | Count_up
  | Count_down
  | Count_zero
  | If cond "stmt list" "stmt list"
  | Unless_trylock mutex "stmt list"    \<comment> \<open>\<open>if (ltfs_mutex_trylock(m)) {..}\<close>\<close>
  | While_trylock mutex "stmt list"     \<comment> \<open>\<open>while (ltfs_mutex_trylock(m)) {..}\<close>\<close>
  | Sleep
  | Return_failed                       \<comment> \<open>\<open>return false\<close> or \<open>return -1\<close>: the lock was not acquired\<close>

definition try_acquirewrite_mrsw :: "stmt list" where
  "try_acquirewrite_mrsw =
    [Unless_trylock Write_exclusive_mutex [Return_failed],
     Unless_trylock Reading_mutex [Unlock Write_exclusive_mutex, Return_failed],
     Set_writer 1]"

definition acquirewrite_mrsw :: "stmt list" where
  "acquirewrite_mrsw =
    [Lock Write_exclusive_mutex, Lock Reading_mutex, Set_writer 1, Set_long_lock 0]"

definition acquirewrite_mrsw_long :: "stmt list" where
  "acquirewrite_mrsw_long =
    [Lock Write_exclusive_mutex, Lock Reading_mutex, Set_writer 1, Set_long_lock 1]"

definition releasewrite_mrsw :: "stmt list" where
  "releasewrite_mrsw =
    [Set_writer 0, Set_long_lock 0, Unlock Reading_mutex, Unlock Write_exclusive_mutex]"

definition acquireread_mrsw :: "stmt list" where
  "acquireread_mrsw =
    [Lock Write_exclusive_mutex, Set_long_lock 0, Unlock Write_exclusive_mutex,
     Lock Read_count_mutex, Count_up, If (Count_is 1) [Lock Reading_mutex] [],
     Unlock Read_count_mutex]"

definition acquireread_mrsw_short :: "stmt list" where
  "acquireread_mrsw_short =
    [If Long_lock [Return_failed] [],
     While_trylock Write_exclusive_mutex [If Long_lock [Return_failed] [], Sleep],
     Unlock Write_exclusive_mutex,
     Lock Read_count_mutex, Count_up, If (Count_is 1) [Lock Reading_mutex] [],
     Unlock Read_count_mutex]"

definition releaseread_mrsw :: "stmt list" where
  "releaseread_mrsw =
    [Lock Read_count_mutex,
     If Count_not_positive [Count_zero]
       [Count_down, If (Count_is 0) [Unlock Reading_mutex] []],
     Unlock Read_count_mutex]"

definition release_mrsw :: "stmt list" where
  "release_mrsw = [If Writer releasewrite_mrsw releaseread_mrsw]"

definition writetoread_mrsw :: "stmt list" where
  "writetoread_mrsw =
    [Set_writer 0, Set_long_lock 0, Unlock Reading_mutex,
     Lock Read_count_mutex, Count_up, If (Count_is 1) [Lock Reading_mutex] [],
     Unlock Read_count_mutex, Unlock Write_exclusive_mutex]"

section \<open>Threads\<close>

text \<open>
  What a thread has of the lock outside the functions, and a thread: what it had when it made its
  last call, what is left of that call, and what it has when the call returns.
\<close>

datatype grant = Nothing | Shared | Exclusive

record thread =
  held :: grant
  code :: "stmt list"
  gains :: grant

fun cond_holds :: "cond \<Rightarrow> mrsw \<Rightarrow> bool" where
  "cond_holds (Count_is n) l = (read_count l = n)"
| "cond_holds Count_not_positive l = (read_count l \<le> 0)"
| "cond_holds Writer l = (writer l \<noteq> 0)"
| "cond_holds Long_lock l = (long_lock l \<noteq> 0)"

text \<open>One statement of a thread.\<close>

inductive mrsw_exec :: "mrsw \<Rightarrow> thread \<Rightarrow> mrsw \<Rightarrow> thread \<Rightarrow> bool" where
  lock: "code t = Lock m # k \<Longrightarrow> mutexes l m = Some False \<Longrightarrow>
    mrsw_exec l t (set_mutex m (Some True) l) (t\<lparr>code := k\<rparr>)"
| unlock: "code t = Unlock m # k \<Longrightarrow> mutexes l m = Some True \<Longrightarrow>
    mrsw_exec l t (set_mutex m (Some False) l) (t\<lparr>code := k\<rparr>)"
| set_writer: "code t = Set_writer v # k \<Longrightarrow> mrsw_exec l t (l\<lparr>writer := v\<rparr>) (t\<lparr>code := k\<rparr>)"
| set_long_lock: "code t = Set_long_lock v # k \<Longrightarrow> mrsw_exec l t (l\<lparr>long_lock := v\<rparr>) (t\<lparr>code := k\<rparr>)"
| count_up: "code t = Count_up # k \<Longrightarrow>
    mrsw_exec l t (l\<lparr>read_count := read_count l + 1\<rparr>) (t\<lparr>code := k\<rparr>)"
| count_down: "code t = Count_down # k \<Longrightarrow>
    mrsw_exec l t (l\<lparr>read_count := read_count l - 1\<rparr>) (t\<lparr>code := k\<rparr>)"
| count_zero: "code t = Count_zero # k \<Longrightarrow> mrsw_exec l t (l\<lparr>read_count := 0\<rparr>) (t\<lparr>code := k\<rparr>)"
| branch: "code t = If c a b # k \<Longrightarrow>
    mrsw_exec l t l (t\<lparr>code := (if cond_holds c l then a else b) @ k\<rparr>)"
| trylock: "code t = Unless_trylock m a # k \<Longrightarrow> mutexes l m = Some False \<Longrightarrow>
    mrsw_exec l t (set_mutex m (Some True) l) (t\<lparr>code := k\<rparr>)"
| trylock_busy: "code t = Unless_trylock m a # k \<Longrightarrow> mutexes l m = Some True \<Longrightarrow>
    mrsw_exec l t l (t\<lparr>code := a @ k\<rparr>)"
| spin_end: "code t = While_trylock m a # k \<Longrightarrow> mutexes l m = Some False \<Longrightarrow>
    mrsw_exec l t (set_mutex m (Some True) l) (t\<lparr>code := k\<rparr>)"
| spin: "code t = While_trylock m a # k \<Longrightarrow> mutexes l m = Some True \<Longrightarrow>
    mrsw_exec l t l (t\<lparr>code := a @ While_trylock m a # k\<rparr>)"
| sleep: "code t = Sleep # k \<Longrightarrow> mrsw_exec l t l (t\<lparr>code := k\<rparr>)"
| failed: "code t = Return_failed # k \<Longrightarrow> mrsw_exec l t l (t\<lparr>code := [], gains := Nothing\<rparr>)"

text \<open>The calls a thread may make: what it has, the function and what it has afterwards.\<close>

definition mrsw_calls :: "(grant \<times> stmt list \<times> grant) list" where
  "mrsw_calls =
    [(Nothing, acquirewrite_mrsw, Exclusive), (Nothing, acquirewrite_mrsw_long, Exclusive),
     (Nothing, try_acquirewrite_mrsw, Exclusive),
     (Nothing, acquireread_mrsw, Shared), (Nothing, acquireread_mrsw_short, Shared),
     (Exclusive, releasewrite_mrsw, Nothing), (Exclusive, release_mrsw, Nothing),
     (Exclusive, writetoread_mrsw, Shared),
     (Shared, releaseread_mrsw, Nothing), (Shared, release_mrsw, Nothing)]"

text \<open>A step of a system of \<open>N\<close> threads on one lock.\<close>

type_synonym threads = "mrsw \<times> (nat \<Rightarrow> thread)"

inductive mrsw_step :: "nat \<Rightarrow> threads \<Rightarrow> threads \<Rightarrow> bool" for N where
  run: "i < N \<Longrightarrow> mrsw_exec l (T i) l' t' \<Longrightarrow> mrsw_step N (l, T) (l', T(i := t'))"
| call: "i < N \<Longrightarrow> code (T i) = [] \<Longrightarrow> (gains (T i), f, g) \<in> set mrsw_calls \<Longrightarrow>
    mrsw_step N (l, T) (l, T(i := \<lparr>held = gains (T i), code = f, gains = g\<rparr>))"

definition idle :: thread where
  "idle = \<lparr>held = Nothing, code = [], gains = Nothing\<rparr>"

text \<open>A lock that \<open>init_mrsw\<close> has just initialised, and the states reached from it.\<close>

definition fresh_mrsw :: mrsw where
  "fresh_mrsw = snd (init_mrsw (\<lambda>_. 0)
     \<lparr>mutexes = (\<lambda>_. None), read_count = 0, writer = 0, long_lock = 0\<rparr>)"

inductive mrsw_reachable :: "nat \<Rightarrow> threads \<Rightarrow> bool" for N where
  start: "mrsw_reachable N (fresh_mrsw, \<lambda>_. idle)"
| more: "mrsw_reachable N s \<Longrightarrow> mrsw_step N s s' \<Longrightarrow> mrsw_reachable N s'"

inductive_cases mrsw_exec_cases: "mrsw_exec l t l' t'"
inductive_cases mrsw_step_cases: "mrsw_step N (l, T) s'"

end
