(* ===== verification/LockingSpec.thy ===== *)
theory LockingSpec imports Locking begin

text \<open>
  Every reachable state of the lock is consistent, so that a writer is alone and the lock can
  always be given back.

  The functions are checked like programs in a type system. What a thread owns at a point of a
  function (\<open>owns\<close>) is computed backwards from what the caller has when it returns (\<open>pre_stmts\<close>);
  the rules contain the order in which the mutexes are taken. The code of every call has
  a type (\<open>calls_typed\<close>), so the invariant \<open>consistent\<close> needs one case per kind of statement, not one
  per line of the functions.
\<close>

section \<open>What a thread owns\<close>

text \<open>
  The mutex of the readers belongs to a writer or to the readers together. While a thread holds
  \<open>read_count_mutex\<close> the counter and that mutex may be out of step: \<open>Even\<close> they agree, \<open>More\<close> the thread has
  counted itself and not yet looked, \<open>First\<close> it must take the mutex, \<open>Less\<close> and \<open>Last\<close> likewise on the way
  out.
\<close>

datatype room = Even | More | First | Less | Last

record owns =
  excl :: bool            \<comment> \<open>\<open>write_exclusive_mutex\<close>\<close>
  reading :: bool         \<comment> \<open>\<open>reading_mutex\<close>, as a writer\<close>
  announced :: bool       \<comment> \<open>\<open>writer\<close> is 1 because of this thread\<close>
  counted :: bool         \<comment> \<open>\<open>read_count\<close> includes this thread\<close>
  room :: "room option"   \<comment> \<open>\<open>read_count_mutex\<close>\<close>

definition nothing :: owns where
  "nothing = \<lparr>excl = False, reading = False, announced = False, counted = False, room = None\<rparr>"

primrec granted :: "grant \<Rightarrow> owns" where
  "granted Nothing = nothing"
| "granted Shared = nothing\<lparr>counted := True\<rparr>"
| "granted Exclusive = nothing\<lparr>excl := True, reading := True, announced := True\<rparr>"

fun pre_lock :: "mutex \<Rightarrow> owns \<Rightarrow> owns option" where
  "pre_lock Write_exclusive_mutex p =
    (if excl p \<and> \<not> reading p \<and> \<not> counted p \<and> room p = None then Some (p\<lparr>excl := False\<rparr>) else None)"
| "pre_lock Reading_mutex p =
    (if room p = Some Even \<and> counted p then Some (p\<lparr>room := Some First\<rparr>)
     else if room p = None \<and> reading p \<and> \<not> announced p then Some (p\<lparr>reading := False\<rparr>) else None)"
| "pre_lock Read_count_mutex p =
    (if room p = Some Even \<and> \<not> reading p then Some (p\<lparr>room := None\<rparr>) else None)"

fun pre_unlock :: "mutex \<Rightarrow> owns \<Rightarrow> owns option" where
  "pre_unlock Write_exclusive_mutex p =
    (if \<not> excl p \<and> \<not> reading p then Some (p\<lparr>excl := True\<rparr>) else None)"
| "pre_unlock Reading_mutex p =
    (if room p = Some Even \<and> \<not> counted p then Some (p\<lparr>room := Some Last\<rparr>)
     else if room p = None \<and> excl p \<and> \<not> reading p \<and> \<not> counted p then Some (p\<lparr>reading := True\<rparr>) else None)"
| "pre_unlock Read_count_mutex p =
    (if room p = None \<and> \<not> reading p then Some (p\<lparr>room := Some Even\<rparr>) else None)"

text \<open>A test joins what its branches need.\<close>

fun pre_cond :: "grant \<Rightarrow> cond \<Rightarrow> owns option \<Rightarrow> owns option \<Rightarrow> owns option" where
  "pre_cond h (Count_is n) (Some a) (Some b) =
    (if b = a\<lparr>room := Some Even\<rparr>
     then if n = 1 \<and> room a = Some First then Some (a\<lparr>room := Some More\<rparr>)
          else if n = 0 \<and> room a = Some Last then Some (a\<lparr>room := Some Less\<rparr>) else None
     else None)"
| "pre_cond h Count_not_positive _ (Some b) = (if counted b \<and> room b = Some Even then Some b else None)"
| "pre_cond h Writer (Some a) (Some b) =
    (if announced a \<and> counted b \<and> room b = None then Some (if h = Exclusive then a else b) else None)"
| "pre_cond h Long_lock (Some a) (Some b) = (if a = b then Some a else None)"
| "pre_cond _ _ _ _ = None"

fun pre_stmt :: "grant \<Rightarrow> stmt \<Rightarrow> owns \<Rightarrow> owns option"
and pre_stmts :: "grant \<Rightarrow> stmt list \<Rightarrow> owns \<Rightarrow> owns option" where
  "pre_stmt h (Lock m) p = pre_lock m p"
| "pre_stmt h (Unlock m) p = pre_unlock m p"
| "pre_stmt h (Set_writer v) p =
    (if v = 0 \<and> reading p \<and> \<not> announced p then Some (p\<lparr>announced := True\<rparr>)
     else if v = 1 \<and> announced p then Some (p\<lparr>announced := False\<rparr>) else None)"
| "pre_stmt h (Set_long_lock v) p = (if excl p then Some p else None)"
| "pre_stmt h Count_up p =
    (if room p = Some More \<and> counted p then Some (p\<lparr>room := Some Even, counted := False\<rparr>) else None)"
| "pre_stmt h Count_down p =
    (if room p = Some Less \<and> \<not> counted p then Some (p\<lparr>room := Some Even, counted := True\<rparr>) else None)"
| "pre_stmt h Count_zero p = None"
| "pre_stmt h (If c a b) p = pre_cond h c (pre_stmts h a p) (pre_stmts h b p)"
| "pre_stmt h (Unless_trylock m a) p =
    (if pre_lock m p = pre_stmts h a p then pre_lock m p else None)"
| "pre_stmt h (While_trylock m a) p =
    (case pre_lock m p of None \<Rightarrow> None
     | Some q \<Rightarrow> if pre_stmts h a q = Some q then Some q else None)"
| "pre_stmt h Sleep p = Some p"
| "pre_stmt h Return_failed p = Some nothing"
| "pre_stmts h [] p = Some p"
| "pre_stmts h (x # k) p = (case pre_stmts h k p of None \<Rightarrow> None | Some q \<Rightarrow> pre_stmt h x q)"

definition owned :: "thread \<Rightarrow> owns option" where
  "owned t = pre_stmts (held t) (code t) (granted (gains t))"

text \<open>A call starts from what the caller has and ends with what it is promised.\<close>

definition call_typed :: "grant \<times> stmt list \<times> grant \<Rightarrow> bool" where
  "call_typed = (\<lambda>(h, f, g). pre_stmts h f (granted g) = Some (granted h))"

lemmas mrsw_functions =
  try_acquirewrite_mrsw_def acquirewrite_mrsw_def acquirewrite_mrsw_long_def releasewrite_mrsw_def
  acquireread_mrsw_def acquireread_mrsw_short_def releaseread_mrsw_def release_mrsw_def
  writetoread_mrsw_def

lemma calls_typed: "c \<in> set mrsw_calls \<Longrightarrow> call_typed c"
  by (auto simp: mrsw_calls_def call_typed_def mrsw_functions nothing_def)

lemma pre_stmts_append:
  "pre_stmts h (a @ k) p = (case pre_stmts h k p of None \<Rightarrow> None | Some q \<Rightarrow> pre_stmts h a q)"
  by (induction a) (auto split: option.splits)

lemma owned_Cons:
  assumes "owned t = Some p" and "code t = x # k"
  obtains q where "owned (t\<lparr>code := k\<rparr>) = Some q" and "pre_stmt (held t) x q = Some p"
  using assms by (auto simp: owned_def split: option.splits)

lemma owned_append: "owned (t\<lparr>code := k\<rparr>) = Some q \<Longrightarrow> pre_stmts (held t) a q = Some p \<Longrightarrow>
    owned (t\<lparr>code := a @ k\<rparr>) = Some p"
  by (auto simp: owned_def pre_stmts_append)

section \<open>Well-formed ownership\<close>

definition proper :: "owns \<Rightarrow> bool" where
  "proper p \<longleftrightarrow>
     (announced p \<longrightarrow> reading p) \<and> (reading p \<longrightarrow> excl p \<and> room p = None \<and> \<not> counted p) \<and>
     (room p \<in> {Some More, Some First} \<longrightarrow> counted p) \<and> (room p \<in> {Some Less, Some Last} \<longrightarrow> \<not> counted p)"

lemma proper_granted [simp]: "proper (granted g)"
  by (cases g) (simp_all add: proper_def nothing_def)

lemma proper_lock: "pre_lock m p = Some q \<Longrightarrow> proper p \<Longrightarrow> proper q"
  by (cases m) (auto simp: proper_def split: if_splits)

lemma proper_unlock: "pre_unlock m p = Some q \<Longrightarrow> proper p \<Longrightarrow> proper q"
  by (cases m) (auto simp: proper_def split: if_splits)

lemma proper_stmt:
  "pre_stmt h x p = Some q \<Longrightarrow> proper p \<Longrightarrow> proper q"
  "pre_stmts h k p = Some q \<Longrightarrow> proper p \<Longrightarrow> proper q"
proof (induction h x p and h k p arbitrary: q and q rule: pre_stmt_pre_stmts.induct)
  case (8 h c a b p)
  then show ?case
    by (cases c; cases "pre_stmts h a p"; cases "pre_stmts h b p")
      (auto split: if_splits simp: proper_def)
qed (auto simp: proper_lock proper_unlock split: if_splits option.splits, auto simp: proper_def nothing_def)

lemma owned_proper: "owned t = Some p \<Longrightarrow> proper p"
  unfolding owned_def by (erule proper_stmt) simp

section \<open>The invariant\<close>

definition readers :: "(nat \<Rightarrow> owns) \<Rightarrow> nat set" where
  "readers L = {i. counted (L i)}"

definition someone :: "(owns \<Rightarrow> bool) \<Rightarrow> (nat \<Rightarrow> owns) \<Rightarrow> bool" where
  "someone P L \<longleftrightarrow> (\<exists>i. P (L i))"

text \<open>A mutex whose owners are the threads with the property \<open>P\<close>: there is at most one.\<close>

definition owner_of :: "(owns \<Rightarrow> bool) \<Rightarrow> ltfs_mutex_t \<Rightarrow> (nat \<Rightarrow> owns) \<Rightarrow> bool" where
  "owner_of P m L \<longleftrightarrow> m = Some (someone P L) \<and> (\<forall>i j. P (L i) \<longrightarrow> P (L j) \<longrightarrow> i = j)"

definition proper_view :: "nat \<Rightarrow> (nat \<Rightarrow> owns) \<Rightarrow> bool" where
  "proper_view N L \<longleftrightarrow> (\<forall>i. proper (L i)) \<and> (\<forall>i \<ge> N. L i = nothing)"

text \<open>The phase of the counter: that of the thread that holds its mutex, otherwise \<open>Even\<close>.\<close>

definition phase_of :: "(nat \<Rightarrow> owns) \<Rightarrow> room \<Rightarrow> bool" where
  "phase_of L r \<longleftrightarrow> (\<forall>i. room (L i) \<in> {None, Some r}) \<and> ((\<forall>i. room (L i) = None) \<longrightarrow> r = Even)"

text \<open>
  \<open>open\<close> says that the readers have their mutex; \<open>in_step\<close> relates it to the number of readers.
\<close>

primrec in_step :: "room \<Rightarrow> nat \<Rightarrow> bool \<Rightarrow> bool" where
  "in_step Even n open \<longleftrightarrow> open = (0 < n)"
| "in_step More n open \<longleftrightarrow> open = (1 < n)"
| "in_step First n open \<longleftrightarrow> n = 1 \<and> \<not> open"
| "in_step Less n open \<longleftrightarrow> open"
| "in_step Last n open \<longleftrightarrow> n = 0 \<and> open"

definition consistent :: "nat \<Rightarrow> mrsw \<Rightarrow> (nat \<Rightarrow> owns) \<Rightarrow> room \<Rightarrow> bool \<Rightarrow> bool" where
  "consistent N l L r open \<longleftrightarrow>
     proper_view N L \<and>
     owner_of excl (mutexes l Write_exclusive_mutex) L \<and>
     owner_of (\<lambda>p. \<not> Option.is_none (room p)) (mutexes l Read_count_mutex) L \<and>
     mutexes l Reading_mutex = Some (open \<or> someone reading L) \<and> (open \<longrightarrow> \<not> someone reading L) \<and>
     read_count l = of_nat (card (readers L)) \<and>
     phase_of L r \<and> in_step r (card (readers L)) open \<and>
     writer l = (if someone announced L then 1 else 0)"

lemma someoneI: "P (L i) \<Longrightarrow> someone P L"
  by (auto simp: someone_def)

lemma someone_same: "P q = P (L i) \<Longrightarrow> someone P (L(i := q)) = someone P L"
  by (auto simp: someone_def)

lemma someone_new: "P q \<Longrightarrow> someone P (L(i := q))"
  by (auto simp: someone_def)

lemma someone_gone: "\<not> P q \<Longrightarrow> (\<And>j. P (L j) \<Longrightarrow> j = i) \<Longrightarrow> \<not> someone P (L(i := q))"
  by (auto simp: someone_def)

lemma owner_keep: "owner_of P m L \<Longrightarrow> P q = P (L i) \<Longrightarrow> owner_of P m (L(i := q))"
  by (auto simp: owner_of_def someone_def)

lemma owner_take: "owner_of P (Some False) L \<Longrightarrow> P q \<Longrightarrow> owner_of P (Some True) (L(i := q))"
  by (auto simp: owner_of_def someone_def)

lemma owner_give: "owner_of P m L \<Longrightarrow> P (L i) \<Longrightarrow> \<not> P q \<Longrightarrow> owner_of P (Some False) (L(i := q))"
  by (auto simp: owner_of_def someone_def)

lemma owner_free: "owner_of P (Some False) L \<Longrightarrow> \<not> P (L j)"
  by (auto simp: owner_of_def someone_def)

lemma owner_unique: "owner_of P m L \<Longrightarrow> P (L i) \<Longrightarrow> P (L j) \<Longrightarrow> i = j"
  by (auto simp: owner_of_def)

lemma proper_view_update: "proper_view N L \<Longrightarrow> i < N \<Longrightarrow> proper q \<Longrightarrow> proper_view N (L(i := q))"
  by (auto simp: proper_view_def)

lemma phase_same: "phase_of L r \<Longrightarrow> room q = room (L i) \<Longrightarrow> phase_of (L(i := q)) r"
  by (auto simp: phase_of_def)

lemma phase_get: "phase_of L r \<Longrightarrow> room (L i) = Some r' \<Longrightarrow> r = r'"
  by (auto simp: phase_of_def dest!: spec [of _ i])

lemma phase_set:
  assumes "owner_of (\<lambda>p. \<not> Option.is_none (room p)) m L" and "room (L i) \<noteq> None \<or> m = Some False"
  shows "room q = Some r' \<Longrightarrow> phase_of (L(i := q)) r'" and "room q = None \<Longrightarrow> phase_of (L(i := q)) Even"
  using assms by (auto simp: phase_of_def owner_of_def someone_def Option.is_none_def)

lemma readers_same: "counted q = counted (L i) \<Longrightarrow> readers (L(i := q)) = readers L"
  by (auto simp: readers_def)

lemma readers_more: "counted q \<Longrightarrow> readers (L(i := q)) = insert i (readers L)"
  by (auto simp: readers_def)

lemma readers_less: "\<not> counted q \<Longrightarrow> readers (L(i := q)) = readers L - {i}"
  by (auto simp: readers_def)

lemma readers_below: "proper_view N L \<Longrightarrow> readers L \<subseteq> {..<N}"
  by (auto simp: proper_view_def readers_def nothing_def not_less[symmetric])

lemma readers_finite: "proper_view N L \<Longrightarrow> finite (readers L)"
  by (meson readers_below finite_subset finite_lessThan)

lemma readers_count:
  assumes "consistent N l L r open" and "N < 2 ^ 32"
  shows "unat (read_count l) = card (readers L)"
proof -
  have "card (readers L) < 2 ^ 32"
    using card_mono [OF _ readers_below] assms by (force simp: consistent_def)
  then show ?thesis using assms(1) by (simp add: consistent_def unat_of_nat take_bit_nat_eq_self)
qed

text \<open>The changes that keep the other parts of the view as they are.\<close>

lemmas unchanged = someone_same owner_keep phase_same readers_same proper_view_update

lemma take_excl:
  assumes "consistent N l L r open" and "i < N" and "proper q"
    and "mutexes l Write_exclusive_mutex = Some False" and "pre_lock Write_exclusive_mutex q = Some (L i)"
  shows "consistent N (set_mutex Write_exclusive_mutex (Some True) l) (L(i := q)) r open"
proof -
  have L: "L i = q\<lparr>excl := False\<rparr>" and q: "excl q"
    using assms(5) by (auto split: if_splits)
  then show ?thesis
    using assms(1-4) unfolding consistent_def by (simp add: unchanged owner_take)
qed


lemma proper_at: "consistent N l L r open \<Longrightarrow> proper (L i)"
  by (simp add: consistent_def proper_view_def)

lemma writer_unique: "consistent N l L r open \<Longrightarrow> reading (L i) \<Longrightarrow> reading (L j) \<Longrightarrow> i = j"
  using proper_at [of N l L r "open" i] proper_at [of N l L r "open" j]
  by (auto simp: proper_def consistent_def dest: owner_unique)

lemma announced_reading: "consistent N l L r open \<Longrightarrow> announced (L i) \<Longrightarrow> reading (L i)"
  using proper_at [of N l L r "open" i] by (simp add: proper_def)

lemma shut:
  assumes "consistent N l L r open" and "mutexes l Reading_mutex = Some False \<or> reading (L i)"
  shows "consistent N l L r False"
proof -
  have "open = False" using assms by (auto simp: consistent_def someone_def)
  then show ?thesis using assms(1) by simp
qed

lemma give_excl:
  assumes "consistent N l L r open" and "i < N" and "proper q"
    and "pre_unlock Write_exclusive_mutex q = Some (L i)"
  shows "consistent N (set_mutex Write_exclusive_mutex (Some False) l) (L(i := q)) r open"
proof -
  have L: "L i = q\<lparr>excl := True\<rparr>" and q: "\<not> excl q"
    using assms(4) by (auto split: if_splits)
  then have "owner_of excl (Some False) (L(i := q))"
    using assms(1) by (intro owner_give) (auto simp: consistent_def)
  then show ?thesis
    using assms(1-3) L unfolding consistent_def by (simp add: unchanged)
qed

lemma take_counter:
  assumes "consistent N l L r open" and "i < N" and "proper q"
    and "mutexes l Read_count_mutex = Some False" and "pre_lock Read_count_mutex q = Some (L i)"
  shows "consistent N (set_mutex Read_count_mutex (Some True) l) (L(i := q)) Even open"
proof -
  have L: "L i = q\<lparr>room := None\<rparr>" and q: "room q = Some Even"
    using assms(5) by (auto split: if_splits)
  have "room (L j) = None" for j
    using assms(1,4) by (auto simp: consistent_def Option.is_none_def dest: owner_free [of _ _ j])
  then have "r = Even" using assms(1) by (simp add: consistent_def phase_of_def)
  moreover have "phase_of (L(i := q)) Even"
    using assms(1,4) q by (intro phase_set [of "mutexes l Read_count_mutex"]) (auto simp: consistent_def)
  ultimately show ?thesis
    using assms(1-4) L q unfolding consistent_def by (simp add: unchanged owner_take)
qed

lemma give_counter:
  assumes "consistent N l L r open" and "i < N" and "proper q"
    and "pre_unlock Read_count_mutex q = Some (L i)"
  shows "consistent N (set_mutex Read_count_mutex (Some False) l) (L(i := q)) Even open"
proof -
  have L: "L i = q\<lparr>room := Some Even\<rparr>" and q: "room q = None"
    using assms(4) by (auto split: if_splits)
  have "r = Even" using assms(1) L by (auto simp: consistent_def dest: phase_get [of _ _ i])
  moreover have "owner_of (\<lambda>p. \<not> Option.is_none (room p)) (Some False) (L(i := q))"
    using assms(1) L q by (intro owner_give) (auto simp: consistent_def)
  moreover have "phase_of (L(i := q)) Even"
    using assms(1) L q by (intro phase_set [of "mutexes l Read_count_mutex"]) (auto simp: consistent_def)
  ultimately show ?thesis
    using assms(1-3) L q unfolding consistent_def by (simp add: unchanged)
qed

lemma take_reading:
  assumes "consistent N l L r open" and "i < N" and "proper q"
    and "mutexes l Reading_mutex = Some False" and "pre_lock Reading_mutex q = Some (L i)"
  shows "\<exists>r open. consistent N (set_mutex Reading_mutex (Some True) l) (L(i := q)) r open"
proof (cases "room q = Some Even")
  case True
  then have L: "L i = q\<lparr>room := Some First\<rparr>" using assms(5) by (auto split: if_splits)
  then have "r = First" using assms(1) by (auto simp: consistent_def dest: phase_get [of _ _ i])
  moreover have "phase_of (L(i := q)) Even"
    using assms(1) L True by (intro phase_set [of "mutexes l Read_count_mutex"]) (auto simp: consistent_def)
  ultimately have "consistent N (set_mutex Reading_mutex (Some True) l) (L(i := q)) Even True"
    using assms(1-4) L True unfolding consistent_def by (simp add: unchanged)
  then show ?thesis by blast
next
  case False
  then have L: "L i = q\<lparr>reading := False\<rparr>" and q: "reading q" using assms(5) by (auto split: if_splits)
  have "consistent N l L r False" using shut [OF assms(1)] assms(4) by blast
  then have "consistent N (set_mutex Reading_mutex (Some True) l) (L(i := q)) r False"
    using assms(2-4) L q unfolding consistent_def by (simp add: unchanged someone_new)
  then show ?thesis by blast
qed

lemma give_reading:
  assumes "consistent N l L r open" and "i < N" and "proper q"
    and "pre_unlock Reading_mutex q = Some (L i)"
  shows "\<exists>r open. consistent N (set_mutex Reading_mutex (Some False) l) (L(i := q)) r open"
proof (cases "room q = Some Even")
  case True
  then have L: "L i = q\<lparr>room := Some Last\<rparr>" using assms(4) by (auto split: if_splits)
  then have "r = Last" using assms(1) by (auto simp: consistent_def dest: phase_get [of _ _ i])
  moreover have "phase_of (L(i := q)) Even"
    using assms(1) L True by (intro phase_set [of "mutexes l Read_count_mutex"]) (auto simp: consistent_def)
  ultimately have "consistent N (set_mutex Reading_mutex (Some False) l) (L(i := q)) Even False"
    using assms(1-3) L True unfolding consistent_def by (simp add: unchanged)
  then show ?thesis by blast
next
  case False
  then have L: "L i = q\<lparr>reading := True\<rparr>" and q: "\<not> reading q" using assms(4) by (auto split: if_splits)
  then have "\<not> someone reading (L(i := q))"
    using writer_unique [OF assms(1), of _ i] by (intro someone_gone) simp_all
  moreover have "consistent N l L r False" using shut [OF assms(1), of i] L by simp
  ultimately have "consistent N (set_mutex Reading_mutex (Some False) l) (L(i := q)) r False"
    using assms(2,3) L unfolding consistent_def by (simp add: unchanged)
  then show ?thesis by blast
qed


lemma announce:
  assumes "consistent N l L r open" and "i < N" and "proper q"
    and "pre_stmt h (Set_writer v) q = Some (L i)"
  shows "consistent N (l\<lparr>writer := v\<rparr>) (L(i := q)) r open"
proof (cases "announced q")
  case True
  then have "v = 1" and L: "L i = q\<lparr>announced := False\<rparr>" using assms(4) by (auto split: if_splits)
  then show ?thesis using assms(1-3) True unfolding consistent_def by (simp add: unchanged someone_new)
next
  case False
  then have "v = 0" and L: "L i = q\<lparr>announced := True\<rparr>" using assms(4) by (auto split: if_splits)
  moreover have "\<not> someone announced (L(i := q))"
    using False L announced_reading [OF assms(1)] writer_unique [OF assms(1), of _ i] assms(4)
    by (intro someone_gone) (auto split: if_splits)
  ultimately show ?thesis using assms(1-3) unfolding consistent_def by (simp add: unchanged)
qed

lemma count_in:
  assumes "consistent N l L r open" and "i < N" and "proper q"
    and "pre_stmt h Count_up q = Some (L i)"
  shows "consistent N (l\<lparr>read_count := read_count l + 1\<rparr>) (L(i := q)) More open"
proof -
  have L: "L i = q\<lparr>room := Some Even, counted := False\<rparr>" and q: "room q = Some More" "counted q"
    using assms(4) by (auto split: if_splits)
  have "r = Even" using assms(1) L by (auto simp: consistent_def dest: phase_get [of _ _ i])
  moreover have "finite (readers L)" using assms(1) readers_finite by (auto simp: consistent_def)
  moreover have "i \<notin> readers L" using L by (simp add: readers_def)
  ultimately have "card (readers (L(i := q))) = Suc (card (readers L))" and "r = Even"
    using q by (simp_all add: readers_more)
  moreover have "phase_of (L(i := q)) More"
    using assms(1) L q by (intro phase_set [of "mutexes l Read_count_mutex"]) (auto simp: consistent_def)
  ultimately show ?thesis
    using assms(1-3) L q unfolding consistent_def by (simp add: unchanged)
qed

lemma count_out:
  assumes "consistent N l L r open" and "i < N" and "proper q"
    and "pre_stmt h Count_down q = Some (L i)"
  shows "consistent N (l\<lparr>read_count := read_count l - 1\<rparr>) (L(i := q)) Less open"
proof -
  have L: "L i = q\<lparr>room := Some Even, counted := True\<rparr>" and q: "room q = Some Less" "\<not> counted q"
    using assms(4) by (auto split: if_splits)
  have "r = Even" using assms(1) L by (auto simp: consistent_def dest: phase_get [of _ _ i])
  have "i \<in> readers L" using L by (simp add: readers_def)
  moreover have "finite (readers L)" using assms(1) readers_finite by (auto simp: consistent_def)
  ultimately have n: "card (readers L) = Suc (card (readers (L(i := q))))"
    unfolding readers_less [OF q(2)] by (intro card.remove)
  have "read_count l = of_nat (card (readers L))" using assms(1) by (simp add: consistent_def)
  then have less: "read_count l - 1 = of_nat (card (readers (L(i := q))))" using n by simp
  have "open" using assms(1) n \<open>r = Even\<close> by (simp add: consistent_def)
  then have sub: "consistent N (l\<lparr>read_count := read_count l - 1\<rparr>) (L(i := q)) Less open \<longleftrightarrow>
      proper_view N (L(i := q)) \<and> owner_of excl (mutexes l Write_exclusive_mutex) (L(i := q)) \<and>
      owner_of (\<lambda>p. \<not> Option.is_none (room p)) (mutexes l Read_count_mutex) (L(i := q)) \<and>
      mutexes l Reading_mutex = Some (open \<or> someone reading (L(i := q))) \<and> \<not> someone reading (L(i := q)) \<and>
      phase_of (L(i := q)) Less \<and> writer l = (if someone announced (L(i := q)) then 1 else 0)"
    by (simp add: consistent_def less)
  have "phase_of (L(i := q)) Less"
    using assms(1) L q by (intro phase_set [of "mutexes l Read_count_mutex"]) (auto simp: consistent_def)
  then show ?thesis
    using assms(1-3) L q \<open>open\<close> unfolding sub by (simp add: unchanged consistent_def)
qed


lemma change_room:
  assumes "consistent N l L r open" and "i < N" and "room (L i) \<noteq> None"
    and "q = (L i)\<lparr>room := Some r'\<rparr>" and "proper q" and "in_step r' (card (readers L)) open"
  shows "consistent N l (L(i := q)) r' open"
proof -
  have "phase_of (L(i := q)) r'"
    using assms(1,3,4) by (intro phase_set [of "mutexes l Read_count_mutex"]) (auto simp: consistent_def)
  then show ?thesis
    using assms unfolding consistent_def by (simp add: unchanged Option.is_none_def)
qed

lemma two_readers: "finite (readers L) \<Longrightarrow> counted (L i) \<Longrightarrow> counted (L j) \<Longrightarrow> i \<noteq> j \<Longrightarrow> 1 < card (readers L)"
  using card_mono [of "readers L" "{i, j}"] by (auto simp: readers_def)

lemma one_reader: "finite (readers L) \<Longrightarrow> counted (L i) \<Longrightarrow> 0 < card (readers L)"
  using card_gt_0_iff by (fastforce simp: readers_def)

lemma consistent_finite: "consistent N l L r open \<Longrightarrow> finite (readers L)"
  by (auto simp: consistent_def intro: readers_finite)

lemma consistent_phase: "consistent N l L r open \<Longrightarrow> phase_of L r"
  by (simp add: consistent_def)

lemma phase_someone: "phase_of L r \<Longrightarrow> r \<noteq> Even \<Longrightarrow> \<exists>j. room (L j) = Some r"
  unfolding phase_of_def by (metis insertE singletonD)

lemma counted_open:
  assumes "consistent N l L r open" and "counted (L i)" and "room (L i) = None"
  shows "open"
proof (cases "r = Even")
  case True
  then show ?thesis
    using assms one_reader [OF consistent_finite [OF assms(1)] assms(2)] by (simp add: consistent_def)
next
  case False
  then obtain j where j: "room (L j) = Some r" using phase_someone [OF consistent_phase [OF assms(1)]] by blast
  have "r \<in> {More, First} \<Longrightarrow> 1 < card (readers L)"
    using proper_at [OF assms(1), of j] j assms(2,3)
    by (intro two_readers [OF consistent_finite [OF assms(1)], of i j]) (auto simp: proper_def)
  moreover have "0 < card (readers L)" by (rule one_reader [OF consistent_finite [OF assms(1)] assms(2)])
  ultimately show ?thesis using assms(1) False by (cases r) (auto simp: consistent_def)
qed

lemma room_only: "A\<lparr>room := x\<rparr> = Q\<lparr>room := x\<rparr> \<Longrightarrow> room Q = y \<Longrightarrow> Q = A\<lparr>room := y\<rparr>" for A Q :: owns
  by (cases A; cases Q) simp

text \<open>A branch leads to code whose type fits the state in which it was taken.\<close>

lemma branch_keeps:
  assumes "consistent N l L r open" and "i < N" and "N < 2 ^ 32" and "proper q"
    and "pre_stmt h (If c a b) q = Some (L i)"
  shows "\<exists>p r. pre_stmts h (if cond_holds c l then a else b) q = Some p \<and> consistent N l (L(i := p)) r open"
proof -
  note count = readers_count [OF assms(1,3)]
  have self: "L(i := L i) = L" by simp
  show ?thesis
  proof (cases c)
    case (Count_is n)
    then obtain A where A: "pre_stmts h a q = Some A" "pre_stmts h b q = Some (A\<lparr>room := Some Even\<rparr>)"
      and cases: "n = 1 \<and> room A = Some First \<and> L i = A\<lparr>room := Some More\<rparr> \<or>
                  n = 0 \<and> room A = Some Last \<and> L i = A\<lparr>room := Some Less\<rparr>"
      using assms(5) by (cases "pre_stmts h a q"; cases "pre_stmts h b q") (auto split: if_splits)
    have pr: "proper A" "proper (A\<lparr>room := Some Even\<rparr>)" using A assms(4) proper_stmt(2) by blast+
    have r: "room (L i) = Some r"
      using cases phase_get [OF consistent_phase [OF assms(1)], of i] by auto
    have eq: "(read_count l = n) = (card (readers L) = unat n)" using count by (metis word_unat_eq_iff)
    have steps: "in_step r' (card (readers L)) open \<Longrightarrow> proper Q \<Longrightarrow> room Q = Some r' \<Longrightarrow>
        A\<lparr>room := Some Even\<rparr> = Q\<lparr>room := Some Even\<rparr> \<Longrightarrow> consistent N l (L(i := Q)) r' open" for Q r'
      using cases room_only [where A = A and x = "Some Even" and Q = Q and y = "Some r'"] by (intro change_room [OF assms(1,2)]) auto
    have now: "in_step r (card (readers L)) open" using assms(1) by (simp add: consistent_def)
    have "counted (L i) \<Longrightarrow> 0 < card (readers L)" by (rule one_reader [OF consistent_finite [OF assms(1)]])
    then show ?thesis
      using cases r now steps [of _ "A\<lparr>room := Some Even\<rparr>"] steps [of _ A] pr
      by (auto simp: Count_is A eq proper_def)
  next
    case Count_not_positive
    then obtain B where B: "pre_stmts h b q = Some B" "counted B" "L i = B"
      using assms(5) by (cases "pre_stmts h a q"; cases "pre_stmts h b q") (auto split: if_splits)
    then have "read_count l \<noteq> 0"
      using one_reader [OF consistent_finite [OF assms(1)]] count by (metis less_numeral_extra(3) unat_0)
    then show ?thesis using Count_not_positive B assms(1) self by auto
  next
    case Writer
    then obtain A B where AB: "pre_stmts h a q = Some A" "pre_stmts h b q = Some B"
      and "announced A" "counted B" "room B = None" "L i = (if h = Exclusive then A else B)"
      using assms(5) by (cases "pre_stmts h a q"; cases "pre_stmts h b q") (auto split: if_splits)
    moreover have "h \<noteq> Exclusive \<Longrightarrow> \<not> someone announced L"
      using calculation counted_open [OF assms(1), of i] assms(1) announced_reading [OF assms(1)]
      by (auto simp: consistent_def someone_def)
    moreover have "h = Exclusive \<Longrightarrow> someone announced L" using calculation by (auto simp: someone_def)
    ultimately show ?thesis using Writer assms(1) self by (auto simp: consistent_def split: if_splits)
  next
    case Long_lock
    then have "pre_stmts h a q = Some (L i)" "pre_stmts h b q = Some (L i)"
      using assms(5) by (cases "pre_stmts h a q"; cases "pre_stmts h b q"; auto split: if_splits)+
    then show ?thesis using assms(1) self by auto
  qed
qed


section \<open>Every step keeps the invariant\<close>

lemma trylock_types:
  "pre_stmt h (Unless_trylock m a) q = Some p \<Longrightarrow> pre_lock m q = Some p \<and> pre_stmts h a q = Some p"
  by (auto split: if_splits)

lemma spin_types:
  "pre_stmt h (While_trylock m a) q = Some p \<Longrightarrow> pre_lock m q = Some p \<and> pre_stmts h a p = Some p"
  by (auto split: option.splits if_splits)

text \<open>A lock that is taken, whatever the mutex.\<close>

lemma take_mutex:
  assumes "consistent N l L r open" and "i < N" and "proper q"
    and "mutexes l m = Some False" and "pre_lock m q = Some (L i)"
  shows "\<exists>r open. consistent N (set_mutex m (Some True) l) (L(i := q)) r open"
proof (cases m)
  case Write_exclusive_mutex
  then show ?thesis using take_excl [OF assms(1-3)] assms(4,5) by blast
next
  case Reading_mutex
  then show ?thesis using take_reading [OF assms(1-3)] assms(4,5) by blast
next
  case Read_count_mutex
  then show ?thesis using take_counter [OF assms(1-3)] assms(4,5) by blast
qed

lemma give_mutex:
  assumes "consistent N l L r open" and "i < N" and "proper q" and "pre_unlock m q = Some (L i)"
  shows "\<exists>r open. consistent N (set_mutex m (Some False) l) (L(i := q)) r open"
proof (cases m)
  case Write_exclusive_mutex
  then show ?thesis using give_excl [OF assms(1-3)] assms(4) by blast
next
  case Reading_mutex
  then show ?thesis using give_reading [OF assms(1-3)] assms(4) by blast
next
  case Read_count_mutex
  then show ?thesis using give_counter [OF assms(1-3)] assms(4) by blast
qed

lemma exec_consistent:
  assumes "mrsw_exec l t l' t'" and "owned t = Some (L i)" and "consistent N l L r open"
    and "i < N" and "N < 2 ^ 32"
  shows "\<exists>q r open. owned t' = Some q \<and> consistent N l' (L(i := q)) r open"
proof -
  have self: "L(i := L i) = L" by simp
  have typed: "\<exists>q. owned (t\<lparr>code := k\<rparr>) = Some q \<and> proper q \<and> pre_stmt (held t) x q = Some (L i)"
    if "code t = x # k" for x k
    using owned_Cons [OF assms(2) that] owned_proper by metis
  show ?thesis
    using assms(1)
  proof cases
    case (lock m k)
    then obtain q where q: "owned t' = Some q" "proper q" "pre_lock m q = Some (L i)"
      using typed by fastforce
    then show ?thesis using take_mutex [OF assms(3,4)] lock by blast
  next
    case (unlock m k)
    then obtain q where q: "owned t' = Some q" "proper q" "pre_unlock m q = Some (L i)"
      using typed by fastforce
    then show ?thesis using give_mutex [OF assms(3,4)] unlock by blast
  next
    case (set_writer v k)
    then show ?thesis using typed announce [OF assms(3,4)] by metis
  next
    case (set_long_lock v k)
    then have "owned t' = Some (L i)" using typed by (fastforce split: if_splits)
    then show ?thesis using assms(3) set_long_lock self by (auto simp: consistent_def)
  next
    case (count_up k)
    then show ?thesis using typed count_in [OF assms(3,4)] by metis
  next
    case (count_down k)
    then show ?thesis using typed count_out [OF assms(3,4)] by metis
  next
    case (count_zero k)
    then show ?thesis using typed by fastforce
  next
    case (branch c a b k)
    obtain q where "owned (t\<lparr>code := k\<rparr>) = Some q" "proper q" "pre_stmt (held t) (If c a b) q = Some (L i)"
      using typed [OF branch(3)] by blast
    then show ?thesis
      using branch_keeps [OF assms(3-5)] owned_append [where t = t and k = k and q = q] branch by metis
  next
    case (trylock m a k)
    then obtain q where q: "owned t' = Some q" "proper q" "pre_lock m q = Some (L i)"
      using typed trylock_types by metis
    then show ?thesis using take_mutex [OF assms(3,4)] trylock by blast
  next
    case (trylock_busy m a k)
    then obtain q where "owned (t\<lparr>code := k\<rparr>) = Some q" "pre_stmts (held t) a q = Some (L i)"
      using typed trylock_types by metis
    then have "owned t' = Some (L i)" using owned_append trylock_busy by metis
    then show ?thesis using assms(3) trylock_busy self by auto
  next
    case (spin_end m a k)
    then obtain q where q: "owned t' = Some q" "proper q" "pre_lock m q = Some (L i)"
      using typed spin_types by metis
    then show ?thesis using take_mutex [OF assms(3,4)] spin_end by blast
  next
    case (spin m a k)
    then have "pre_stmts (held t) a (L i) = Some (L i)" using typed spin_types by metis
    moreover have "owned (t\<lparr>code := While_trylock m a # k\<rparr>) = Some (L i)"
      using assms(2) spin by (simp add: owned_def)
    ultimately have "owned t' = Some (L i)" using owned_append spin by metis
    then show ?thesis using assms(3) spin self by auto
  next
    case (sleep k)
    then have "owned t' = Some (L i)" using typed by fastforce
    then show ?thesis using assms(3) sleep self by auto
  next
    case (failed k)
    then have "L i = nothing" using typed by fastforce
    moreover have "owned t' = Some nothing" using failed by (simp add: owned_def)
    ultimately show ?thesis using assms(3) failed self by auto
  qed
qed


definition mrsw_inv :: "nat \<Rightarrow> threads \<Rightarrow> bool" where
  "mrsw_inv N s \<longleftrightarrow>
    (\<exists>L r open. (\<forall>i. owned (snd s i) = Some (L i)) \<and> consistent N (fst s) L r open)"

lemma mrsw_invE:
  assumes "mrsw_inv N (l, T)"
  obtains L r "open" where "\<And>i. owned (T i) = Some (L i)" and "consistent N l L r open"
  using assms by (auto simp: mrsw_inv_def)

lemma mrsw_invI: "(\<And>i. owned (T i) = Some (L i)) \<Longrightarrow> consistent N l L r open \<Longrightarrow> mrsw_inv N (l, T)"
  by (auto simp: mrsw_inv_def)

lemma inv_start: "mrsw_inv N (fresh_mrsw, \<lambda>_. idle)"
proof -
  have "consistent N fresh_mrsw (\<lambda>_. nothing) Even False"
    by (simp add: consistent_def fresh_mrsw_def init_mrsw_def proper_view_def owner_of_def someone_def
        phase_of_def readers_def nothing_def proper_def)
  then show ?thesis by (force simp: mrsw_inv_def owned_def idle_def)
qed

lemma inv_step:
  assumes "mrsw_step N s s'" and "mrsw_inv N s" and "N < 2 ^ 32"
  shows "mrsw_inv N s'"
  using assms(1)
proof cases
  case (run i l T l' t')
  then obtain L r "open" where L: "\<And>i. owned (T i) = Some (L i)" "consistent N l L r open"
    using assms(2) mrsw_invE by metis
  then obtain q r' open' where "owned t' = Some q" "consistent N l' (L(i := q)) r' open'"
    using exec_consistent [OF run(4) _ _ run(3) assms(3)] by blast
  then have "mrsw_inv N (l', T(i := t'))" using L by (intro mrsw_invI) simp_all
  then show ?thesis using run by simp
next
  case (call i T f g l)
  then obtain L r "open" where L: "\<And>i. owned (T i) = Some (L i)" "consistent N l L r open"
    using assms(2) mrsw_invE by metis
  have "owned \<lparr>held = gains (T i), code = f, gains = g\<rparr> = Some (granted (gains (T i)))"
    using calls_typed [OF call(5)] by (simp add: call_typed_def owned_def)
  also have "\<dots> = owned (T i)" using call by (simp add: owned_def)
  finally have "owned ((T(i := \<lparr>held = gains (T i), code = f, gains = g\<rparr>)) j) = Some (L j)" for j
    using L(1) by simp
  then show ?thesis using call mrsw_invI L(2) by metis
qed

lemma inv_reachable: "mrsw_reachable N s \<Longrightarrow> N < 2 ^ 32 \<Longrightarrow> mrsw_inv N s"
  by (induction rule: mrsw_reachable.induct) (simp_all add: inv_start inv_step)

section \<open>A writer is alone\<close>

text \<open>A thread has the lock when it is outside the functions and was granted it.\<close>

definition has_lock :: "grant \<Rightarrow> thread \<Rightarrow> bool" where
  "has_lock g t \<longleftrightarrow> code t = [] \<and> gains t = g"

lemma has_lock_owned: "has_lock g t \<Longrightarrow> owned t = Some (granted g)"
  by (simp add: has_lock_def owned_def)

lemma exclusive_alone:
  assumes "mrsw_inv N (l, T)" and "has_lock Exclusive (T i)"
  shows "writer l \<noteq> 0" and "\<not> has_lock Shared (T j)" and "has_lock Exclusive (T j) \<Longrightarrow> j = i"
proof -
  obtain L r "open" where L: "\<And>i. owned (T i) = Some (L i)" "consistent N l L r open"
    using assms(1) mrsw_invE by metis
  have i: "L i = granted Exclusive" using L(1) has_lock_owned [OF assms(2)] by (metis option.inject)
  then show "writer l \<noteq> 0" using L(2) someoneI [of announced L i] by (simp add: consistent_def)
  have "\<not> open" using L(2) i someoneI [of reading L i] by (auto simp: consistent_def)
  then show "\<not> has_lock Shared (T j)"
    using counted_open [OF L(2), of j] L(1) [of j] has_lock_owned [of Shared "T j"] by (auto simp: nothing_def)
  show "j = i" if "has_lock Exclusive (T j)"
  proof -
    have "L j = granted Exclusive" using L(1) has_lock_owned [OF that] by (metis option.inject)
    then show ?thesis using writer_unique [OF L(2), of j i] i by simp
  qed
qed

lemma shared_no_writer:
  assumes "mrsw_inv N (l, T)" and "has_lock Shared (T i)"
  shows "writer l = 0"
proof -
  obtain L r "open" where L: "\<And>i. owned (T i) = Some (L i)" "consistent N l L r open"
    using assms(1) mrsw_invE by metis
  have "L i = granted Shared" using L(1) has_lock_owned [OF assms(2)] by (metis option.inject)
  then have "open" using counted_open [OF L(2), of i] by (simp add: nothing_def)
  then show ?thesis
    using L(2) announced_reading [OF L(2)] by (auto simp: consistent_def someone_def)
qed

section \<open>Nothing goes wrong\<close>

text \<open>
  The statement a thread is about to execute can be executed, unless it waits for a mutex that is
  locked.
\<close>

definition can_run :: "mrsw \<Rightarrow> thread \<Rightarrow> bool" where
  "can_run l t \<longleftrightarrow> (\<exists>l' t'. mrsw_exec l t l' t')"

lemma can_runI: "mrsw_exec l t l' t' \<Longrightarrow> can_run l t"
  by (auto simp: can_run_def)

lemma mutex_ready:
  assumes "consistent N l L r open"
  shows "mutexes l m = Some True \<or> mutexes l m = Some False"
  using assms by (cases m) (auto simp: consistent_def owner_of_def)

lemma unlock_ready:
  assumes "consistent N l L r open" and "pre_unlock m q = Some (L i)"
  shows "mutexes l m = Some True"
proof (cases m)
  case Write_exclusive_mutex
  then have "L i = q\<lparr>excl := True\<rparr>" using assms(2) by (auto split: if_splits)
  then show ?thesis
    using assms(1) someoneI [of excl L i] Write_exclusive_mutex by (simp add: consistent_def owner_of_def)
next
  case Read_count_mutex
  then have "L i = q\<lparr>room := Some Even\<rparr>" using assms(2) by (auto split: if_splits)
  then show ?thesis
    using assms(1) someoneI [of "\<lambda>p. \<not> Option.is_none (room p)" L i] Read_count_mutex
    by (simp add: consistent_def owner_of_def)
next
  case Reading_mutex
  then have "L i = q\<lparr>room := Some Last\<rparr> \<or> L i = q\<lparr>reading := True\<rparr>"
    using assms(2) by (auto split: if_splits)
  then have "room (L i) = Some Last \<or> reading (L i)" by auto
  then show ?thesis
    using assms(1) Reading_mutex someoneI [of reading L i]
      phase_get [OF consistent_phase [OF assms(1)], of i Last]
    by (auto simp: consistent_def)
qed

lemma head_runs:
  assumes "owned t = Some (L i)" and "consistent N l L r open" and "code t = x # k"
  shows "x \<noteq> Count_zero" and "can_run l t \<or> (\<exists>m. x = Lock m \<and> mutexes l m = Some True)"
proof -
  obtain q where q: "pre_stmt (held t) x q = Some (L i)" using owned_Cons [OF assms(1,3)] by metis
  then show "x \<noteq> Count_zero" by auto
  show "can_run l t \<or> (\<exists>m. x = Lock m \<and> mutexes l m = Some True)"
  proof (cases x)
    case (Lock m)
    then show ?thesis using assms(3) mutex_ready [OF assms(2), of m] by (auto intro: can_runI mrsw_exec.lock)
  next
    case (Unlock m)
    then have "mutexes l m = Some True" using q unlock_ready [OF assms(2)] by simp
    then show ?thesis using assms(3) Unlock by (auto intro: can_runI mrsw_exec.unlock)
  next
    case (Unless_trylock m a)
    then show ?thesis
      using assms(3) mutex_ready [OF assms(2), of m]
      by (auto intro: can_runI mrsw_exec.trylock mrsw_exec.trylock_busy)
  next
    case (While_trylock m a)
    then show ?thesis
      using assms(3) mutex_ready [OF assms(2), of m]
      by (auto intro: can_runI mrsw_exec.spin mrsw_exec.spin_end)
  qed (use assms(3) in \<open>auto intro: can_runI mrsw_exec.intros\<close>)
qed

section \<open>The lock can always be given back\<close>

text \<open>
  The work left to a thread. A thread that has the lock can release it, which is less work than having it;
  a thread that spins makes no progress.
\<close>

fun stmt_work :: "stmt \<Rightarrow> nat" and code_work :: "stmt list \<Rightarrow> nat" where
  "stmt_work (If c a b) = Suc (code_work a + code_work b)"
| "stmt_work (Unless_trylock m a) = Suc (code_work a)"
| "stmt_work _ = 1"
| "code_work [] = 0"
| "code_work (x # k) = stmt_work x + code_work k"

definition work :: "thread \<Rightarrow> nat" where
  "work t = code_work (code t) + (if gains t = Nothing then 0 else 10)"

definition total_work :: "nat \<Rightarrow> threads \<Rightarrow> nat" where
  "total_work N s = (\<Sum>i<N. work (snd s i))"

lemma code_work_append: "code_work (a @ k) = code_work a + code_work k"
  by (induction a) simp_all

text \<open>A thread is waiting when its next step makes no progress.\<close>

definition waiting :: "mrsw \<Rightarrow> thread \<Rightarrow> bool" where
  "waiting l t \<longleftrightarrow> (\<exists>m a k. code t \<in> {Lock m # k, While_trylock m a # k} \<and> mutexes l m = Some True)"

lemma run_less_work:
  assumes "mrsw_exec l t l' t'" and "\<not> waiting l t"
  shows "work t' < work t"
  using assms by cases (auto simp: work_def code_work_append waiting_def)

text \<open>The order of the mutexes: what a thread that waits for one cannot have.\<close>

lemma waiting_owns:
  assumes "owned t = Some p" and "code t \<in> {Lock m # k, While_trylock m a # k}"
  shows "\<not> reading p"
    and "m = Write_exclusive_mutex \<Longrightarrow> \<not> excl p \<and> \<not> counted p \<and> room p = None"
    and "m = Read_count_mutex \<Longrightarrow> room p = None"
    and "m = Reading_mutex \<Longrightarrow> room p = Some First \<or> room p = None \<and> \<not> counted p"
proof -
  obtain x where x: "code t = x # k" "x \<in> {Lock m, While_trylock m a}" using assms(2) by auto
  obtain q where q: "owned (t\<lparr>code := k\<rparr>) = Some q" "pre_stmt (held t) x q = Some p"
    using owned_Cons [OF assms(1) x(1)] by metis
  then have lock: "pre_lock m q = Some p" using x(2) spin_types by auto
  have "proper q" using q(1) owned_proper by blast
  then show "\<not> reading p"
    "m = Write_exclusive_mutex \<Longrightarrow> \<not> excl p \<and> \<not> counted p \<and> room p = None"
    "m = Read_count_mutex \<Longrightarrow> room p = None"
    "m = Reading_mutex \<Longrightarrow> room p = Some First \<or> room p = None \<and> \<not> counted p"
    using lock by (cases m; auto simp: proper_def split: if_splits)+
qed


lemma no_deadlock:
  assumes L: "\<And>i. owned (T i) = Some (L i)" "consistent N l L r open"
    and all: "\<And>i. has_lock Nothing (T i) \<or> waiting l (T i)"
  shows "\<not> waiting l (T i)"
proof -
  have wait: "\<exists>m k a. code (T i) \<in> {Lock m # k, While_trylock m a # k} \<and> mutexes l m = Some True"
    if "L i \<noteq> nothing" for i
    using all [of i] has_lock_owned [of Nothing "T i"] L(1) [of i] that by (auto simp: waiting_def)
  note owns = waiting_owns [OF L(1)]
  have no_reading: "\<not> reading (L i)" for i
    using wait [of i] owns(1) [of i] by (fastforce simp: nothing_def)
  then have reading: "mutexes l Reading_mutex = Some open" using L(2) by (simp add: consistent_def someone_def)
  have no_room: "room (L i) = None" for i
  proof (rule ccontr)
    assume r: "room (L i) \<noteq> None"
    then have "L i \<noteq> nothing" by (auto simp: nothing_def)
    then obtain m k a where m: "code (T i) \<in> {Lock m # k, While_trylock m a # k}" "mutexes l m = Some True"
      using wait [of i] by blast
    then have "m = Reading_mutex" and "room (L i) = Some First"
      using r owns(2-4) [OF m(1)] by (cases m; simp)+
    then have "\<not> open" using L(2) phase_get [OF consistent_phase [OF L(2)], of i] by (auto simp: consistent_def)
    then show False using reading m(2) \<open>m = Reading_mutex\<close> by simp
  qed
  then have counter: "mutexes l Read_count_mutex = Some False" and even: "in_step Even (card (readers L)) open"
    using L(2) by (auto simp: consistent_def owner_of_def someone_def phase_of_def)
  have no_count: "\<not> counted (L i)" for i
  proof
    assume c: "counted (L i)"
    then have "L i \<noteq> nothing" by (auto simp: nothing_def)
    then obtain m k a where m: "code (T i) \<in> {Lock m # k, While_trylock m a # k}" "mutexes l m = Some True"
      using wait [of i] by blast
    then show False using c owns(2-4) [OF m(1)] no_room [of i] counter by (cases m) auto
  qed
  then have "\<not> open" using even by (simp add: readers_def)
  then have waits: "m = Write_exclusive_mutex" if "mutexes l m = Some True" for m
    using that reading counter by (cases m) simp_all
  have "\<not> excl (L i)" for i
    using wait [of i] owns(2) [of i] waits by (fastforce simp: nothing_def)
  then have "mutexes l Write_exclusive_mutex = Some False"
    using L(2) by (simp add: consistent_def owner_of_def someone_def)
  then have "mutexes l m \<noteq> Some True" for m using waits [of m] by auto
  then show ?thesis by (simp add: waiting_def)
qed

lemma less_total_work:
  assumes "i < N" and "work t < work (T i)"
  shows "total_work N (l', T(i := t)) < total_work N (l, T)"
  unfolding total_work_def using assms by (intro sum_strict_mono_ex1) auto

lemma releases: "g \<noteq> Nothing \<Longrightarrow> \<exists>f. (g, f, Nothing) \<in> set mrsw_calls \<and> code_work f < 10"
  by (rule exI [of _ "if g = Exclusive then releasewrite_mrsw else releaseread_mrsw"])
    (cases g; simp add: mrsw_calls_def releasewrite_mrsw_def releaseread_mrsw_def)

lemma progress:
  assumes "mrsw_inv N (l, T)" and "\<And>i. N \<le> i \<Longrightarrow> T i = idle" and "\<not> has_lock Nothing (T i)"
  shows "\<exists>s. mrsw_step N (l, T) s \<and> total_work N s < total_work N (l, T)"
proof -
  obtain L r "open" where L: "\<And>i. owned (T i) = Some (L i)" "consistent N l L r open"
    using assms(1) mrsw_invE by metis
  have inside: "i < N" if "\<not> has_lock Nothing (T i)" for i
    using assms(2) [of i] that by (auto simp: has_lock_def idle_def not_le[symmetric])
  obtain j where j: "\<not> has_lock Nothing (T j)" "\<not> waiting l (T j)"
    using no_deadlock [OF L] assms(3) by blast
  show ?thesis
  proof (cases "code (T j)")
    case Nil
    then have "gains (T j) \<noteq> Nothing" using j by (simp add: has_lock_def)
    then obtain f where f: "(gains (T j), f, Nothing) \<in> set mrsw_calls" "code_work f < 10"
      using releases [of "gains (T j)"] by blast
    then have "work \<lparr>held = gains (T j), code = f, gains = Nothing\<rparr> < work (T j)"
      using \<open>gains (T j) \<noteq> Nothing\<close> Nil by (simp add: work_def)
    then show ?thesis
      using mrsw_step.call [where i = j and T = T and f = f and g = Nothing and l = l, OF inside [OF j(1)] Nil f(1)]
        less_total_work [OF inside [OF j(1)]]
      by blast
  next
    case (Cons x k)
    then have "can_run l (T j)" using head_runs(2) [OF L(1) L(2) Cons] j(2) by (auto simp: waiting_def)
    then obtain l' t' where "mrsw_exec l (T j) l' t'" by (auto simp: can_run_def)
    then show ?thesis
      using mrsw_step.run [OF inside [OF j(1)]] less_total_work [OF inside [OF j(1)]] run_less_work j(2) by blast
  qed
qed

lemma outside_idle: "mrsw_reachable N s \<Longrightarrow> N \<le> i \<Longrightarrow> snd s i = idle"
  by (induction rule: mrsw_reachable.induct) (auto elim!: mrsw_step.cases)

lemma all_free:
  assumes "mrsw_inv N (l, T)" and "\<And>i. has_lock Nothing (T i)"
  shows "mutexes l m = Some False \<and> read_count l = 0 \<and> writer l = 0"
proof -
  obtain L r "open" where L: "\<And>i. owned (T i) = Some (L i)" "consistent N l L r open"
    using assms(1) mrsw_invE by metis
  have "L i = nothing" for i using has_lock_owned [OF assms(2)] L(1) by (metis granted.simps(1) option.inject)
  then have "L = (\<lambda>_. nothing)" by auto
  then show ?thesis
    using L(2) by (cases m) (auto simp: consistent_def nothing_def owner_of_def someone_def readers_def phase_of_def)
qed

lemma drains:
  assumes "mrsw_reachable N s" and "N < 2 ^ 32"
  shows "\<exists>l T. (mrsw_step N)\<^sup>*\<^sup>* s (l, T) \<and> mrsw_reachable N (l, T) \<and> (\<forall>i. has_lock Nothing (T i))"
  using assms(1)
proof (induction "total_work N s" arbitrary: s rule: less_induct)
  case less
  obtain l T where s: "s = (l, T)" by (cases s)
  show ?case
  proof (cases "\<forall>i. has_lock Nothing (T i)")
    case False
    then obtain i where "\<not> has_lock Nothing (T i)" by blast
    moreover have "mrsw_inv N (l, T)" using inv_reachable [OF less.prems assms(2)] s by simp
    moreover have "N \<le> i \<Longrightarrow> T i = idle" for i using outside_idle [OF less.prems, of i] s by simp
    ultimately obtain s' where s': "mrsw_step N s s'" "total_work N s' < total_work N s"
      using progress s by blast
    then have "mrsw_reachable N s'" using less.prems mrsw_reachable.more by blast
    then show ?thesis using less.hyps [OF s'(2)] s'(1) by (meson converse_rtranclp_into_rtranclp)
  qed (use s less.prems in auto)
qed


section \<open>The lock of a volume or a dentry\<close>

text \<open>
  C31: Writers are alone. In every reachable state, however the statements of the threads
  interleave, a thread that has the lock for writing is the only one that has it, so readers
  exclude writers. The flag \<open>writer\<close>, which \<open>release_mrsw\<close> reads without a mutex to
  choose between the two release functions, is right for every thread that has the lock.
\<close>

theorem writer_excludes:
  assumes "mrsw_reachable N (l, T)" and "N < 2 ^ 32"
  shows "(has_lock Exclusive (T i) \<and> has_lock g (T j) \<and> g \<noteq> Nothing \<longrightarrow> j = i) \<and>
         (has_lock g (T i) \<and> g \<noteq> Nothing \<longrightarrow> cond_holds Writer l = (g = Exclusive))"
proof -
  have inv: "mrsw_inv N (l, T)" using inv_reachable [OF assms] by simp
  show ?thesis
    using exclusive_alone [OF inv] shared_no_writer [OF inv] by (cases g) auto
qed

text \<open>
  C32: Nothing goes wrong. A thread inside a function can always execute its next statement,
  unless that is \<open>ltfs_mutex_lock\<close> on a mutex that is locked: no mutex is unlocked that is not locked,
  and the branch of \<open>releaseread_mrsw\<close> that finds no reader and reports 17186E is never
  taken.
\<close>

theorem lock_code_sound:
  assumes "mrsw_reachable N (l, T)" and "N < 2 ^ 32" and "code (T i) = x # k"
  shows "x \<noteq> Count_zero \<and> (can_run l (T i) \<or> (\<exists>m. x = Lock m \<and> mutexes l m = Some True))"
proof -
  obtain L r "open" where L: "\<And>i. owned (T i) = Some (L i)" "consistent N l L r open"
    using inv_reachable [OF assms(1,2)] mrsw_invE by metis
  show ?thesis using head_runs [OF L(1) L(2) assms(3)] by simp
qed

text \<open>
  C33: The lock is free of deadlock. From every reachable state some run leads to a state in which no
  thread is inside a function or has the lock; there the three mutexes are unlocked, no reader
  is counted and no writer announced.
\<close>

theorem lock_drains:
  assumes "mrsw_reachable N s" and "N < 2 ^ 32"
  shows "\<exists>l T. (mrsw_step N)\<^sup>*\<^sup>* s (l, T) \<and> (\<forall>i. has_lock Nothing (T i)) \<and>
           (\<forall>m. mutexes l m = Some False) \<and> read_count l = 0 \<and> writer l = 0"
proof -
  obtain l T where "(mrsw_step N)\<^sup>*\<^sup>* s (l, T)" "mrsw_reachable N (l, T)" "\<forall>i. has_lock Nothing (T i)"
    using drains [OF assms] by blast
  then show ?thesis using all_free [OF inv_reachable [OF _ assms(2)]] by blast
qed

section \<open>A run\<close>

lemma reach_call:
  assumes "mrsw_reachable N (l, T)" and "i < N" and "code (T i) = []" and "(gains (T i), f, g) \<in> set mrsw_calls"
  shows "mrsw_reachable N (l, T(i := \<lparr>held = gains (T i), code = f, gains = g\<rparr>))"
  using mrsw_reachable.more [OF assms(1)] mrsw_step.call assms(2-4) by blast

lemma reach_run:
  assumes "mrsw_reachable N (l, T(i := t))" and "i < N" and "mrsw_exec l t l' t'"
  shows "mrsw_reachable N (l', T(i := t'))"
  using mrsw_reachable.more [OF assms(1)] mrsw_step.run [of i N l "T(i := t)" l' t'] assms(2,3) by simp

lemma fresh_mutexes: "mutexes fresh_mrsw m = Some False"
  by (cases m) (simp_all add: fresh_mrsw_def init_mrsw_def)

text \<open>The first of two threads takes the lock for writing: before its last statement, and after.\<close>

definition announced_lock :: mrsw where
  "announced_lock =
    (set_mutex Reading_mutex (Some True) (set_mutex Write_exclusive_mutex (Some True) fresh_mrsw))\<lparr>writer := 1\<rparr>"

definition writer_at :: "stmt list \<Rightarrow> nat \<Rightarrow> thread" where
  "writer_at k = (\<lambda>_. idle)(0 := \<lparr>held = Nothing, code = k, gains = Exclusive\<rparr>)"

lemma writer_moves:
  assumes "mrsw_reachable 2 (l, writer_at k)" and "mrsw_exec l (writer_at k 0) l' (writer_at k' 0)"
  shows "mrsw_reachable 2 (l', writer_at k')"
  using reach_run [of 2 l "\<lambda>_. idle" 0] assms by (simp add: writer_at_def)

lemma writer_almost: "mrsw_reachable 2 (announced_lock, writer_at [Set_long_lock 0])"
proof -
  have 0: "mrsw_reachable 2 (fresh_mrsw, writer_at acquirewrite_mrsw)"
    using reach_call [OF mrsw_reachable.start, of 0 2 acquirewrite_mrsw Exclusive]
    by (simp add: idle_def mrsw_calls_def writer_at_def)
  have 1: "mrsw_reachable 2 (set_mutex Write_exclusive_mutex (Some True) fresh_mrsw,
      writer_at [Lock Reading_mutex, Set_writer 1, Set_long_lock 0])"
    by (rule writer_moves [OF 0], subst mrsw_exec.simps) (simp add: writer_at_def acquirewrite_mrsw_def fresh_mutexes)
  have 2: "mrsw_reachable 2 (set_mutex Reading_mutex (Some True) (set_mutex Write_exclusive_mutex (Some True) fresh_mrsw),
      writer_at [Set_writer 1, Set_long_lock 0])"
    by (rule writer_moves [OF 1], subst mrsw_exec.simps) (simp add: writer_at_def fresh_mutexes)
  show ?thesis
    unfolding announced_lock_def
    by (rule writer_moves [OF 2], subst mrsw_exec.simps) (simp add: writer_at_def)
qed

lemma writer_there: "mrsw_reachable 2 (announced_lock\<lparr>long_lock := 0\<rparr>, writer_at [])"
  by (rule writer_moves [OF writer_almost], subst mrsw_exec.simps) (simp add: writer_at_def)

theorem writer_excludes_witness:
  "has_lock Exclusive (writer_at [] 0) \<and> \<not> has_lock Shared (writer_at [] 1) \<and>
   cond_holds Writer (announced_lock\<lparr>long_lock := 0\<rparr>)"
  using writer_excludes [OF writer_there, of 0 Exclusive 0] writer_excludes [OF writer_there, of 0 Shared 1]
  by (simp add: has_lock_def writer_at_def idle_def)

theorem lock_code_sound_witness:
  "code (writer_at [Set_long_lock 0] 0) = [Set_long_lock 0] \<and>
   (can_run announced_lock (writer_at [Set_long_lock 0] 0) \<or>
    (\<exists>m. Set_long_lock 0 = Lock m \<and> mutexes announced_lock m = Some True))"
  using lock_code_sound [OF writer_almost, of 0 "Set_long_lock 0" "[]"] by (simp add: writer_at_def)

theorem lock_drains_witness:
  "\<exists>l T. (mrsw_step 2)\<^sup>*\<^sup>* (announced_lock, writer_at [Set_long_lock 0]) (l, T) \<and> (\<forall>i. has_lock Nothing (T i)) \<and>
     (\<forall>m. mutexes l m = Some False) \<and> read_count l = 0 \<and> writer l = 0"
  using lock_drains [OF writer_almost] by simp

end
