(* ===== verification/PathNames.thy ===== *)
theory PathNames imports Errors begin

text \<open>
  Names of files and attributes, \<open>pathname.c\<close>: conversion and validation of UTF-8 text and the
  folded form under which names are compared.

  The Unicode functions come from the library ICU and are the argument \<open>icu\<close> of the functions that
  call them: each returns \<open>None\<close> where ICU reports an error. \<open>next_char\<close> is the macro \<open>U8_NEXT\<close>: the code point at
  the front of a text, negative if the text is ill-formed, and the rest. A C string is a \<open>string\<close> without
  the terminating zero. Memory is taken to suffice.
\<close>

abbreviation LTFS_FILENAME_MAX :: int where "LTFS_FILENAME_MAX \<equiv> 255"

record icu =
  from_utf8 :: "string \<Rightarrow> u16 list option"
  to_utf8 :: "u16 list \<Rightarrow> string option"
  from_locale :: "string \<Rightarrow> u16 list option"
  fold_case :: "u16 list \<Rightarrow> u16 list option"
  is_nfc :: "u16 list \<Rightarrow> bool"
  to_nfc :: "u16 list \<Rightarrow> u16 list option"
  is_nfd :: "u16 list \<Rightarrow> bool"
  to_nfd :: "u16 list \<Rightarrow> u16 list option"
  next_char :: "string \<Rightarrow> int \<times> string"

section \<open>Steps of ICU\<close>

definition pathname_utf8_to_utf16_icu :: "icu \<Rightarrow> string \<Rightarrow> int \<times> u16 list option" where
  "pathname_utf8_to_utf16_icu u src =
     (case from_utf8 u src of None \<Rightarrow> (- LTFS_ICU_ERROR, None) | Some w \<Rightarrow> (int (length w), Some w))"

definition pathname_utf16_to_utf8_icu :: "icu \<Rightarrow> u16 list \<Rightarrow> int \<times> string option" where
  "pathname_utf16_to_utf8_icu u src =
     (case to_utf8 u src of None \<Rightarrow> (- LTFS_ICU_ERROR, None) | Some s \<Rightarrow> (0, Some s))"

definition pathname_system_to_utf16_icu :: "icu \<Rightarrow> string \<Rightarrow> int \<times> u16 list option" where
  "pathname_system_to_utf16_icu u src =
     (case from_locale u src of None \<Rightarrow> (- LTFS_ICU_ERROR, None) | Some w \<Rightarrow> (0, Some w))"

text \<open>The system locale is UTF-8 in this build: the name is copied.\<close>

definition pathname_utf8_to_system_icu :: "string \<Rightarrow> int \<times> string option" where
  "pathname_utf8_to_system_icu src = (0, Some src)"

definition pathname_foldcase_icu :: "icu \<Rightarrow> u16 list \<Rightarrow> int \<times> u16 list option" where
  "pathname_foldcase_icu u src =
     (case fold_case u src of None \<Rightarrow> (- LTFS_ICU_ERROR, None) | Some w \<Rightarrow> (0, Some w))"

definition pathname_normalize_nfc_icu :: "icu \<Rightarrow> u16 list \<Rightarrow> int \<times> u16 list option" where
  "pathname_normalize_nfc_icu u src =
     (if is_nfc u src then (0, Some src)
      else case to_nfc u src of None \<Rightarrow> (- LTFS_ICU_ERROR, None) | Some w \<Rightarrow> (0, Some w))"

definition pathname_normalize_nfd_icu :: "icu \<Rightarrow> u16 list \<Rightarrow> int \<times> u16 list option" where
  "pathname_normalize_nfd_icu u src =
     (if is_nfd u src then (0, Some src)
      else case to_nfd u src of None \<Rightarrow> (- LTFS_ICU_ERROR, None) | Some w \<Rightarrow> (0, Some w))"

text \<open>The next step of a conversion, unless the last one failed.\<close>

fun and_then :: "int \<times> 'a option \<Rightarrow> ('a \<Rightarrow> int \<times> 'b option) \<Rightarrow> int \<times> 'b option" where
  "and_then (ret, Some x) f = (if ret < 0 then (ret, None) else f x)"
| "and_then (ret, None) f = (ret, None)"

definition pathname_normalize_utf8_icu :: "icu \<Rightarrow> string \<Rightarrow> int \<times> string option" where
  "pathname_normalize_utf8_icu u src =
     and_then (pathname_utf8_to_utf16_icu u src) (\<lambda>icu_str.
     and_then (pathname_normalize_nfc_icu u icu_str) (pathname_utf16_to_utf8_icu u))"

definition pathname_normalize_utf8_nfd_icu :: "icu \<Rightarrow> string \<Rightarrow> int \<times> string option" where
  "pathname_normalize_utf8_nfd_icu u src =
     and_then (pathname_utf8_to_utf16_icu u src) (\<lambda>icu_str.
     and_then (pathname_normalize_nfd_icu u icu_str) (pathname_utf16_to_utf8_icu u))"

definition pathname_foldcase_utf8_icu :: "icu \<Rightarrow> string \<Rightarrow> int \<times> string option" where
  "pathname_foldcase_utf8_icu u src =
     and_then (pathname_utf8_to_utf16_icu u src) (\<lambda>icu_str.
     and_then (pathname_foldcase_icu u icu_str) (pathname_utf16_to_utf8_icu u))"

definition pathname_normalize :: "icu \<Rightarrow> string \<Rightarrow> int \<times> string option" where
  "pathname_normalize u name = pathname_normalize_utf8_icu u name"

definition pathname_nfd_normaize :: "icu \<Rightarrow> string \<Rightarrow> int \<times> string option" where
  "pathname_nfd_normaize u name = pathname_normalize_utf8_nfd_icu u name"

definition pathname_unformat :: "string \<Rightarrow> int \<times> string option" where
  "pathname_unformat name = pathname_utf8_to_system_icu name"

section \<open>Names without regard to case\<close>

text \<open>A decomposition is needed first where U+0345 may occur.\<close>

definition need_initial_nfd :: "u16 list \<Rightarrow> bool" where
  "need_initial_nfd w \<longleftrightarrow> (\<exists>c \<in> set w. c = 0x0345 \<or> 0x1f80 \<le> c \<and> c \<le> 0x1fff)"

definition pathname_prepare_caseless :: "icu \<Rightarrow> string \<Rightarrow> bool \<Rightarrow> int \<times> u16 list option" where
  "pathname_prepare_caseless u name use_nfc =
     and_then (pathname_utf8_to_utf16_icu u name) (\<lambda>icu_name.
     and_then (if need_initial_nfd icu_name
               then and_then (pathname_normalize_nfd_icu u icu_name) (pathname_foldcase_icu u)
               else pathname_foldcase_icu u icu_name) (\<lambda>icu_fold.
     if use_nfc then pathname_normalize_nfc_icu u icu_fold else pathname_normalize_nfd_icu u icu_fold))"

text \<open>The result is 0 iff the names match; the code returns the order of \<open>u_strcmp\<close>.\<close>

definition pathname_caseless_match :: "icu \<Rightarrow> string \<Rightarrow> string \<Rightarrow> int \<times> bool option" where
  "pathname_caseless_match u name1 name2 =
     and_then (pathname_prepare_caseless u name1 True) (\<lambda>dname1.
     and_then (pathname_prepare_caseless u name2 True) (\<lambda>dname2. (0, Some (dname1 = dname2))))"

section \<open>Length\<close>

text \<open>Every byte that does not continue a code point.\<close>

definition starts_char :: "char \<Rightarrow> bool" where
  "starts_char c \<longleftrightarrow> (let b = of_char c :: nat in b < 0x80 \<or> 0xC0 \<le> b)"

primrec pathname_strlen :: "string \<Rightarrow> int" where
  "pathname_strlen [] = 0"
| "pathname_strlen (c # s) = (if starts_char c then 1 else 0) + pathname_strlen s"

fun cut_loop :: "string \<Rightarrow> nat \<Rightarrow> nat \<Rightarrow> string" where
  "cut_loop [] len n = []"
| "cut_loop (c # s) len n =
     (if starts_char c then if len = n then [] else c # cut_loop s (len + 1) n
      else c # cut_loop s len n)"

definition pathname_truncate :: "string \<Rightarrow> nat \<Rightarrow> string" where
  "pathname_truncate name n = cut_loop name 0 n"

section \<open>Validation\<close>

definition pathname_valid_in_xml :: "int \<Rightarrow> bool" where
  "pathname_valid_in_xml c \<longleftrightarrow>
     \<not> (0xd800 \<le> c \<and> c \<le> 0xdfff \<or> c = 0xfffe \<or> c = 0xffff \<or> c = 0)"

definition pathname_valid_in_xml_for_xattrvalue :: "int \<Rightarrow> bool" where
  "pathname_valid_in_xml_for_xattrvalue c \<longleftrightarrow>
     \<not> (0 \<le> c \<and> c \<le> 0x1f \<and> c \<noteq> 0x09 \<and> c \<noteq> 0x0a \<and> c \<noteq> 0x0d \<or>
        0xd800 \<le> c \<and> c \<le> 0xdfff \<or> c = 0xfffe \<or> c = 0xffff)"

text \<open>
  The loops over the code points of a text. \<open>U8_NEXT\<close> consumes a byte at least, so that the length of the text
  bounds the number of rounds.
\<close>

fun validate_loop :: "icu \<Rightarrow> bool \<Rightarrow> nat \<Rightarrow> string \<Rightarrow> int" where
  "validate_loop u allow_slash 0 s = 0"
| "validate_loop u allow_slash (Suc n) s =
     (if s = [] then 0
      else case next_char u s of (c, rest) \<Rightarrow>
        if c < 0 then - LTFS_ICU_ERROR
        else if \<not> pathname_valid_in_xml c \<or> \<not> allow_slash \<and> c = 0x2f then - LTFS_INVALID_PATH
        else validate_loop u allow_slash n rest)"

definition pathname_validate :: "icu \<Rightarrow> string \<Rightarrow> bool \<Rightarrow> int" where
  "pathname_validate u name allow_slash = validate_loop u allow_slash (length name) name"

definition pathname_check_utf8_icu :: "icu \<Rightarrow> string \<Rightarrow> int" where
  "pathname_check_utf8_icu u src = (if Option.is_none (from_utf8 u src) then 1 else 0)"

definition pathname_is_utf8 :: "icu \<Rightarrow> string \<Rightarrow> int" where
  "pathname_is_utf8 u name = pathname_check_utf8_icu u name"

definition pathname_validate_name :: "icu \<Rightarrow> string \<Rightarrow> int \<Rightarrow> bool \<Rightarrow> int" where
  "pathname_validate_name u name percentencoded allow_slash =
     (if LTFS_FILENAME_MAX + 2 * LTFS_FILENAME_MAX * percentencoded < pathname_strlen name
      then - LTFS_NAMETOOLONG else pathname_validate u name allow_slash)"

definition pathname_validate_file :: "icu \<Rightarrow> string \<Rightarrow> int \<Rightarrow> int" where
  "pathname_validate_file u name percentencoded = pathname_validate_name u name percentencoded False"

definition pathname_validate_xattr_name :: "icu \<Rightarrow> string \<Rightarrow> int \<Rightarrow> int" where
  "pathname_validate_xattr_name u name percentencoded = pathname_validate_name u name percentencoded True"

fun xattr_value_loop :: "icu \<Rightarrow> nat \<Rightarrow> string \<Rightarrow> int" where
  "xattr_value_loop u 0 s = 0"
| "xattr_value_loop u (Suc n) s =
     (if s = [] then 0
      else case next_char u s of (c, rest) \<Rightarrow>
        if c < 0 then - LTFS_ICU_ERROR
        else if \<not> pathname_valid_in_xml_for_xattrvalue c then 1
        else xattr_value_loop u n rest)"

text \<open>0 for a value that can be written as text, 1 for one that must be written in base 64.\<close>

definition pathname_validate_xattr_value :: "icu \<Rightarrow> string \<Rightarrow> int" where
  "pathname_validate_xattr_value u name =
     (let ret = pathname_is_utf8 u name in
      if ret < 0 then ret else if ret = 1 then 1 else xattr_value_loop u (length name) name)"

section \<open>Names from outside\<close>

definition pathname_format_icu :: "icu \<Rightarrow> string \<Rightarrow> bool \<Rightarrow> bool \<Rightarrow> int \<times> string option" where
  "pathname_format_icu u src validate allow_slash =
     and_then (pathname_system_to_utf16_icu u src) (\<lambda>utf16_name.
     and_then (pathname_normalize_nfc_icu u utf16_name) (\<lambda>utf16_name_norm.
     and_then (pathname_utf16_to_utf8_icu u utf16_name_norm) (\<lambda>dest.
       if \<not> validate then (0, Some dest)
       else if \<not> allow_slash \<and> LTFS_FILENAME_MAX < pathname_strlen dest then (- LTFS_NAMETOOLONG, None)
       else let ret = pathname_validate u dest allow_slash in
            if ret < 0 then (ret, None) else (0, Some dest))))"

definition pathname_format :: "icu \<Rightarrow> string \<Rightarrow> bool \<Rightarrow> bool \<Rightarrow> int \<times> string option" where
  "pathname_format u name validate allow_slash = pathname_format_icu u name validate allow_slash"

section \<open>An instance\<close>

text \<open>ASCII text as ICU treats it, with case folding.\<close>

definition ascii_icu :: icu where
  "ascii_icu =
    \<lparr>from_utf8 = (\<lambda>s. Some (map of_char s)),
     to_utf8 = (\<lambda>w. Some (map (\<lambda>c. char_of (unat c)) w)),
     from_locale = (\<lambda>s. Some (map of_char s)),
     fold_case = (\<lambda>w. Some (map (\<lambda>c. if 65 \<le> c \<and> c \<le> 90 then c + 32 else c) w)),
     is_nfc = (\<lambda>w. True), to_nfc = Some, is_nfd = (\<lambda>w. True), to_nfd = Some,
     next_char = (\<lambda>s. case s of [] \<Rightarrow> (-1, []) | c # s \<Rightarrow> (int (of_char c), s))\<rparr>"

end
