(* ===== verification/FileNames.thy ===== *)
theory FileNames imports PathNames Values begin

text \<open>
  File names on tape and on Windows, \<open>filename_handling.c\<close>: percent encoding of reserved characters
  (SNIA LTFS 2.4, section 7.4), replacement of what Windows does not allow, and candidates for a
  name that is not taken.
\<close>

section \<open>Percent encoding\<close>

text \<open>The table: a character and the two digits behind its percent sign.\<close>

definition look_up_percent_encoding :: "(char \<times> string) list" where
  "look_up_percent_encoding =
    map (\<lambda>(n, v). (char_of (n :: nat), v))
     [(0x01, ''01''), (0x02, ''02''), (0x03, ''03''), (0x04, ''04''), (0x05, ''05''), (0x06, ''06''), (0x07, ''07''),
      (0x08, ''08''), (0x0B, ''0B''), (0x0C, ''0C''), (0x0E, ''0E''), (0x0F, ''0F''), (0x10, ''10''), (0x11, ''11''),
      (0x12, ''12''), (0x13, ''13''), (0x14, ''14''), (0x15, ''15''), (0x16, ''16''), (0x17, ''17''), (0x18, ''18''),
      (0x19, ''19''), (0x1A, ''1A''), (0x1B, ''1B''), (0x1C, ''1C''), (0x1D, ''1D''), (0x1E, ''1E''), (0x1F, ''1F''),
      (0x25, ''25''), (0x3A, ''3A'')]"

definition encoding_of :: "char \<Rightarrow> string option" where
  "encoding_of c = map_of look_up_percent_encoding c"

definition decoding_of :: "char \<Rightarrow> char \<Rightarrow> char option" where
  "decoding_of a b = map_of (map (\<lambda>(k, v). (v, k)) look_up_percent_encoding) [a, b]"

text \<open>A percent sign that no entry of the table continues is copied.\<close>

fun percent_decode_name :: "string \<Rightarrow> string" where
  "percent_decode_name [] = []"
| "percent_decode_name (c # s) =
     (case s of
        a # b # rest \<Rightarrow>
          if c = CHR ''%''
          then case decoding_of a b of
                 Some k \<Rightarrow> k # percent_decode_name rest
               | None \<Rightarrow> c # percent_decode_name s
          else c # percent_decode_name s
      | _ \<Rightarrow> c # percent_decode_name s)"

fun encode_loop :: "string \<Rightarrow> string \<times> bool" where
  "encode_loop [] = ([], False)"
| "encode_loop (c # s) =
     (case encode_loop s of (out, flag) \<Rightarrow>
      case encoding_of c of
        Some v \<Rightarrow> (CHR ''%'' # v @ out, True)
      | None \<Rightarrow> (c # out, flag))"

text \<open>The encoded name is cut to the size of the buffer it was in.\<close>

definition percent_encode_name :: "string \<Rightarrow> string \<times> bool" where
  "percent_encode_name name =
     (case encode_loop name of (destination_name, percentencoded) \<Rightarrow>
        (if LTFS_FILENAME_MAX * 4 < int (length destination_name)
         then take (nat (LTFS_FILENAME_MAX * 4)) destination_name else destination_name,
         percentencoded))"

record xattr_info =
  xa_key :: "string option"
  percent_encoded_key :: "string option"
  xa_percentencoded :: bool
  xa_value :: "u8 list"

definition update_xattr_safe_name :: "xattr_info \<Rightarrow> xattr_info" where
  "update_xattr_safe_name x =
     x\<lparr>xa_key := (if xa_percentencoded x then map_option percent_decode_name (percent_encoded_key x) else xa_key x)\<rparr>"

definition perform_xattr_percent_encoding :: "xattr_info \<Rightarrow> xattr_info" where
  "perform_xattr_percent_encoding x =
     (case map_option percent_encode_name (xa_key x) of
        None \<Rightarrow> x
      | Some (destination_name, flag) \<Rightarrow> x\<lparr>xa_percentencoded := flag, percent_encoded_key := Some destination_name\<rparr>)"

section \<open>Characters and names Windows does not allow\<close>

definition invalid_chars :: string where
  "invalid_chars = [char_of (92 :: nat), CHR '':'', CHR ''*'', CHR ''?'', char_of (34 :: nat), CHR ''<'', CHR ''>'', CHR ''|'']"

definition dosdev_list :: "string list" where
  "dosdev_list = [''CON'', ''PRN'', ''AUX'', ''CLOCK$'', ''NUL'', ''COM0'',
     ''COM1'', ''COM2'', ''COM3'', ''COM4'', ''COM5'', ''COM6'', ''COM7'', ''COM8'', ''COM9'',
     ''LPT0'', ''LPT1'', ''LPT2'', ''LPT3'', ''LPT4'', ''LPT5'', ''LPT6'', ''LPT7'', ''LPT8'', ''LPT9'']"

text \<open>
  \<open>strcasestr(file_name, dev) == file_name\<close>. The \<open>strcasestr\<close> of this build (\<open>arch/win/win_util.c\<close>) is \<open>strstr\<close>: upper and lower
  case differ.
\<close>

definition begins_with :: "string \<Rightarrow> string \<Rightarrow> bool" where
  "begins_with file_name dev \<longleftrightarrow> take (length dev) file_name = dev"

definition is_dosdev :: "string \<Rightarrow> bool" where
  "is_dosdev file_name \<longleftrightarrow>
     (\<exists>dev \<in> set dosdev_list. begins_with file_name dev \<and>
        (length file_name = length dev \<or> file_name ! length dev = CHR ''.''))"

definition invalid_char :: "char \<Rightarrow> bool" where
  "invalid_char c \<longleftrightarrow> (let n = of_char c :: nat in 1 \<le> n \<and> n \<le> 0x1F) \<or> c \<in> set invalid_chars"

text \<open>The changed name, whether it was a device name, and whether there was anything to change.\<close>

definition replace_invalid_chars :: "string \<Rightarrow> string \<times> bool \<times> bool" where
  "replace_invalid_chars file_name =
     (let dosdev = is_dosdev file_name in
      (map (\<lambda>c. if invalid_char c then CHR ''_'' else c) file_name, dosdev,
       dosdev \<or> (\<exists>c \<in> set file_name. invalid_char c)))"

section \<open>Candidates for a name\<close>

primrec utf8_strlen :: "string \<Rightarrow> int" where
  "utf8_strlen [] = 0"
| "utf8_strlen (c # s) = (if starts_char c then 1 else 0) + utf8_strlen s"

fun utf8_strncpy_loop :: "string \<Rightarrow> int \<Rightarrow> int \<Rightarrow> string" where
  "utf8_strncpy_loop [] ret n = []"
| "utf8_strncpy_loop (c # s) ret n =
     (if starts_char c
      then if n < ret + 1 then [] else c # utf8_strncpy_loop s (ret + 1) n
      else c # utf8_strncpy_loop s ret n)"

definition utf8_strncpy :: "string \<Rightarrow> int \<Rightarrow> string" where
  "utf8_strncpy s n = utf8_strncpy_loop s 0 n"

definition with_extension :: "string \<Rightarrow> string option \<Rightarrow> string" where
  "with_extension name extension = (case extension of None \<Rightarrow> name | Some e \<Rightarrow> name @ ''.'' @ e)"

definition nonempty :: "string \<Rightarrow> string option" where
  "nonempty s = (if s = [] then None else Some s)"

text \<open>\<open>NULL\<close>, here \<open>None\<close>, for an empty name and where nothing is left to trim.\<close>

definition generate_target_file_name :: "string \<Rightarrow> string option \<Rightarrow> nat \<Rightarrow> bool \<Rightarrow> string option" where
  "generate_target_file_name prefix extension suffix dosdev =
     (if suffix \<noteq> 0 then
        let suffix_string = ''~'' @ decimal suffix;
            prefix_length = utf8_strlen prefix;
            extension_length = (case extension of None \<Rightarrow> 0 | Some e \<Rightarrow> utf8_strlen e);
            suffix_length = utf8_strlen suffix_string
        in if LTFS_FILENAME_MAX < prefix_length + extension_length + suffix_length then
             if \<not> dosdev \<and> suffix_length < prefix_length
             then nonempty (with_extension (utf8_strncpy prefix (prefix_length - suffix_length) @ suffix_string) extension)
             else if suffix_length < extension_length
             then nonempty (prefix @ suffix_string @ ''.'' @
                    utf8_strncpy (the extension) (extension_length - suffix_length))
             else None
           else nonempty (with_extension (prefix @ suffix_string) extension)
      else nonempty (with_extension prefix extension))"

text \<open>\<open>strrchr\<close> and \<open>strchr\<close> for the dot: the text before it and behind it.\<close>

definition split_last_dot :: "string \<Rightarrow> (string \<times> string) option" where
  "split_last_dot s =
     (if CHR ''.'' \<in> set s
      then let ext = rev (takeWhile (\<lambda>c. c \<noteq> CHR ''.'') (rev s)) in Some (take (length s - length ext - 1) s, ext)
      else None)"

definition split_first_dot :: "string \<Rightarrow> (string \<times> string) option" where
  "split_first_dot s =
     (if CHR ''.'' \<in> set s
      then let pre = takeWhile (\<lambda>c. c \<noteq> CHR ''.'') s in Some (pre, drop (length pre + 1) s)
      else None)"

text \<open>A name that begins with its last dot has no extension.\<close>

definition split_name :: "bool \<Rightarrow> string \<Rightarrow> string \<times> string option" where
  "split_name dosdev s =
     (case (if dosdev then split_first_dot s else split_last_dot s) of
        None \<Rightarrow> (s, None)
      | Some (pre, ext) \<Rightarrow> if \<not> dosdev \<and> pre = [] then (s, None) else (pre, Some ext))"

text \<open>Names are compared without regard to case.\<close>

definition ltfs_compare_names :: "icu \<Rightarrow> string \<Rightarrow> string \<Rightarrow> int \<times> bool option" where
  "ltfs_compare_names u name1 name2 = pathname_caseless_match u name1 name2"

end
