(* ===== verification/FileNamesSpec.thy ===== *)
theory FileNamesSpec imports FileNames begin

text \<open>Percent encoding loses nothing, and what it writes holds no reserved character.\<close>

lemma table_inverse:
  assumes "encoding_of c = Some v"
  obtains a b where "v = [a, b]" and "decoding_of a b = Some c"
proof -
  have "\<forall>(k, v) \<in> set look_up_percent_encoding. length v = 2 \<and> decoding_of (v ! 0) (v ! 1) = Some k"
    by code_simp
  moreover have "(c, v) \<in> set look_up_percent_encoding"
    using assms by (simp add: encoding_of_def map_of_SomeD)
  ultimately have "length v = 2" "decoding_of (v ! 0) (v ! 1) = Some c" by auto
  moreover obtain a b where "v = [a, b]" using \<open>length v = 2\<close> by (auto simp: length_Suc_conv numeral_2_eq_2)
  ultimately show ?thesis using that by simp
qed

lemma percent_reserved: "encoding_of CHR ''%'' = Some ''25''"
  by code_simp

lemma decode_other: "c \<noteq> CHR ''%'' \<Longrightarrow> percent_decode_name (c # s) = c # percent_decode_name s"
  by (auto split: list.splits)

lemma decode_escape: "decoding_of a b = Some c \<Longrightarrow> percent_decode_name (CHR ''%'' # a # b # s) = c # percent_decode_name s"
  by simp

lemma decode_encode: "percent_decode_name (fst (encode_loop name)) = name"
proof (induction name)
  case (Cons c s)
  obtain out flag where out: "encode_loop s = (out, flag)" by (cases "encode_loop s")
  show ?case
  proof (cases "encoding_of c")
    case None
    then have "c \<noteq> CHR ''%''" using percent_reserved by auto
    then show ?thesis using Cons.IH None by (simp add: out decode_other del: percent_decode_name.simps)
  next
    case (Some v)
    then obtain a b where "v = [a, b]" "decoding_of a b = Some c" by (rule table_inverse)
    then show ?thesis using Cons.IH Some by (simp add: out decode_escape del: percent_decode_name.simps)
  qed
qed simp

lemma encode_flag: "snd (encode_loop name) = (\<exists>c \<in> set name. encoding_of c \<noteq> None)"
  by (induction name) (auto split: option.splits prod.splits)

lemma encode_plain: "\<not> snd (encode_loop name) \<Longrightarrow> fst (encode_loop name) = name"
  by (induction name) (auto split: option.splits prod.splits)

lemma encode_safe:
  assumes "c \<in> set (fst (encode_loop name))"
  shows "c = CHR ''%'' \<or> encoding_of c = None"
  using assms
proof (induction name)
  case (Cons d s)
  have "\<forall>v \<in> snd ` set look_up_percent_encoding. \<forall>c \<in> set v. encoding_of c = None" by code_simp
  then have "encoding_of d = Some v \<Longrightarrow> c \<in> set v \<Longrightarrow> encoding_of c = None" for v
    using map_of_SomeD by (fastforce simp: encoding_of_def)
  then show ?case using Cons by (auto split: option.splits prod.splits)
qed simp

text \<open>
  C40: Percent encoding of a name is undone by decoding, as long as the encoded name fits the
  buffer of 1020 bytes. The flag that goes into the index says whether anything was encoded; a name
  without a reserved character is stored as it is, and no reserved character but the percent
  sign is stored at all.
\<close>

theorem percent_roundtrip:
  assumes "int (length (fst (encode_loop name))) \<le> LTFS_FILENAME_MAX * 4"
    and "percent_encode_name name = (stored, percentencoded)"
  shows "percent_decode_name stored = name \<and>
         percentencoded = (\<exists>c \<in> set name. encoding_of c \<noteq> None) \<and>
         (\<not> percentencoded \<longrightarrow> stored = name) \<and>
         (\<forall>c \<in> set stored. c = CHR ''%'' \<or> encoding_of c = None)"
proof -
  have "stored = fst (encode_loop name)" "percentencoded = snd (encode_loop name)"
    using assms by (auto simp: percent_encode_name_def split: prod.splits)
  then show ?thesis using decode_encode encode_flag encode_plain encode_safe by simp
qed

theorem percent_roundtrip_witness:
  "percent_encode_name ''a:b%'' = (''a%3Ab%25'', True) \<and> percent_decode_name ''a%3Ab%25'' = ''a:b%''"
proof -
  have e: "percent_encode_name ''a:b%'' = (''a%3Ab%25'', True)" by code_simp
  have "int (length (fst (encode_loop ''a:b%''))) \<le> LTFS_FILENAME_MAX * 4" by code_simp
  from percent_roundtrip [OF this e] e show ?thesis by simp
qed

end
