(* ===== verification/Dentries.thy ===== *)
theory Dentries imports FileNames Extents Locking begin

text \<open>
  The dentry tree of a mounted volume, \<open>fs.c\<close> and the part of \<open>filename_handling.c\<close> that looks into it.

  Dentries live in a heap and point to each other by address, as in the code: a directory has a hash table of its
  children (\<open>child_list\<close>), a child a pointer to its parent. The table is a list of entries in the order in which
  they were added, the order in which \<open>HASH_ITER\<close> visits them. A dentry is freed when its reference count
  \<open>numhandles\<close> drops to 0.

  One thread runs. \<open>locks\<close> says what it holds of every lock (\<open>Locking\<close>); \<open>misuse\<close> is set when it
  releases what it does not hold, acquires what it holds already, which would block for ever, frees a dentry
  whose locks it holds, or touches a dentry that was freed. The short sections under the mutexes
  \<open>dirty_lock\<close> and \<open>inode_mutex\<close> are single steps.
\<close>

section \<open>Data\<close>

record name_list =
  nl_name :: string
  nl_d :: nat
  nl_uid :: u64

record fs_dentry = dentry +
  ino :: u16
  uid :: u64
  isdir :: bool
  isslink :: bool
  target :: "string option"
  out_of_sync :: bool
  used_blocks :: u64
  d_name :: "string option"
  platform_safe_name :: "string option"
  parent :: "nat option"
  d_readonly :: bool
  percentencoded :: bool
  openforwrite :: bool
  creation_time :: ltfs_timespec
  backup_time :: ltfs_timespec
  numhandles :: u32
  link_count :: u32
  deleted :: bool
  matches_name_criteria :: bool
  need_update_time :: bool
  child_list :: "name_list list"
  xattrlist :: "xattr_info list"

text \<open>Which lock of the volume or of a dentry.\<close>

datatype fs_lock = Volume_lock | Contents_lock nat | Meta_lock nat

text \<open>
  The heap with the fields of \<open>struct ltfs_index\<close> that belong to the tree and the per-process inode counter. \<open>next_addr\<close>
  is the address the next \<open>malloc\<close> of a dentry returns.
\<close>

record fs =
  heap :: "nat \<Rightarrow> fs_dentry option"
  next_addr :: nat
  inode_number :: u16
  fs_root :: nat
  uid_number :: u64
  file_count :: u64
  valid_blocks :: u64
  locks :: "fs_lock \<Rightarrow> grant"
  misuse :: bool

definition get :: "nat \<Rightarrow> fs \<Rightarrow> fs_dentry" where
  "get a s = the (heap s a)"

definition set_dentry :: "nat \<Rightarrow> fs_dentry \<Rightarrow> fs \<Rightarrow> fs" where
  "set_dentry a d s = s\<lparr>heap := (heap s)(a \<mapsto> d)\<rparr>"

definition change :: "nat \<Rightarrow> (fs_dentry \<Rightarrow> fs_dentry) \<Rightarrow> fs \<Rightarrow> fs" where
  "change a f s =
     (case heap s a of None \<Rightarrow> s\<lparr>misuse := True\<rparr> | Some d \<Rightarrow> set_dentry a (f d) s)"

section \<open>Locks\<close>

definition lock_alive :: "fs_lock \<Rightarrow> fs \<Rightarrow> bool" where
  "lock_alive l s =
     (case l of Volume_lock \<Rightarrow> True | Contents_lock a \<Rightarrow> heap s a \<noteq> None | Meta_lock a \<Rightarrow> heap s a \<noteq> None)"

definition set_lock :: "fs_lock \<Rightarrow> grant \<Rightarrow> grant \<Rightarrow> fs \<Rightarrow> fs" where
  "set_lock l had has s =
     s\<lparr>locks := (locks s)(l := has), misuse := misuse s \<or> locks s l \<noteq> had \<or> \<not> lock_alive l s\<rparr>"

definition acquirewrite :: "fs_lock \<Rightarrow> fs \<Rightarrow> fs" where "acquirewrite l = set_lock l Nothing Exclusive"
definition acquireread :: "fs_lock \<Rightarrow> fs \<Rightarrow> fs" where "acquireread l = set_lock l Nothing Shared"
definition releasewrite :: "fs_lock \<Rightarrow> fs \<Rightarrow> fs" where "releasewrite l = set_lock l Exclusive Nothing"
definition releaseread :: "fs_lock \<Rightarrow> fs \<Rightarrow> fs" where "releaseread l = set_lock l Shared Nothing"

text \<open>\<open>release_mrsw\<close>\<close>

definition release :: "fs_lock \<Rightarrow> fs \<Rightarrow> fs" where
  "release l s = (if locks s l = Exclusive then releasewrite l s else releaseread l s)"

section \<open>Keys and the table of a directory\<close>

definition generate_hash_key_name :: "icu \<Rightarrow> string \<Rightarrow> int \<times> string option" where
  "generate_hash_key_name u src_str =
     and_then (pathname_prepare_caseless u src_str True) (pathname_utf16_to_utf8_icu u)"

definition fs_add_key_to_hash_table ::
    "icu \<Rightarrow> name_list list \<Rightarrow> nat \<Rightarrow> fs_dentry \<Rightarrow> int \<times> name_list list" where
  "fs_add_key_to_hash_table u table a d =
     (case generate_hash_key_name u (the (platform_safe_name d)) of
        (rc, Some key) \<Rightarrow>
          if rc = 0 then (rc, table @ [\<lparr>nl_name = key, nl_d = a, nl_uid = uid d\<rparr>]) else (rc, table)
      | (rc, None) \<Rightarrow> (rc, table))"

definition fs_find_key_from_hash_table ::
    "icu \<Rightarrow> name_list list \<Rightarrow> string \<Rightarrow> int \<times> name_list option" where
  "fs_find_key_from_hash_table u table name =
     (case generate_hash_key_name u name of
        (rc, Some key) \<Rightarrow> (rc, find (\<lambda>e. nl_name e = key) table)
      | (rc, None) \<Rightarrow> (rc, None))"

text \<open>\<open>HASH_DEL\<close>\<close>

definition hash_del :: "name_list list \<Rightarrow> name_list \<Rightarrow> name_list list" where
  "hash_del table e = remove1 e table"

text \<open>The difference of the uids, truncated to an \<open>int\<close>.\<close>

definition fs_hash_sort_by_uid :: "name_list \<Rightarrow> name_list \<Rightarrow> int" where
  "fs_hash_sort_by_uid a b = sint (ucast (nl_uid a - nl_uid b) :: u32)"

section \<open>Counters\<close>

definition fs_increment_file_count :: "fs \<Rightarrow> fs" where
  "fs_increment_file_count s = s\<lparr>file_count := file_count s + 1\<rparr>"

definition fs_decrement_file_count :: "fs \<Rightarrow> fs" where
  "fs_decrement_file_count s = s\<lparr>file_count := file_count s - 1\<rparr>"

text \<open>0 once the uids are used up: the counter stays 0 then.\<close>

definition fs_allocate_uid :: "fs \<Rightarrow> u64 \<times> fs" where
  "fs_allocate_uid s =
     (if uid_number s = 0 then (0, s)
      else let u = uid_number s + 1 in (u, s\<lparr>uid_number := u\<rparr>))"

section \<open>Looking up a name in a directory\<close>

definition fs_directory_lookup :: "icu \<Rightarrow> nat \<Rightarrow> string \<Rightarrow> fs \<Rightarrow> int \<times> nat option \<times> fs" where
  "fs_directory_lookup u basedir name s =
     (if LTFS_FILENAME_MAX < pathname_strlen name then (- LTFS_NAMETOOLONG, None, s)
      else if child_list (get basedir s) = [] then (0, None, s)
      else case fs_find_key_from_hash_table u (child_list (get basedir s)) name of
        (rc, namelist) \<Rightarrow>
          if rc \<noteq> 0 then (rc, None, s)
          else case namelist of
            None \<Rightarrow> (0, None, s)
          | Some e \<Rightarrow>
              let s = acquirewrite (Meta_lock (nl_d e)) s;
                  s = change (nl_d e) (\<lambda>d. d\<lparr>numhandles := numhandles d + 1\<rparr>) s;
                  s = releasewrite (Meta_lock (nl_d e)) s
              in (0, Some (nl_d e), s))"

section \<open>Names for Windows\<close>

text \<open>
  The loop over candidates. Each round that goes on found a dentry under the candidate, and the candidates
  of different rounds differ in their number, so one round more than there are children is enough;
  \<open>n\<close> is that bound.
\<close>

fun safe_name_loop ::
    "icu \<Rightarrow> nat \<Rightarrow> nat option \<Rightarrow> string \<Rightarrow> string option \<Rightarrow> nat \<Rightarrow> bool \<Rightarrow> fs \<Rightarrow> string option \<times> fs" where
  "safe_name_loop u 0 par prefix extension suffix dosdev s = (None, s)"
| "safe_name_loop u (Suc n) par prefix extension suffix dosdev s =
     (case generate_target_file_name prefix extension suffix dosdev of
        None \<Rightarrow> (None, s)
      | Some target_file_name \<Rightarrow>
          (case par of
             None \<Rightarrow> (Some target_file_name, s)
           | Some p \<Rightarrow>
               (case fs_directory_lookup u p target_file_name s of
                  (ret, d, s) \<Rightarrow>
                    if ret < 0 then (None, s)
                    else case d of
                      None \<Rightarrow> (Some target_file_name, s)
                    | Some a \<Rightarrow>
                        safe_name_loop u n par prefix extension (suffix + 1) dosdev
                          (change a (\<lambda>d. d\<lparr>numhandles := numhandles d - 1\<rparr>) s))))"

definition update_platform_safe_name :: "icu \<Rightarrow> fs_dentry \<Rightarrow> bool \<Rightarrow> fs \<Rightarrow> fs_dentry \<times> fs" where
  "update_platform_safe_name u d handle_invalid_char s =
     (let d = d\<lparr>platform_safe_name := None\<rparr>;
          source_name = (if percentencoded d then percent_decode_name (the (d_name d)) else the (d_name d))
      in case replace_invalid_chars source_name of
           (source_name, dosdev, changed) \<Rightarrow>
             if changed \<and> \<not> handle_invalid_char then (d, s)
             else case split_name dosdev source_name of
               (prefix, extension) \<Rightarrow>
                 case safe_name_loop u
                        (case parent d of None \<Rightarrow> 1 | Some p \<Rightarrow> length (child_list (get p s)) + 2)
                        (parent d) prefix extension (if changed then 1 else 0) dosdev s of
                   (name, s) \<Rightarrow> (d\<lparr>platform_safe_name := name\<rparr>, s))"

definition perform_name_percent_encoding :: "fs_dentry \<Rightarrow> fs_dentry" where
  "perform_name_percent_encoding d =
     (case percent_encode_name (the (platform_safe_name d)) of
        (destination_name, flag) \<Rightarrow> d\<lparr>d_name := Some destination_name, percentencoded := flag\<rparr>)"

section \<open>Allocation\<close>

definition blank_time :: ltfs_timespec where
  "blank_time = \<lparr>tv_sec = 0, tv_nsec = 0\<rparr>"

text \<open>\<open>memset\<close> to 0.\<close>

definition blank_dentry :: fs_dentry where
  "blank_dentry =
    \<lparr>extentlist = [], realsize = 0, d_size = 0, extents_dirty = False,
     access_time = blank_time, modify_time = blank_time, change_time = blank_time,
     ino = 0, uid = 0, isdir = False, isslink = False, target = None, out_of_sync = False, used_blocks = 0,
     d_name = None, platform_safe_name = None, parent = None, d_readonly = False, percentencoded = False,
     openforwrite = False, creation_time = blank_time, backup_time = blank_time, numhandles = 0, link_count = 0,
     deleted = False, matches_name_criteria = False, need_update_time = False, child_list = [], xattrlist = []\<rparr>"

text \<open>The four ways to name a dentry.\<close>

definition name_dentry ::
    "icu \<Rightarrow> string option \<Rightarrow> string option \<Rightarrow> fs_dentry \<Rightarrow> fs \<Rightarrow> fs_dentry option \<times> fs" where
  "name_dentry u name psn d s =
     (case (name, psn) of
        (None, None) \<Rightarrow> (Some d, s)
      | (Some n, None) \<Rightarrow>
          (case update_platform_safe_name u (d\<lparr>d_name := Some n\<rparr>) False s of
             (d, s) \<Rightarrow> (if platform_safe_name d = None then None else Some d, s))
      | (None, Some p) \<Rightarrow> (Some (perform_name_percent_encoding (d\<lparr>platform_safe_name := Some p\<rparr>)), s)
      | (Some n, Some p) \<Rightarrow> (Some (d\<lparr>d_name := Some n, platform_safe_name := Some p\<rparr>), s))"

text \<open>Entering the new dentry into the directory \<open>p\<close>.\<close>

definition link_dentry :: "icu \<Rightarrow> nat \<Rightarrow> nat \<Rightarrow> fs_dentry \<Rightarrow> fs \<Rightarrow> nat option \<times> fs" where
  "link_dentry u p a d s =
     (let s = acquirewrite (Meta_lock p) (acquirewrite (Contents_lock p) s);
          (ret, table) = (if platform_safe_name d \<noteq> None
                          then fs_add_key_to_hash_table u (child_list (get p s)) a d
                          else (0, child_list (get p s)));
          s = change p (\<lambda>x. x\<lparr>child_list := table\<rparr>) s
      in if ret \<noteq> 0 then (None, releasewrite (Contents_lock p) (releasewrite (Meta_lock p) s))
         else let s = set_dentry a (d\<lparr>link_count := link_count d + 1\<rparr>) s;
                  s = (if isdir d then change p (\<lambda>x. x\<lparr>link_count := link_count x + 1\<rparr>) s else s);
                  s = releasewrite (Contents_lock p) (releasewrite (Meta_lock p) s);
                  s = (if isdir d then s else fs_increment_file_count s)
              in (Some a, s))"

text \<open>The dentry itself may find no memory (\<open>mem\<close>).\<close>

definition fs_allocate_dentry ::
    "icu \<Rightarrow> bool \<Rightarrow> nat option \<Rightarrow> string option \<Rightarrow> string option \<Rightarrow> bool \<Rightarrow> bool \<Rightarrow> bool \<Rightarrow> fs \<Rightarrow> nat option \<times> fs" where
  "fs_allocate_dentry u mem par name psn dir ro allocate_uid s =
     (if \<not> mem then (None, s)
      else case name_dentry u name psn (blank_dentry\<lparr>parent := par\<rparr>) s of
        (None, s) \<Rightarrow> (None, s)
      | (Some d, s) \<Rightarrow>
          let i = inode_number s + 1;
              s = s\<lparr>inode_number := i\<rparr>;
              (id, s) = (if allocate_uid then fs_allocate_uid s else (1, s));
              d = d\<lparr>isdir := dir, d_readonly := ro, numhandles := 1, link_count := (if dir then 1 else 0),
                    ino := i, uid := id\<rparr>
          in if id = 0 then (None, s)
             else let a = next_addr s;
                      s = s\<lparr>next_addr := a + 1\<rparr>
                  in case par of
                       None \<Rightarrow> (Some a, set_dentry a d s)
                     | Some p \<Rightarrow> link_dentry u p a d s)"

section \<open>Releasing\<close>

text \<open>\<open>free\<close>, with the locks of the dentry destroyed.\<close>

definition free_dentry :: "nat \<Rightarrow> fs \<Rightarrow> fs" where
  "free_dentry a s =
     s\<lparr>heap := (heap s)(a := None),
       misuse := misuse s \<or> locks s (Contents_lock a) \<noteq> Nothing \<or> locks s (Meta_lock a) \<noteq> Nothing\<rparr>"

text \<open>Taking a dentry out of the table of its parent.\<close>

definition leave_parent :: "icu \<Rightarrow> nat \<Rightarrow> fs \<Rightarrow> fs" where
  "leave_parent u a s =
     (case parent (get a s) of
        None \<Rightarrow> s
      | Some p \<Rightarrow>
          let s = (case fs_find_key_from_hash_table u (child_list (get p s)) (the (platform_safe_name (get a s))) of
                     (rc, Some e) \<Rightarrow> change p (\<lambda>x. x\<lparr>child_list := hash_del (child_list x) e\<rparr>) s
                   | (rc, None) \<Rightarrow> s)
          in change a (\<lambda>d. d\<lparr>parent := None\<rparr>) s)"

text \<open>
  The children are disposed of first, a child that is still in use is cut off. A tree is no deeper than
  there are addresses; \<open>n\<close> is that bound, and running out of it is marked as misuse.
\<close>

primrec fs_dispose_dentry_contents :: "icu \<Rightarrow> nat \<Rightarrow> nat \<Rightarrow> bool \<Rightarrow> bool \<Rightarrow> fs \<Rightarrow> fs" where
  "fs_dispose_dentry_contents u 0 a unlock gc s = s\<lparr>misuse := True\<rparr>"
| "fs_dispose_dentry_contents u (Suc n) a unlock gc s =
     (let s = fold (\<lambda>child s.
            if numhandles (get (nl_d child) s) \<noteq> (if gc then 0 else 1)
            then change (nl_d child) (\<lambda>d. d\<lparr>parent := None\<rparr>) s
            else fs_dispose_dentry_contents u n (nl_d child) False gc
                   (if gc then s else change (nl_d child) (\<lambda>d. d\<lparr>numhandles := numhandles d - 1\<rparr>) s))
          (child_list (get a s)) s;
          s = leave_parent u a s;
          s = (if unlock then releasewrite (Meta_lock a) s else s)
      in free_dentry a s)"

definition fs_release_dentry_unlocked :: "icu \<Rightarrow> nat \<Rightarrow> fs \<Rightarrow> fs" where
  "fs_release_dentry_unlocked u a s =
     (let s = change a (\<lambda>d. d\<lparr>numhandles := numhandles d - 1\<rparr>) s in
      if numhandles (get a s) \<noteq> 0 \<or> out_of_sync (get a s) then releasewrite (Meta_lock a) s
      else fs_dispose_dentry_contents u (Suc (next_addr s)) a True False s)"

definition fs_release_dentry :: "icu \<Rightarrow> nat \<Rightarrow> fs \<Rightarrow> fs" where
  "fs_release_dentry u a s = fs_release_dentry_unlocked u a (acquirewrite (Meta_lock a) s)"

primrec fs_gc_dentry :: "icu \<Rightarrow> nat \<Rightarrow> nat \<Rightarrow> fs \<Rightarrow> fs" where
  "fs_gc_dentry u 0 a s = s\<lparr>misuse := True\<rparr>"
| "fs_gc_dentry u (Suc n) a s =
     (let s = acquirewrite (Meta_lock a) s in
      if numhandles (get a s) = 0 \<and> \<not> out_of_sync (get a s)
      then fs_dispose_dentry_contents u (Suc (next_addr s)) a True True s
      else fold (\<lambda>child. fs_gc_dentry u n (nl_d child)) (child_list (get a s)) (releasewrite (Meta_lock a) s))"

end
