(* ===== verification/Paths.thy ===== *)
theory Paths imports Dentries begin

unbundle bit_operations_syntax

text \<open>
  Paths and the dentry tree, the rest of \<open>fs.c\<close>: from a path to its dentry and back, splitting of paths,
  relations between dentries, and the names given to the children of a directory that was read from
  an index. A walk towards the root is bounded by the number of addresses.
\<close>

section \<open>From a path to a dentry\<close>

definition LOCK_PARENT_CONTENTS_R :: u8 where "LOCK_PARENT_CONTENTS_R = 1"
definition LOCK_PARENT_CONTENTS_W :: u8 where "LOCK_PARENT_CONTENTS_W = 2"
definition LOCK_PARENT_META_R :: u8 where "LOCK_PARENT_META_R = 4"
definition LOCK_PARENT_META_W :: u8 where "LOCK_PARENT_META_W = 8"
definition LOCK_DENTRY_CONTENTS_R :: u8 where "LOCK_DENTRY_CONTENTS_R = 16"
definition LOCK_DENTRY_CONTENTS_W :: u8 where "LOCK_DENTRY_CONTENTS_W = 32"
definition LOCK_DENTRY_META_R :: u8 where "LOCK_DENTRY_META_R = 64"
definition LOCK_DENTRY_META_W :: u8 where "LOCK_DENTRY_META_W = 128"

definition wants :: "u8 \<Rightarrow> u8 \<Rightarrow> bool" where
  "wants flags l \<longleftrightarrow> flags AND l \<noteq> 0"

text \<open>The text between two slashes.\<close>

fun components :: "string \<Rightarrow> string list" where
  "components [] = [[]]"
| "components (c # s) =
     (if c = CHR ''/'' then [] # components s
      else case components s of w # ws \<Rightarrow> (c # w) # ws | [] \<Rightarrow> [[c]])"

text \<open>The loop of \<open>fs_path_lookup\<close>: return code, parent and dentry.\<close>

fun path_loop ::
    "icu \<Rightarrow> u8 \<Rightarrow> nat option \<Rightarrow> nat \<Rightarrow> string list \<Rightarrow> fs \<Rightarrow> int \<times> nat option \<times> nat option \<times> fs" where
  "path_loop u flags par d [] s = (0, par, Some d, s)"
| "path_loop u flags par d (start # rest) s =
     (let exclusive = (rest = [] \<and> wants flags LOCK_PARENT_CONTENTS_W);
          s = (if exclusive then acquirewrite (Contents_lock d) s else acquireread (Contents_lock d) s);
          s = (case par of None \<Rightarrow> s | Some p \<Rightarrow> releaseread (Contents_lock p) s)
      in case fs_directory_lookup u d start s of
        (ret, None, s) \<Rightarrow>
          let s = (if exclusive then releasewrite (Contents_lock d) s else releaseread (Contents_lock d) s)
          in (if ret = 0 then - LTFS_NO_DENTRY else ret, Some d, None, fs_release_dentry u d s)
      | (ret, Some child, s) \<Rightarrow>
          let s = (if rest \<noteq> [] \<or> \<not> wants flags (LOCK_PARENT_CONTENTS_W OR LOCK_PARENT_CONTENTS_R OR
                        LOCK_PARENT_META_W OR LOCK_PARENT_META_R)
                   then releasewrite (Meta_lock d)
                          (change d (\<lambda>x. x\<lparr>numhandles := numhandles x - 1\<rparr>) (acquirewrite (Meta_lock d) s))
                   else s)
          in path_loop u flags (Some d) child rest s)"

definition keep_lock :: "fs_lock \<Rightarrow> bool \<Rightarrow> bool \<Rightarrow> fs \<Rightarrow> fs" where
  "keep_lock l w r s = (if w then acquirewrite l s else if r then acquireread l s else s)"

definition fs_path_lookup :: "icu \<Rightarrow> string \<Rightarrow> u8 \<Rightarrow> fs \<Rightarrow> int \<times> nat option \<times> fs" where
  "fs_path_lookup u path flags s =
     (let root = fs_root s;
          s = acquirewrite (Meta_lock root) s;
          s = change root (\<lambda>d. d\<lparr>numhandles := numhandles d + 1\<rparr>) s;
          s = releasewrite (Meta_lock root) s;
          (ret, par, d, s) =
            (if path = [] \<or> path = ''/'' then (0, None, Some root, s)
             else case path_loop u flags None root (components (tl path)) s of
               (ret, par, d, s) \<Rightarrow>
                 (ret, par, d,
                  if ret = 0 \<and> \<not> wants flags (LOCK_PARENT_CONTENTS_W OR LOCK_PARENT_CONTENTS_R)
                  then releaseread (Contents_lock (the par)) s else s))
      in if ret \<noteq> 0 then (ret, None, s)
         else let s = (case par of None \<Rightarrow> s
                       | Some p \<Rightarrow> keep_lock (Meta_lock p) (wants flags LOCK_PARENT_META_W)
                           (wants flags LOCK_PARENT_META_R) s);
                  s = keep_lock (Contents_lock (the d)) (wants flags LOCK_DENTRY_CONTENTS_W)
                        (wants flags LOCK_DENTRY_CONTENTS_R) s;
                  s = keep_lock (Meta_lock (the d)) (wants flags LOCK_DENTRY_META_W)
                        (wants flags LOCK_DENTRY_META_R) s
              in (0, d, s))"

text \<open>The directory and the name behind the last slash; \<open>None\<close> if there is no slash.\<close>

definition fs_split_path :: "string \<Rightarrow> (string \<times> string) option" where
  "fs_split_path path =
     (if CHR ''/'' \<in> set path
      then let filename = rev (takeWhile (\<lambda>c. c \<noteq> CHR ''/'') (rev path))
           in Some (take (length path - length filename - 1) path, filename)
      else None)"

section \<open>From a dentry to its path\<close>

text \<open>
  The names from the root down to \<open>a\<close>. A dentry without a name that is not the root ends the walk
  with the lock of its parent still held.
\<close>

primrec dentry_names :: "nat \<Rightarrow> nat \<Rightarrow> fs \<Rightarrow> int \<times> string list \<times> fs" where
  "dentry_names 0 a s = (0, [], s\<lparr>misuse := True\<rparr>)"
| "dentry_names (Suc n) a s =
     (let d = get a s;
          s = (case parent d of None \<Rightarrow> s | Some p \<Rightarrow> acquireread (Contents_lock p) s);
          lookup_name = (case platform_safe_name d of
              Some name \<Rightarrow> Some name
            | None \<Rightarrow> if deleted d \<or> parent d \<noteq> None then None else Some ''/'')
      in case lookup_name of
        None \<Rightarrow> (- LTFS_NO_DENTRY, [], s)
      | Some name \<Rightarrow>
          (case parent d of
             None \<Rightarrow> (0, [name], s)
           | Some p \<Rightarrow>
               (case dentry_names n p (releaseread (Contents_lock p) s) of
                  (ret, names, s) \<Rightarrow> (ret, names @ [name], s))))"

fun join :: "string list \<Rightarrow> string" where
  "join [] = []"
| "join [w] = w"
| "join (w # ws) = w @ ''/'' @ join ws"

definition fs_dentry_lookup :: "nat \<Rightarrow> fs \<Rightarrow> int \<times> string option \<times> fs" where
  "fs_dentry_lookup a s =
     (case dentry_names (Suc (next_addr s)) a s of
        (ret, names, s) \<Rightarrow>
          if ret \<noteq> 0 then (ret, None, s) else (0, Some (hd names @ join (tl names)), s))"

section \<open>Relations between dentries\<close>

primrec is_predecessor_loop :: "nat \<Rightarrow> nat \<Rightarrow> nat \<Rightarrow> fs \<Rightarrow> bool" where
  "is_predecessor_loop 0 d1 d s = False"
| "is_predecessor_loop (Suc n) d1 d s =
     (d = d1 \<or> (case parent (get d s) of None \<Rightarrow> False | Some p \<Rightarrow> is_predecessor_loop n d1 p s))"

definition fs_is_predecessor :: "nat \<Rightarrow> nat \<Rightarrow> fs \<Rightarrow> bool" where
  "fs_is_predecessor d1 d2 s = is_predecessor_loop (Suc (next_addr s)) d1 d2 s"

definition used_by :: "u64 \<Rightarrow> extent_info \<Rightarrow> u64" where
  "used_by blocksize e =
     (let bytes = ucast (byteoffset e) + bytecount e
      in bytes div blocksize + (if bytes mod blocksize \<noteq> 0 then 1 else 0))"

definition fs_get_used_blocks :: "u64 \<Rightarrow> fs_dentry \<Rightarrow> u64" where
  "fs_get_used_blocks blocksize d = fold (\<lambda>e used. used + used_by blocksize e) (extentlist d) 0"

section \<open>Names for the children of a directory\<close>

text \<open>One pass over the list; what is left keeps its order.\<close>

fun safe_names_pass ::
    "icu \<Rightarrow> nat \<Rightarrow> bool \<Rightarrow> bool \<Rightarrow> name_list list \<Rightarrow> fs \<Rightarrow> name_list list \<times> fs" where
  "safe_names_pass u basedir handle_dup_name handle_invalid_char [] s = ([], s)"
| "safe_names_pass u basedir handle_dup_name handle_invalid_char (e # list) s =
     (let skip = (case safe_names_pass u basedir handle_dup_name handle_invalid_char list s of
            (left, s) \<Rightarrow> (e # left, s))
      in if \<not> handle_dup_name \<and>
            snd (fs_find_key_from_hash_table u (child_list (get basedir s)) (nl_name e)) \<noteq> None then skip
         else case update_platform_safe_name u (get (nl_d e) s) handle_invalid_char s of
           (d, s) \<Rightarrow>
             let s = set_dentry (nl_d e) d s;
                 skip = (case safe_names_pass u basedir handle_dup_name handle_invalid_char list s of
                     (left, s) \<Rightarrow> (e # left, s))
             in if platform_safe_name d = None then skip
                else case fs_add_key_to_hash_table u (child_list (get basedir s)) (nl_d e) d of
                  (rc, table) \<Rightarrow>
                    if rc \<noteq> 0 then skip
                    else let s = change basedir (\<lambda>x. x\<lparr>child_list := table\<rparr>) s;
                             s = s\<lparr>valid_blocks := valid_blocks s + used_blocks d\<rparr>
                         in safe_names_pass u basedir handle_dup_name handle_invalid_char list s)"

text \<open>First the plain names, then the duplicates, then the names with characters to replace.\<close>

definition fs_update_platform_safe_names :: "icu \<Rightarrow> nat \<Rightarrow> name_list list \<Rightarrow> fs \<Rightarrow> int \<times> fs" where
  "fs_update_platform_safe_names u basedir list s =
     (case safe_names_pass u basedir False False list s of (list, s) \<Rightarrow>
      case safe_names_pass u basedir True False list s of (list, s) \<Rightarrow>
      case safe_names_pass u basedir True True list s of (list, s) \<Rightarrow>
        (if list \<noteq> [] then -1 else 0, s))"

end
