(* ===== verification/PathsSpec.thy ===== *)
theory PathsSpec imports Paths begin

text \<open>
  What path lookup does to the tree. In a well-formed tree (\<open>tree\<close>) a lookup ends at the dentry that the
  names lead to (\<open>resolve\<close>), raises its reference count by one and takes exactly the locks it was asked
  for; a lookup that fails changes nothing.
\<close>

section \<open>Well-formed trees\<close>

definition root_ok :: "fs \<Rightarrow> bool" where
  "root_ok s \<longleftrightarrow> (\<exists>r. heap s (fs_root s) = Some r \<and> parent r = None \<and> platform_safe_name r = None \<and>
     \<not> deleted r \<and> numhandles r \<noteq> 0)"

definition name_ok :: "string \<Rightarrow> bool" where
  "name_ok n \<longleftrightarrow> n \<noteq> [] \<and> CHR ''/'' \<notin> set n \<and> pathname_strlen n \<le> LTFS_FILENAME_MAX"

definition child_ok :: "icu \<Rightarrow> fs \<Rightarrow> nat \<Rightarrow> name_list \<Rightarrow> bool" where
  "child_ok u s p e \<longleftrightarrow>
     (\<exists>c n. heap s (nl_d e) = Some c \<and> parent c = Some p \<and> \<not> deleted c \<and> numhandles c \<noteq> 0 \<and>
        platform_safe_name c = Some n \<and> name_ok n \<and> generate_hash_key_name u n = (0, Some (nl_name e)) \<and>
        nl_uid e = uid c)"

definition tree :: "icu \<Rightarrow> fs \<Rightarrow> bool" where
  "tree u s \<longleftrightarrow> root_ok s \<and>
     (\<forall>p x e. heap s p = Some x \<longrightarrow> e \<in> set (child_list x) \<longrightarrow> child_ok u s p e) \<and>
     (\<forall>p x. heap s p = Some x \<longrightarrow> distinct (map nl_name (child_list x))) \<and>
     (\<forall>a c p. heap s a = Some c \<longrightarrow> parent c = Some p \<longrightarrow>
        (\<exists>x e. heap s p = Some x \<and> e \<in> set (child_list x) \<and> nl_d e = a)) \<and>
     (\<forall>a. heap s a \<noteq> None \<longrightarrow> a < next_addr s) \<and>
     (\<exists>depth. \<forall>a c. heap s a = Some c \<longrightarrow> depth a < next_addr s \<and> (\<forall>p. parent c = Some p \<longrightarrow> depth p < depth a))"

text \<open>No lock of a dentry is held. The lock of the volume may be.\<close>

definition quiet :: "fs \<Rightarrow> fs_lock \<Rightarrow> grant" where
  "quiet s = (\<lambda>_. Nothing)(Volume_lock := locks s Volume_lock)"

definition unlocked :: "fs \<Rightarrow> bool" where
  "unlocked s \<longleftrightarrow> locks s = quiet s \<and> \<not> misuse s"

lemma tree_child: "tree u s \<Longrightarrow> heap s p = Some x \<Longrightarrow> e \<in> set (child_list x) \<Longrightarrow> child_ok u s p e"
  by (simp add: tree_def)

lemma tree_root: "tree u s \<Longrightarrow> root_ok s"
  by (simp add: tree_def)

lemma tree_no_loop: "tree u s \<Longrightarrow> heap s a = Some c \<Longrightarrow> parent c \<noteq> Some a"
  unfolding tree_def by fastforce

section \<open>Reference counts\<close>

definition add_handles :: "nat \<Rightarrow> u32 \<Rightarrow> fs \<Rightarrow> fs" where
  "add_handles a k s = change a (\<lambda>d. d\<lparr>numhandles := numhandles d + k\<rparr>) s"

lemma add_handles_fields [simp]:
  "locks (add_handles a k s) = locks s" "fs_root (add_handles a k s) = fs_root s"
  "next_addr (add_handles a k s) = next_addr s"
  "heap s a \<noteq> None \<Longrightarrow> misuse (add_handles a k s) = misuse s"
  by (auto simp: add_handles_def change_def set_dentry_def split: option.splits)

lemma add_handles_heap:
  "heap (add_handles a k s) b =
     (if b = a then map_option (\<lambda>d. d\<lparr>numhandles := numhandles d + k\<rparr>) (heap s a) else heap s b)"
  by (auto simp: add_handles_def change_def set_dentry_def split: option.splits)

lemma add_handles_alive [simp]: "heap (add_handles a k s) b = None \<longleftrightarrow> heap s b = None"
  by (simp add: add_handles_heap)

lemma add_handles_child_list [simp]: "heap s b \<noteq> None \<Longrightarrow> child_list (get b (add_handles a k s)) = child_list (get b s)"
  by (auto simp: get_def add_handles_heap)

lemma add_handles_add: "heap s a \<noteq> None \<Longrightarrow> add_handles a j (add_handles a k s) = add_handles a (k + j) s"
  by (auto simp: add_handles_def change_def set_dentry_def add.assoc)

lemma add_handles_0: "heap s a \<noteq> None \<Longrightarrow> add_handles a 0 s = s"
  by (auto simp: add_handles_def change_def set_dentry_def fun_upd_idem)

lemma add_handles_swap: "a \<noteq> b \<Longrightarrow> add_handles a j (add_handles b k s) = add_handles b k (add_handles a j s)"
  by (auto simp: add_handles_def change_def set_dentry_def fun_upd_twist split: option.splits)

lemma add_handles_locks: "add_handles a k (s\<lparr>locks := L\<rparr>) = (add_handles a k s)\<lparr>locks := L\<rparr>"
  by (simp add: add_handles_def change_def set_dentry_def split: option.splits)

lemma set_lock_ok:
  "locks s l = had \<Longrightarrow> lock_alive l s \<Longrightarrow> set_lock l had has s = s\<lparr>locks := (locks s)(l := has)\<rparr>"
  by (cases s) (simp add: set_lock_def)

lemma lock_alive_simps [simp]:
  "lock_alive (Contents_lock a) s = (heap s a \<noteq> None)" "lock_alive (Meta_lock a) s = (heap s a \<noteq> None)"
  "lock_alive Volume_lock s"
  by (auto simp: lock_alive_def)

lemmas lock_steps = acquirewrite_def acquireread_def releasewrite_def releaseread_def

text \<open>A change of a reference count under the lock of the metadata.\<close>

lemma handles_under_lock:
  assumes "locks s (Meta_lock a) = Nothing" and "heap s a \<noteq> None"
  shows "releasewrite (Meta_lock a) (change a (\<lambda>d. d\<lparr>numhandles := numhandles d + k\<rparr>)
           (acquirewrite (Meta_lock a) s)) = add_handles a k s"
proof -
  have "acquirewrite (Meta_lock a) s = s\<lparr>locks := (locks s)(Meta_lock a := Exclusive)\<rparr>"
    using assms by (simp add: lock_steps set_lock_ok)
  then have "change a (\<lambda>d. d\<lparr>numhandles := numhandles d + k\<rparr>) (acquirewrite (Meta_lock a) s) =
      (add_handles a k s)\<lparr>locks := (locks s)(Meta_lock a := Exclusive)\<rparr>"
    by (simp add: add_handles_def [symmetric] add_handles_locks)
  then show ?thesis
    using assms by (simp add: lock_steps set_lock_ok fun_upd_idem)
qed

section \<open>One name\<close>

definition child_of :: "icu \<Rightarrow> nat \<Rightarrow> string \<Rightarrow> fs \<Rightarrow> int \<times> nat option" where
  "child_of u basedir name s =
     (if LTFS_FILENAME_MAX < pathname_strlen name then (- LTFS_NAMETOOLONG, None)
      else if child_list (get basedir s) = [] then (0, None)
      else case fs_find_key_from_hash_table u (child_list (get basedir s)) name of
        (rc, namelist) \<Rightarrow> if rc \<noteq> 0 then (rc, None) else (0, map_option nl_d namelist))"

lemma find_member: "find P xs = Some e \<Longrightarrow> e \<in> set xs \<and> P e"
  by (auto simp: find_Some_iff)

lemma child_of_member:
  assumes "child_of u p name s = (rc, Some a)"
  shows "rc = 0 \<and> (\<exists>e \<in> set (child_list (get p s)). nl_d e = a)"
  using assms
  by (auto simp: child_of_def fs_find_key_from_hash_table_def split: if_splits option.splits prod.splits
      dest!: find_member)

lemma directory_lookup:
  assumes "tree u t" and "heap t p = Some x" and "child_list (get p s) = child_list x"
    and "\<And>a. (locks s (Meta_lock a) = Nothing)" and "\<And>a. heap t a \<noteq> None \<Longrightarrow> heap s a \<noteq> None"
  shows "fs_directory_lookup u p name s =
     (fst (child_of u p name t), snd (child_of u p name t),
      case snd (child_of u p name t) of None \<Rightarrow> s | Some a \<Rightarrow> add_handles a 1 s)"
proof -
  have x: "get p t = x" using assms(2) by (simp add: get_def)
  have alive: "heap s (nl_d e) \<noteq> None" if "e \<in> set (child_list x)" for e
    using tree_child [OF assms(1,2) that] assms(5) by (auto simp: child_ok_def)
  show ?thesis
    using handles_under_lock [OF assms(4) alive] assms(3) x
    by (auto simp: fs_directory_lookup_def child_of_def fs_find_key_from_hash_table_def
        split: option.splits prod.splits dest!: find_member)
qed


section \<open>A whole path\<close>

text \<open>Where the names lead from a directory: the last directory and the dentry, or the return code.\<close>

fun resolve :: "icu \<Rightarrow> nat \<Rightarrow> string list \<Rightarrow> fs \<Rightarrow> int + nat \<times> nat" where
  "resolve u d [] s = Inr (d, d)"
| "resolve u d (w # ws) s =
     (case child_of u d w s of
        (rc, None) \<Rightarrow> Inl (if rc = 0 then - LTFS_NO_DENTRY else rc)
      | (rc, Some a) \<Rightarrow> if ws = [] then Inr (d, a) else resolve u a ws s)"

definition reading_from :: "fs \<Rightarrow> nat option \<Rightarrow> fs_lock \<Rightarrow> grant" where
  "reading_from t par = (case par of None \<Rightarrow> quiet t | Some p \<Rightarrow> (quiet t)(Contents_lock p := Shared))"

abbreviation PARENT_FLAGS :: u8 where
  "PARENT_FLAGS \<equiv> LOCK_PARENT_CONTENTS_W OR LOCK_PARENT_CONTENTS_R OR LOCK_PARENT_META_W OR LOCK_PARENT_META_R"

text \<open>The state after the loop.\<close>

definition found_state :: "u8 \<Rightarrow> nat \<Rightarrow> nat \<Rightarrow> fs \<Rightarrow> fs" where
  "found_state flags q a t =
     (add_handles a 1 (if wants flags PARENT_FLAGS then add_handles q 1 t else t))
       \<lparr>locks := (quiet t)(Contents_lock q := (if wants flags LOCK_PARENT_CONTENTS_W then Exclusive else Shared))\<rparr>"

lemma quiet_simps [simp]:
  "quiet t (Contents_lock a) = Nothing" "quiet t (Meta_lock a) = Nothing"
  "(quiet t)(Contents_lock a := Nothing) = quiet t" "(quiet t)(Meta_lock a := Nothing) = quiet t"
  "quiet (add_handles a k t) = quiet t"
  by (auto simp: quiet_def)

lemma unlocked_locks: "unlocked t \<Longrightarrow> locks t = quiet t"
  by (simp add: unlocked_def)

lemma relock: "s\<lparr>locks := locks s\<rparr> = s" for s :: fs
  by (cases s) simp

lemma relock_free: "locks s = quiet t \<Longrightarrow> s\<lparr>locks := quiet t\<rparr> = s" for s :: fs
  by (cases s) simp

text \<open>A reference that was just taken on a linked dentry is given back without disposing of it.\<close>

lemma release_taken:
  assumes "unlocked t" and "heap t d = Some x" and "numhandles x \<noteq> 0"
  shows "fs_release_dentry u d (add_handles d 1 t) = t"
proof -
  let ?s = "(add_handles d 1 t)\<lparr>locks := (quiet t)(Meta_lock d := Exclusive)\<rparr>"
  have a: "acquirewrite (Meta_lock d) (add_handles d 1 t) = ?s"
    using assms by (simp add: lock_steps set_lock_ok unlocked_locks)
  have "change d (\<lambda>d. d\<lparr>numhandles := numhandles d - 1\<rparr>) ?s = add_handles d (- 1) ?s"
    by (simp add: add_handles_def)
  also have "\<dots> = t\<lparr>locks := (quiet t)(Meta_lock d := Exclusive)\<rparr>"
    using assms(2) by (simp add: add_handles_locks add_handles_add add_handles_0)
  finally have c: "change d (\<lambda>d. d\<lparr>numhandles := numhandles d - 1\<rparr>) ?s =
      t\<lparr>locks := (quiet t)(Meta_lock d := Exclusive)\<rparr>" .
  have "get d (t\<lparr>locks := (quiet t)(Meta_lock d := Exclusive)\<rparr>) = x" using assms(2) by (simp add: get_def)
  then have "fs_release_dentry u d (add_handles d 1 t) =
      releasewrite (Meta_lock d) (t\<lparr>locks := (quiet t)(Meta_lock d := Exclusive)\<rparr>)"
    using assms(3) by (simp add: fs_release_dentry_def fs_release_dentry_unlocked_def a c)
  also have "\<dots> = t"
    using assms(2) relock [of t] unlocked_locks [OF assms(1)]
    by (simp add: lock_steps set_lock_ok)
  finally show ?thesis .
qed

text \<open>Moving on from one directory to the next: the locks.\<close>

lemma step_locks:
  assumes "locks s = reading_from t par" and "par \<noteq> Some d" and "heap s d \<noteq> None"
    and "\<And>p. par = Some p \<Longrightarrow> heap s p \<noteq> None"
  shows "(case par of None \<Rightarrow> id | Some p \<Rightarrow> releaseread (Contents_lock p))
           (if w then acquirewrite (Contents_lock d) s else acquireread (Contents_lock d) s) =
         s\<lparr>locks := (quiet t)(Contents_lock d := (if w then Exclusive else Shared))\<rparr>"
  using assms
  by (cases par) (auto simp: lock_steps set_lock_ok reading_from_def quiet_def fun_upd_twist fun_upd_idem
      intro!: arg_cong [where f = "\<lambda>L. s\<lparr>locks := L\<rparr>"])


lemma child_linked:
  assumes "tree u t" and "heap t d = Some x" and "child_of u d w t = (rc, Some a)"
  shows "rc = 0" and "a \<noteq> d" and "\<exists>c. heap t a = Some c \<and> numhandles c \<noteq> 0 \<and> parent c = Some d"
proof -
  obtain e where e: "rc = 0" "e \<in> set (child_list x)" "nl_d e = a"
    using child_of_member [OF assms(3)] assms(2) by (auto simp: get_def)
  then obtain c where c: "heap t a = Some c" "numhandles c \<noteq> 0" "parent c = Some d"
    using tree_child [OF assms(1,2) e(2)] by (auto simp: child_ok_def)
  then show "rc = 0" "\<exists>c. heap t a = Some c \<and> numhandles c \<noteq> 0 \<and> parent c = Some d" using e by auto
  show "a \<noteq> d" using tree_no_loop [OF assms(1) c(1)] c(3) by auto
qed

text \<open>One round of the loop, up to the lookup.\<close>

definition at_directory :: "nat option \<Rightarrow> nat \<Rightarrow> fs \<Rightarrow> fs" where
  "at_directory par d t = (add_handles d 1 t)\<lparr>locks := reading_from t par\<rparr>"

lemma round_locks:
  assumes "heap t d \<noteq> None" and "par \<noteq> Some d" and "\<And>p. par = Some p \<Longrightarrow> heap t p \<noteq> None"
  shows "(let s = (if w then acquirewrite (Contents_lock d) (at_directory par d t)
                   else acquireread (Contents_lock d) (at_directory par d t))
          in case par of None \<Rightarrow> s | Some p \<Rightarrow> releaseread (Contents_lock p) s) =
    (add_handles d 1 t)\<lparr>locks := (quiet t)(Contents_lock d := (if w then Exclusive else Shared))\<rparr>"
  using step_locks [of "at_directory par d t" t par d w] assms
  by (cases par) (auto simp: at_directory_def)

lemma round_lookup:
  assumes "tree u t" and "heap t d = Some x"
  shows "fs_directory_lookup u d start ((add_handles d 1 t)\<lparr>locks := (quiet t)(Contents_lock d := g)\<rparr>) =
     (fst (child_of u d start t), snd (child_of u d start t),
      (case snd (child_of u d start t) of None \<Rightarrow> add_handles d 1 t | Some a \<Rightarrow> add_handles a 1 (add_handles d 1 t))
        \<lparr>locks := (quiet t)(Contents_lock d := g)\<rparr>)"
  using directory_lookup [OF assms, of "(add_handles d 1 t)\<lparr>locks := (quiet t)(Contents_lock d := g)\<rparr>" start]
    assms(2)
  by (simp add: get_def add_handles_heap add_handles_locks split: option.splits)

lemma round_failed:
  assumes "unlocked t" and "heap t d = Some x" and "numhandles x \<noteq> 0"
  shows "fs_release_dentry u d
     ((if w then releasewrite (Contents_lock d) else releaseread (Contents_lock d))
        ((add_handles d 1 t)\<lparr>locks := (quiet t)(Contents_lock d := (if w then Exclusive else Shared))\<rparr>)) = t"
proof -
  have "(add_handles d 1 t)\<lparr>locks := quiet t\<rparr> = add_handles d 1 t"
    using assms(1) by (intro relock_free) (simp add: unlocked_locks)
  then show ?thesis
    using release_taken [OF assms] assms(2) by (simp add: lock_steps set_lock_ok)
qed

lemma round_dropped:
  assumes "heap t d \<noteq> None" and "heap t a \<noteq> None" and "a \<noteq> d"
  shows "releasewrite (Meta_lock d) (change d (\<lambda>x. x\<lparr>numhandles := numhandles x - 1\<rparr>) (acquirewrite (Meta_lock d)
      ((add_handles a 1 (add_handles d 1 t))\<lparr>locks := (quiet t)(Contents_lock d := g)\<rparr>))) =
    (add_handles a 1 t)\<lparr>locks := (quiet t)(Contents_lock d := g)\<rparr>"
proof -
  have "add_handles d (- 1) (add_handles a 1 (add_handles d 1 t)) = add_handles a 1 t"
    using assms by (simp add: add_handles_swap [of d a] add_handles_add add_handles_0)
  then show ?thesis
    using handles_under_lock [of "(add_handles a 1 (add_handles d 1 t))\<lparr>locks := (quiet t)(Contents_lock d := g)\<rparr>" d "- 1"]
      assms
    by (simp add: add_handles_locks)
qed

declare path_loop.simps(2) [simp del]

lemma path_loop_resolves:
  assumes "tree u t" and "unlocked t" and "ws \<noteq> []"
    and "heap t d = Some x" and "numhandles x \<noteq> 0"
    and "par \<noteq> Some d" and "\<And>p. par = Some p \<Longrightarrow> heap t p \<noteq> None"
  shows "case resolve u d ws t of
      Inl rc \<Rightarrow> \<exists>q. path_loop u flags par d ws (at_directory par d t) = (rc, q, None, t) \<and> rc \<noteq> 0
    | Inr (q, a) \<Rightarrow> path_loop u flags par d ws (at_directory par d t) = (0, Some q, Some a, found_state flags q a t) \<and>
        q \<noteq> a \<and> heap t q \<noteq> None \<and> heap t a \<noteq> None"
  using assms(3-)
proof (induction ws arbitrary: d x par)
  case (Cons w ws)
  define e where "e = (ws = [] \<and> wants flags LOCK_PARENT_CONTENTS_W)"
  define g where "g = (if e then Exclusive else Shared)"
  have alive: "heap t d \<noteq> None" using Cons.prems by simp
  note lookup = round_lookup [OF assms(1) Cons.prems(2), of w g]
  have unfold: "path_loop u flags par d (w # ws) (at_directory par d t) =
    (case fs_directory_lookup u d w ((add_handles d 1 t)\<lparr>locks := (quiet t)(Contents_lock d := g)\<rparr>) of
        (ret, None, s) \<Rightarrow>
          let s = (if e then releasewrite (Contents_lock d) s else releaseread (Contents_lock d) s)
          in (if ret = 0 then - LTFS_NO_DENTRY else ret, Some d, None, fs_release_dentry u d s)
      | (ret, Some child, s) \<Rightarrow>
          let s = (if ws \<noteq> [] \<or> \<not> wants flags PARENT_FLAGS
                   then releasewrite (Meta_lock d)
                          (change d (\<lambda>x. x\<lparr>numhandles := numhandles x - 1\<rparr>) (acquirewrite (Meta_lock d) s))
                   else s)
          in path_loop u flags (Some d) child ws s)"
    using round_locks [OF alive Cons.prems(4,5), of e] unfolding e_def g_def by (simp only: path_loop.simps(2) Let_def)
  obtain rc found where c: "child_of u d w t = (rc, found)" by (cases "child_of u d w t")
  show ?case
  proof (cases found)
    case None
    then show ?thesis
      using round_failed [OF assms(2) Cons.prems(2,3), of u e, folded g_def] by (auto simp: unfold lookup c)
  next
    case (Some a)
    then have c: "child_of u d w t = (0, Some a)" using c child_linked(1) [OF assms(1) Cons.prems(2)] by simp
    note linked = child_linked(2,3) [OF assms(1) Cons.prems(2) c]
    then obtain y where y: "heap t a = Some y" "numhandles y \<noteq> 0" by blast
    have dropped: "releasewrite (Meta_lock d) (change d (\<lambda>x. x\<lparr>numhandles := numhandles x - 1\<rparr>)
        (acquirewrite (Meta_lock d)
          ((add_handles a 1 (add_handles d 1 t))\<lparr>locks := (quiet t)(Contents_lock d := g)\<rparr>))) =
        (add_handles a 1 t)\<lparr>locks := (quiet t)(Contents_lock d := g)\<rparr>"
      using round_dropped [OF alive _ linked(1)] y by simp
    show ?thesis
    proof (cases "ws = []")
      case True
      have "path_loop u flags par d (w # ws) (at_directory par d t) = (0, Some d, Some a, found_state flags d a t)"
        unfolding unfold lookup c using True by (simp add: dropped) (simp add: found_state_def g_def e_def)
      then show ?thesis using linked y alive True by (simp add: c)
    next
      case False
      then have g: "g = Shared" by (simp add: g_def e_def)
      have next_state: "(add_handles a 1 t)\<lparr>locks := (quiet t)(Contents_lock d := g)\<rparr> = at_directory (Some d) a t"
        by (simp add: at_directory_def reading_from_def g)
      have "path_loop u flags par d (w # ws) (at_directory par d t) =
          path_loop u flags (Some d) a ws (at_directory (Some d) a t)"
        using False by (simp add: unfold lookup c dropped next_state)
      moreover have "Some d \<noteq> Some a" using linked(1) by simp
      ultimately show ?thesis
        using Cons.IH [OF False y \<open>Some d \<noteq> Some a\<close>] alive False by (simp add: c split: sum.splits prod.splits)
    qed
  qed
qed simp


section \<open>The lookup\<close>

definition grant_of :: "bool \<Rightarrow> bool \<Rightarrow> grant" where
  "grant_of w r = (if w then Exclusive else if r then Shared else Nothing)"

text \<open>The locks a lookup was asked for.\<close>

definition asked_locks :: "fs \<Rightarrow> u8 \<Rightarrow> nat option \<Rightarrow> nat \<Rightarrow> fs_lock \<Rightarrow> grant" where
  "asked_locks t flags par a =
     (let L = (case par of None \<Rightarrow> quiet t
        | Some q \<Rightarrow> (quiet t)(
            Contents_lock q := (if wants flags (LOCK_PARENT_CONTENTS_W OR LOCK_PARENT_CONTENTS_R)
              then if wants flags LOCK_PARENT_CONTENTS_W then Exclusive else Shared else Nothing),
            Meta_lock q := grant_of (wants flags LOCK_PARENT_META_W) (wants flags LOCK_PARENT_META_R)))
      in L(Contents_lock a := grant_of (wants flags LOCK_DENTRY_CONTENTS_W) (wants flags LOCK_DENTRY_CONTENTS_R),
           Meta_lock a := grant_of (wants flags LOCK_DENTRY_META_W) (wants flags LOCK_DENTRY_META_R)))"

text \<open>The state after a lookup that found \<open>a\<close>, in the directory \<open>par\<close> if there is one.\<close>

definition looked_up :: "u8 \<Rightarrow> nat option \<Rightarrow> nat \<Rightarrow> fs \<Rightarrow> fs" where
  "looked_up flags par a t =
     (add_handles a 1 (case par of None \<Rightarrow> t
        | Some q \<Rightarrow> if wants flags PARENT_FLAGS then add_handles q 1 t else t))
      \<lparr>locks := asked_locks t flags par a\<rparr>"

lemma keep_lock_ok:
  "locks s l = Nothing \<Longrightarrow> lock_alive l s \<Longrightarrow> keep_lock l w r s = s\<lparr>locks := (locks s)(l := grant_of w r)\<rparr>"
  by (cases s) (auto simp: keep_lock_def grant_of_def lock_steps set_lock_ok fun_upd_idem)

definition resolve_path :: "icu \<Rightarrow> string \<Rightarrow> fs \<Rightarrow> int + nat option \<times> nat" where
  "resolve_path u path s =
     (if path = [] \<or> path = ''/'' then Inr (None, fs_root s)
      else case resolve u (fs_root s) (components (tl path)) s of
        Inl rc \<Rightarrow> Inl rc | Inr (q, a) \<Rightarrow> Inr (Some q, a))"

lemma wants_or: "wants flags (a OR b) = (wants flags a \<or> wants flags b)"
  by (simp add: wants_def bit.conj_disj_distrib or_eq_0_iff)

lemma components_nonempty: "components s \<noteq> []"
  by (induction s) (auto split: list.splits)

lemma lookup_root_bump:
  assumes "tree u t" and "unlocked t"
  shows "releasewrite (Meta_lock (fs_root t)) (change (fs_root t) (\<lambda>d. d\<lparr>numhandles := numhandles d + 1\<rparr>)
     (acquirewrite (Meta_lock (fs_root t)) t)) = at_directory None (fs_root t) t"
proof -
  have "heap t (fs_root t) \<noteq> None" using tree_root [OF assms(1)] by (auto simp: root_ok_def)
  moreover have "(add_handles (fs_root t) 1 t)\<lparr>locks := quiet t\<rparr> = add_handles (fs_root t) 1 t"
    using assms(2) by (intro relock_free) (simp add: unlocked_locks)
  ultimately show ?thesis
    using handles_under_lock [of t "fs_root t" 1] assms(2)
    by (simp add: at_directory_def reading_from_def unlocked_locks)
qed

lemma asked_steps:
  assumes "heap t a \<noteq> None" and "par \<noteq> Some a" and "\<And>q. par = Some q \<Longrightarrow> heap t q \<noteq> None"
    and "s = (add_handles a 1 (case par of None \<Rightarrow> t | Some q \<Rightarrow> if wants flags PARENT_FLAGS then add_handles q 1 t else t))
      \<lparr>locks := (case par of None \<Rightarrow> quiet t
        | Some q \<Rightarrow> (quiet t)(Contents_lock q := (if wants flags (LOCK_PARENT_CONTENTS_W OR LOCK_PARENT_CONTENTS_R)
            then if wants flags LOCK_PARENT_CONTENTS_W then Exclusive else Shared else Nothing)))\<rparr>"
  shows "(let s = (case par of None \<Rightarrow> s | Some p \<Rightarrow> keep_lock (Meta_lock p) (wants flags LOCK_PARENT_META_W)
             (wants flags LOCK_PARENT_META_R) s);
             s = keep_lock (Contents_lock a) (wants flags LOCK_DENTRY_CONTENTS_W) (wants flags LOCK_DENTRY_CONTENTS_R) s
         in keep_lock (Meta_lock a) (wants flags LOCK_DENTRY_META_W) (wants flags LOCK_DENTRY_META_R) s) =
       looked_up flags par a t"
  using assms
  by (cases par) (simp_all add: Let_def keep_lock_ok looked_up_def asked_locks_def)

theorem path_lookup:
  assumes "tree u t" and "unlocked t"
  shows "fs_path_lookup u path flags t =
     (case resolve_path u path t of
        Inl rc \<Rightarrow> (rc, None, t)
      | Inr (par, a) \<Rightarrow> (0, Some a, looked_up flags par a t))"
proof -
  obtain r where r: "heap t (fs_root t) = Some r" "numhandles r \<noteq> 0"
    using tree_root [OF assms(1)] by (auto simp: root_ok_def)
  show ?thesis
  proof (cases "path = [] \<or> path = ''/''")
    case True
    have "at_directory None (fs_root t) t = (add_handles (fs_root t) 1 t)\<lparr>locks := quiet t\<rparr>"
      by (simp add: at_directory_def reading_from_def)
    then show ?thesis
      using asked_steps [of t "fs_root t" None "at_directory None (fs_root t) t" flags] r True
      by (simp add: fs_path_lookup_def lookup_root_bump [OF assms] resolve_path_def Let_def)
  next
    case False
    let ?ws = "components (tl path)"
    have loop: "case resolve u (fs_root t) ?ws t of
        Inl rc \<Rightarrow> \<exists>q. path_loop u flags None (fs_root t) ?ws (at_directory None (fs_root t) t) = (rc, q, None, t) \<and> rc \<noteq> 0
      | Inr (q, a) \<Rightarrow> path_loop u flags None (fs_root t) ?ws (at_directory None (fs_root t) t) =
          (0, Some q, Some a, found_state flags q a t) \<and> q \<noteq> a \<and> heap t q \<noteq> None \<and> heap t a \<noteq> None"
      by (rule path_loop_resolves [OF assms components_nonempty r]) simp_all
    show ?thesis
    proof (cases "resolve u (fs_root t) ?ws t")
      case (Inl rc)
      then show ?thesis
        using loop False by (auto simp: fs_path_lookup_def lookup_root_bump [OF assms] resolve_path_def Let_def)
    next
      case (Inr qa)
      then obtain q a where qa: "resolve u (fs_root t) ?ws t = Inr (q, a)" by (cases qa) simp
      then have f: "path_loop u flags None (fs_root t) ?ws (at_directory None (fs_root t) t) =
          (0, Some q, Some a, found_state flags q a t)" "q \<noteq> a" "heap t q \<noteq> None" "heap t a \<noteq> None"
        using loop by simp_all
      define S where "S = (if \<not> wants flags (LOCK_PARENT_CONTENTS_W OR LOCK_PARENT_CONTENTS_R)
                then releaseread (Contents_lock (the (Some q))) (found_state flags q a t) else found_state flags q a t)"
      have "\<not> wants flags (LOCK_PARENT_CONTENTS_W OR LOCK_PARENT_CONTENTS_R) \<Longrightarrow> \<not> wants flags LOCK_PARENT_CONTENTS_W"
        by (simp add: wants_or)
      then have s: "S = (add_handles a 1 (if wants flags PARENT_FLAGS then add_handles q 1 t else t))
          \<lparr>locks := (quiet t)(Contents_lock q := (if wants flags (LOCK_PARENT_CONTENTS_W OR LOCK_PARENT_CONTENTS_R)
            then if wants flags LOCK_PARENT_CONTENTS_W then Exclusive else Shared else Nothing))\<rparr>"
        using f by (auto simp: S_def found_state_def lock_steps set_lock_ok)
      have "(let s = keep_lock (Meta_lock q) (wants flags LOCK_PARENT_META_W) (wants flags LOCK_PARENT_META_R) S;
             s = keep_lock (Contents_lock a) (wants flags LOCK_DENTRY_CONTENTS_W) (wants flags LOCK_DENTRY_CONTENTS_R) s
         in keep_lock (Meta_lock a) (wants flags LOCK_DENTRY_META_W) (wants flags LOCK_DENTRY_META_R) s) =
         looked_up flags (Some q) a t"
        using asked_steps [of t a "Some q" S flags] s f(2-4) by simp
      then show ?thesis
        using f(1) False
        by (simp add: fs_path_lookup_def lookup_root_bump [OF assms] resolve_path_def qa Let_def S_def [symmetric]
            split del: if_split)
    qed
  qed
qed


section \<open>Paths of linked dentries\<close>

inductive at_path :: "fs \<Rightarrow> nat \<Rightarrow> string list \<Rightarrow> bool" for s where
  at_root: "at_path s (fs_root s) []"
| at_child: "at_path s p ns \<Longrightarrow> heap s p = Some x \<Longrightarrow> e \<in> set (child_list x) \<Longrightarrow>
    platform_safe_name (get (nl_d e) s) = Some n \<Longrightarrow> at_path s (nl_d e) (ns @ [n])"

lemma find_key: "distinct (map f xs) \<Longrightarrow> e \<in> set xs \<Longrightarrow> find (\<lambda>e'. f e' = f e) xs = Some e"
  by (induction xs) force+

lemma child_of_linked:
  assumes "tree u s" and "heap s p = Some x" and "e \<in> set (child_list x)"
    and "platform_safe_name (get (nl_d e) s) = Some n"
  shows "child_of u p n s = (0, Some (nl_d e))" and "name_ok n"
proof -
  have c: "child_ok u s p e" by (rule tree_child [OF assms(1-3)])
  then have key: "generate_hash_key_name u n = (0, Some (nl_name e))" and n: "name_ok n"
    using assms(4) by (auto simp: child_ok_def get_def)
  then show "name_ok n" by simp
  have "distinct (map nl_name (child_list x))" using assms(1,2) by (simp add: tree_def)
  then have "find (\<lambda>e'. nl_name e' = nl_name e) (child_list x) = Some e"
    using assms(3) by (rule find_key)
  then show "child_of u p n s = (0, Some (nl_d e))"
    using n key assms(2,3) by (auto simp: child_of_def fs_find_key_from_hash_table_def get_def name_ok_def)
qed

lemma resolve_append:
  "ws \<noteq> [] \<Longrightarrow> resolve u d ws s = Inr (q, a) \<Longrightarrow> child_of u a w s = (0, Some b) \<Longrightarrow>
   resolve u d (ws @ [w]) s = Inr (a, b)"
proof (induction ws arbitrary: d)
  case (Cons v ws)
  then show ?case by (cases "child_of u d v s"; cases ws) (auto split: option.splits)
qed simp

lemma at_path_resolves:
  assumes "at_path s a ns" and "tree u s"
  shows "(ns = [] \<longrightarrow> a = fs_root s) \<and> (ns \<noteq> [] \<longrightarrow> (\<exists>q. resolve u (fs_root s) ns s = Inr (q, a))) \<and>
    list_all name_ok ns \<and> heap s a \<noteq> None"
  using assms
proof (induction rule: at_path.induct)
  case at_root
  then show ?case by (auto simp: tree_def root_ok_def)
next
  case (at_child p ns x e n)
  note c = child_of_linked [OF at_child.prems at_child.hyps(2-4)]
  have "heap s (nl_d e) \<noteq> None" using tree_child [OF at_child.prems at_child.hyps(2,3)] by (auto simp: child_ok_def)
  moreover have "\<exists>q. resolve u (fs_root s) (ns @ [n]) s = Inr (q, nl_d e)"
    using at_child.IH [OF at_child.prems] c resolve_append by (cases "ns = []") fastforce+
  ultimately show ?case using at_child.IH [OF at_child.prems] c by simp
qed

lemma components_word: "CHR ''/'' \<notin> set w \<Longrightarrow> components w = [w]"
  by (induction w) auto

lemma components_more: "CHR ''/'' \<notin> set w \<Longrightarrow> components (w @ ''/'' @ s) = w # components s"
  by (induction w) auto

lemma components_join: "ns \<noteq> [] \<Longrightarrow> list_all name_ok ns \<Longrightarrow> components (join ns) = ns"
  by (induction ns rule: join.induct) (auto simp: name_ok_def components_word components_more [simplified])

lemma join_nonempty: "ns \<noteq> [] \<Longrightarrow> list_all name_ok ns \<Longrightarrow> join ns \<noteq> []"
  by (induction ns rule: join.induct) (auto simp: name_ok_def)

text \<open>The walk to the root, under the lock of each parent in turn.\<close>

lemma dentry_names_path:
  assumes "at_path s a ns" and "tree u s" and "unlocked s"
    and "\<forall>a c. heap s a = Some c \<longrightarrow> (\<forall>p. parent c = Some p \<longrightarrow> depth p < depth a)" and "depth a < n"
  shows "dentry_names n a s = (0, ''/'' # ns, s)"
  using assms(1,5)
proof (induction arbitrary: n rule: at_path.induct)
  case at_root
  obtain r where "heap s (fs_root s) = Some r" "parent r = None" "platform_safe_name r = None" "\<not> deleted r"
    using tree_root [OF assms(2)] by (auto simp: root_ok_def)
  then show ?case using at_root by (cases n) (auto simp: get_def)
next
  case (at_child p ns x e m)
  obtain c where c: "heap s (nl_d e) = Some c" "parent c = Some p"
    using tree_child [OF assms(2) at_child.hyps(2,3)] by (auto simp: child_ok_def)
  then have d: "depth p < depth (nl_d e)" using assms(4) by blast
  obtain k where k: "n = Suc k" using at_child.prems by (cases n) auto
  have IH: "dentry_names k p s = (0, ''/'' # ns, s)" using at_child.IH at_child.prems d k by simp
  have "releaseread (Contents_lock p) (acquireread (Contents_lock p) s) = s"
    using at_child.hyps(2) assms(3) relock_free [of s] unlocked_locks [OF assms(3)]
    by (simp add: lock_steps set_lock_ok)
  then show ?case using c at_child.hyps(4) IH k by (simp add: get_def)
qed

section \<open>A small tree\<close>

definition small_root :: fs_dentry where
  "small_root = blank_dentry\<lparr>isdir := True, numhandles := 1, uid := 1, link_count := 2,
     child_list := [\<lparr>nl_name = ''docs'', nl_d = 1, nl_uid = 2\<rparr>]\<rparr>"

definition small_dir :: fs_dentry where
  "small_dir = blank_dentry\<lparr>isdir := True, numhandles := 1, uid := 2, link_count := 2, parent := Some 0,
     d_name := Some ''Docs'', platform_safe_name := Some ''Docs'',
     child_list := [\<lparr>nl_name = ''a.txt'', nl_d = 2, nl_uid = 3\<rparr>]\<rparr>"

definition small_file :: fs_dentry where
  "small_file = blank_dentry\<lparr>numhandles := 1, uid := 3, link_count := 1, parent := Some 1,
     d_name := Some ''a.txt'', platform_safe_name := Some ''a.txt''\<rparr>"

definition small_fs :: fs where
  "small_fs =
    \<lparr>heap = [0 \<mapsto> small_root, 1 \<mapsto> small_dir, 2 \<mapsto> small_file], next_addr = 3, inode_number = 3, fs_root = 0,
     uid_number = 3, file_count = 1, valid_blocks = 0,
     locks = (\<lambda>_. Nothing), misuse = False\<rparr>"

lemma small_heap: "heap small_fs a = (if a = 0 then Some small_root else if a = 1 then Some small_dir else
    if a = 2 then Some small_file else None)"
  by (simp add: small_fs_def)

lemma small_keys: "generate_hash_key_name ascii_icu ''Docs'' = (0, Some ''docs'')"
  "generate_hash_key_name ascii_icu ''a.txt'' = (0, Some ''a.txt'')"
  by code_simp+

lemma small_names: "name_ok ''Docs'' \<and> name_ok ''a.txt''"
  by code_simp

lemma small_fields:
  "child_list small_root = [\<lparr>nl_name = ''docs'', nl_d = 1, nl_uid = 2\<rparr>]"
  "child_list small_dir = [\<lparr>nl_name = ''a.txt'', nl_d = 2, nl_uid = 3\<rparr>]" "child_list small_file = []"
  "parent small_root = None" "parent small_dir = Some 0" "parent small_file = Some 1"
  "platform_safe_name small_root = None" "platform_safe_name small_dir = Some ''Docs''"
  "platform_safe_name small_file = Some ''a.txt''"
  "\<not> deleted small_root" "\<not> deleted small_dir" "\<not> deleted small_file"
  "numhandles small_root = 1" "numhandles small_dir = 1" "numhandles small_file = 1"
  "uid small_dir = 2" "uid small_file = 3" "fs_root small_fs = 0" "next_addr small_fs = 3"
  by (simp_all add: small_root_def small_dir_def small_file_def blank_dentry_def small_fs_def)

lemma small_tree: "tree ascii_icu small_fs"
proof -
  note s = small_heap small_fields
  have cases: "heap small_fs a = Some c \<Longrightarrow> a = 0 \<and> c = small_root \<or> a = 1 \<and> c = small_dir \<or> a = 2 \<and> c = small_file"
    for a c by (simp add: small_heap split: if_splits)
  have "root_ok small_fs" by (simp add: root_ok_def s)
  moreover have "child_ok ascii_icu small_fs p e" if "heap small_fs p = Some x" "e \<in> set (child_list x)" for p x e
    using cases [OF that(1)] that(2) small_names small_keys by (elim disjE conjE) (simp_all add: child_ok_def s)
  moreover have "distinct (map nl_name (child_list x))" if "heap small_fs p = Some x" for p x
    using cases [OF that] by (elim disjE conjE) (simp_all add: s)
  moreover have "\<exists>x e. heap small_fs p = Some x \<and> e \<in> set (child_list x) \<and> nl_d e = a"
    if "heap small_fs a = Some c" "parent c = Some p" for a c p
    using cases [OF that(1)] that(2) by (elim disjE conjE) (simp_all add: s)
  moreover have "a < next_addr small_fs \<and> (\<forall>p. parent c = Some p \<longrightarrow> p < a)" if "heap small_fs a = Some c" for a c
    using cases [OF that] by (elim disjE conjE) (simp_all add: s)
  ultimately show ?thesis unfolding tree_def by (intro conjI exI [of _ "\<lambda>a. a"]) blast+
qed

lemma small_unlocked: "unlocked small_fs"
  by (auto simp: unlocked_def small_fs_def quiet_def)

lemma small_path: "at_path small_fs 2 [''Docs'', ''a.txt'']"
proof -
  have "at_path small_fs 1 ([] @ [''Docs''])"
    using at_child [OF at_root [of small_fs], of small_root "\<lparr>nl_name = ''docs'', nl_d = 1, nl_uid = 2\<rparr>"]
    by (simp add: small_heap get_def small_root_def small_dir_def small_fs_def blank_dentry_def)
  then show ?thesis
    using at_child [of small_fs 1 "[''Docs'']" small_dir "\<lparr>nl_name = ''a.txt'', nl_d = 2, nl_uid = 3\<rparr>"]
    by (simp add: small_heap get_def small_dir_def small_file_def blank_dentry_def)
qed

text \<open>
  C36: \<open>fs_path_lookup\<close> finds what the names of the path lead to. In a well-formed tree it walks hand over hand from
  the root, one lock of a directory at a time, and in the end the reference count of the dentry it found is one higher
  (that of the parent too if the caller asked for a lock on the parent), exactly the locks the caller asked for are held and nothing else
  has changed. If a name is missing, too long or not text, the return code says so and the state is the one from before.
\<close>

theorem lookup_exact:
  assumes "tree u s" and "unlocked s"
  shows "fs_path_lookup u path flags s =
     (case resolve_path u path s of
        Inl rc \<Rightarrow> (rc, None, s)
      | Inr (par, a) \<Rightarrow> (0, Some a, looked_up flags par a s))"
  by (rule path_lookup [OF assms])

theorem lookup_exact_witness:
  "fst (fs_path_lookup ascii_icu ''/docs/missing'' 0 small_fs) = - LTFS_NO_DENTRY \<and>
   fs_path_lookup ascii_icu ''/DOCS/A.TXT'' LOCK_PARENT_CONTENTS_W small_fs =
     (0, Some 2, looked_up LOCK_PARENT_CONTENTS_W (Some 1) 2 small_fs)"
proof -
  have "resolve_path ascii_icu ''/docs/missing'' small_fs = Inl (- LTFS_NO_DENTRY)" by code_simp
  moreover have "resolve_path ascii_icu ''/DOCS/A.TXT'' small_fs = Inr (Some 1, 2)" by code_simp
  ultimately show ?thesis
    using lookup_exact [OF small_tree small_unlocked, of "''/docs/missing''" 0]
      lookup_exact [OF small_tree small_unlocked, of "''/DOCS/A.TXT''" LOCK_PARENT_CONTENTS_W] by simp
qed

text \<open>
  C37: Paths and dentries belong together. In a well-formed tree \<open>fs_dentry_lookup\<close> prints the path
  of a linked dentry, the names from the root down with slashes between them, and \<open>fs_path_lookup\<close>
  of that path finds the same dentry: it raises its reference count by one, takes no lock the caller did not
  ask for and changes nothing else.
\<close>

theorem path_of_dentry:
  assumes "tree u s" and "unlocked s" and "at_path s a ns"
  shows "fs_dentry_lookup a s = (0, Some (''/'' @ join ns), s) \<and>
         fs_path_lookup u (''/'' @ join ns) 0 s = (0, Some a, add_handles a 1 s)"
proof
  obtain depth where depth: "\<forall>a c. heap s a = Some c \<longrightarrow> depth a < next_addr s \<and> (\<forall>p. parent c = Some p \<longrightarrow> depth p < depth a)"
    using assms(1) unfolding tree_def by blast
  note resolved = at_path_resolves [OF assms(3,1)]
  have "depth a < Suc (next_addr s)" using depth resolved by fastforce
  then have "dentry_names (Suc (next_addr s)) a s = (0, ''/'' # ns, s)"
    using depth by (intro dentry_names_path [OF assms(3,1,2)]) auto
  then show "fs_dentry_lookup a s = (0, Some (''/'' @ join ns), s)"
    by (simp add: fs_dentry_lookup_def del: dentry_names.simps)
  have none: "\<not> wants 0 f" for f by (simp add: wants_def)
  have "locks (add_handles a 1 s) = quiet s" using unlocked_locks [OF assms(2)] by simp
  then have looked: "looked_up 0 par a s = add_handles a 1 s" for par
    by (cases par) (simp_all add: looked_up_def asked_locks_def none grant_of_def relock_free)
  have "\<exists>par. resolve_path u (''/'' @ join ns) s = Inr (par, a)"
    using resolved components_join [of ns] join_nonempty [of ns] by (cases "ns = []") (auto simp: resolve_path_def)
  then show "fs_path_lookup u (''/'' @ join ns) 0 s = (0, Some a, add_handles a 1 s)"
    using path_lookup [OF assms(1,2)] looked by auto
qed

theorem path_of_dentry_witness:
  "snd (snd (fs_path_lookup ascii_icu ''/Docs/a.txt'' 0 small_fs)) = add_handles 2 1 small_fs"
  using path_of_dentry [OF small_tree small_unlocked small_path] by simp

end
