(* ===== verification/Criteria.thy ===== *)
theory Criteria imports FileNames begin

text \<open>
  Which files may go to the index partition, \<open>index_criteria.c\<close>: the rules given as text, \<open>name=\<close> with patterns between
  colons and \<open>size=\<close> with a limit, and the match of a file name with a pattern.
  \<open>snprintf\<close> is the one of C99. Characters of the rules are ASCII letters or they are not letters.
\<close>

record index_criteria =
  have_criteria :: bool
  max_filesize_criteria :: u64
  glob_patterns :: "string list option"
  glob_cache :: "u16 list list option"

section \<open>The text of the rules\<close>

datatype criteria_option = Name_option | Size_option

primrec option_text :: "criteria_option \<Rightarrow> string" where
  "option_text Name_option = ''name=''"
| "option_text Size_option = ''size=''"

definition lower :: "char \<Rightarrow> char" where
  "lower c = (let n = of_char c :: nat in if 65 \<le> n \<and> n \<le> 90 then char_of (n + 32) else c)"

text \<open>\<open>strncasecmp(substr, str, strlen(substr)) == 0\<close>\<close>

definition begins_caseless :: "criteria_option \<Rightarrow> string \<Rightarrow> bool" where
  "begins_caseless substr str \<longleftrightarrow> map lower (take 5 str) = option_text substr"

definition begins_option :: "string \<Rightarrow> bool" where
  "begins_option str \<longleftrightarrow> begins_caseless Name_option str \<or> begins_caseless Size_option str"

fun separators_ok :: "string \<Rightarrow> bool" where
  "separators_ok [] = True"
| "separators_ok (c # s) = ((c = CHR ''/'' \<longrightarrow> begins_option s) \<and> separators_ok s)"

definition index_criteria_contains_invalid_options :: "string option \<Rightarrow> bool" where
  "index_criteria_contains_invalid_options str =
     (case str of None \<Rightarrow> False
      | Some s \<Rightarrow> length s < 5 \<or> \<not> begins_option s \<or> \<not> separators_ok (tl s))"

text \<open>The first place behind a slash where the option stands; \<open>strcasestr\<close> is \<open>strstr\<close> in this build.\<close>

fun walk_to_option :: "criteria_option \<Rightarrow> string \<Rightarrow> string option" where
  "walk_to_option substr [] = None"
| "walk_to_option substr (c # s) =
     (if c = CHR ''/'' \<and> take 5 s = option_text substr then Some s else walk_to_option substr s)"

definition option_start :: "criteria_option \<Rightarrow> string \<Rightarrow> string option" where
  "option_start substr str = (if begins_caseless substr str then Some str else walk_to_option substr str)"

lemma walk_to_option: "walk_to_option substr s = Some t \<Longrightarrow> length t < length s \<and> take 5 t = option_text substr"
  by (induction s) (auto split: if_splits)

lemma option_start_shorter:
  assumes "option_start substr s = Some t"
  shows "length (dropWhile (\<lambda>c. c \<noteq> CHR ''/'') t) < length s"
proof -
  have t: "length t \<le> length s" "map lower (take 5 t) = option_text substr"
    using assms walk_to_option [of substr s t]
    by (cases substr; auto simp: option_start_def begins_caseless_def lower_def split: if_splits)+
  then obtain c r where c: "t = c # r" by (cases t; cases substr) auto
  have "c \<noteq> CHR ''/''" using t(2) c by (cases substr) (auto simp: lower_def)
  then have "length (dropWhile (\<lambda>c. c \<noteq> CHR ''/'') t) < length t"
    using c length_dropWhile_le [of "\<lambda>c. c \<noteq> CHR ''/''" r] by simp
  then show ?thesis using t(1) by simp
qed

text \<open>
  The result: not there, there (the text from the option on, and its length up to the next slash), or there twice. An option
  that is there three times is found: the search behind the first one fails then.
\<close>

datatype option_place = Missing | Found string nat | Repeated

function index_criteria_find_option :: "string \<Rightarrow> criteria_option \<Rightarrow> option_place" where
  "index_criteria_find_option str substr =
     (if length str < 5 then Missing
      else case option_start substr str of
        None \<Rightarrow> Missing
      | Some str_start \<Rightarrow>
          (case index_criteria_find_option (dropWhile (\<lambda>c. c \<noteq> CHR ''/'') str_start) substr of
             Found _ _ \<Rightarrow> Repeated
           | _ \<Rightarrow> Found str_start (length (takeWhile (\<lambda>c. c \<noteq> CHR ''/'') str_start))))"
  by pat_completeness auto
termination by (relation "measure (\<lambda>(str, substr). length str)") (auto dest: option_start_shorter)

declare index_criteria_find_option.simps [simp del]

definition is_alpha :: "char \<Rightarrow> bool" where
  "is_alpha c \<longleftrightarrow> (let n = of_char c :: nat in 65 \<le> n \<and> n \<le> 90 \<or> 97 \<le> n \<and> n \<le> 122)"

definition is_digit :: "char \<Rightarrow> bool" where
  "is_digit c \<longleftrightarrow> (let n = of_char c :: nat in 48 \<le> n \<and> n \<le> 57)"

fun letters_meet :: "string \<Rightarrow> bool" where
  "letters_meet (a # b # s) = (is_alpha a \<and> is_alpha b \<or> letters_meet (b # s))"
| "letters_meet _ = False"

text \<open>
  \<open>len\<close> is the length of the option and 1. For an empty value the code looks at the byte in front of
  its buffer before it returns this error, whatever that byte is.
\<close>

definition index_criteria_parse_size :: "string \<Rightarrow> nat \<Rightarrow> index_criteria \<Rightarrow> int \<times> index_criteria" where
  "index_criteria_parse_size criteria len ic =
     (let rule = take (len - 6) (drop 5 criteria) in
      if letters_meet rule then (- LTFS_POLICY_INVALID, ic)
      else if rule = [] then (- LTFS_POLICY_INVALID, ic)
      else
        let multiplier = (if \<not> is_alpha (last rule) then Some (1 :: u64)
              else if last rule = CHR ''k'' \<or> last rule = CHR ''K'' then Some 1024
              else if last rule = CHR ''m'' \<or> last rule = CHR ''M'' then Some (1024 * 1024)
              else if last rule = CHR ''g'' \<or> last rule = CHR ''G'' then Some (1024 * 1024 * 1024) else None);
            digits = (if is_alpha (last rule) then butlast rule else rule)
        in case multiplier of
             None \<Rightarrow> (- LTFS_POLICY_INVALID, ic)
           | Some m \<Rightarrow>
               if digits = [] \<or> \<not> is_digit (hd digits) then (- LTFS_POLICY_INVALID, ic)
               else (0, ic\<lparr>max_filesize_criteria := fst (strtoull 10 digits) * m\<rparr>))"

text \<open>A colon at the front, at the end or behind another one.\<close>

fun colons_meet :: "string \<Rightarrow> bool" where
  "colons_meet (a # b # s) = (b = CHR '':'' \<and> (a = CHR '':'' \<or> s = []) \<or> colons_meet (b # s))"
| "colons_meet _ = False"

definition empty_rule :: "string \<Rightarrow> bool" where
  "empty_rule s \<longleftrightarrow> (\<exists>r. s = CHR '':'' # r) \<or> colons_meet s"

fun rules_of :: "string \<Rightarrow> string list" where
  "rules_of [] = [[]]"
| "rules_of (c # s) =
     (if c = CHR '':'' then [] # rules_of s
      else case rules_of s of w # ws \<Rightarrow> (c # w) # ws | [] \<Rightarrow> [[c]])"

text \<open>The first error of a list of checks.\<close>

fun first_error :: "('a \<Rightarrow> int) \<Rightarrow> 'a list \<Rightarrow> int" where
  "first_error f [] = 0"
| "first_error f (x # xs) = (if f x = 0 then first_error f xs else f x)"

text \<open>
  The patterns. The byte behind the terminating zero of an empty value, which the code reads though it never wrote
  it, is taken to be zero. \<open>mem\<close> says whether the array was allocated.
\<close>

definition index_criteria_parse_name ::
    "icu \<Rightarrow> bool \<Rightarrow> string \<Rightarrow> nat \<Rightarrow> index_criteria \<Rightarrow> int \<times> index_criteria" where
  "index_criteria_parse_name u mem criteria len ic =
     (let rule = take (len - 6) (drop 5 criteria) in
      if empty_rule rule then (- LTFS_POLICY_EMPTY_RULE, ic)
      else if \<not> mem then (- LTFS_NO_MEMORY, ic\<lparr>glob_patterns := None\<rparr>)
      else (first_error (\<lambda>r. pathname_validate_file u r 0) (rules_of rule),
            ic\<lparr>glob_patterns := Some (rules_of rule)\<rparr>))"

definition index_criteria_free :: "index_criteria \<Rightarrow> index_criteria" where
  "index_criteria_free ic =
     (if \<not> have_criteria ic then ic
      else \<lparr>have_criteria = False, max_filesize_criteria = 0, glob_patterns = None, glob_cache = None\<rparr>)"

definition index_criteria_parse :: "icu \<Rightarrow> bool \<Rightarrow> string option \<Rightarrow> index_criteria \<Rightarrow> int \<times> index_criteria" where
  "index_criteria_parse u mem filterrules ic =
     (case filterrules of
        None \<Rightarrow> (0, ic\<lparr>have_criteria := False\<rparr>)
      | Some rules \<Rightarrow>
          let ic = (index_criteria_free ic)\<lparr>have_criteria := True\<rparr> in
          if index_criteria_contains_invalid_options filterrules then (- LTFS_POLICY_INVALID, ic)
          else
            let place = index_criteria_find_option rules Name_option;
                (ret, ic) = (case place of
                    Found start n \<Rightarrow> index_criteria_parse_name u mem start (n + 1) ic
                  | Missing \<Rightarrow> (0, ic)
                  | Repeated \<Rightarrow> (- LTFS_POLICY_INVALID, ic))
            in if ret < 0 then (ret, ic)
               else
                 let ic = ic\<lparr>max_filesize_criteria := 0\<rparr> in
                 (case index_criteria_find_option rules Size_option of
                    Found start n \<Rightarrow> index_criteria_parse_size start (n + 1) ic
                  | Missing \<Rightarrow> (if place = Missing then 0 else - LTFS_POLICY_INVALID, ic)
                  | Repeated \<Rightarrow> (- LTFS_POLICY_INVALID, ic)))"

text \<open>The copy has no cache. \<open>array_ok\<close> and \<open>names_ok\<close> are the allocations of the array and of the patterns.\<close>

definition index_criteria_dup_rules :: "bool \<Rightarrow> bool \<Rightarrow> index_criteria \<Rightarrow> int \<times> index_criteria" where
  "index_criteria_dup_rules array_ok names_ok src_ic =
     (if have_criteria src_ic \<and> glob_patterns src_ic \<noteq> None \<and> \<not> (array_ok \<and> names_ok)
      then (- LTFS_NO_MEMORY, src_ic\<lparr>glob_cache := None\<rparr>)
      else (0, src_ic\<lparr>glob_cache := None\<rparr>))"

definition index_criteria_get_max_filesize :: "index_criteria \<Rightarrow> u64" where
  "index_criteria_get_max_filesize ic = (if have_criteria ic then max_filesize_criteria ic else 0)"

definition index_criteria_get_glob_patterns :: "index_criteria \<Rightarrow> string list option" where
  "index_criteria_get_glob_patterns ic = (if have_criteria ic then glob_patterns ic else None)"

section \<open>Patterns\<close>

text \<open>
  A text is seen as its grapheme clusters; ICU finds them (\<open>graphemes\<close>, \<open>None\<close> if the iterator cannot
  be opened). The position of an iterator is the list of the clusters still to come, the current one first.
\<close>

type_synonym clusters = "u16 list list"

abbreviation asterisk :: "u16 list" where "asterisk \<equiv> [0x2a]"
abbreviation question_mark :: "u16 list" where "question_mark \<equiv> [0x3f]"

text \<open>
  The stack, bottom first. A new element always goes on the bottom one: what was above it is lost.
\<close>

type_synonym filename_ustack = "(clusters \<times> clusters) list"

definition push_ustack :: "filename_ustack \<Rightarrow> clusters \<times> clusters \<Rightarrow> filename_ustack" where
  "push_ustack stack element = (case stack of [] \<Rightarrow> [element] | base # _ \<Rightarrow> [base, element])"

definition pop_ustack :: "filename_ustack \<Rightarrow> (clusters \<times> clusters) \<times> filename_ustack" where
  "pop_ustack stack = (last stack, butlast stack)"

text \<open>The work that is left, for termination: a position on the stack is worth less than the one it was pushed from.\<close>

definition stack_work :: "filename_ustack \<Rightarrow> nat" where
  "stack_work stack = sum_list (map (\<lambda>(c, f). 3 ^ length (tl f)) stack)"

lemma push_work: "stack_work (push_ustack stack (c, f)) \<le> stack_work stack + 3 ^ length (tl f)"
  by (auto simp: push_ustack_def stack_work_def split: list.splits)

lemma pop_work:
  assumes "stack \<noteq> []" and "pop_ustack stack = ((c, f), rest)"
  shows "stack_work stack = 3 ^ length (tl f) + stack_work rest"
proof -
  have "stack = rest @ [(c, f)]" using assms by (metis append_butlast_last_id fst_conv pop_ustack_def snd_conv)
  then show ?thesis by (simp add: stack_work_def)
qed

lemma next_work: "f \<noteq> [] \<Longrightarrow> 3 ^ length (tl f) + 3 ^ length (tl f) < (3 :: nat) ^ length f"
  by (cases f) auto

function glob_loop :: "clusters \<Rightarrow> clusters \<Rightarrow> bool \<Rightarrow> filename_ustack \<Rightarrow> bool" where
  "glob_loop criteria filename have_asterisk stack =
     (let cr = dropWhile (\<lambda>c. c = asterisk) criteria;
          star = (have_asterisk \<or> cr \<noteq> criteria)
      in if criteria \<noteq> [] \<and> cr = [] then True
      else if cr = [] \<and> filename = [] then True
      else if cr = [] \<or> filename = [] \<or>
              \<not> star \<and> hd cr \<noteq> question_mark \<and> hd cr \<noteq> hd filename then
        (if stack = [] then False
         else case pop_ustack stack of ((c, f), rest) \<Rightarrow> glob_loop c (tl f) True rest)
      else if hd cr = question_mark \<or> hd cr = hd filename then
        glob_loop (tl cr) (tl filename) False (if star then push_ustack stack (cr, filename) else stack)
      else glob_loop cr (tl filename) True stack)"
  by pat_completeness auto
termination
proof (relation "measure (\<lambda>(criteria, filename, have_asterisk, stack). 3 ^ length filename + stack_work stack)", goal_cases)
  case (2 criteria filename have_asterisk stack cr star top rest c f)
  from this(6) have "stack \<noteq> []" .
  moreover from 2(7,8) have "pop_ustack stack = ((c, f), rest)" by metis
  ultimately have "stack_work stack = 3 ^ length (tl f) + stack_work rest" by (rule pop_work)
  then show ?case by simp
next
  case (3 criteria filename have_asterisk stack)
  then have work: "3 ^ length (tl filename) + 3 ^ length (tl filename) < (3 :: nat) ^ length filename"
    by (intro next_work) blast
  have "3 ^ length (tl filename) + stack_work (if b then push_ustack stack (c, filename) else stack)
      < 3 ^ length filename + stack_work stack" for b c
    using work push_work [of stack c filename] by (simp only: split: if_split) linarith
  then show ?case by simp
next
  case (4 criteria filename have_asterisk stack)
  then have "filename \<noteq> []" by blast
  then show ?case by (cases filename) simp_all
qed simp

declare glob_loop.simps [simp del]

definition matches_name_criteria_caseless ::
    "(u16 list \<Rightarrow> clusters option) \<Rightarrow> u16 list \<Rightarrow> u16 list \<Rightarrow> int" where
  "matches_name_criteria_caseless graphemes criteria filename =
     (if criteria = [] \<and> filename = [] then 1
      else if criteria = [] then 0
      else case (graphemes criteria, graphemes filename) of
        (Some cr, Some fi) \<Rightarrow> if glob_loop cr fi False [] then 1 else 0
      | _ \<Rightarrow> - LTFS_ICU_ERROR)"

text \<open>
  The patterns in the form that names are compared in. Where one cannot be converted the cache stays with those before it,
  and the next match uses it as it is.
\<close>

fun glob_cache_of :: "icu \<Rightarrow> string list \<Rightarrow> int \<times> u16 list list" where
  "glob_cache_of u [] = (0, [])"
| "glob_cache_of u (p # ps) =
     (case pathname_prepare_caseless u p False of
        (ret, Some w) \<Rightarrow>
          if ret < 0 then (ret, []) else (case glob_cache_of u ps of (ret, ws) \<Rightarrow> (ret, w # ws))
      | (ret, None) \<Rightarrow> (ret, []))"

definition prepare_glob_cache :: "icu \<Rightarrow> bool \<Rightarrow> index_criteria \<Rightarrow> int \<times> index_criteria" where
  "prepare_glob_cache u mem ic =
     (if \<not> mem then (- LTFS_NO_MEMORY, ic\<lparr>glob_cache := None\<rparr>)
      else case glob_cache_of u (the (glob_patterns ic)) of (ret, cache) \<Rightarrow> (ret, ic\<lparr>glob_cache := Some cache\<rparr>))"

text \<open>A negative return code becomes \<open>true\<close> in the \<open>bool\<close> that is returned.\<close>

definition index_criteria_match ::
    "icu \<Rightarrow> (u16 list \<Rightarrow> clusters option) \<Rightarrow> bool \<Rightarrow> string \<Rightarrow> index_criteria \<Rightarrow> bool \<times> index_criteria" where
  "index_criteria_match u graphemes mem name ic =
     (if \<not> have_criteria ic \<or> max_filesize_criteria ic = 0 then (False, ic)
      else if glob_patterns ic = None then (True, ic)
      else case (if glob_cache ic = None then prepare_glob_cache u mem ic else (0, ic)) of (ret, ic) \<Rightarrow>
      if ret < 0 then (True, ic)
      else case pathname_prepare_caseless u name False of
        (ret, Some dname) \<Rightarrow>
          if ret < 0 then (True, ic)
          else (\<exists>glob \<in> set (the (glob_cache ic)). 0 < matches_name_criteria_caseless graphemes glob dname, ic)
      | (ret, None) \<Rightarrow> (True, ic))"

end
