(* ===== verification/CriteriaSpec.thy ===== *)
theory CriteriaSpec imports Criteria begin

text \<open>
  The matcher of file names against what a pattern means. Though the stack of positions to come back to
  keeps only its bottom and its top element, the answer is always the right one: a match that exists can be found
  by coming back to the last asterisk.
\<close>

section \<open>What a pattern means\<close>

fun glob_matches :: "clusters \<Rightarrow> clusters \<Rightarrow> bool" where
  "glob_matches [] f = (f = [])"
| "glob_matches (c # cr) f =
     (if c = asterisk then glob_matches cr f \<or> (case f of [] \<Rightarrow> False | _ # f \<Rightarrow> glob_matches (c # cr) f)
      else case f of [] \<Rightarrow> False | x # f \<Rightarrow> (c = question_mark \<or> c = x) \<and> glob_matches cr f)"

abbreviation later :: "clusters \<Rightarrow> clusters \<Rightarrow> bool" where
  "later cr f \<equiv> glob_matches (asterisk # cr) f"

lemma later_drop: "later cr f = (\<exists>k. glob_matches cr (drop k f))"
proof (induction f)
  case (Cons x f)
  have "(\<exists>k. glob_matches cr (drop k (x # f))) = (glob_matches cr (x # f) \<or> (\<exists>k. glob_matches cr (drop k f)))"
    by (metis drop0 drop_Suc_Cons not0_implies_Suc)
  then show ?case using Cons.IH by simp
qed simp

lemma later_now: "glob_matches cr f \<Longrightarrow> later cr f"
  using later_drop [of cr f] by (metis drop0)

lemma later_mono: "later cr (drop k f) \<Longrightarrow> later cr f"
  by (auto simp: later_drop simp del: glob_matches.simps)

lemma later_asterisk: "later (asterisk # cr) f = later cr f"
proof -
  have "(\<exists>k j. glob_matches cr (drop j (drop k f))) = (\<exists>k. glob_matches cr (drop k f))"
    by (metis drop0 drop_drop)
  then show ?thesis using later_drop [of "asterisk # cr" f] by (simp only: later_drop [of cr])
qed

lemma later_strip: "later (dropWhile (\<lambda>c. c = asterisk) cr) f = later cr f"
  by (induction cr) (auto simp: later_asterisk simp del: glob_matches.simps)

lemma matches_strip:
  "dropWhile (\<lambda>c. c = asterisk) cr \<noteq> cr \<Longrightarrow> glob_matches cr f = later (dropWhile (\<lambda>c. c = asterisk) cr) f"
  by (cases cr) (auto simp: later_strip simp del: glob_matches.simps split: if_splits)

lemma later_nothing [simp]: "later [] f"
  by (induction f) auto

lemma later_next: "f \<noteq> [] \<Longrightarrow> later cr f = (glob_matches cr f \<or> later cr (tl f))"
  by (cases f) auto

lemma matches_next:
  "cr \<noteq> [] \<Longrightarrow> hd cr \<noteq> asterisk \<Longrightarrow> f \<noteq> [] \<Longrightarrow>
   glob_matches cr f = ((hd cr = question_mark \<or> hd cr = hd f) \<and> glob_matches (tl cr) (tl f))"
  by (cases cr; cases f) auto

lemma matches_end: "cr \<noteq> [] \<Longrightarrow> hd cr \<noteq> asterisk \<Longrightarrow> \<not> glob_matches cr []"
  by (cases cr) auto

declare glob_matches.simps [simp del]

text \<open>A match of the front, which has no asterisk, leaves a match of the rest.\<close>

lemma matches_drop: "glob_matches cr f \<Longrightarrow> asterisk \<notin> set (take n cr) \<Longrightarrow> glob_matches (drop n cr) (drop n f)"
proof (induction n arbitrary: cr f)
  case (Suc n)
  show ?case
  proof (cases cr)
    case Nil
    then show ?thesis using Suc.prems(1) by (simp add: glob_matches.simps(1))
  next
    case (Cons c cr')
    then have c: "c \<noteq> asterisk" "asterisk \<notin> set (take n cr')" using Suc.prems(2) by auto
    then obtain x f' where "f = x # f'" using Suc.prems(1) Cons matches_end [of cr] by (cases f) auto
    then show ?thesis using Suc.IH [OF _ c(2)] Suc.prems(1) matches_next [of cr f] Cons c(1) by simp
  qed
qed simp

lemma later_drop_front:
  assumes "later cr (tl f)" and "asterisk \<notin> set (take n cr)"
  shows "later (drop n cr) (drop n f)"
proof -
  obtain k where "glob_matches cr (drop (Suc k) f)" using assms(1) by (auto simp: later_drop drop_Suc)
  then have "glob_matches (drop n cr) (drop (Suc k) (drop n f))"
    using matches_drop [of cr "drop (Suc k) f" n] assms(2) by (simp add: add.commute)
  then show ?thesis using later_mono later_now by blast
qed

section \<open>The loop\<close>

text \<open>
  Coming back to an element of the stack finds nothing that is not there. With an asterisk before it, the position decides on its own;
  without one it follows the position on top of the stack cluster by cluster.
\<close>

definition follows :: "clusters \<Rightarrow> clusters \<Rightarrow> clusters \<times> clusters \<Rightarrow> bool" where
  "follows cr fi e \<longleftrightarrow>
     (\<exists>n. cr = drop n (fst e) \<and> fi = drop n (snd e) \<and> asterisk \<notin> set (take n (fst e)))"

definition stack_sound :: "bool \<Rightarrow> filename_ustack \<Rightarrow> bool" where
  "stack_sound A stack \<longleftrightarrow> (\<forall>(c, f) \<in> set stack. c \<noteq> [] \<and> hd c \<noteq> asterisk \<and> (later c (tl f) \<longrightarrow> A))"

definition decides :: "bool \<Rightarrow> clusters \<Rightarrow> clusters \<Rightarrow> bool \<Rightarrow> filename_ustack \<Rightarrow> bool" where
  "decides A cr fi star stack \<longleftrightarrow> stack_sound A stack \<and>
     (if star then cr \<noteq> [] \<and> A = later cr fi
      else if stack = [] then A = glob_matches cr fi
      else A = (glob_matches cr fi \<or> later (fst (last stack)) (tl (snd (last stack)))) \<and> follows cr fi (last stack))"

lemma decides_strip:
  assumes "decides A cr fi star stack" and "dropWhile (\<lambda>c. c = asterisk) cr \<noteq> cr"
  shows "A = later (dropWhile (\<lambda>c. c = asterisk) cr) fi"
proof (cases "star \<or> stack = []")
  case True
  then have "A = later cr fi \<or> A = glob_matches cr fi" using assms(1) unfolding decides_def by presburger
  then show ?thesis using later_strip matches_strip [OF assms(2)] by blast
next
  case False
  then have A: "A = (glob_matches cr fi \<or> later (fst (last stack)) (tl (snd (last stack))))" "follows cr fi (last stack)"
    using assms(1) unfolding decides_def by presburger+
  then have "later (fst (last stack)) (tl (snd (last stack))) \<Longrightarrow> later cr fi"
    using later_drop_front unfolding follows_def by blast
  then show ?thesis using A(1) matches_strip [OF assms(2)] later_strip by blast
qed

lemma stack_sound_pop:
  assumes "stack_sound A stack" and "stack \<noteq> []" and "pop_ustack stack = ((c, f), rest)"
  shows "c \<noteq> []" and "hd c \<noteq> asterisk" and "later c (tl f) \<Longrightarrow> A" and "stack_sound A rest" and "last stack = (c, f)"
proof -
  have s: "stack = rest @ [(c, f)]"
    using assms(2,3) by (metis append_butlast_last_id fst_conv pop_ustack_def snd_conv)
  show "c \<noteq> []" "hd c \<noteq> asterisk" "later c (tl f) \<Longrightarrow> A" "stack_sound A rest" "last stack = (c, f)"
    using assms(1) by (auto simp: stack_sound_def s)
qed

lemma stack_sound_push:
  "stack_sound A stack \<Longrightarrow> c \<noteq> [] \<Longrightarrow> hd c \<noteq> asterisk \<Longrightarrow> (later c (tl f) \<Longrightarrow> A) \<Longrightarrow> stack_sound A (push_ustack stack (c, f))"
  by (auto simp: stack_sound_def push_ustack_def split: list.splits)

lemma push_last [simp]: "push_ustack stack e \<noteq> [] \<and> last (push_ustack stack e) = e"
  by (auto simp: push_ustack_def split: list.splits)

text \<open>A position from which there is no match.\<close>

lemma decides_pop:
  assumes "decides A cr fi star stack" and "stack \<noteq> []" and "pop_ustack stack = ((c, f), rest)"
    and "\<not> glob_matches cr fi" and "star \<Longrightarrow> \<not> later cr fi"
  shows "decides A c (tl f) True rest"
proof -
  have sound: "stack_sound A stack" using assms(1) by (simp add: decides_def)
  note p = stack_sound_pop [OF sound assms(2,3)]
  have "A = later c (tl f)"
    using assms p(3,5) by (auto simp: decides_def split: if_splits)
  then show ?thesis using p by (simp add: decides_def)
qed

lemma decides_match:
  assumes "decides A cr fi star stack" and "cr \<noteq> []" and "hd cr \<noteq> asterisk" and "fi \<noteq> []"
    and "hd cr = question_mark \<or> hd cr = hd fi"
  shows "decides A (tl cr) (tl fi) False (if star then push_ustack stack (cr, fi) else stack)"
proof -
  have m: "glob_matches cr fi = glob_matches (tl cr) (tl fi)" using assms(2-5) by (simp add: matches_next)
  have sound: "stack_sound A stack" using assms(1) by (simp add: decides_def)
  show ?thesis
  proof (cases star)
    case True
    then have A: "A = (glob_matches (tl cr) (tl fi) \<or> later cr (tl fi))"
      using assms(1,4) m by (auto simp: decides_def later_next)
    have "follows (tl cr) (tl fi) (cr, fi)"
      using assms(2,3) by (auto simp: follows_def drop_Suc take_Suc intro!: exI [of _ 1])
    then show ?thesis
      using True A stack_sound_push [OF sound assms(2,3)] by (simp add: decides_def)
  next
    case False
    have "follows (tl cr) (tl fi) e" if f: "follows cr fi e" for e
    proof -
      obtain n where n: "cr = drop n (fst e)" "fi = drop n (snd e)" "asterisk \<notin> set (take n (fst e))"
        using f unfolding follows_def by blast
      then have "take (Suc n) (fst e) = take n (fst e) @ [hd cr]"
        using assms(2) by (metis drop_eq_Nil hd_drop_conv_nth leI take_Suc_conv_app_nth)
      then show ?thesis
        using n assms(3) by (auto simp: follows_def drop_Suc tl_drop intro!: exI [of _ "Suc n"])
    qed
    then show ?thesis using False assms(1) m by (auto simp: decides_def split: if_splits)
  qed
qed

lemma glob_loop_decides: "decides A criteria filename have_asterisk stack \<Longrightarrow> glob_loop criteria filename have_asterisk stack = A"
proof (induction criteria filename have_asterisk stack rule: glob_loop.induct)
  case (1 criteria filename have_asterisk stack)
  define cr where "cr = dropWhile (\<lambda>c. c = asterisk) criteria"
  define star where "star = (have_asterisk \<or> cr \<noteq> criteria)"
  have loop: "glob_loop criteria filename have_asterisk stack =
     (if criteria \<noteq> [] \<and> cr = [] then True
      else if cr = [] \<and> filename = [] then True
      else if cr = [] \<or> filename = [] \<or> \<not> star \<and> hd cr \<noteq> question_mark \<and> hd cr \<noteq> hd filename then
        (if stack = [] then False
         else case pop_ustack stack of ((c, f), rest) \<Rightarrow> glob_loop c (tl f) True rest)
      else if hd cr = question_mark \<or> hd cr = hd filename then
        glob_loop (tl cr) (tl filename) False (if star then push_ustack stack (cr, filename) else stack)
      else glob_loop cr (tl filename) True stack)"
    unfolding cr_def star_def by (subst glob_loop.simps) (simp add: Let_def)
  have plain: "cr \<noteq> [] \<Longrightarrow> hd cr \<noteq> asterisk" 
    using hd_dropWhile [of "\<lambda>c. c = asterisk" criteria] by (simp add: cr_def)
  have sound: "stack_sound A stack" using 1(4) unfolding decides_def by blast
  show ?case
  proof (cases "criteria \<noteq> [] \<and> cr = []")
    case True
    then have "A = later cr filename" using decides_strip [OF 1(4)] unfolding cr_def by metis
    then show ?thesis using True loop by simp
  next
    case some: False
    have d: "decides A cr filename star stack"
    proof (cases "cr = criteria")
      case True
      then show ?thesis using 1(4) by (simp add: star_def)
    next
      case False
      then have "A = later cr filename" using decides_strip [OF 1(4)] by (simp add: cr_def)
      moreover have "cr \<noteq> []" using False some by auto
      ultimately show ?thesis using False sound by (simp add: decides_def star_def)
    qed
    then have star: "star \<Longrightarrow> cr \<noteq> [] \<and> A = later cr filename" by (simp add: decides_def)
    have pop: "(if stack = [] then False
         else case pop_ustack stack of ((c, f), rest) \<Rightarrow> glob_loop c (tl f) True rest) = A"
      if no: "\<not> glob_matches cr filename" "star \<Longrightarrow> \<not> later cr filename" and "\<not> (cr = [] \<and> filename = [])"
        and "cr = [] \<or> filename = [] \<or> \<not> star \<and> hd cr \<noteq> question_mark \<and> hd cr \<noteq> hd filename"
    proof (cases "stack = []")
      case True
      then show ?thesis using d no by (auto simp: decides_def split: if_splits)
    next
      case False
      obtain c f rest where p: "pop_ustack stack = ((c, f), rest)" by (metis prod.exhaust)
      have "glob_loop c (tl f) True rest = A"
        by (rule 1(1) [OF cr_def star_def some that(3,4) False p [symmetric] refl]) (rule decides_pop [OF d False p no])
      then show ?thesis using False p by simp
    qed
    consider (finish) "cr = []" "filename = []" | (half) "(cr = []) \<noteq> (filename = [])"
      | (failed) "cr \<noteq> []" "filename \<noteq> []" "\<not> star" "hd cr \<noteq> question_mark" "hd cr \<noteq> hd filename"
      | (matched) "cr \<noteq> []" "filename \<noteq> []" "hd cr = question_mark \<or> hd cr = hd filename"
      | (later) "cr \<noteq> []" "filename \<noteq> []" "star" "hd cr \<noteq> question_mark" "hd cr \<noteq> hd filename"
      by blast
    then show ?thesis
    proof cases
      case finish
      then have "A" using d star by (auto simp: decides_def glob_matches.simps(1) split: if_splits)
      then show ?thesis using finish loop by simp
    next
      case half
      have "\<not> glob_matches cr filename"
        using half plain matches_end [of cr] glob_matches.simps(1) [of filename] by (cases "cr = []") auto
      moreover have "\<not> later cr filename" if "star"
        using half star [OF that] plain matches_end [of cr] later_drop [of cr filename] by auto
      ultimately show ?thesis using pop half loop some by auto
    next
      case failed
      then have "\<not> glob_matches cr filename" using matches_next plain by simp
      then show ?thesis using pop failed loop some by auto
    next
      case matched
      have "glob_loop (tl cr) (tl filename) False (if star then push_ustack stack (cr, filename) else stack) = A"
        using matched decides_match [OF d matched(1) plain matched(2,3)] by (intro 1(2) [OF cr_def star_def some]) auto
      then show ?thesis using matched loop some by auto
    next
      case later
      then have "decides A cr (tl filename) True stack"
        using d matches_next [of cr filename] later_next [of filename cr] plain by (auto simp: decides_def)
      then have "glob_loop cr (tl filename) True stack = A"
        using later by (intro 1(3) [OF cr_def star_def some]) auto
      then show ?thesis using later loop some by auto
    qed
  qed
qed


section \<open>The match\<close>

lemma nothing_decided: "decides (glob_matches cr fi) cr fi False []"
  by (simp add: decides_def stack_sound_def)

text \<open>
  C39: A name matches a pattern exactly if the pattern's clusters can be laid over those of the name, with any number of clusters under
  each asterisk and one under each question mark. The loop, which consumes the name once and comes back
  to positions on a stack that forgets most of what is put on it, ends and finds a match whenever there is one.
\<close>

theorem glob_exact:
  assumes "graphemes criteria = Some cr" and "graphemes filename = Some fi"
    and "criteria = [] \<longleftrightarrow> cr = []" and "filename = [] \<longleftrightarrow> fi = []"
  shows "matches_name_criteria_caseless graphemes criteria filename = (if glob_matches cr fi then 1 else 0)"
  using assms glob_loop_decides [OF nothing_decided, of cr fi]
  by (auto simp: matches_name_criteria_caseless_def glob_matches.simps)

theorem glob_exact_witness:
  "matches_name_criteria_caseless (\<lambda>w. Some (map (\<lambda>c. [c]) w)) [0x2a, 1, 0x2a, 0x3f, 2, 0x2a, 3] [1, 2, 1, 5, 2, 2, 7, 3] = 1"
proof -
  define criteria :: "u16 list" where "criteria = [0x2a, 1, 0x2a, 0x3f, 2, 0x2a, 3]"
  define filename :: "u16 list" where "filename = [1, 2, 1, 5, 2, 2, 7, 3]"
  have "matches_name_criteria_caseless (\<lambda>w. Some (map (\<lambda>c. [c]) w)) criteria filename =
      (if glob_matches (map (\<lambda>c. [c]) criteria) (map (\<lambda>c. [c]) filename) then 1 else 0)"
    by (rule glob_exact) simp_all
  moreover have "glob_matches (map (\<lambda>c. [c]) criteria) (map (\<lambda>c. [c]) filename)"
    unfolding criteria_def filename_def by code_simp
  ultimately show ?thesis by (simp add: criteria_def filename_def)
qed

end
