(* ===== verification/VolumeLocks.thy ===== *)
theory VolumeLocks imports FsRaw PathNames Values begin

unbundle bit_operations_syntax

text \<open>
  The advisory lock of a volume (SNIA LTFS 2.4): the bit field \<open>lockbits\<close> of \<open>ltfs.h\<close> with the functions of
  \<open>ltfs.c\<close> on it, how it is set when the volume is mounted, and the extended attribute \<open>ltfs.volumeLockState\<close>
  (\<open>xattr.c\<close>) through which a user locks and unlocks the volume and sees write errors. The field, and the text that goes into
  the next index, are the record \<open>lock_info\<close> next to the volume. The calls on mutexes succeed.
\<close>

datatype set_bits = UNLOCKED | LOCKED | PERM_LOCKED | PHY_WRITE_PRTCT | PRMWP | PERSWP | PWE | DPPWE | IPPWE

primrec bits_of :: "set_bits \<Rightarrow> u32" where
  "bits_of UNLOCKED = 0x00"
| "bits_of LOCKED = 0x01"
| "bits_of PERM_LOCKED = 0x02"
| "bits_of PHY_WRITE_PRTCT = 0x04"
| "bits_of PRMWP = 0x08"
| "bits_of PERSWP = 0x10"
| "bits_of PWE = 0x20"
| "bits_of DPPWE = 0x40"
| "bits_of IPPWE = 0x80"

record lock_info =
  bitfield :: u32
  lockstate_text :: "string option"

section \<open>The bit field\<close>

definition ltfs_update_bitfield :: "set_bits \<Rightarrow> u32 \<Rightarrow> u32" where
  "ltfs_update_bitfield bits field =
     (case bits of
        PWE \<Rightarrow> field OR bits_of PWE OR bits_of LOCKED
      | DPPWE \<Rightarrow> field OR bits_of DPPWE OR bits_of LOCKED
      | IPPWE \<Rightarrow> field OR bits_of IPPWE OR bits_of LOCKED
      | _ \<Rightarrow> field OR bits_of bits)"

definition ltfs_find_lockbit :: "set_bits \<Rightarrow> u32 \<Rightarrow> bool" where
  "ltfs_find_lockbit lockstate field =
     (case lockstate of
        UNLOCKED \<Rightarrow> field AND bits_of LOCKED = 0
      | PWE \<Rightarrow> field AND bits_of PWE \<noteq> 0 \<and> field AND bits_of LOCKED \<noteq> 0
      | DPPWE \<Rightarrow> field AND bits_of DPPWE \<noteq> 0 \<and> field AND bits_of LOCKED \<noteq> 0
      | IPPWE \<Rightarrow> field AND bits_of IPPWE \<noteq> 0 \<and> field AND bits_of LOCKED \<noteq> 0
      | _ \<Rightarrow> field AND bits_of lockstate \<noteq> 0)"

definition none_found :: "set_bits list \<Rightarrow> u32 \<Rightarrow> bool" where
  "none_found states field \<longleftrightarrow> list_all (\<lambda>l. \<not> ltfs_find_lockbit l field) states"

definition some_found :: "set_bits list \<Rightarrow> u32 \<Rightarrow> bool" where
  "some_found states field \<longleftrightarrow> list_ex (\<lambda>l. ltfs_find_lockbit l field) states"

text \<open>0 if the state can be entered.\<close>

definition ltfs_get_bitfield_info :: "set_bits \<Rightarrow> u32 \<Rightarrow> int" where
  "ltfs_get_bitfield_info bits field =
     (let ok = (case bits of
          UNLOCKED \<Rightarrow> none_found [PERM_LOCKED, PHY_WRITE_PRTCT, PWE, DPPWE, IPPWE, PRMWP, PERSWP] field \<and>
            some_found [UNLOCKED, LOCKED] field
        | LOCKED \<Rightarrow> none_found [PERM_LOCKED, PHY_WRITE_PRTCT, PWE, DPPWE, IPPWE, PRMWP, PERSWP] field \<and>
            some_found [LOCKED, UNLOCKED] field
        | PERM_LOCKED \<Rightarrow> none_found [PHY_WRITE_PRTCT, PWE, DPPWE, IPPWE, PRMWP, PERSWP] field \<and>
            some_found [PERM_LOCKED, LOCKED, UNLOCKED] field
        | PWE \<Rightarrow> none_found [PERM_LOCKED, PHY_WRITE_PRTCT, LOCKED, PRMWP, PERSWP, DPPWE, IPPWE] field \<and>
            some_found [PWE, UNLOCKED] field
        | DPPWE \<Rightarrow> none_found [PERM_LOCKED, PHY_WRITE_PRTCT, LOCKED, PRMWP, PERSWP, PWE] field \<and>
            some_found [DPPWE, UNLOCKED] field
        | IPPWE \<Rightarrow> none_found [PERM_LOCKED, PHY_WRITE_PRTCT, LOCKED, PRMWP, PERSWP, PWE] field \<and>
            some_found [IPPWE, UNLOCKED] field
        | _ \<Rightarrow> True)
      in if ok then 0 else - 1)"

definition ltfs_set_bitfield :: "set_bits \<Rightarrow> u32 \<Rightarrow> u32" where
  "ltfs_set_bitfield bits field =
     (case bits of
        UNLOCKED \<Rightarrow> field AND 0xFE
      | LOCKED \<Rightarrow> field OR bits_of LOCKED
      | PERM_LOCKED \<Rightarrow> field AND 0xFE OR bits_of PERM_LOCKED
      | PWE \<Rightarrow> field OR bits_of PWE OR bits_of LOCKED
      | DPPWE \<Rightarrow> field OR bits_of DPPWE OR bits_of LOCKED
      | IPPWE \<Rightarrow> field OR bits_of IPPWE OR bits_of LOCKED
      | _ \<Rightarrow> field)"

definition ltfs_retreive_bitfield :: "lock_info \<Rightarrow> u32" where
  "ltfs_retreive_bitfield lk = bitfield lk"

section \<open>Whether the volume can be written\<close>

definition ltfs_get_tape_readonly :: "lock_info \<Rightarrow> 'b ltfs_volume \<Rightarrow> int" where
  "ltfs_get_tape_readonly lk vol =
     (if ltfs_find_lockbit PWE (bitfield lk) then - LTFS_VOLUME_WRITEERRLOCKED
      else if ltfs_find_lockbit DPPWE (bitfield lk) then - LTFS_VOLUME_DP_WRITEERRLOCKED
      else if ltfs_find_lockbit IPPWE (bitfield lk) then - LTFS_VOLUME_IP_WRITEERRLOCKED
      else if ltfs_find_lockbit LOCKED (bitfield lk) then - LTFS_VOLUME_LOCKED
      else if ltfs_find_lockbit PERM_LOCKED (bitfield lk) then - LTFS_VOLUME_PERMLOCKED
      else
        let ret = tape_read_only (ltfs_part_id2num (ltfs_ip_id vol) vol) (device vol)
        in if ret = 0 \<or> ret = - LTFS_LESS_SPACE
           then tape_read_only (ltfs_part_id2num (ltfs_dp_id vol) vol) (device vol) else ret)"

definition ltfs_get_tape_logically_readonly :: "'b ltfs_volume \<Rightarrow> int" where
  "ltfs_get_tape_logically_readonly vol = tape_logically_read_only (device vol)"

definition ltfs_get_physically_write_protected :: "'b ltfs_volume \<Rightarrow> int" where
  "ltfs_get_physically_write_protected vol = tape_get_physically_write_protected (device vol)"

text \<open>The loop ends when no revalidation succeeds; \<open>None\<close> if one always does and the device never answers.\<close>

partial_function (option) ltfs_test_unit_ready :: "'b fs_env \<Rightarrow> 'b ltfs_volume \<Rightarrow> (int \<times> 'b ltfs_volume) option" where
  "ltfs_test_unit_ready env vol =
     (case ltfs_get_volume_lock (env_others env) vol of (ret, vol) \<Rightarrow>
      if ret < 0 then Some (ret, vol)
      else case on_device (tape_device_lock 0) vol of (ret, vol) \<Rightarrow>
      if ret = - LTFS_DEVICE_FENCED then
        (case ltfs_wait_revalidation (env_others env) vol of (ret, vol) \<Rightarrow>
           if ret = 0 then ltfs_test_unit_ready env vol else Some (ret, vol))
      else if ret < 0 then Some (ret, vol)
      else case on_device (tape_test_unit_ready (env_now env)) vol of (ret, vol) \<Rightarrow>
      if NEED_REVAL ret then
        (case env_revalidate env (snd (on_device (tape_device_unlock 0) (snd (on_device tape_start_fence vol)))) of
           (ret, vol) \<Rightarrow> if ret = 0 then ltfs_test_unit_ready env vol else Some (ret, vol))
      else if IS_UNEXPECTED_MOVE ret then
        Some (ret, snd (on_device (tape_device_unlock 0) (vol\<lparr>reval := - LTFS_REVAL_FAILED\<rparr>)))
      else Some (if ret \<le> - EDEV_ERR_MIN then - LTFS_DEVICE_UNREADY else ret,
                 snd (on_device (tape_device_unlock 0) vol)))"

section \<open>Mounting\<close>

text \<open>What \<open>ltfs_set_volume_lockstate\<close> has no text for leaves a pointer to freed memory behind, here the old text.\<close>

definition ltfs_set_volume_lockstate ::
    "mam_lockval \<Rightarrow> bool \<Rightarrow> lock_info \<times> 'b ltfs_volume \<Rightarrow> lock_info \<times> 'b ltfs_volume" where
  "ltfs_set_volume_lockstate vol_lockstate isdirty s =
     (case s of (lk, vol) \<Rightarrow>
       (case vol_lockstate of
          UNLOCKED_MAM \<Rightarrow> lk\<lparr>lockstate_text := Some ''unlocked''\<rparr>
        | LOCKED_MAM \<Rightarrow> lk\<lparr>lockstate_text := Some ''locked''\<rparr>
        | PERMLOCKED_MAM \<Rightarrow> lk\<lparr>lockstate_text := Some ''permlocked''\<rparr>
        | _ \<Rightarrow> lk,
        if isdirty then vol\<lparr>index := (index vol)\<lparr>idx_flags := ltfs_set_index_dirty False (idx_flags (index vol))\<rparr>\<rparr>
        else vol))"

definition update_bits :: "set_bits list \<Rightarrow> lock_info \<Rightarrow> lock_info" where
  "update_bits bits lk = lk\<lparr>bitfield := fold ltfs_update_bitfield bits (bitfield lk)\<rparr>"

definition text_begins :: "string \<Rightarrow> string option \<Rightarrow> bool" where
  "text_begins w s \<longleftrightarrow> (case s of None \<Rightarrow> False | Some v \<Rightarrow> take (length w) v = w)"

definition ltfs_update_volumelockstate :: "lock_info \<Rightarrow> 'b ltfs_volume \<Rightarrow> int \<times> lock_info \<times> 'b ltfs_volume" where
  "ltfs_update_volumelockstate lk vol =
     (let lk = (if ltfs_get_physically_write_protected vol \<noteq> 0 then update_bits [PHY_WRITE_PRTCT] lk else lk);
          state = volumelockstate (mam_attr vol);
          (lk, temp_volumelockstate) =
            (if state = DPPWE_MAM then (update_bits [DPPWE] lk, None)
             else if state = IPPWE_MAM then (update_bits [IPPWE] lk, None)
             else if state = DP_IP_PWE_MAM then (update_bits [DPPWE, IPPWE] lk, None)
             else if state = PWE_MAM then (update_bits [PWE] lk, None)
             else if text_begins ''unlocked'' (lockstate_text lk) then (update_bits [UNLOCKED] lk, Some UNLOCKED_MAM)
             else if text_begins ''locked'' (lockstate_text lk) then (update_bits [LOCKED] lk, Some LOCKED_MAM)
             else if text_begins ''permlocked'' (lockstate_text lk)
             then (update_bits [PERM_LOCKED] lk, Some PERMLOCKED_MAM)
             else (lk, None))
      in case temp_volumelockstate of
           None \<Rightarrow> (0, lk, vol)
         | Some lockval \<Rightarrow>
             (case on_device (tape_device_lock 0) vol of (ret, vol) \<Rightarrow>
                if ret < 0 then (ret, lk, vol)
                else
                  let vol = snd (on_device (tape_update_mam_attributes None TC_MAM_VOL_LOCK_STATE None lockval) vol)
                  in (0, lk, snd (on_device (tape_device_unlock 0) vol))))"

section \<open>The extended attribute\<close>

text \<open>Reading the attribute of the cartridge memory into the volume.\<close>

definition load_lock_attribute :: "'b ltfs_volume \<Rightarrow> int \<times> 'b ltfs_volume" where
  "load_lock_attribute vol =
     (case tape_get_MAMattributes TC_MAM_VOL_LOCK_STATE (ltfs_part_id2num (partid_ip (label vol)) vol)
             (mam_attr vol) (device vol) of
        (ret, mam, dev) \<Rightarrow> (ret, vol\<lparr>mam_attr := mam, device := dev\<rparr>))"

definition change_lock_state ::
    "set_bits \<Rightarrow> mam_lockval \<Rightarrow> lock_info \<Rightarrow> 'b ltfs_volume \<Rightarrow> int \<times> lock_info \<times> 'b ltfs_volume" where
  "change_lock_state bits lockval lk vol =
     (let ret = ltfs_get_bitfield_info bits (bitfield lk) in
      if ret \<noteq> 0 then (ret, lk, vol)
      else case on_device (tape_device_lock 0) vol of (ret, vol) \<Rightarrow>
      if ret < 0 then (ret, lk, vol)
      else case on_device (tape_update_mam_attributes None TC_MAM_VOL_LOCK_STATE None lockval) vol of (ret, vol) \<Rightarrow>
        (case (if ret \<noteq> 0 then (ret, lk, vol)
               else case load_lock_attribute vol of (ret, vol) \<Rightarrow>
                 (case (if ret = 0 then ltfs_set_volume_lockstate lockval True (lk, vol) else (lk, vol)) of
                    (lk, vol) \<Rightarrow> (ret, lk\<lparr>bitfield := ltfs_set_bitfield bits (bitfield lk)\<rparr>, vol))) of
           (ret, lk, vol) \<Rightarrow> (ret, lk, snd (on_device (tape_device_unlock 0) vol))))"

text \<open>\<open>strncmp(new_value, w, size) == 0\<close> for texts without a zero.\<close>

definition same_text :: "nat \<Rightarrow> string \<Rightarrow> string \<Rightarrow> bool" where
  "same_text len v w \<longleftrightarrow> take len v = take len w"

text \<open>
  Setting the attribute of the root. \<open>data\<close> is the value, \<open>None\<close> for a null pointer; the text ends at its first zero. \<open>mem\<close> is its copy.
\<close>

definition set_lock_xattr ::
    "icu \<Rightarrow> bool \<Rightarrow> string option \<Rightarrow> lock_info \<Rightarrow> 'b ltfs_volume \<Rightarrow> int \<times> lock_info \<times> 'b ltfs_volume" where
  "set_lock_xattr u mem data lk vol =
     (case data of
        None \<Rightarrow> (0, lk, vol)
      | Some v \<Rightarrow>
          if v = [] then (0, lk, vol)
          else if \<not> mem then (- LTFS_NO_MEMORY, lk, vol)
          else case pathname_format u (takeWhile (\<lambda>c. c \<noteq> char_of (0 :: nat)) v) True True of
            (ret, new_value) \<Rightarrow>
              if ret < 0 then (ret, lk, vol)
              else if same_text (length v) (the new_value) ''0'' then change_lock_state UNLOCKED UNLOCKED_MAM lk vol
              else if same_text (length v) (the new_value) ''1'' then change_lock_state LOCKED LOCKED_MAM lk vol
              else if same_text (length v) (the new_value) ''2'' then change_lock_state PERM_LOCKED PERMLOCKED_MAM lk vol
              else (- 1, lk, vol))"

text \<open>Reading it: the write errors that the cartridge memory tells of are entered first.\<close>

definition seen_errors :: "mam_lockval \<Rightarrow> set_bits list" where
  "seen_errors state =
     (case state of PWE_MAM \<Rightarrow> [PWE] | IPPWE_MAM \<Rightarrow> [IPPWE] | DPPWE_MAM \<Rightarrow> [DPPWE] | DP_IP_PWE_MAM \<Rightarrow> [IPPWE, DPPWE]
      | _ \<Rightarrow> [])"

definition get_lock_xattr ::
    "lock_info \<Rightarrow> 'b ltfs_volume \<Rightarrow> int \<times> string option \<times> lock_info \<times> 'b ltfs_volume" where
  "get_lock_xattr lk vol =
     (case on_device (tape_device_lock 0) vol of (ret, vol) \<Rightarrow>
      if ret < 0 then (ret, None, lk, vol)
      else
        let vol = snd (on_device (tape_device_unlock 0) (snd (load_lock_attribute vol)));
            state = volumelockstate (mam_attr vol);
            lk = lk\<lparr>bitfield := fold ltfs_set_bitfield (seen_errors state) (bitfield lk)\<rparr>;
            val = (if state \<noteq> NOLOCK_MAM then decimal (unat (ltfs_retreive_bitfield lk)) else [])
        in (int (length val), Some val, lk, vol))"

section \<open>Volumes of other programs\<close>

definition contains :: "'a list \<Rightarrow> 'a list \<Rightarrow> bool" where
  "contains w s \<longleftrightarrow> (\<exists>i \<in> {..length s}. take (length w) (drop i s) = w)"

definition made_by_qstar :: "'b ltfs_volume \<Rightarrow> bool" where
  "made_by_qstar vol \<longleftrightarrow>
     (case appl_vendor (mam_attr vol) of None \<Rightarrow> False | Some v \<Rightarrow> contains (map of_char ''QStar'') v)"

definition ltfs_set_archivemanager_media_readonly :: "'b ltfs_volume \<Rightarrow> int \<times> 'b ltfs_volume" where
  "ltfs_set_archivemanager_media_readonly vol =
     (if made_by_qstar vol then (1, vol\<lparr>device := (device vol)\<lparr>write_protect := True\<rparr>\<rparr>) else (0, vol))"

definition ltfs_get_archivemanager_media :: "'b ltfs_volume \<Rightarrow> int" where
  "ltfs_get_archivemanager_media vol = (if made_by_qstar vol then 1 else 0)"

end
