(* ===== verification/VolumeLocksSpec.thy ===== *)
theory VolumeLocksSpec imports VolumeLocks FileVolume begin

unbundle bit_operations_syntax

text \<open>
  The lock of a volume as a state machine. A mount allocates a volume with an empty bit field (\<open>ltfs_volume_alloc\<close>), reads
  the index with its text of the lock state and enters what the text and the cartridge memory tell. While the volume is mounted the
  bit field changes by setting and reading the attribute, with any arguments; in between anything may
  happen to the rest of the volume.
\<close>

definition lock_at_mount :: "string option \<Rightarrow> 'b ltfs_volume \<Rightarrow> lock_info \<times> 'b ltfs_volume" where
  "lock_at_mount told vol = snd (ltfs_update_volumelockstate \<lparr>bitfield = 0, lockstate_text = told\<rparr> vol)"

inductive lock_step :: "lock_info \<times> 'b ltfs_volume \<Rightarrow> lock_info \<times> 'b ltfs_volume \<Rightarrow> bool" where
  lock_set: "set_lock_xattr u mem data lk vol = (ret, lk', vol') \<Longrightarrow> lock_step (lk, vol) (lk', vol')"
| lock_get: "get_lock_xattr lk vol = (ret, val, lk', vol') \<Longrightarrow> lock_step (lk, vol) (lk', vol')"
| lock_other: "lock_step (lk, vol) (lk, vol')"

section \<open>Single bits\<close>

lemma field_bits:
  fixes field :: u32
  shows "field AND 0x01 = 0 \<longleftrightarrow> \<not> bit field 0" "field AND 0x02 = 0 \<longleftrightarrow> \<not> bit field 1"
    "field AND 0x04 = 0 \<longleftrightarrow> \<not> bit field 2" "field AND 0x08 = 0 \<longleftrightarrow> \<not> bit field 3"
    "field AND 0x10 = 0 \<longleftrightarrow> \<not> bit field 4" "field AND 0x20 = 0 \<longleftrightarrow> \<not> bit field 5"
    "field AND 0x40 = 0 \<longleftrightarrow> \<not> bit field 6" "field AND 0x80 = 0 \<longleftrightarrow> \<not> bit field 7"
  using and_exp_eq_0_iff_not_bit [of field 0] and_exp_eq_0_iff_not_bit [of field 1]
    and_exp_eq_0_iff_not_bit [of field 2] and_exp_eq_0_iff_not_bit [of field 3]
    and_exp_eq_0_iff_not_bit [of field 4] and_exp_eq_0_iff_not_bit [of field 5]
    and_exp_eq_0_iff_not_bit [of field 6] and_exp_eq_0_iff_not_bit [of field 7]
  by simp_all

text \<open>The number of the bit of a state.\<close>

primrec bit_index :: "set_bits \<Rightarrow> nat" where
  "bit_index UNLOCKED = 32"
| "bit_index LOCKED = 0"
| "bit_index PERM_LOCKED = 1"
| "bit_index PHY_WRITE_PRTCT = 2"
| "bit_index PRMWP = 3"
| "bit_index PERSWP = 4"
| "bit_index PWE = 5"
| "bit_index DPPWE = 6"
| "bit_index IPPWE = 7"

definition bit_holds :: "set_bits \<Rightarrow> u32 \<Rightarrow> bool" where
  "bit_holds l field \<longleftrightarrow> bit field (bit_index l)"

lemma found_bit_holds:
  "ltfs_find_lockbit l field =
     (case l of UNLOCKED \<Rightarrow> \<not> bit_holds LOCKED field
      | PWE \<Rightarrow> bit_holds PWE field \<and> bit_holds LOCKED field | DPPWE \<Rightarrow> bit_holds DPPWE field \<and> bit_holds LOCKED field
      | IPPWE \<Rightarrow> bit_holds IPPWE field \<and> bit_holds LOCKED field | _ \<Rightarrow> bit_holds l field)"
  by (cases l) (simp_all add: ltfs_find_lockbit_def bit_holds_def field_bits)

text \<open>What the two updates do to the bits: the state of a write error comes with the lock.\<close>

definition entered :: "set_bits \<Rightarrow> set_bits \<Rightarrow> bool" where
  "entered bits l \<longleftrightarrow> l = bits \<or> l = LOCKED \<and> bits \<in> {PWE, DPPWE, IPPWE}"

lemma bit_holds_simps:
  "l \<noteq> UNLOCKED \<Longrightarrow> bit_holds l (a OR b) = (bit_holds l a \<or> bit_holds l b)"
  "l \<noteq> UNLOCKED \<Longrightarrow> bit_holds l (a AND 0xFE) = (bit_holds l a \<and> l \<noteq> LOCKED)"
  "l \<noteq> UNLOCKED \<Longrightarrow> bit_holds l (bits_of m) = (l = m)"
  by (simp_all add: bit_holds_def bit_or_iff bit_and_iff) (cases l; simp; cases m; simp)+

lemma holds_update:
  "l \<noteq> UNLOCKED \<Longrightarrow> bit_holds l (ltfs_update_bitfield bits field) = (bit_holds l field \<or> entered bits l)"
  by (cases bits) (auto simp: ltfs_update_bitfield_def bit_holds_simps entered_def simp del: bits_of.simps)

lemma holds_set:
  "l \<noteq> UNLOCKED \<Longrightarrow> bits \<in> {PWE, DPPWE, IPPWE} \<Longrightarrow>
   bit_holds l (ltfs_set_bitfield bits field) = (bit_holds l field \<or> entered bits l)"
  by (auto simp: ltfs_set_bitfield_def bit_holds_simps entered_def simp del: bits_of.simps)

section \<open>What the steps do to the bit field\<close>

lemma change_lock_effect:
  assumes "change_lock_state bits v lk vol = (ret, lk', vol')"
  shows "bitfield lk' = bitfield lk \<or>
    ltfs_get_bitfield_info bits (bitfield lk) = 0 \<and> bitfield lk' = ltfs_set_bitfield bits (bitfield lk)"
  using assms
  by (auto simp: change_lock_state_def ltfs_set_volume_lockstate_def Let_def
      split: if_splits prod.splits mam_lockval.splits)

lemma set_lock_effect:
  assumes "set_lock_xattr u mem data lk vol = (ret, lk', vol')"
  shows "bitfield lk' = bitfield lk \<or>
    (\<exists>bits \<in> {UNLOCKED, LOCKED, PERM_LOCKED}.
       ltfs_get_bitfield_info bits (bitfield lk) = 0 \<and> bitfield lk' = ltfs_set_bitfield bits (bitfield lk))"
proof -
  have "lk' = lk \<or> (\<exists>bits \<in> {UNLOCKED, LOCKED, PERM_LOCKED}. \<exists>v. change_lock_state bits v lk vol = (ret, lk', vol'))"
    using assms unfolding set_lock_xattr_def by (auto split: if_splits option.splits prod.splits)
  then show ?thesis using change_lock_effect by blast
qed

lemma get_lock_effect:
  assumes "get_lock_xattr lk vol = (ret, val, lk', vol')"
  shows "\<exists>state. bitfield lk' = fold ltfs_set_bitfield (seen_errors state) (bitfield lk)"
  using assms by (auto simp: get_lock_xattr_def Let_def seen_errors_def split: if_splits prod.splits intro: exI [of _ NOLOCK_MAM])

definition updated :: "u32 \<Rightarrow> u32 \<Rightarrow> bool" where
  "updated field field' \<longleftrightarrow> (\<exists>bits. field' = fold ltfs_update_bitfield bits field)"

lemma updated_intros:
  "updated field field" "updated field (bitfield k) \<Longrightarrow> updated field (bitfield (update_bits bits k))"
proof -
  show "updated field field" by (auto simp: updated_def intro: exI [of _ "[]"])
  assume "updated field (bitfield k)"
  then obtain bs where "bitfield k = fold ltfs_update_bitfield bs field" by (auto simp: updated_def)
  then have "bitfield (update_bits bits k) = fold ltfs_update_bitfield (bs @ bits) field" by (simp add: update_bits_def)
  then show "updated field (bitfield (update_bits bits k))" unfolding updated_def by blast
qed

lemma mount_effect:
  assumes "ltfs_update_volumelockstate lk vol = (ret, lk', vol')"
  shows "updated (bitfield lk) (bitfield lk')"
  using assms
  by (auto simp: ltfs_update_volumelockstate_def Let_def updated_intros split: if_splits prod.splits)

section \<open>Locks that stay\<close>

definition lock_ok :: "u32 \<Rightarrow> bool" where
  "lock_ok field \<longleftrightarrow> (\<forall>l \<in> {PWE, DPPWE, IPPWE}. bit_holds l field \<longrightarrow> bit_holds LOCKED field)"

definition stays :: "u32 \<Rightarrow> u32 \<Rightarrow> bool" where
  "stays field field' \<longleftrightarrow> lock_ok field' \<and>
     (\<forall>l \<in> {PERM_LOCKED, PHY_WRITE_PRTCT, PWE, DPPWE, IPPWE}. bit_holds l field \<longrightarrow> bit_holds l field')"

lemma stays_trans: "stays f g \<Longrightarrow> stays g h \<Longrightarrow> stays f h"
  by (simp add: stays_def)

lemma stays_update: "lock_ok field \<Longrightarrow> stays field (fold ltfs_update_bitfield bs field)"
proof (induction bs arbitrary: field)
  case (Cons b bs)
  then have "stays field (ltfs_update_bitfield b field)"
    by (auto simp: stays_def lock_ok_def holds_update entered_def)
  then show ?case using Cons.IH stays_trans by (fastforce simp: stays_def)
qed (simp add: stays_def)

lemma stays_errors: "lock_ok field \<Longrightarrow> stays field (fold ltfs_set_bitfield (seen_errors state) field)"
  by (cases state) (auto simp: seen_errors_def stays_def lock_ok_def holds_set entered_def)

text \<open>A change by the user is refused unless the volume is at most locked.\<close>

lemma stays_set:
  assumes "lock_ok field" and "bits \<in> {UNLOCKED, LOCKED, PERM_LOCKED}" and "ltfs_get_bitfield_info bits field = 0"
  shows "stays field (ltfs_set_bitfield bits field)"
  using assms
  by (auto simp: stays_def lock_ok_def ltfs_get_bitfield_info_def none_found_def found_bit_holds ltfs_set_bitfield_def
      bit_holds_simps simp del: bits_of.simps split: if_splits)

lemma step_stays:
  assumes "lock_step s s'" and "lock_ok (bitfield (fst s))"
  shows "stays (bitfield (fst s)) (bitfield (fst s'))"
  using assms(1)
proof (cases rule: lock_step.cases)
  case (lock_set u mem data lk vol ret lk' vol')
  then have "lock_ok (bitfield lk)" using assms(2) by simp
  then have "stays (bitfield lk) (bitfield lk')"
    using set_lock_effect [OF lock_set(3)] stays_set by (auto simp: stays_def)
  then show ?thesis using lock_set(1,2) by simp
next
  case (lock_get lk vol ret val lk' vol')
  then have "lock_ok (bitfield lk)" using assms(2) by simp
  then show ?thesis using get_lock_effect [OF lock_get(3)] stays_errors lock_get(1,2) by auto
next
  case (lock_other lk vol vol')
  then show ?thesis using assms(2) by (simp add: stays_def)
qed

lemma steps_stay: "lock_step\<^sup>*\<^sup>* s s' \<Longrightarrow> lock_ok (bitfield (fst s)) \<Longrightarrow> stays (bitfield (fst s)) (bitfield (fst s'))"
proof (induction rule: rtranclp_induct)
  case (step y z)
  then show ?case using step_stays stays_trans by (metis stays_def)
qed (simp add: stays_def)


section \<open>Final locks\<close>

text \<open>A permanent lock, or one for a write error. It refuses every write and every request to unlock or to lock.\<close>

definition final :: "u32 \<Rightarrow> bool" where
  "final field \<longleftrightarrow> (\<exists>l \<in> {PERM_LOCKED, PWE, DPPWE, IPPWE}. bit_holds l field)"

lemma final_found: "final field \<Longrightarrow> lock_ok field \<Longrightarrow> \<exists>l \<in> {PERM_LOCKED, PWE, DPPWE, IPPWE}. ltfs_find_lockbit l field"
  by (auto simp: final_def found_bit_holds lock_ok_def)

lemma final_refuses:
  assumes "final field" "lock_ok field"
  shows "ltfs_get_bitfield_info UNLOCKED field = - 1" "ltfs_get_bitfield_info LOCKED field = - 1"
  using final_found [OF assms] by (auto simp: ltfs_get_bitfield_info_def none_found_def)

lemma final_stays: "stays field field' \<Longrightarrow> final field \<Longrightarrow> final field'"
  by (auto simp: stays_def final_def)

lemma mount_lock_ok: "lock_ok (bitfield (fst (lock_at_mount told vol)))"
proof -
  obtain ret lk vol' where m: "ltfs_update_volumelockstate \<lparr>bitfield = 0, lockstate_text = told\<rparr> vol = (ret, lk, vol')"
    by (rule prod_cases3)
  have "lock_ok 0" by (simp add: lock_ok_def bit_holds_def)
  then show ?thesis
    using mount_effect [OF m] stays_update [of 0] m by (auto simp: updated_def stays_def lock_at_mount_def)
qed

text \<open>A mount finds a final lock in the cartridge memory, if that tells of a write error, or else in the index.\<close>

lemma mount_finds:
  assumes "volumelockstate (mam_attr vol) \<in> {PWE_MAM, DPPWE_MAM, IPPWE_MAM, DP_IP_PWE_MAM} \<or> text_begins ''permlocked'' told"
  shows "final (bitfield (fst (lock_at_mount told vol)))"
proof -
  have apart: "text_begins ''permlocked'' told \<Longrightarrow> \<not> text_begins ''unlocked'' told \<and> \<not> text_begins ''locked'' told"
    by (cases told; cases "the told") (auto simp: text_begins_def)
  then show ?thesis
    using assms
    by (auto simp: lock_at_mount_def ltfs_update_volumelockstate_def Let_def update_bits_def final_def holds_update entered_def
        split: prod.splits)
qed

text \<open>
  The states \<open>locked\<close> and \<open>permlocked\<close> of the cartridge memory count for nothing: an index with another text
  wins, so a permanent lock is gone when no index was written after it.
\<close>

lemma index_text_wins:
  assumes "volumelockstate (mam_attr vol) = PERMLOCKED_MAM" "ltfs_get_physically_write_protected vol = 0"
  shows "\<not> final (bitfield (fst (lock_at_mount (Some ''unlocked'') vol)))"
proof -
  have "ltfs_update_bitfield UNLOCKED 0 = 0" by code_simp
  then show ?thesis
    using assms
    by (auto simp: lock_at_mount_def ltfs_update_volumelockstate_def Let_def update_bits_def text_begins_def final_def
        bit_holds_def split: prod.splits)
qed

section \<open>The text for the next index\<close>

lemma change_lock_text:
  assumes "change_lock_state bits v lk vol = (ret, lk', vol')"
  shows "lockstate_text lk' = lockstate_text lk \<or> ltfs_get_bitfield_info bits (bitfield lk) = 0"
  using assms by (auto simp: change_lock_state_def Let_def split: if_splits prod.splits)

lemma permlock_text:
  assumes "change_lock_state PERM_LOCKED PERMLOCKED_MAM lk vol = (ret, lk', vol')"
  shows "lockstate_text lk' = lockstate_text lk \<or> lockstate_text lk' = Some ''permlocked''"
  using assms by (auto simp: change_lock_state_def ltfs_set_volume_lockstate_def Let_def split: if_splits prod.splits)

lemma set_lock_text:
  assumes "set_lock_xattr u mem data lk vol = (ret, lk', vol')" "final (bitfield lk)" "lock_ok (bitfield lk)"
  shows "lockstate_text lk' = lockstate_text lk \<or> lockstate_text lk' = Some ''permlocked''"
proof -
  consider "lk' = lk" | "change_lock_state UNLOCKED UNLOCKED_MAM lk vol = (ret, lk', vol')"
    | "change_lock_state LOCKED LOCKED_MAM lk vol = (ret, lk', vol')"
    | "change_lock_state PERM_LOCKED PERMLOCKED_MAM lk vol = (ret, lk', vol')"
    using assms(1) unfolding set_lock_xattr_def by (auto split: if_splits option.splits prod.splits)
  then show ?thesis
    using change_lock_text permlock_text final_refuses [OF assms(2,3)] by cases fastforce+
qed

lemma step_text:
  assumes "lock_step s s'" "final (bitfield (fst s))" "lock_ok (bitfield (fst s))"
  shows "lockstate_text (fst s') = lockstate_text (fst s) \<or> lockstate_text (fst s') = Some ''permlocked''"
  using assms(1)
proof (cases rule: lock_step.cases)
  case (lock_set u mem data lk vol ret lk' vol')
  then show ?thesis using set_lock_text [OF lock_set(3)] assms(2,3) by simp
next
  case (lock_get lk vol ret val lk' vol')
  then show ?thesis by (auto simp: get_lock_xattr_def Let_def split: if_splits prod.splits)
qed simp

lemma steps_text:
  assumes "lock_step\<^sup>*\<^sup>* s s'" "final (bitfield (fst s))" "lock_ok (bitfield (fst s))" "lockstate_text (fst s) = Some ''permlocked''"
  shows "lockstate_text (fst s') = Some ''permlocked''"
  using assms(1)
proof (induction rule: rtranclp_induct)
  case (step y z)
  then have "stays (bitfield (fst s)) (bitfield (fst y))" using steps_stay assms(3) by blast
  then show ?case using step_text [OF step(2)] step(3) final_stays assms(2) by (auto simp: stays_def)
qed (rule assms(4))

section \<open>The promise\<close>

text \<open>
  C38: Once a mounted volume is permanently locked, or locked because of a write error on either partition, it stays so as long as
  it is mounted: whatever is set or read, and whatever the device answers, the state does not
  go away, \<open>ltfs_get_tape_readonly\<close> fails, and a request to unlock or to lock the volume is refused without touching the cartridge.
  The next mount starts from an empty bit field. It finds a final lock again if the cartridge memory tells of a write
  error, or if the index it reads has the text of the lock state as it was left, \<open>permlocked\<close>.
\<close>

theorem lock_is_final:
  assumes "lock_step\<^sup>*\<^sup>* (lock_at_mount told vol0) (lk, vol)" and "lock_step\<^sup>*\<^sup>* (lk, vol) (lk', vol')"
    and "l \<in> {PERM_LOCKED, PWE, DPPWE, IPPWE}" and "bit_holds l (bitfield lk)"
  shows "bit_holds l (bitfield lk') \<and> ltfs_get_tape_readonly lk' vol' < 0 \<and>
    change_lock_state UNLOCKED UNLOCKED_MAM lk' vol' = (- 1, lk', vol') \<and>
    change_lock_state LOCKED LOCKED_MAM lk' vol' = (- 1, lk', vol') \<and>
    (lockstate_text lk = Some ''permlocked'' \<longrightarrow> lockstate_text lk' = Some ''permlocked'') \<and>
    (\<forall>told2 vol2. volumelockstate (mam_attr vol2) \<in> {PWE_MAM, DPPWE_MAM, IPPWE_MAM, DP_IP_PWE_MAM} \<or> told2 = Some ''permlocked'' \<longrightarrow>
       (\<exists>l2 \<in> {PERM_LOCKED, PWE, DPPWE, IPPWE}. bit_holds l2 (bitfield (fst (lock_at_mount told2 vol2)))))"
proof -
  have ok: "lock_ok (bitfield lk)" using steps_stay [OF assms(1) mount_lock_ok] by (simp add: stays_def)
  have stay: "stays (bitfield lk) (bitfield lk')" using steps_stay [OF assms(2)] ok by simp
  have f: "final (bitfield lk)" "final (bitfield lk')" and l: "bit_holds l (bitfield lk')"
    using assms(3,4) stay by (auto simp: final_def stays_def)
  note refuse = final_refuses [OF f(2)]
  have ok': "lock_ok (bitfield lk')" using stay by (simp add: stays_def)
  have "ltfs_get_tape_readonly lk' vol' < 0"
    using final_found [OF f(2) ok'] by (auto simp: ltfs_get_tape_readonly_def)
  moreover have "lockstate_text lk = Some ''permlocked'' \<Longrightarrow> lockstate_text lk' = Some ''permlocked''"
    using steps_text [OF assms(2)] f(1) ok by simp
  moreover have "text_begins ''permlocked'' (Some ''permlocked'')" by (simp add: text_begins_def)
  then have "final (bitfield (fst (lock_at_mount told2 vol2)))"
    if "volumelockstate (mam_attr vol2) \<in> {PWE_MAM, DPPWE_MAM, IPPWE_MAM, DP_IP_PWE_MAM} \<or> told2 = Some ''permlocked''"
    for told2 and vol2 :: "'b ltfs_volume"
    using mount_finds [of vol2 told2] that by blast
  ultimately show ?thesis using l refuse [OF ok'] unfolding final_def [symmetric] by (simp add: change_lock_state_def)
qed


text \<open>The user locks the sample volume for good.\<close>

lemma sample_permlock:
  assumes "set_lock_xattr ascii_icu True (Some ''2'') \<lparr>bitfield = 0, lockstate_text = None\<rparr> sample_volume = (ret, lk, vol)"
  shows "bitfield lk = 2"
proof -
  have "takeWhile (\<lambda>c. c \<noteq> char_of (0 :: nat)) ''2'' = ''2''" "pathname_format ascii_icu ''2'' True True = (0, Some ''2'')"
    by code_simp+
  then have f: "set_lock_xattr ascii_icu True (Some ''2'') k v = change_lock_state PERM_LOCKED PERMLOCKED_MAM k v"
    for k and v :: "filedebug_data ltfs_volume"
    by (simp only: set_lock_xattr_def option.case list.distinct if_False) (simp add: same_text_def)
  have i: "ltfs_get_bitfield_info PERM_LOCKED 0 = 0" by code_simp
  have b: "ltfs_set_bitfield PERM_LOCKED 0 = 2" by code_simp
  have lock: "on_device (tape_device_lock 0) sample_volume =
      (0, sample_volume\<lparr>device := sample_mounted\<lparr>backend_mutex := True\<rparr>\<rparr>)"
    by (simp add: on_device_def tape_device_lock_def sample_volume_def sample_mounted_def tape_device_alloc_def)
  have upd: "fst (on_device (tape_update_mam_attributes None TC_MAM_VOL_LOCK_STATE None PERMLOCKED_MAM)
      (sample_volume\<lparr>device := sample_mounted\<lparr>backend_mutex := True\<rparr>\<rparr>)) = 0"
    by (simp add: on_device_def tape_update_mam_attributes_def on_backend_def sample_mounted_def tape_device_alloc_def
        filedebug_handler_def filedebug_update_mam_attr_def)
  show ?thesis
    using assms upd
    by (auto simp: f change_lock_state_def i b lock ltfs_set_volume_lockstate_def split: prod.splits if_splits)
qed

theorem lock_is_final_witness:
  "\<exists>ret lk vol. set_lock_xattr ascii_icu True (Some ''2'') \<lparr>bitfield = 0, lockstate_text = None\<rparr> sample_volume = (ret, lk, vol) \<and>
     ltfs_get_tape_readonly lk vol < 0 \<and> change_lock_state UNLOCKED UNLOCKED_MAM lk vol = (- 1, lk, vol)"
proof -
  let ?lk = "\<lparr>bitfield = 0, lockstate_text = None\<rparr>"
  obtain ret lk vol where s: "set_lock_xattr ascii_icu True (Some ''2'') ?lk sample_volume = (ret, lk, vol)"
    by (metis prod.exhaust)
  have "ltfs_get_physically_write_protected sample_volume = 0" "volumelockstate (mam_attr sample_volume) = UNLOCKED_MAM"
    by (simp_all add: ltfs_get_physically_write_protected_def sample_volume_def tape_get_physically_write_protected_def
        tape_get_parameters_def sample_mounted_def filedebug_handler_def filedebug_get_parameters_def sample_loaded_def
        sample_drive_def)
  then have "lock_at_mount None sample_volume = (?lk, sample_volume)"
    by (simp add: lock_at_mount_def ltfs_update_volumelockstate_def text_begins_def Let_def)
  then have "lock_step\<^sup>*\<^sup>* (lock_at_mount None sample_volume) (lk, vol)" using lock_set [OF s] by simp
  moreover have "bit_holds PERM_LOCKED (bitfield lk)" using sample_permlock [OF s] by (simp add: bit_holds_def)
  ultimately show ?thesis
    using lock_is_final [of None sample_volume lk vol lk vol PERM_LOCKED] s by auto
qed

end
