(* ===== verification/FsOps.thy ===== *)
theory FsOps imports Paths Criteria VolumeLocks begin

unbundle bit_operations_syntax

text \<open>
  Files and directories: opening, closing, creating, unlinking and renaming, \<open>ltfs_fsops.c\<close> and the first functions of
  \<open>ltfs_fsops_raw.c\<close>. The state is a mounted volume: the tree, the volume with its device, the advisory
  lock and the data placement rules. There is neither an I/O scheduler nor a dentry cache.

  The argument \<open>env\<close> has the environment of \<open>FsRaw\<close>, with the time, which does not pass during an operation, and with what other
  threads do to the volume, and ICU. An operation that asks whether the unit is ready is \<open>None\<close> if that question is
  never answered. A dentry that a caller holds is an address.
\<close>

record 'b fsys =
  dentries :: fs
  volume :: "'b ltfs_volume"
  lockbits :: lock_info
  placement :: index_criteria

record 'b ops_env =
  io :: "'b fs_env"
  unicode :: icu
  graphemes :: "u16 list \<Rightarrow> clusters option"

text \<open>\<open>ltfs_file_id\<close>\<close>

type_synonym ltfs_file_id = "u64 \<times> u16"

definition no_id :: ltfs_file_id where "no_id = (0, 0)"

definition id_of :: "nat \<Rightarrow> fs \<Rightarrow> ltfs_file_id" where
  "id_of a t = (uid (get a t), ino (get a t))"

section \<open>Steps on parts of the state\<close>

definition on_tree :: "(fs \<Rightarrow> fs) \<Rightarrow> 'b fsys \<Rightarrow> 'b fsys" where
  "on_tree f m = m\<lparr>dentries := f (dentries m)\<rparr>"

definition set_dirty :: "bool \<Rightarrow> 'b fsys \<Rightarrow> 'b fsys" where
  "set_dirty atime m =
     m\<lparr>volume := (volume m)\<lparr>index := (index (volume m))\<lparr>idx_flags :=
         ltfs_set_index_dirty atime (idx_flags (index (volume m)))\<rparr>\<rparr>\<rparr>"

text \<open>Taking the volume lock for reading.\<close>

definition lock_volume :: "'b ops_env \<Rightarrow> 'b fsys \<Rightarrow> int \<times> 'b fsys" where
  "lock_volume env m =
     (case ltfs_get_volume_lock (env_others (io env)) (volume m) of (ret, vol) \<Rightarrow>
        let m = m\<lparr>volume := vol\<rparr>
        in (ret, if ret < 0 then m else on_tree (acquireread Volume_lock) m))"

definition unlock_volume :: "'b fsys \<Rightarrow> 'b fsys" where
  "unlock_volume m = on_tree (releaseread Volume_lock) m"

text \<open>The checks in front of most operations: the volume is writable, up to the errors in \<open>ignored\<close>, and the unit is ready.\<close>

definition check_ready :: "'b ops_env \<Rightarrow> int list \<Rightarrow> 'b fsys \<Rightarrow> (int \<times> 'b fsys) option" where
  "check_ready env ignored m =
     (let ret = ltfs_get_tape_readonly (lockbits m) (volume m) in
      if ret < 0 \<and> ret \<notin> set ignored then Some (ret, m)
      else map_option (\<lambda>(ret, vol). (ret, m\<lparr>volume := vol\<rparr>)) (ltfs_test_unit_ready (io env) (volume m)))"

definition match_criteria :: "'b ops_env \<Rightarrow> nat \<Rightarrow> 'b fsys \<Rightarrow> 'b fsys" where
  "match_criteria env a m =
     (case index_criteria_match (unicode env) (graphemes env) (env_memory (io env))
             (the (d_name (get a (dentries m)))) (placement m) of
        (matches, ic) \<Rightarrow> on_tree (change a (\<lambda>d. d\<lparr>matches_name_criteria := matches\<rparr>)) (m\<lparr>placement := ic\<rparr>))"

section \<open>Counting blocks\<close>

definition ltfs_update_valid_block_count_unlocked :: "u64 \<Rightarrow> 'b fsys \<Rightarrow> 'b fsys" where
  "ltfs_update_valid_block_count_unlocked c m = on_tree (\<lambda>t. t\<lparr>valid_blocks := valid_blocks t + c\<rparr>) m"

definition ltfs_update_valid_block_count :: "'b ops_env \<Rightarrow> u64 \<Rightarrow> 'b fsys \<Rightarrow> int \<times> 'b fsys" where
  "ltfs_update_valid_block_count env c m =
     (case lock_volume env m of (ret, m) \<Rightarrow>
        if ret < 0 then (ret, m) else (0, unlock_volume (ltfs_update_valid_block_count_unlocked c m)))"

definition ltfs_fsops_update_used_blocks :: "'b ops_env \<Rightarrow> nat \<Rightarrow> 'b fsys \<Rightarrow> int \<times> 'b fsys" where
  "ltfs_fsops_update_used_blocks env a m =
     (let m = on_tree (acquirewrite (Meta_lock a) \<circ> acquireread (Contents_lock a)) m;
          used_save = used_blocks (get a (dentries m));
          used = fs_get_used_blocks (ucast (lbl_blocksize (label (volume m)))) (get a (dentries m));
          m = on_tree (change a (\<lambda>d. d\<lparr>used_blocks := used\<rparr>)) m;
          m = on_tree (releaseread (Contents_lock a) \<circ> releasewrite (Meta_lock a)) m
      in ltfs_update_valid_block_count env (used - used_save) m)"

section \<open>Opening and closing\<close>

definition ltfs_fsraw_open :: "'b ops_env \<Rightarrow> string \<Rightarrow> bool \<Rightarrow> 'b fsys \<Rightarrow> int \<times> nat option \<times> 'b fsys" where
  "ltfs_fsraw_open env path open_write m =
     (case lock_volume env m of (ret, m) \<Rightarrow>
      if ret < 0 then (ret, None, m)
      else case fs_path_lookup (unicode env) path 0 (dentries m) of (ret, dtmp, t) \<Rightarrow>
        let m = m\<lparr>dentries := t\<rparr> in
        if ret < 0 then (ret, None, unlock_volume m)
        else
          let a = the dtmp;
              m = (if open_write \<and> \<not> isdir (get a (dentries m)) then
                     let max_filesize = index_criteria_get_max_filesize (placement m);
                         m = on_tree (acquirewrite (Meta_lock a)) m;
                         d = get a (dentries m);
                         m = (if \<not> matches_name_criteria d \<and> 0 < max_filesize \<and> d_size d \<le> max_filesize
                              then match_criteria env a m else m);
                         m = on_tree (change a (\<lambda>d. d\<lparr>openforwrite := True\<rparr>)) m
                     in on_tree (releasewrite (Meta_lock a)) m
                   else m)
          in (0, Some a, unlock_volume m))"

definition ltfs_fsraw_close :: "'b ops_env \<Rightarrow> nat \<Rightarrow> 'b fsys \<Rightarrow> int \<times> 'b fsys" where
  "ltfs_fsraw_close env a m = (0, on_tree (fs_release_dentry (unicode env) a) m)"

definition ltfs_fsops_close :: "'b ops_env \<Rightarrow> nat \<Rightarrow> bool \<Rightarrow> 'b fsys \<Rightarrow> int \<times> 'b fsys" where
  "ltfs_fsops_close env a open_write m =
     (let time = env_now (io env);
          m = (if need_update_time (get a (dentries m)) then
                 on_tree (change a (\<lambda>d. d\<lparr>need_update_time := False\<rparr>) \<circ> releasewrite (Meta_lock a) \<circ>
                   change a (\<lambda>d. d\<lparr>modify_time := time, change_time := time\<rparr>) \<circ> acquirewrite (Meta_lock a)) m
               else m);
          (ret_u, m) = (if open_write then ltfs_fsops_update_used_blocks env a m else (0, m))
      in case ltfs_fsraw_close env a m of (ret, m) \<Rightarrow> (if ret = 0 \<and> ret_u \<noteq> 0 then ret_u else ret, m))"

text \<open>The check for a medium that is full does not ignore anything: its two comparisons cannot both fail.\<close>

definition writable_for_open :: "'b fsys \<Rightarrow> int" where
  "writable_for_open m =
     (let vol = volume m;
          ret = tape_read_only (ltfs_part_id2num (ltfs_ip_id vol) vol) (device vol);
          ret = (if ret = 0 \<or> ret = - LTFS_LESS_SPACE
                 then tape_read_only (ltfs_part_id2num (ltfs_dp_id vol) vol) (device vol) else ret)
      in if ret < 0 \<and> (ret \<noteq> - LTFS_LESS_SPACE \<or> ret \<noteq> - LTFS_NO_SPACE) then ret else 0)"

definition source_error :: "int \<Rightarrow> int" where
  "source_error ret = (if ret = - LTFS_INVALID_PATH then - LTFS_INVALID_SRC_PATH else ret)"

definition ltfs_fsops_open :: "'b ops_env \<Rightarrow> string \<Rightarrow> bool \<Rightarrow> 'b fsys \<Rightarrow> int \<times> nat option \<times> 'b fsys" where
  "ltfs_fsops_open env path open_write m =
     (if open_write \<and> writable_for_open m < 0 then (writable_for_open m, None, m)
      else case pathname_format (unicode env) path True True of (ret, path_norm) \<Rightarrow>
      if ret < 0 then (source_error ret, None, m)
      else case ltfs_fsraw_open env (the path_norm) open_write m of (ret, d, m) \<Rightarrow>
      if ret = 0 \<and> open_write \<and> isslink (get (the d) (dentries m))
      then (- LTFS_RDONLY_VOLUME, d, snd (ltfs_fsops_close env (the d) open_write m))
      else (ret, d, m))"

text \<open>The first lookup only finds out whether there is a directory or a file.\<close>

definition ltfs_fsops_open_combo ::
    "'b ops_env \<Rightarrow> string \<Rightarrow> bool \<Rightarrow> bool \<Rightarrow> 'b fsys \<Rightarrow> int \<times> nat option \<times> bool option \<times> 'b fsys" where
  "ltfs_fsops_open_combo env path open_write isopendir m =
     (let ret = (if open_write then ltfs_get_tape_readonly (lockbits m) (volume m) else 0) in
      if ret < 0 \<and> ret \<noteq> - LTFS_LESS_SPACE then (ret, None, None, m)
      else case pathname_format (unicode env) path True True of (ret, path_norm) \<Rightarrow>
      if ret < 0 then (source_error ret, None, None, m)
      else case lock_volume env m of (ret, m) \<Rightarrow>
      if ret < 0 then (ret, None, None, m)
      else case fs_path_lookup (unicode env) (the path_norm) 0 (dentries m) of (ret, dtmp, t) \<Rightarrow>
        let m = m\<lparr>dentries := t\<rparr> in
        if ret < 0 then (ret, None, None, unlock_volume m)
        else
          let wrong = (isopendir \<noteq> isdir (get (the dtmp) (dentries m)));
              m = unlock_volume (on_tree (fs_release_dentry (unicode env) (the dtmp)) m)
          in if wrong then (- LTFS_NO_DENTRY, None, None, m)
             else case ltfs_fsraw_open env (the path_norm) open_write m of (ret, d, m) \<Rightarrow>
               (ret, d, if ret = 0 then map_option (\<lambda>a. d_readonly (get a (dentries m))) d else None, m))"

section \<open>Creating\<close>

text \<open>The label \<open>out_dispose\<close>.\<close>

definition create_dispose :: "'b ops_env \<Rightarrow> nat \<Rightarrow> 'b fsys \<Rightarrow> 'b fsys" where
  "create_dispose env par m =
     on_tree (fs_release_dentry (unicode env) par \<circ> releasewrite (Contents_lock par)) m"

text \<open>A new dentry \<open>a\<close>, not linked yet, enters the directory \<open>par\<close>.\<close>

definition create_fill :: "'b ops_env \<Rightarrow> bool \<Rightarrow> nat \<Rightarrow> nat \<Rightarrow> 'b fsys \<Rightarrow> int \<times> 'b fsys" where
  "create_fill env dir par a m =
     (let time = env_now (io env);
          m = on_tree (acquirewrite (Meta_lock a) \<circ> acquirewrite (Meta_lock par)) m;
          m = (if dir then m else on_tree (change a (\<lambda>d. d\<lparr>openforwrite := True\<rparr>)) m);
          m = on_tree (change a (\<lambda>d. d\<lparr>creation_time := time, modify_time := time, access_time := time,
                change_time := time, backup_time := time\<rparr>)) m;
          m = on_tree (change par (\<lambda>d. d\<lparr>modify_time := time, change_time := time\<rparr>)) m;
          m = (if \<not> dir \<and> index_criteria_get_max_filesize (placement m) \<noteq> 0 then match_criteria env a m else m);
          m = on_tree (change a (\<lambda>d. d\<lparr>parent := Some par, link_count := link_count d + 1,
                numhandles := numhandles d + 1\<rparr>)) m;
          m = (if dir then on_tree (change par (\<lambda>d. d\<lparr>link_count := link_count d + 1\<rparr>)) m else m);
          m = on_tree (change a (\<lambda>d. d\<lparr>child_list := []\<rparr>)) m;
          (ret, table) = fs_add_key_to_hash_table (unicode env) (child_list (get par (dentries m))) a (get a (dentries m));
          m = on_tree (change par (\<lambda>d. d\<lparr>child_list := table\<rparr>)) m;
          m = on_tree (releasewrite (Meta_lock par) \<circ> releasewrite (Meta_lock a)) m
      in if ret \<noteq> 0 then (ret, m)
         else (0, set_dirty False (if dir then m else on_tree fs_increment_file_count m)))"

definition create_in :: "'b ops_env \<Rightarrow> string \<Rightarrow> bool \<Rightarrow> bool \<Rightarrow> 'b fsys \<Rightarrow> int \<times> nat option \<times> 'b fsys" where
  "create_in env path_norm dir ro m =
     (case the (fs_split_path path_norm) of (directory, filename) \<Rightarrow>
      case fs_path_lookup (unicode env) directory LOCK_DENTRY_CONTENTS_W (dentries m) of (ret, par, t) \<Rightarrow>
        let m = m\<lparr>dentries := t\<rparr> in
        if ret < 0 then (ret, None, m)
        else case fs_directory_lookup (unicode env) (the par) filename (dentries m) of (ret, d, t) \<Rightarrow>
          let m = m\<lparr>dentries := t\<rparr> in
          if ret < 0 then (ret, None, create_dispose env (the par) m)
          else case d of
            Some a \<Rightarrow>
              (- LTFS_DENTRY_EXISTS, None,
               on_tree (fs_release_dentry (unicode env) (the par) \<circ> fs_release_dentry (unicode env) a \<circ>
                 releasewrite (Contents_lock (the par))) m)
          | None \<Rightarrow>
              (case fs_allocate_dentry (unicode env) (env_memory (io env)) None None (Some filename) dir ro True
                      (dentries m) of
                 (None, t) \<Rightarrow> (- LTFS_NO_MEMORY, None, create_dispose env (the par) (m\<lparr>dentries := t\<rparr>))
               | (Some a, t) \<Rightarrow>
                   (case create_fill env dir (the par) a (m\<lparr>dentries := t\<rparr>) of (ret, m) \<Rightarrow>
                      (ret, if ret = 0 then Some a else None, create_dispose env (the par) m))))"

definition ltfs_fsops_create ::
    "'b ops_env \<Rightarrow> string \<Rightarrow> bool \<Rightarrow> bool \<Rightarrow> 'b fsys \<Rightarrow> (int \<times> nat option \<times> 'b fsys) option" where
  "ltfs_fsops_create env path dir ro m =
     Option.bind (check_ready env [] m) (\<lambda>(ret, m).
       if ret < 0 then Some (ret, None, m)
       else case pathname_format (unicode env) path True True of (ret, path_norm) \<Rightarrow>
       if ret < 0 then Some (ret, None, m)
       else case lock_volume env m of (ret, m) \<Rightarrow>
       if ret < 0 then Some (ret, None, m)
       else case create_in env (the path_norm) dir ro m of (ret, d, m) \<Rightarrow> Some (ret, d, unlock_volume m))"

section \<open>Unlinking\<close>

text \<open>
  From the lookup to the label \<open>out\<close>. The parent's \<open>meta_lock\<close> is not taken on the way for a directory that is not
  empty, but it is released.
\<close>

definition unlink_entry :: "'b ops_env \<Rightarrow> nat \<Rightarrow> nat \<Rightarrow> 'b fsys \<Rightarrow> int \<times> ltfs_file_id \<times> 'b fsys" where
  "unlink_entry env par a m =
     (let time = env_now (io env);
          m = on_tree (acquirewrite (Meta_lock a) \<circ> acquirewrite (Meta_lock par)) m;
          m = on_tree (change par (\<lambda>d. d\<lparr>modify_time := time, change_time := time\<rparr>)) m
      in case fs_find_key_from_hash_table (unicode env) (child_list (get par (dentries m)))
                (the (platform_safe_name (get a (dentries m)))) of
           (ret, None) \<Rightarrow> (ret, no_id, on_tree (releasewrite (Meta_lock a)) m)
         | (ret, Some namelist) \<Rightarrow>
             let m = on_tree (change par (\<lambda>d. d\<lparr>child_list := hash_del (child_list d) namelist\<rparr>)) m;
                 file_id = id_of a (dentries m);
                 dir = isdir (get a (dentries m));
                 m = on_tree (change a (\<lambda>d. d\<lparr>deleted := True, parent := None, link_count := link_count d - 1\<rparr>)) m;
                 m = (if dir then on_tree (change par (\<lambda>d. d\<lparr>link_count := link_count d - 1\<rparr>)) m else m);
                 m = on_tree (releasewrite (Meta_lock a) \<circ> change a (\<lambda>d. d\<lparr>numhandles := numhandles d - 1\<rparr>)) m;
                 m = set_dirty False (if dir then m else on_tree fs_decrement_file_count m);
                 m = ltfs_update_valid_block_count_unlocked (- used_blocks (get a (dentries m))) m
             in (ret, file_id, m))"

definition unlink_in :: "'b ops_env \<Rightarrow> string \<Rightarrow> 'b fsys \<Rightarrow> int \<times> ltfs_file_id \<times> 'b fsys" where
  "unlink_in env path_norm m =
     (case fs_path_lookup (unicode env) path_norm LOCK_PARENT_CONTENTS_W (dentries m) of (ret, d, t) \<Rightarrow>
        let m = m\<lparr>dentries := t\<rparr> in
        if ret < 0 then (ret, no_id, unlock_volume m)
        else
          let a = the d;
              par = the (parent (get a (dentries m)));
              occupied = (isdir (get a (dentries m)) \<and> child_list (get a (dentries m)) \<noteq> []);
              m = (if isdir (get a (dentries m))
                   then on_tree (releaseread (Contents_lock a) \<circ> acquireread (Contents_lock a)) m else m);
              (ret, file_id, m) = (if occupied then (- LTFS_DIRNOTEMPTY, no_id, m) else unlink_entry env par a m);
              m = on_tree (fs_release_dentry_unlocked (unicode env) par \<circ> releasewrite (Contents_lock par)) m;
              m = on_tree (fs_release_dentry (unicode env) a) (unlock_volume m)
          in (ret, file_id, m))"

definition ltfs_fsops_unlink ::
    "'b ops_env \<Rightarrow> string \<Rightarrow> 'b fsys \<Rightarrow> (int \<times> ltfs_file_id \<times> 'b fsys) option" where
  "ltfs_fsops_unlink env path m =
     Option.bind (check_ready env [- LTFS_LESS_SPACE] m) (\<lambda>(ret, m).
       if ret < 0 then Some (ret, no_id, m)
       else case pathname_format (unicode env) path True True of (ret, path_norm) \<Rightarrow>
       if ret < 0 then Some (source_error ret, no_id, m)
       else if length (the path_norm) = 1 then Some (- LTFS_UNLINKROOT, no_id, m)
       else case lock_volume env m of (ret, m) \<Rightarrow>
       if ret < 0 then Some (ret, no_id, m) else Some (unlink_in env (the path_norm) m))"

end
