(* ===== verification/FsOpsSpec.thy ===== *)
theory FsOpsSpec imports PathsSpec FsOps FileData begin

unbundle bit_operations_syntax

text \<open>
  What creating and unlinking do to a well-formed tree. The operations are sequences of changes of
  single dentries under locks; the rules \<open>step_simps\<close> compute the fields of the state after such a sequence.
\<close>

section \<open>Fields after a step\<close>

named_theorems step_simps \<open>fields of the tree after a change of a dentry or of a lock\<close>

lemma change_fields [step_simps]:
  "heap (change a f s) = (heap s)(a := map_option f (heap s a))"
  "locks (change a f s) = locks s" "fs_root (change a f s) = fs_root s" "next_addr (change a f s) = next_addr s"
  "inode_number (change a f s) = inode_number s" "uid_number (change a f s) = uid_number s"
  "file_count (change a f s) = file_count s" "valid_blocks (change a f s) = valid_blocks s"
  "misuse (change a f s) = (misuse s \<or> heap s a = None)"
  by (auto simp: change_def set_dentry_def split: option.splits)

lemma set_lock_fields [step_simps]:
  "heap (set_lock l h g s) = heap s" "locks (set_lock l h g s) = (locks s)(l := g)"
  "fs_root (set_lock l h g s) = fs_root s" "next_addr (set_lock l h g s) = next_addr s"
  "inode_number (set_lock l h g s) = inode_number s" "uid_number (set_lock l h g s) = uid_number s"
  "file_count (set_lock l h g s) = file_count s" "valid_blocks (set_lock l h g s) = valid_blocks s"
  "misuse (set_lock l h g s) = (misuse s \<or> locks s l \<noteq> h \<or> \<not> lock_alive l s)"
  by (auto simp: set_lock_def)

lemma get_heap [step_simps]: "get a s = the (heap s a)"
  by (simp add: get_def)

lemma tree_level [step_simps]:
  "dentries (on_tree f m) = f (dentries m)" "dentries (set_dirty b m) = dentries m"
  "placement (on_tree f m) = placement m" "volume (on_tree f m) = volume m" "lockbits (on_tree f m) = lockbits m"
  by (simp_all add: on_tree_def set_dirty_def)

definition matched :: "'b ops_env \<Rightarrow> nat \<Rightarrow> 'b fsys \<Rightarrow> bool" where
  "matched env a m = fst (index_criteria_match (unicode env) (graphemes env) (env_memory (io env))
     (the (d_name (get a (dentries m)))) (placement m))"

lemma match_level [step_simps]:
  "dentries (match_criteria env a m) = change a (\<lambda>d. d\<lparr>matches_name_criteria := matched env a m\<rparr>) (dentries m)"
  by (auto simp: match_criteria_def matched_def on_tree_def split: prod.splits)

text \<open>Giving back a reference that is not the last one.\<close>

lemma release_not_last:
  assumes "heap s a = Some x" and "numhandles x - 1 \<noteq> 0"
  shows "fs_release_dentry u a s =
    releasewrite (Meta_lock a) (change a (\<lambda>d. d\<lparr>numhandles := numhandles d - 1\<rparr>) (acquirewrite (Meta_lock a) s))"
  using assms by (simp add: fs_release_dentry_def fs_release_dentry_unlocked_def get_def change_fields set_lock_fields
      acquirewrite_def Let_def)

section \<open>A new child\<close>

text \<open>The tree with the dentry \<open>new\<close> at the address \<open>a\<close>, new_child last into the directory \<open>p\<close>.\<close>

lemma child_of_grows:
  assumes "child_of u d w t = (rc, Some b)" and "heap t d = Some y" and "heap t' d = Some y'"
    and "child_list y' = child_list y \<or> (\<exists>e. child_list y' = child_list y @ [e])"
  shows "child_of u d w t' = (rc, Some b)"
proof -
  have f: "find P xs = Some v \<Longrightarrow> find P (xs @ ys) = Some v" for P :: "name_list \<Rightarrow> bool" and xs ys v
    by (induction xs) auto
  show ?thesis
    using assms
    by (auto simp: child_of_def get_def fs_find_key_from_hash_table_def f split: if_splits option.splits prod.splits)
qed

definition new_child ::
    "icu \<Rightarrow> fs \<Rightarrow> fs \<Rightarrow> nat \<Rightarrow> nat \<Rightarrow> fs_dentry \<Rightarrow> fs_dentry \<Rightarrow> fs_dentry \<Rightarrow> string \<Rightarrow> string \<Rightarrow> bool" where
  "new_child u t t' p a x x' new key name \<longleftrightarrow>
     tree u t \<and> heap t p = Some x \<and> a = next_addr t \<and>
     heap t' = (heap t)(a \<mapsto> new, p \<mapsto> x') \<and> next_addr t' = a + 1 \<and> fs_root t' = fs_root t \<and>
     child_list x' = child_list x @ [\<lparr>nl_name = key, nl_d = a, nl_uid = uid new\<rparr>] \<and>
     (parent x' = parent x \<and> deleted x' = deleted x \<and> numhandles x' = numhandles x \<and> uid x' = uid x \<and>
        platform_safe_name x' = platform_safe_name x) \<and>
     (child_list new = [] \<and> parent new = Some p \<and> \<not> deleted new \<and> numhandles new \<noteq> 0 \<and>
        platform_safe_name new = Some name \<and> name_ok name \<and> generate_hash_key_name u name = (0, Some key)) \<and>
     key \<notin> nl_name ` set (child_list x)"

lemma new_childD:
  assumes "new_child u t t' p a x x' new key name"
  shows "tree u t" "heap t p = Some x" "a = next_addr t"
    "heap t' = (heap t)(a \<mapsto> new, p \<mapsto> x')" "next_addr t' = a + 1" "fs_root t' = fs_root t"
    "child_list x' = child_list x @ [\<lparr>nl_name = key, nl_d = a, nl_uid = uid new\<rparr>]"
    "parent x' = parent x" "deleted x' = deleted x" "numhandles x' = numhandles x" "uid x' = uid x"
    "platform_safe_name x' = platform_safe_name x"
    "child_list new = []" "parent new = Some p" "\<not> deleted new" "numhandles new \<noteq> 0"
    "platform_safe_name new = Some name" "name_ok name" "generate_hash_key_name u name = (0, Some key)"
    "key \<notin> nl_name ` set (child_list x)"
  using assms unfolding new_child_def by simp_all

lemma new_child_fresh:
  assumes "new_child u t t' p a x x' new key name"
  shows "heap t b \<noteq> None \<Longrightarrow> b < a" and "heap t a = None" and "p \<noteq> a"
proof -
  note f = new_childD [OF assms]
  show below: "b < a" if "heap t b \<noteq> None" for b using f(1,3) that by (simp add: tree_def)
  show "heap t a = None" using below [of a] by (cases "heap t a") auto
  show "p \<noteq> a" using below [of p] f(2) by auto
qed

lemma new_child_old:
  assumes g: "new_child u t t' p a x x' new key name" and "heap t b = Some y"
  shows "\<exists>y'. heap t' b = Some y' \<and> parent y' = parent y \<and> deleted y' = deleted y \<and> numhandles y' = numhandles y \<and>
    uid y' = uid y \<and> platform_safe_name y' = platform_safe_name y \<and>
    child_list y' = child_list y @ (if b = p then [\<lparr>nl_name = key, nl_d = a, nl_uid = uid new\<rparr>] else [])"
  using assms(2) new_child_fresh(2,3) [OF g] new_childD(2,4,7-12) [OF g] by auto

lemma new_child_new: "new_child u t t' p a x x' new key name \<Longrightarrow> heap t' a = Some new"
  using new_child_fresh(3) new_childD(4) by fastforce

lemma new_child_cases:
  assumes g: "new_child u t t' p a x x' new key name" and "heap t' b = Some y"
  obtains (new) "b = a" "y = new" | (old) y0 where "b \<noteq> a" "heap t b = Some y0"
  using assms(2) new_child_fresh(3) [OF g] new_childD(2,4) [OF g] by (cases "b = a"; cases "b = p") (auto split: if_splits)

lemma new_child_child_ok:
  assumes g: "new_child u t t' p a x x' new key name" and "child_ok u t q e"
  shows "child_ok u t' q e"
  using assms(2) new_child_old [OF g] unfolding child_ok_def by metis

text \<open>Every directory still has proper children, with distinct names, and every dentry is a child of its parent.\<close>

lemma new_child_children:
  assumes g: "new_child u t t' p a x x' new key name" and y: "heap t' q = Some y" and e: "e \<in> set (child_list y)"
  shows "child_ok u t' q e"
  using g y
proof (cases rule: new_child_cases)
  case new
  then show ?thesis using e new_childD(13) [OF g] by simp
next
  case (old y0)
  then have "e \<in> set (child_list y0) \<or> q = p \<and> e = \<lparr>nl_name = key, nl_d = a, nl_uid = uid new\<rparr>"
    using y e new_child_old [OF g old(2)] by (auto split: if_splits)
  moreover have "child_ok u t' p \<lparr>nl_name = key, nl_d = a, nl_uid = uid new\<rparr>"
    using new_childD(14-19) [OF g] by (simp add: child_ok_def new_child_new [OF g])
  ultimately show ?thesis using tree_child [OF new_childD(1) [OF g] old(2)] new_child_child_ok [OF g] by auto
qed

lemma new_child_distinct:
  assumes g: "new_child u t t' p a x x' new key name" and y: "heap t' q = Some y"
  shows "distinct (map nl_name (child_list y))"
  using g y
proof (cases rule: new_child_cases)
  case new
  then show ?thesis using new_childD(13) [OF g] by simp
next
  case (old y0)
  then have "distinct (map nl_name (child_list y0))" using new_childD(1) [OF g] by (simp add: tree_def)
  moreover have "q = p \<Longrightarrow> key \<notin> nl_name ` set (child_list y0)" using new_childD(2,20) [OF g] old(2) by simp
  ultimately show ?thesis using y new_child_old [OF g old(2)] by auto
qed

lemma new_child_parents:
  assumes g: "new_child u t t' p a x x' new key name" and c: "heap t' b = Some c" "parent c = Some q"
  shows "\<exists>y e. heap t' q = Some y \<and> e \<in> set (child_list y) \<and> nl_d e = b"
  using g c(1)
proof (cases rule: new_child_cases)
  case new
  then have q: "q = p" using c(2) new_childD(14) [OF g] by simp
  have "heap t' p = Some x'" using new_childD(4) [OF g] by simp
  then show ?thesis using q new(1) new_childD(7) [OF g] by (metis in_set_conv_decomp name_list.select_convs(2))
next
  case (old y0)
  then have "parent y0 = Some q" using c new_child_old [OF g old(2)] by auto
  then obtain z e where "heap t q = Some z" "e \<in> set (child_list z)" "nl_d e = b"
    using new_childD(1) [OF g] old(2) unfolding tree_def by blast
  then show ?thesis using new_child_old [OF g, of q z] by fastforce
qed

lemma new_child_depth:
  assumes g: "new_child u t t' p a x x' new key name"
  shows "\<exists>depth. \<forall>b c. heap t' b = Some c \<longrightarrow> depth b < next_addr t' \<and> (\<forall>q. parent c = Some q \<longrightarrow> depth q < depth b)"
proof -
  note f = new_childD [OF g]
  obtain depth where d: "\<forall>b c. heap t b = Some c \<longrightarrow> depth b < next_addr t \<and> (\<forall>q. parent c = Some q \<longrightarrow> depth q < depth b)"
    using f(1) unfolding tree_def by blast
  let ?depth = "depth(a := Suc (depth p))"
  have "?depth b < next_addr t' \<and> (\<forall>q. parent c = Some q \<longrightarrow> ?depth q < ?depth b)" if c: "heap t' b = Some c" for b c
    using g c
  proof (cases rule: new_child_cases)
    case new
    then show ?thesis using d f(2,3,5,14) new_child_fresh(3) [OF g] by auto
  next
    case (old y0)
    then have y: "parent c = parent y0" using c new_child_old [OF g old(2)] by auto
    have "q \<noteq> a" if up: "parent y0 = Some q" for q
    proof -
      have "heap t q \<noteq> None" using f(1) old(2) up unfolding tree_def by blast
      then show ?thesis using new_child_fresh(2) [OF g] by auto
    qed
    then show ?thesis using d old y f(3,5) by (auto simp: less_Suc_eq)
  qed
  then show ?thesis by blast
qed

lemma new_child_tree:
  assumes g: "new_child u t t' p a x x' new key name"
  shows "tree u t'"
proof -
  note f = new_childD [OF g]
  have "root_ok t'" using tree_root [OF f(1)] new_child_old [OF g] unfolding root_ok_def f(6) by metis
  moreover have "b < next_addr t'" if "heap t' b \<noteq> None" for b
    using that new_child_fresh(1) [OF g, of b] new_child_fresh(1) [OF g, of p] f(2,4,5) by (auto split: if_splits)
  ultimately show ?thesis
    using new_child_children [OF g] new_child_distinct [OF g] new_child_parents [OF g] new_child_depth [OF g]
    unfolding tree_def by blast
qed

text \<open>Every path that led somewhere leads there still, and the new name leads to the new dentry.\<close>

lemma new_child_resolve:
  assumes g: "new_child u t t' p a x x' new key name" and "resolve u d ws t = Inr r" and "heap t d \<noteq> None"
  shows "resolve u d ws t' = Inr r"
  using assms(2,3)
proof (induction ws arbitrary: d)
  case (Cons w ws)
  obtain y where y: "heap t d = Some y" using Cons.prems(2) by blast
  obtain rc b where c: "child_of u d w t = (rc, Some b)"
    using Cons.prems(1) by (cases "child_of u d w t"; cases "snd (child_of u d w t)") auto
  obtain y' where y': "heap t' d = Some y'"
      "child_list y' = child_list y @ (if d = p then [\<lparr>nl_name = key, nl_d = a, nl_uid = uid new\<rparr>] else [])"
    using new_child_old [OF g y] by blast
  have c': "child_of u d w t' = (rc, Some b)"
    by (rule child_of_grows [OF c y y'(1)]) (simp add: y'(2))
  have "heap t b \<noteq> None" using child_linked(3) [OF new_childD(1) [OF g] y c] by auto
  then show ?case using Cons c c' by (auto split: if_splits)
qed simp

lemma new_child_child_of:
  assumes g: "new_child u t t' p a x x' new key name"
  shows "child_of u p name t' = (0, Some a)"
proof -
  note f = new_childD [OF g]
  let ?e = "\<lparr>nl_name = key, nl_d = a, nl_uid = uid new\<rparr>"
  have "find P (xs @ [v]) = (if find P xs = None then (if P v then Some v else None) else find P xs)"
    for P :: "name_list \<Rightarrow> bool" and xs v
    by (induction xs) auto
  moreover have "find (\<lambda>e. nl_name e = key) (child_list x) = None" using f(20) by (auto simp: find_None_iff)
  ultimately have "find (\<lambda>e. nl_name e = key) (child_list x @ [?e]) = Some ?e" by simp
  moreover have "get p t' = x'" using f(4) by (simp add: get_def)
  ultimately show ?thesis
    using f(7,18,19) by (simp add: child_of_def fs_find_key_from_hash_table_def name_ok_def)
qed

section \<open>Creating\<close>

definition fresh_dentry :: "string \<Rightarrow> bool \<Rightarrow> bool \<Rightarrow> fs \<Rightarrow> fs_dentry" where
  "fresh_dentry name dir ro t =
     (perform_name_percent_encoding (blank_dentry\<lparr>platform_safe_name := Some name\<rparr>))
       \<lparr>isdir := dir, d_readonly := ro, numhandles := 1, link_count := (if dir then 1 else 0),
        ino := inode_number t + 1, uid := uid_number t + 1\<rparr>"

lemma allocate_fresh:
  assumes "uid_number t \<noteq> 0" and "uid_number t + 1 \<noteq> 0"
  shows "fs_allocate_dentry u True None None (Some name) dir ro True t =
    (Some (next_addr t), t\<lparr>heap := (heap t)(next_addr t \<mapsto> fresh_dentry name dir ro t), next_addr := next_addr t + 1,
       inode_number := inode_number t + 1, uid_number := uid_number t + 1\<rparr>)"
  using assms
  by (simp add: fs_allocate_dentry_def name_dentry_def fs_allocate_uid_def fresh_dentry_def Let_def set_dentry_def
      perform_name_percent_encoding_def blank_dentry_def split: prod.splits)

lemma fresh_fields:
  "child_list (fresh_dentry name dir ro t) = []" "platform_safe_name (fresh_dentry name dir ro t) = Some name"
  "\<not> deleted (fresh_dentry name dir ro t)" "numhandles (fresh_dentry name dir ro t) = 1"
  "uid (fresh_dentry name dir ro t) = uid_number t + 1" "isdir (fresh_dentry name dir ro t) = dir"
  "d_readonly (fresh_dentry name dir ro t) = ro" "extentlist (fresh_dentry name dir ro t) = []"
  "d_size (fresh_dentry name dir ro t) = 0" "ino (fresh_dentry name dir ro t) = inode_number t + 1"
  by (simp_all add: fresh_dentry_def perform_name_percent_encoding_def blank_dentry_def split: prod.splits)

text \<open>What \<open>create_fill\<close> leaves of the new dentry and of its directory.\<close>

definition filled :: "string \<Rightarrow> nat \<Rightarrow> nat \<Rightarrow> fs_dentry \<Rightarrow> fs_dentry \<Rightarrow> fs_dentry \<Rightarrow> fs_dentry \<Rightarrow> bool" where
  "filled key p a n n' x x' \<longleftrightarrow>
     child_list n' = [] \<and> parent n' = Some p \<and> deleted n' = deleted n \<and> numhandles n' = numhandles n + 1 \<and>
     platform_safe_name n' = platform_safe_name n \<and> uid n' = uid n \<and> isdir n' = isdir n \<and>
     d_readonly n' = d_readonly n \<and> extentlist n' = extentlist n \<and> d_size n' = d_size n \<and> ino n' = ino n \<and>
     child_list x' = child_list x @ [\<lparr>nl_name = key, nl_d = a, nl_uid = uid n\<rparr>] \<and>
     parent x' = parent x \<and> deleted x' = deleted x \<and> numhandles x' = numhandles x \<and> uid x' = uid x \<and>
     platform_safe_name x' = platform_safe_name x"

lemma create_fill_ok:
  assumes "heap (dentries m) a = Some n" and "heap (dentries m) p = Some x" and "a \<noteq> p"
    and "locks (dentries m) (Meta_lock a) = Nothing" and "locks (dentries m) (Meta_lock p) = Nothing"
    and "platform_safe_name n = Some name" and "generate_hash_key_name (unicode env) name = (0, Some key)"
  shows "\<exists>m' n' x'. create_fill env dir p a m = (0, m') \<and> filled key p a n n' x x' \<and>
     heap (dentries m') = (heap (dentries m))(a \<mapsto> n', p \<mapsto> x') \<and>
     locks (dentries m') = locks (dentries m) \<and> fs_root (dentries m') = fs_root (dentries m) \<and>
     next_addr (dentries m') = next_addr (dentries m) \<and> misuse (dentries m') = misuse (dentries m) \<and>
     file_count (dentries m') = file_count (dentries m) + (if dir then 0 else 1) \<and>
     uid_number (dentries m') = uid_number (dentries m) \<and> inode_number (dentries m') = inode_number (dentries m)"
proof -
  note fill = create_fill_def Let_def fs_add_key_to_hash_table_def lock_steps step_simps fs_increment_file_count_def
  have r: "fst (create_fill env dir p a m) = 0"
    using assms by (cases dir) (simp_all add: fill)
  define m' where "m' = snd (create_fill env dir p a m)"
  have new: "\<exists>n'. heap (dentries m') a = Some n' \<and> child_list n' = [] \<and> parent n' = Some p \<and> deleted n' = deleted n \<and>
      numhandles n' = numhandles n + 1 \<and> platform_safe_name n' = platform_safe_name n \<and> uid n' = uid n \<and>
      isdir n' = isdir n \<and> d_readonly n' = d_readonly n \<and> extentlist n' = extentlist n \<and> d_size n' = d_size n \<and>
      ino n' = ino n"
    using assms by (cases dir) (simp_all add: m'_def fill)
  have par: "\<exists>x'. heap (dentries m') p = Some x' \<and>
      child_list x' = child_list x @ [\<lparr>nl_name = key, nl_d = a, nl_uid = uid n\<rparr>] \<and> parent x' = parent x \<and>
      deleted x' = deleted x \<and> numhandles x' = numhandles x \<and> uid x' = uid x \<and>
      platform_safe_name x' = platform_safe_name x"
    using assms by (cases dir) (simp_all add: m'_def fill)
  have rest: "heap (dentries m') b = heap (dentries m) b" if "b \<noteq> a" "b \<noteq> p" for b
    using assms that by (cases dir) (simp_all add: m'_def fill)
  have free: "locks (dentries m') = locks (dentries m)"
    by (rule ext) (use assms in \<open>cases dir; simp add: m'_def fill\<close>)
  have other: "fs_root (dentries m') = fs_root (dentries m)"
      "next_addr (dentries m') = next_addr (dentries m)" "misuse (dentries m') = misuse (dentries m)"
      "file_count (dentries m') = file_count (dentries m) + (if dir then 0 else 1)"
      "uid_number (dentries m') = uid_number (dentries m)" "inode_number (dentries m') = inode_number (dentries m)"
    using assms by (cases dir; simp add: m'_def fill)+
  obtain n' x' where nx: "heap (dentries m') a = Some n'" "heap (dentries m') p = Some x'" "filled key p a n n' x x'"
    using new par unfolding filled_def by auto
  then have "heap (dentries m') = (heap (dentries m))(a \<mapsto> n', p \<mapsto> x')"
    using rest by (auto simp: fun_eq_iff)
  moreover have "create_fill env dir p a m = (0, m')" using r unfolding m'_def by (metis prod.collapse)
  ultimately show ?thesis using nx(3) other free by blast
qed

text \<open>The look-up of the directory, with its contents locked.\<close>

definition opened :: "nat \<Rightarrow> fs \<Rightarrow> fs" where
  "opened p t = (add_handles p 1 t)\<lparr>locks := (quiet t)(Contents_lock p := Exclusive)\<rparr>"

lemma lookup_directory:
  assumes "tree u t" and "unlocked t" and "resolve_path u dpath t = Inr (par, p)"
  shows "fs_path_lookup u dpath LOCK_DENTRY_CONTENTS_W t = (0, Some p, opened p t)"
proof -
  have w: "wants LOCK_DENTRY_CONTENTS_W LOCK_DENTRY_CONTENTS_W" "\<not> wants LOCK_DENTRY_CONTENTS_W LOCK_DENTRY_META_W"
      "\<not> wants LOCK_DENTRY_CONTENTS_W LOCK_DENTRY_META_R" "\<not> wants LOCK_DENTRY_CONTENTS_W LOCK_PARENT_CONTENTS_W"
      "\<not> wants LOCK_DENTRY_CONTENTS_W LOCK_PARENT_CONTENTS_R" "\<not> wants LOCK_DENTRY_CONTENTS_W LOCK_PARENT_META_W"
      "\<not> wants LOCK_DENTRY_CONTENTS_W LOCK_PARENT_META_R"
    by code_simp+
  have same: "(quiet t)(Contents_lock p := Exclusive, Meta_lock p := Nothing) = (quiet t)(Contents_lock p := Exclusive)"
    by (simp add: fun_upd_idem)
  show ?thesis
    using path_lookup [OF assms(1,2), of dpath LOCK_DENTRY_CONTENTS_W] assms(3) w same
    by (cases par) (simp_all add: looked_up_def asked_locks_def grant_of_def opened_def wants_or)
qed

lemma opened_fields:
  assumes "heap t p = Some x"
  shows "heap (opened p t) = (heap t)(p \<mapsto> x\<lparr>numhandles := numhandles x + 1\<rparr>)"
    "locks (opened p t) = (quiet t)(Contents_lock p := Exclusive)" "misuse (opened p t) = misuse t"
    "fs_root (opened p t) = fs_root t" "next_addr (opened p t) = next_addr t" "file_count (opened p t) = file_count t"
    "uid_number (opened p t) = uid_number t" "inode_number (opened p t) = inode_number t"
  using assms by (simp_all add: opened_def add_handles_def step_simps)

lemma split_last: "CHR ''/'' \<notin> set name \<Longrightarrow> fs_split_path (dpath @ CHR ''/'' # name) = Some (dpath, name)"
  by (simp add: fs_split_path_def takeWhile_append takeWhile_tail)

text \<open>A directory that a path leads to is in use.\<close>

lemma tree_alive:
  assumes "tree u t" and "resolve_path u dpath t = Inr (par, p)"
  shows "\<exists>x. heap t p = Some x \<and> numhandles x \<noteq> 0"
proof -
  have far: "resolve u e ws t = Inr (q, p) \<Longrightarrow> ws \<noteq> [] \<Longrightarrow> heap t e \<noteq> None \<Longrightarrow>
      \<exists>x. heap t p = Some x \<and> numhandles x \<noteq> 0" for e ws q
  proof (induction ws arbitrary: e)
    case (Cons w ws)
    obtain y where y: "heap t e = Some y" using Cons.prems(3) by blast
    obtain rc b where c: "child_of u e w t = (rc, Some b)"
      using Cons.prems(1) by (cases "child_of u e w t"; cases "snd (child_of u e w t)") auto
    show ?case
      using child_linked [OF assms(1) y c] c Cons.IH [of b] Cons.prems(1) by (cases "ws = []") auto
  qed simp
  show ?thesis
    using assms(2) far components_nonempty [of "tl dpath"] tree_root [OF assms(1)]
    by (auto simp: resolve_path_def root_ok_def split: if_splits sum.splits prod.splits)
qed

text \<open>\<open>create_in\<close> as a whole.\<close>

lemma create_in_ok:
  assumes t: "tree (unicode env) (dentries m)" "unlocked (dentries m)"
    and d: "resolve_path (unicode env) dpath (dentries m) = Inr (par, p)" "heap (dentries m) p = Some x"
    and name: "name_ok name" "generate_hash_key_name (unicode env) name = (0, Some key)"
    and missing: "child_of (unicode env) p name (dentries m) = (0, None)"
    and uids: "uid_number (dentries m) \<noteq> 0" "uid_number (dentries m) + 1 \<noteq> 0" and mem: "env_memory (io env)"
  shows "\<exists>m' n' x'. create_in env (dpath @ ''/'' @ name) dir ro m = (0, Some (next_addr (dentries m)), m') \<and>
     new_child (unicode env) (dentries m) (dentries m') p (next_addr (dentries m)) x x' n' key name \<and>
     unlocked (dentries m') \<and> locks (dentries m') = locks (dentries m) \<and>
     file_count (dentries m') = file_count (dentries m) + (if dir then 0 else 1) \<and>
     uid_number (dentries m') = uid_number (dentries m) + 1 \<and> inode_number (dentries m') = inode_number (dentries m) + 1 \<and>
     uid n' = uid_number (dentries m) + 1 \<and> ino n' = inode_number (dentries m) + 1 \<and>
     isdir n' = dir \<and> d_readonly n' = ro \<and> extentlist n' = [] \<and> d_size n' = 0"
proof -
  define t where "t = dentries m"
  define u where "u = unicode env"
  define a where "a = next_addr t"
  note defs = t_def [symmetric] u_def [symmetric] a_def [symmetric]
  have looked: "fs_directory_lookup u p name (opened p t) = (0, None, opened p t)"
    using round_lookup [OF t(1) d(2), of name Exclusive] missing by (simp add: opened_def defs)
  have fresh: "heap t a = None" "p \<noteq> a"
    using t(1) d(2) unfolding tree_def a_def t_def by (metis less_irrefl option.discI)+
  let ?T = "(opened p t)\<lparr>heap := (heap (opened p t))(a \<mapsto> fresh_dentry name dir ro (opened p t)), next_addr := a + 1,
       inode_number := inode_number (opened p t) + 1, uid_number := uid_number (opened p t) + 1\<rparr>"
  note f = opened_fields [OF d(2), unfolded defs]
  have alloc: "fs_allocate_dentry u True None None (Some name) dir ro True (opened p t) = (Some a, ?T)"
    using allocate_fresh [of "opened p t" u name dir ro] uids by (simp add: f defs)
  have "\<exists>m3 n' x3. create_fill env dir p a (m\<lparr>dentries := ?T\<rparr>) = (0, m3) \<and>
      filled key p a (fresh_dentry name dir ro (opened p t)) n' (x\<lparr>numhandles := numhandles x + 1\<rparr>) x3 \<and>
      heap (dentries m3) = (heap ?T)(a \<mapsto> n', p \<mapsto> x3) \<and> locks (dentries m3) = locks ?T \<and>
      fs_root (dentries m3) = fs_root ?T \<and> next_addr (dentries m3) = next_addr ?T \<and> misuse (dentries m3) = misuse ?T \<and>
      file_count (dentries m3) = file_count ?T + (if dir then 0 else 1) \<and>
      uid_number (dentries m3) = uid_number ?T \<and> inode_number (dentries m3) = inode_number ?T"
    using create_fill_ok [where m = "m\<lparr>dentries := ?T\<rparr>" and a = a and n = "fresh_dentry name dir ro (opened p t)"
        and p = p and x = "x\<lparr>numhandles := numhandles x + 1\<rparr>" and env = env and name = name and key = key and dir = dir]
      fresh name
    by (simp add: f fresh_fields defs)
  then obtain m3 n' x3 where fill: "create_fill env dir p a (m\<lparr>dentries := ?T\<rparr>) = (0, m3)"
      and filled: "filled key p a (fresh_dentry name dir ro (opened p t)) n' (x\<lparr>numhandles := numhandles x + 1\<rparr>) x3"
      and m3: "heap (dentries m3) = (heap ?T)(a \<mapsto> n', p \<mapsto> x3)" "locks (dentries m3) = locks ?T"
        "fs_root (dentries m3) = fs_root ?T" "next_addr (dentries m3) = next_addr ?T" "misuse (dentries m3) = misuse ?T"
        "file_count (dentries m3) = file_count ?T + (if dir then 0 else 1)"
        "uid_number (dentries m3) = uid_number ?T" "inode_number (dentries m3) = inode_number ?T"
    by blast
  have alive: "numhandles x \<noteq> 0" using tree_alive [OF t(1) d(1)] d(2) by simp
  have x3: "heap (dentries m3) p = Some x3" "numhandles x3 = numhandles x + 1" "heap (dentries m3) a = Some n'"
    using m3(1) filled fresh(2) by (simp_all add: filled_def)
  define t' where "t' = fs_release_dentry u p (releasewrite (Contents_lock p) (dentries m3))"
  have t': "t' = releasewrite (Meta_lock p) (change p (\<lambda>d. d\<lparr>numhandles := numhandles d - 1\<rparr>)
      (acquirewrite (Meta_lock p) (releasewrite (Contents_lock p) (dentries m3))))"
    unfolding t'_def by (rule release_not_last [of _ _ x3]) (use x3 alive in \<open>simp_all add: lock_steps step_simps\<close>)
  have heap': "heap t' = (heap t)(a \<mapsto> n', p \<mapsto> x3\<lparr>numhandles := numhandles x\<rparr>)"
    using x3 m3(1) fresh(2) by (auto simp: t' lock_steps step_simps f fun_eq_iff)
  have locks': "locks t' = quiet t"
    by (rule ext) (simp add: t' lock_steps step_simps m3(2) f)
  have ran: "create_in env (dpath @ ''/'' @ name) dir ro m = (0, Some a, on_tree
      (fs_release_dentry u p \<circ> releasewrite (Contents_lock p)) m3)"
    using lookup_directory [OF t d(1)] looked alloc fill mem split_last name(1)
    by (simp add: create_in_def create_dispose_def defs name_ok_def)
  let ?m = "on_tree (fs_release_dentry u p \<circ> releasewrite (Contents_lock p)) m3"
  have m: "dentries ?m = t'" by (simp add: step_simps t'_def)
  have others: "fs_root t' = fs_root t" "next_addr t' = a + 1" "file_count t' = file_count t + (if dir then 0 else 1)"
      "misuse t' = misuse t" "uid_number t' = uid_number t + 1" "inode_number t' = inode_number t + 1"
    using x3 m3(2) by (simp_all add: t' lock_steps step_simps m3 f)
  have free: "key \<notin> nl_name ` set (child_list x)"
    using missing d(2) name
    by (auto simp: child_of_def get_def name_ok_def fs_find_key_from_hash_table_def find_None_iff split: if_splits)
  have "new_child u t t' p a x (x3\<lparr>numhandles := numhandles x\<rparr>) n' key name"
    using t(1) d(2) heap' others filled free name
    by (simp add: new_child_def filled_def defs fresh_fields f)
  moreover have "locks t' = quiet t'" "\<not> misuse t'" "locks t' = locks t"
    using locks' t(2) others by (simp_all add: unlocked_def quiet_def defs)
  ultimately show ?thesis
    using ran m others filled by (intro exI [of _ ?m] exI [of _ n'] exI [of _ "x3\<lparr>numhandles := numhandles x\<rparr>"])
      (simp add: defs unlocked_def filled_def fresh_fields f)
qed

section \<open>The whole operation\<close>

lemma check_ready_tree: "check_ready env ignored m = Some (ret, m') \<Longrightarrow> dentries m' = dentries m"
  by (auto simp: check_ready_def Let_def split: if_splits prod.splits)

lemma lock_volume_tree:
  "lock_volume env m = (ret, m') \<Longrightarrow> 0 \<le> ret \<Longrightarrow> dentries m' = acquireread Volume_lock (dentries m)"
  by (auto simp: lock_volume_def Let_def step_simps split: prod.splits if_splits)

text \<open>Locks play no role in the shape of the tree.\<close>

lemma same_shape:
  assumes "heap s = heap t" and "fs_root s = fs_root t" and "next_addr s = next_addr t"
  shows "tree u s = tree u t" and "child_of u d w s = child_of u d w t" and "resolve u d ws s = resolve u d ws t"
    and "resolve_path u path s = resolve_path u path t"
proof -
  show c: "child_of u d w s = child_of u d w t" for d w using assms by (simp add: child_of_def get_def)
  show r: "resolve u d ws s = resolve u d ws t" for d ws
    by (induction ws arbitrary: d) (auto simp: c split: prod.splits option.splits)
  show "tree u s = tree u t" using assms by (simp add: tree_def root_ok_def child_ok_def)
  show "resolve_path u path s = resolve_path u path t" using assms by (simp add: resolve_path_def r)
qed

lemma components_last: "CHR ''/'' \<notin> set name \<Longrightarrow> components (s @ CHR ''/'' # name) = components s @ [name]"
  by (induction s) (auto simp: components_word components_nonempty split: list.splits)

lemma new_child_path:
  assumes g: "new_child u t t' p a x x' new key name" and path: "resolve_path u path t = Inr r"
  shows "resolve_path u path t' = Inr r"
proof -
  have root: "heap t (fs_root t) \<noteq> None" using tree_root [OF new_childD(1) [OF g]] by (auto simp: root_ok_def)
  show ?thesis
    using path new_childD(6) [OF g] new_child_resolve [OF g _ root]
    by (fastforce simp: resolve_path_def split: if_splits sum.splits)
qed

lemma new_child_found:
  assumes g: "new_child u t t' p a x x' new key name" and path: "resolve_path u dpath t = Inr (par, p)" and "dpath \<noteq> ''/''"
  shows "resolve_path u (dpath @ ''/'' @ name) t' = Inr (Some p, a)"
proof -
  have n: "CHR ''/'' \<notin> set name" "name \<noteq> []" using new_childD(18) [OF g] by (auto simp: name_ok_def)
  note c = new_child_child_of [OF g]
  have d: "resolve_path u dpath t' = Inr (par, p)" by (rule new_child_path [OF g path])
  show ?thesis
  proof (cases dpath)
    case Nil
    then show ?thesis using d c n by (simp add: resolve_path_def components_word)
  next
    case (Cons ch rest)
    then obtain q where "resolve u (fs_root t') (components rest) t' = Inr (q, p)"
      using d assms(3) by (auto simp: resolve_path_def split: sum.splits prod.splits)
    then have "resolve u (fs_root t') (components rest @ [name]) t' = Inr (p, a)"
      by (rule resolve_append [OF components_nonempty _ c])
    then show ?thesis using Cons n by (simp add: resolve_path_def components_last)
  qed
qed

text \<open>
  C34: Creating adds exactly one entry. On a volume that is ready, \<open>ltfs_fsops_create\<close> of a new name in an existing
  directory of a well-formed tree returns 0 and a new dentry with the next uid, without extents. The
  tree stays well formed, the new path leads to the new dentry, every path that led somewhere leads to the same dentry as before, all
  other dentries are untouched, no lock is left behind. The counters of uids and of inode numbers grow by one, and the file count by
  one for a file and not for a directory; so if no dentry had a uid above the counter before, this holds again and the new uid is
  the uid of no other dentry.
\<close>

theorem create_exact:
  assumes "check_ready env [] m = Some (r0, m1)" and "0 \<le> r0"
    and "pathname_format (unicode env) path True True = (0, Some (dpath @ ''/'' @ name))"
    and "lock_volume env m1 = (r1, m2)" and "0 \<le> r1"
    and "tree (unicode env) (dentries m)" and "unlocked (dentries m)" and "locks (dentries m) Volume_lock = Nothing"
    and "resolve_path (unicode env) dpath (dentries m) = Inr (par, p)" and "dpath \<noteq> ''/''"
    and "name_ok name" and "generate_hash_key_name (unicode env) name = (0, Some key)"
    and "child_of (unicode env) p name (dentries m) = (0, None)"
    and "uid_number (dentries m) \<noteq> 0" and "uid_number (dentries m) + 1 \<noteq> 0" and "env_memory (io env)"
  shows "\<exists>a m' d. ltfs_fsops_create env path dir ro m = Some (0, Some a, m') \<and>
     tree (unicode env) (dentries m') \<and> unlocked (dentries m') \<and> locks (dentries m') = locks (dentries m) \<and>
     resolve_path (unicode env) (dpath @ ''/'' @ name) (dentries m') = Inr (Some p, a) \<and>
     (\<forall>old r. resolve_path (unicode env) old (dentries m) = Inr r \<longrightarrow> resolve_path (unicode env) old (dentries m') = Inr r) \<and>
     heap (dentries m') a = Some d \<and> uid d = uid_number (dentries m) + 1 \<and> ino d = inode_number (dentries m) + 1 \<and>
     isdir d = dir \<and> d_readonly d = ro \<and>
     platform_safe_name d = Some name \<and> extentlist d = [] \<and> d_size d = 0 \<and>
     (\<forall>b. b \<noteq> a \<longrightarrow> b \<noteq> p \<longrightarrow> heap (dentries m') b = heap (dentries m) b) \<and>
     file_count (dentries m') = file_count (dentries m) + (if dir then 0 else 1) \<and>
     uid_number (dentries m') = uid_number (dentries m) + 1 \<and> inode_number (dentries m') = inode_number (dentries m) + 1 \<and>
     ((\<forall>b e. heap (dentries m) b = Some e \<longrightarrow> uid e \<le> uid_number (dentries m)) \<longrightarrow>
      (\<forall>b e. heap (dentries m') b = Some e \<longrightarrow> uid e \<le> uid_number (dentries m') \<and> (b \<noteq> a \<longrightarrow> uid e \<noteq> uid d)))"
proof -
  have m1: "dentries m1 = dentries m" by (rule check_ready_tree [OF assms(1)])
  have t: "dentries m2 = acquireread Volume_lock (dentries m)" using lock_volume_tree [OF assms(4,5)] m1 by simp
  have held: "locks (dentries m2) = (locks (dentries m))(Volume_lock := Shared)" "misuse (dentries m2) = misuse (dentries m)"
      "file_count (dentries m2) = file_count (dentries m)" "uid_number (dentries m2) = uid_number (dentries m)"
      "next_addr (dentries m2) = next_addr (dentries m)" "heap (dentries m2) = heap (dentries m)"
      "fs_root (dentries m2) = fs_root (dentries m)" "inode_number (dentries m2) = inode_number (dentries m)"
    using assms(8) by (simp_all add: t lock_steps step_simps lock_alive_def)
  note shape = same_shape [of "dentries m2" "dentries m", OF held(6,7,5)]
  have u: "unlocked (dentries m2)" using assms(7) held(1,2) by (simp add: unlocked_def quiet_def) (metis fun_upd_upd)
  obtain x where x: "heap (dentries m2) p = Some x" using tree_alive [OF assms(6,9)] held(6) by auto
  note assms' = assms(6) [folded shape(1)] u assms(9) [folded shape(4)] x assms(11,12) assms(13) [folded shape(2)]
    assms(14) [folded held(4)] assms(15) [folded held(4)] assms(16)
  obtain m3 d x' where c: "create_in env (dpath @ ''/'' @ name) dir ro m2 = (0, Some (next_addr (dentries m2)), m3)"
      "new_child (unicode env) (dentries m2) (dentries m3) p (next_addr (dentries m2)) x x' d key name"
      "unlocked (dentries m3)" "locks (dentries m3) = locks (dentries m2)"
      "file_count (dentries m3) = file_count (dentries m2) + (if dir then 0 else 1)"
      "uid d = uid_number (dentries m2) + 1" "isdir d = dir" "d_readonly d = ro" "extentlist d = []" "d_size d = 0"
      "ino d = inode_number (dentries m2) + 1" "uid_number (dentries m3) = uid_number (dentries m2) + 1"
      "inode_number (dentries m3) = inode_number (dentries m2) + 1"
    using create_in_ok [OF assms', of dir ro] by blast
  let ?m = "unlock_volume m3"
  have ran: "ltfs_fsops_create env path dir ro m = Some (0, Some (next_addr (dentries m2)), ?m)"
    using assms(1-5) c(1) by (simp add: ltfs_fsops_create_def)
  have free: "locks (dentries ?m) = locks (dentries m)"
    using assms(8) held(1) c(4) by (simp add: unlock_volume_def step_simps lock_steps fun_upd_idem)
  have same: "heap (dentries ?m) = heap (dentries m3)" "fs_root (dentries ?m) = fs_root (dentries m3)"
      "next_addr (dentries ?m) = next_addr (dentries m3)" "misuse (dentries ?m) = misuse (dentries m3)"
      "file_count (dentries ?m) = file_count (dentries m3)" "uid_number (dentries ?m) = uid_number (dentries m3)"
      "inode_number (dentries ?m) = inode_number (dentries m3)"
    using held(1) c(4) by (simp_all add: unlock_volume_def step_simps lock_steps lock_alive_def)
  note shape' = same_shape [of "dentries ?m" "dentries m3", OF same(1-3)]
  have "unlocked (dentries ?m)" using c(3) assms(7) free same(4) by (simp add: unlocked_def quiet_def)
  moreover have "tree (unicode env) (dentries ?m)" using new_child_tree [OF c(2)] shape'(1) by simp
  moreover have "resolve_path (unicode env) (dpath @ ''/'' @ name) (dentries ?m) = Inr (Some p, next_addr (dentries m2))"
    using new_child_found [OF c(2) assms'(3) assms(10)] shape'(4) by simp
  moreover have "resolve_path (unicode env) old (dentries m) = Inr r \<Longrightarrow> resolve_path (unicode env) old (dentries ?m) = Inr r" for old r
    using new_child_path [OF c(2)] shape(4) shape'(4) by simp
  moreover have "platform_safe_name d = Some name" by (rule new_childD(17) [OF c(2)])
  moreover have "heap (dentries ?m) (next_addr (dentries m2)) = Some d" using new_child_new [OF c(2)] same(1) by simp
  moreover have "heap (dentries ?m) b = heap (dentries m) b" if "b \<noteq> next_addr (dentries m2)" "b \<noteq> p" for b
    using new_childD(4) [OF c(2)] that same(1) held(6) by simp
  moreover have "uid e \<le> uid_number (dentries ?m) \<and> (b \<noteq> next_addr (dentries m2) \<longrightarrow> uid e \<noteq> uid d)"
    if old: "\<forall>b e. heap (dentries m) b = Some e \<longrightarrow> uid e \<le> uid_number (dentries m)" and e: "heap (dentries ?m) b = Some e" for b e
  proof -
    have up: "uid d = uid_number (dentries m) + 1" "uid_number (dentries ?m) = uid_number (dentries m) + 1"
      "uid_number (dentries m) < uid_number (dentries m) + 1"
      using c(6,12) same(6) held(4) assms(15) unatSuc [of "uid_number (dentries m)"]
      by (simp_all add: word_less_nat_alt add.commute)
    have "heap (dentries m3) b = Some e" using e same(1) by simp
    then consider "b = next_addr (dentries m2)" "e = d" | e0 where "heap (dentries m) b = Some e0" "uid e = uid e0"
    proof (cases "b = next_addr (dentries m2)")
      case True
      then show ?thesis using that(1) \<open>heap (dentries m3) b = Some e\<close> new_child_new [OF c(2)] by simp
    next
      case False
      obtain y0 where y0: "heap (dentries m2) b = Some y0"
        using new_child_cases [OF c(2) \<open>heap (dentries m3) b = Some e\<close>] False by metis
      then have "uid e = uid y0" using new_child_old [OF c(2) y0] \<open>heap (dentries m3) b = Some e\<close> by auto
      then show ?thesis using that(2) y0 held(6) by simp
    qed
    then show ?thesis
    proof cases
      case 2
      then have "uid e \<le> uid_number (dentries m)" using old by simp
      then show ?thesis using up(3) unfolding up(1,2) by auto
    qed (simp add: up)
  qed
  ultimately show ?thesis
    using ran free same(5-7) c(5-13) held(3,4,8)
    by (intro exI [of _ "next_addr (dentries m2)"] exI [of _ ?m] exI [of _ d]) simp
qed

text \<open>A file in the sample directory, on the volume of the file backend.\<close>

definition sample_ops :: "filedebug_data ops_env" where
  "sample_ops = \<lparr>io = sample_env, unicode = ascii_icu, graphemes = (\<lambda>w. Some (map (\<lambda>c. [c]) w))\<rparr>"

definition sample_fsys :: "filedebug_data fsys" where
  "sample_fsys = \<lparr>dentries = small_fs, volume = sample_volume, lockbits = \<lparr>bitfield = 0, lockstate_text = None\<rparr>,
     placement = \<lparr>have_criteria = False, max_filesize_criteria = 0, glob_patterns = None, glob_cache = None\<rparr>\<rparr>"

lemma sample_check: "\<exists>r0 m1. check_ready sample_ops ignored sample_fsys = Some (r0, m1) \<and> 0 \<le> r0 \<and> reval (volume m1) = 0"
proof -
  have "tape_read_only p sample_mounted = 0" for p
    by (simp add: tape_read_only_def sample_mounted_def tape_device_alloc_def)
  moreover have "\<not> ltfs_find_lockbit l 0" if "l \<in> {PWE, DPPWE, IPPWE, LOCKED, PERM_LOCKED}" for l
    using that by (auto simp: ltfs_find_lockbit_def)
  ultimately have "ltfs_get_tape_readonly (lockbits sample_fsys) (volume sample_fsys) = 0"
    by (simp add: sample_fsys_def ltfs_get_tape_readonly_def sample_volume_def)
  moreover have "\<exists>ret vol. ltfs_test_unit_ready sample_env sample_volume = Some (ret, vol) \<and> 0 \<le> ret \<and> reval vol = 0"
    by (subst ltfs_test_unit_ready.simps)
      (simp add: ltfs_get_volume_lock_def sample_volume_def on_device_def sample_mounted_def tape_device_lock_def
        tape_device_alloc_def tape_test_unit_ready_def timer_sub_def sample_env_def sample_time_def
        tape_device_unlock_def NEED_REVAL_def IS_UNEXPECTED_MOVE_def)
  ultimately show ?thesis
    by (auto simp: check_ready_def Let_def) (auto simp: sample_ops_def sample_fsys_def)
qed

theorem create_exact_witness:
  "\<exists>a m'. ltfs_fsops_create sample_ops ''/Docs/new.txt'' False False sample_fsys = Some (0, Some a, m') \<and>
     file_count (dentries m') = 2 \<and> uid_number (dentries m') = 4 \<and> resolve_path ascii_icu ''/Docs/new.txt'' (dentries m') = Inr (Some 1, a)"
proof -
  obtain r0 m1 where r0: "check_ready sample_ops [] sample_fsys = Some (r0, m1)" "0 \<le> r0" "reval (volume m1) = 0"
    using sample_check by blast
  obtain r1 m2 where r1: "lock_volume sample_ops m1 = (r1, m2)" "0 \<le> r1"
    using r0(3) by (auto simp: lock_volume_def ltfs_get_volume_lock_def Let_def)
  have path: "pathname_format ascii_icu ''/Docs/new.txt'' True True = (0, Some ''/Docs/new.txt'')"
      "resolve_path ascii_icu ''/Docs'' small_fs = Inr (Some 0, 1)" "name_ok ''new.txt''"
      "generate_hash_key_name ascii_icu ''new.txt'' = (0, Some ''new.txt'')" "child_of ascii_icu 1 ''new.txt'' small_fs = (0, None)"
    by code_simp+
  have f: "unicode sample_ops = ascii_icu" "dentries sample_fsys = small_fs" "env_memory (io sample_ops)"
      "uid_number small_fs = 3" "file_count small_fs = 1" "locks small_fs Volume_lock = Nothing"
    by (simp_all add: sample_ops_def sample_fsys_def sample_env_def small_fs_def)
  show ?thesis
    using create_exact [OF r0(1,2) _ r1, of "''/Docs/new.txt''" "''/Docs''" "''new.txt''" "Some 0" 1 "''new.txt''" False False]
      path small_tree small_unlocked by (auto simp: f)
qed

end
