(* ===== verification/FsUnlinkSpec.thy ===== *)
theory FsUnlinkSpec imports FsOpsSpec begin

unbundle bit_operations_syntax

text \<open>
  What unlinking does to a well-formed tree: the entry disappears, the paths that do not end there stay as they were, and
  the dentry is freed when nobody else holds it.
\<close>

section \<open>A child less\<close>

text \<open>The tree without the entry \<open>e\<close> of the directory \<open>p\<close>, for a dentry \<open>a\<close> without children that is kept, cut off, or freed.\<close>

definition child_gone :: "icu \<Rightarrow> fs \<Rightarrow> fs \<Rightarrow> nat \<Rightarrow> nat \<Rightarrow> fs_dentry \<Rightarrow> fs_dentry \<Rightarrow> name_list \<Rightarrow> bool" where
  "child_gone u t t' p a x x' e \<longleftrightarrow>
     tree u t \<and> heap t p = Some x \<and> e \<in> set (child_list x) \<and> nl_d e = a \<and> child_list (get a t) = [] \<and>
     heap t' p = Some x' \<and> next_addr t' = next_addr t \<and> fs_root t' = fs_root t \<and>
     (\<forall>b. b \<noteq> a \<longrightarrow> b \<noteq> p \<longrightarrow> heap t' b = heap t b) \<and>
     (\<forall>c'. heap t' a = Some c' \<longrightarrow> child_list c' = [] \<and> parent c' = None) \<and>
     (child_list x' = remove1 e (child_list x) \<and> parent x' = parent x \<and> deleted x' = deleted x \<and>
        numhandles x' = numhandles x \<and> uid x' = uid x \<and> platform_safe_name x' = platform_safe_name x)"

lemma child_goneD:
  assumes "child_gone u t t' p a x x' e"
  shows "tree u t" "heap t p = Some x" "e \<in> set (child_list x)" "nl_d e = a" "child_list (get a t) = []"
    "heap t' p = Some x'" "next_addr t' = next_addr t" "fs_root t' = fs_root t"
    "\<And>b. b \<noteq> a \<Longrightarrow> b \<noteq> p \<Longrightarrow> heap t' b = heap t b"
    "\<And>c'. heap t' a = Some c' \<Longrightarrow> child_list c' = [] \<and> parent c' = None"
    "child_list x' = remove1 e (child_list x)" "parent x' = parent x" "deleted x' = deleted x"
    "numhandles x' = numhandles x" "uid x' = uid x" "platform_safe_name x' = platform_safe_name x"
  using assms unfolding child_gone_def by blast+

lemma gone_child:
  assumes g: "child_gone u t t' p a x x' e"
  shows "\<exists>c n. heap t a = Some c \<and> parent c = Some p \<and> child_list c = [] \<and> platform_safe_name c = Some n \<and>
    generate_hash_key_name u n = (0, Some (nl_name e)) \<and> \<not> deleted c \<and> numhandles c \<noteq> 0 \<and> name_ok n"
  using tree_child [OF child_goneD(1-3) [OF g]] child_goneD(4,5) [OF g] by (auto simp: child_ok_def get_def)

lemma gone_distinct: "child_gone u t t' p a x x' e \<Longrightarrow> a \<noteq> p"
  using gone_child tree_no_loop child_goneD(1) by blast

text \<open>No other entry leads to the dentry.\<close>

lemma gone_only_entry:
  assumes g: "child_gone u t t' p a x x' e" and "heap t q = Some y" "e' \<in> set (child_list y)" "nl_d e' = a"
  shows "q = p \<and> e' = e"
proof -
  obtain c n where c: "heap t a = Some c" "parent c = Some p" "platform_safe_name c = Some n"
      "generate_hash_key_name u n = (0, Some (nl_name e))"
    using gone_child [OF g] by blast
  have "child_ok u t q e'" by (rule tree_child [OF child_goneD(1) [OF g] assms(2,3)])
  then have q: "q = p" and key: "nl_name e' = nl_name e" using c assms(4) by (auto simp: child_ok_def)
  have "distinct (map nl_name (child_list x))" using child_goneD(1,2) [OF g] by (simp add: tree_def)
  then have "e' = e"
    using q key assms(2,3) child_goneD(2,3) [OF g] by (metis distinct_map inj_onD option.inject)
  with q show ?thesis ..
qed

text \<open>What is left of a dentry.\<close>

lemma gone_old:
  assumes g: "child_gone u t t' p a x x' e" and "heap t b = Some y" "b \<noteq> a"
  shows "\<exists>y'. heap t' b = Some y' \<and> parent y' = parent y \<and> deleted y' = deleted y \<and> numhandles y' = numhandles y \<and>
    uid y' = uid y \<and> platform_safe_name y' = platform_safe_name y \<and>
    child_list y' = (if b = p then remove1 e (child_list y) else child_list y)"
proof (cases "b = p")
  case True
  then show ?thesis using assms(2) child_goneD(2,6,11-16) [OF g] by simp
next
  case False
  then show ?thesis using assms(2,3) child_goneD(9) [OF g] by simp
qed

lemma gone_new:
  assumes g: "child_gone u t t' p a x x' e" and "heap t' b = Some y'" "b \<noteq> a"
  shows "\<exists>y. heap t b = Some y \<and> parent y' = parent y \<and>
    child_list y' = (if b = p then remove1 e (child_list y) else child_list y)"
  using assms(2,3) child_goneD(2,6,9,11,12) [OF g] by (cases "b = p") auto

lemma gone_children:
  assumes g: "child_gone u t t' p a x x' e" and y: "heap t' q = Some y'" and e': "e' \<in> set (child_list y')"
  shows "child_ok u t' q e'"
proof -
  have "q \<noteq> a" using child_goneD(10) [OF g] y e' by auto
  then obtain y where o: "heap t q = Some y" "child_list y' = (if q = p then remove1 e (child_list y) else child_list y)"
    using gone_new [OF g y] by blast
  then have old: "e' \<in> set (child_list y)" using e' set_remove1_subset by (fastforce split: if_splits)
  have "distinct (child_list y)" using child_goneD(1) [OF g] o(1) unfolding tree_def by (metis distinct_map)
  then have "q = p \<Longrightarrow> e' \<noteq> e" using o(2) e' by auto
  then have "nl_d e' \<noteq> a" using gone_only_entry [OF g o(1) old] by blast
  moreover have "child_ok u t q e'" by (rule tree_child [OF child_goneD(1) [OF g] o(1) old])
  ultimately show ?thesis using gone_old [OF g, of "nl_d e'"] unfolding child_ok_def by metis
qed

lemma gone_parents:
  assumes g: "child_gone u t t' p a x x' e" and c: "heap t' b = Some c'" "parent c' = Some q"
  shows "\<exists>y e'. heap t' q = Some y \<and> e' \<in> set (child_list y) \<and> nl_d e' = b"
proof -
  have "b \<noteq> a" using child_goneD(10) [OF g] c by auto
  then obtain c0 where "heap t b = Some c0" "parent c0 = Some q" using gone_new [OF g c(1)] c(2) by auto
  then obtain y e' where y: "heap t q = Some y" "e' \<in> set (child_list y)" "nl_d e' = b"
    using child_goneD(1) [OF g] unfolding tree_def by blast
  then have "q \<noteq> a" using child_goneD(5) [OF g] by (auto simp: get_def)
  then obtain y' where "heap t' q = Some y'" "child_list y' = (if q = p then remove1 e (child_list y) else child_list y)"
    using gone_old [OF g y(1)] by blast
  moreover have "e' \<noteq> e" using y(3) \<open>b \<noteq> a\<close> child_goneD(4) [OF g] by blast
  ultimately have "heap t' q = Some y'" "e' \<in> set (child_list y')" using y(2) by (auto simp: in_set_remove1)
  then show ?thesis using y(3) by blast
qed

lemma gone_tree:
  assumes g: "child_gone u t t' p a x x' e"
  shows "tree u t'"
proof -
  note t = child_goneD(1) [OF g]
  obtain c where c: "heap t a = Some c" "parent c = Some p" using gone_child [OF g] by blast
  then have "fs_root t \<noteq> a" using tree_root [OF t] by (auto simp: root_ok_def)
  then have "root_ok t'" using tree_root [OF t] gone_old [OF g] child_goneD(8) [OF g] unfolding root_ok_def by metis
  moreover have "distinct (map nl_name (child_list y))" if y: "heap t' q = Some y" for q y
  proof (cases "q = a")
    case False
    then obtain y0 where "heap t q = Some y0" "child_list y = (if q = p then remove1 e (child_list y0) else child_list y0)"
      using gone_new [OF g y] by blast
    moreover then have "distinct (map nl_name (child_list y0))" using t by (simp add: tree_def)
    ultimately show ?thesis using distinct_map distinct_remove1 set_remove1_subset by (metis inj_on_subset)
  qed (use child_goneD(10) [OF g] y in auto)
  moreover have alive: "heap t b \<noteq> None" if "heap t' b \<noteq> None" for b
    using that gone_new [OF g, of b] c(1) by (cases "b = a") auto
  moreover have "b < next_addr t'" if "heap t' b \<noteq> None" for b
    using alive [OF that] t child_goneD(7) [OF g] by (simp add: tree_def)
  moreover have "\<exists>depth. \<forall>b c. heap t' b = Some c \<longrightarrow> depth b < next_addr t' \<and> (\<forall>q. parent c = Some q \<longrightarrow> depth q < depth b)"
  proof -
    obtain depth where d: "\<forall>b c. heap t b = Some c \<longrightarrow> depth b < next_addr t \<and> (\<forall>q. parent c = Some q \<longrightarrow> depth q < depth b)"
      using t unfolding tree_def by blast
    have "depth b < next_addr t' \<and> (\<forall>q. parent c' = Some q \<longrightarrow> depth q < depth b)" if c': "heap t' b = Some c'" for b c'
      using d gone_new [OF g c'] c' child_goneD(7,10) [OF g] c(1) by (cases "b = a") fastforce+
    then show ?thesis by blast
  qed
  ultimately show ?thesis
    using gone_children [OF g] gone_parents [OF g] unfolding tree_def by blast
qed

text \<open>Paths to other dentries stay, the paths to the dentry are lost.\<close>

lemma find_remove1: "find P xs = Some v \<Longrightarrow> v \<noteq> e \<Longrightarrow> find P (remove1 e xs) = Some v"
  by (induction xs) (auto split: if_splits)

lemma find_removed:
  assumes "find (\<lambda>e'. nl_name e' = k) xs = Some e" and "distinct (map nl_name xs)"
  shows "find (\<lambda>e'. nl_name e' = k) (remove1 e xs) = None"
proof -
  have "e' = e" if "e' \<in> set xs" "nl_name e' = k" for e'
    using that find_member [OF assms(1)] assms(2) by (auto simp: distinct_map dest: inj_onD)
  moreover have "e \<notin> set (remove1 e xs)" using assms(2) by (simp add: distinct_map)
  ultimately show ?thesis using set_remove1_subset [of e xs] by (fastforce simp: find_None_iff)
qed

lemma gone_child_of:
  assumes g: "child_gone u t t' p a x x' e" and d: "heap t d = Some y" "d \<noteq> a" and c: "child_of u d w t = (rc, Some b)"
  shows "child_of u d w t' = (if b = a then (0, None) else (rc, Some b))"
proof -
  obtain y' where y': "heap t' d = Some y'" "child_list y' = (if d = p then remove1 e (child_list y) else child_list y)"
    using gone_old [OF g d] by blast
  obtain key e' where k: "pathname_strlen w \<le> LTFS_FILENAME_MAX" "generate_hash_key_name u w = (0, Some key)" "rc = 0"
      "find (\<lambda>e. nl_name e = key) (child_list y) = Some e'" "b = nl_d e'"
    using c d(1) by (auto simp: child_of_def get_def fs_find_key_from_hash_table_def split: if_splits option.splits prod.splits)
  have only: "b = a \<longleftrightarrow> d = p \<and> e' = e"
    using gone_only_entry [OF g d(1), of e'] find_member [OF k(4)] k(5) child_goneD(4) [OF g] by auto
  have dist: "distinct (map nl_name (child_list y))" using child_goneD(1) [OF g] d(1) by (simp add: tree_def)
  show ?thesis
  proof (cases "b = a")
    case True
    then have "find (\<lambda>e. nl_name e = key) (child_list y') = None" using only y'(2) find_removed k(4) dist by auto
    then show ?thesis using True k(1,2) y'(1) by (auto simp: child_of_def get_def fs_find_key_from_hash_table_def)
  next
    case False
    then have "find (\<lambda>e. nl_name e = key) (child_list y') = Some e'"
      using only y'(2) k(4) find_remove1 [OF k(4)] by (auto split: if_splits)
    moreover then have "child_list y' \<noteq> []" by auto
    ultimately show ?thesis using False k y'(1) by (auto simp: child_of_def get_def fs_find_key_from_hash_table_def)
  qed
qed

lemma gone_resolve:
  assumes g: "child_gone u t t' p a x x' e"
  shows "resolve u d ws t = Inr (q, b) \<Longrightarrow> heap t d \<noteq> None \<Longrightarrow> d \<noteq> a \<Longrightarrow>
    resolve u d ws t' = (if b = a then Inl (- LTFS_NO_DENTRY) else Inr (q, b))"
proof (induction ws arbitrary: d)
  case (Cons w ws)
  obtain y where y: "heap t d = Some y" using Cons.prems(2) by blast
  obtain rc f where c: "child_of u d w t = (rc, Some f)"
    using Cons.prems(1) by (cases "child_of u d w t"; cases "snd (child_of u d w t)") auto
  note c' = gone_child_of [OF g y Cons.prems(3) c]
  show ?case
  proof (cases "ws = []")
    case True
    then show ?thesis using c c' Cons.prems(1) by auto
  next
    case False
    have "child_of u a v t = (r, None)" if "child_of u a v t = (r, h)" for v r h
      using that child_goneD(5) [OF g] by (simp add: child_of_def split: if_splits)
    then have "resolve u a ws t \<noteq> Inr (q, b)" using False
      by (cases ws; cases "child_of u a (hd ws) t") (auto split: option.splits)
    then have "f \<noteq> a" using c Cons.prems(1) False by auto
    moreover have "heap t f \<noteq> None" using child_linked(3) [OF child_goneD(1) [OF g] y c] by auto
    ultimately show ?thesis using c c' False Cons.IH [of f] Cons.prems(1) by auto
  qed
qed auto

lemma gone_path:
  assumes g: "child_gone u t t' p a x x' e" and path: "resolve_path u path t = Inr (q, b)"
  shows "resolve_path u path t' = (if b = a then Inl (- LTFS_NO_DENTRY) else Inr (q, b))"
proof -
  obtain c where "heap t a = Some c" "parent c = Some p" using gone_child [OF g] by blast
  then have "fs_root t \<noteq> a" "heap t (fs_root t) \<noteq> None" using tree_root [OF child_goneD(1) [OF g]] by (auto simp: root_ok_def)
  then show ?thesis
    using path child_goneD(8) [OF g] gone_resolve [OF g, of "fs_root t" "components (tl path)"]
    by (auto simp: resolve_path_def split: if_splits sum.splits)
qed

section \<open>The steps\<close>

text \<open>\<open>unlink_entry\<close> takes the entry out and keeps the lock of the directory's metadata.\<close>

definition cut_off :: "fs_dentry \<Rightarrow> fs_dentry \<Rightarrow> bool" where
  "cut_off c c' \<longleftrightarrow> child_list c' = child_list c \<and> parent c' = None \<and> deleted c' \<and> numhandles c' = numhandles c - 1 \<and>
     out_of_sync c' = out_of_sync c"

definition entry_gone :: "name_list \<Rightarrow> fs_dentry \<Rightarrow> fs_dentry \<Rightarrow> bool" where
  "entry_gone e x x' \<longleftrightarrow> child_list x' = remove1 e (child_list x) \<and> parent x' = parent x \<and> deleted x' = deleted x \<and>
     numhandles x' = numhandles x \<and> uid x' = uid x \<and> platform_safe_name x' = platform_safe_name x"

lemma unlink_entry_ok:
  assumes "heap (dentries m) a = Some c" and "heap (dentries m) p = Some x" and "a \<noteq> p"
    and "locks (dentries m) (Meta_lock a) = Nothing" and "locks (dentries m) (Meta_lock p) = Nothing"
    and "platform_safe_name c = Some n" and "generate_hash_key_name (unicode env) n = (0, Some k)"
    and "find (\<lambda>e. nl_name e = k) (child_list x) = Some e"
  shows "\<exists>m' c' x'. unlink_entry env p a m = (0, id_of a (dentries m), m') \<and> cut_off c c' \<and> entry_gone e x x' \<and>
     heap (dentries m') = (heap (dentries m))(a \<mapsto> c', p \<mapsto> x') \<and>
     locks (dentries m') = (locks (dentries m))(Meta_lock p := Exclusive) \<and> fs_root (dentries m') = fs_root (dentries m) \<and>
     next_addr (dentries m') = next_addr (dentries m) \<and> misuse (dentries m') = misuse (dentries m) \<and>
     file_count (dentries m') = file_count (dentries m) - (if isdir c then 0 else 1)"
proof -
  note run = unlink_entry_def Let_def fs_find_key_from_hash_table_def lock_steps step_simps fs_decrement_file_count_def
    ltfs_update_valid_block_count_unlocked_def hash_del_def
  have r: "fst (unlink_entry env p a m) = 0" "fst (snd (unlink_entry env p a m)) = id_of a (dentries m)"
    using assms by (simp_all add: run id_of_def)
  define m' where "m' = snd (snd (unlink_entry env p a m))"
  have new: "\<exists>c'. heap (dentries m') a = Some c' \<and> cut_off c c'"
    using assms by (simp add: m'_def run cut_off_def)
  have par: "\<exists>x'. heap (dentries m') p = Some x' \<and> entry_gone e x x'"
    using assms by (simp add: m'_def run entry_gone_def)
  have rest: "heap (dentries m') b = heap (dentries m) b" if "b \<noteq> a" "b \<noteq> p" for b
    using assms that by (simp add: m'_def run)
  have free: "locks (dentries m') = (locks (dentries m))(Meta_lock p := Exclusive)"
    by (rule ext) (use assms in \<open>simp add: m'_def run\<close>)
  have other: "fs_root (dentries m') = fs_root (dentries m)" "next_addr (dentries m') = next_addr (dentries m)"
      "misuse (dentries m') = misuse (dentries m)"
      "file_count (dentries m') = file_count (dentries m) - (if isdir c then 0 else 1)"
    using assms by (simp_all add: m'_def run)
  obtain c' x' where nx: "heap (dentries m') a = Some c'" "heap (dentries m') p = Some x'" "cut_off c c'" "entry_gone e x x'"
    using new par by blast
  then have "heap (dentries m') = (heap (dentries m))(a \<mapsto> c', p \<mapsto> x')"
    using rest by (auto simp: fun_eq_iff)
  moreover have "unlink_entry env p a m = (0, id_of a (dentries m), m')" using r unfolding m'_def by (metis prod.collapse)
  ultimately show ?thesis using nx(3,4) other free by blast
qed

text \<open>Giving back a reference to a dentry without children that has left its directory.\<close>

lemma release_cut_off:
  assumes "heap s a = Some c" and "child_list c = []" and "parent c = None"
    and "locks s (Meta_lock a) = Nothing" and "locks s (Contents_lock a) = Nothing"
    and s': "s' = fs_release_dentry u a s"
  shows "heap s' = (heap s)(a := if numhandles c - 1 = 0 \<and> \<not> out_of_sync c then None
      else Some (c\<lparr>numhandles := numhandles c - 1\<rparr>))"
    and "locks s' = locks s" and "misuse s' = misuse s" and "fs_root s' = fs_root s" and "next_addr s' = next_addr s"
    and "file_count s' = file_count s"
proof -
  note run = fs_release_dentry_def fs_release_dentry_unlocked_def Let_def lock_steps step_simps free_dentry_def leave_parent_def
  show "heap s' = (heap s)(a := if numhandles c - 1 = 0 \<and> \<not> out_of_sync c then None
      else Some (c\<lparr>numhandles := numhandles c - 1\<rparr>))"
    by (rule ext) (use assms(1-5) in \<open>simp add: s' run\<close>)
  show "locks s' = locks s"
    by (rule ext) (use assms(1-5) in \<open>simp add: s' run\<close>)
  show "misuse s' = misuse s" "fs_root s' = fs_root s" "next_addr s' = next_addr s" "file_count s' = file_count s"
    using assms(1-5) by (simp_all add: s' run)
qed

section \<open>The whole operation\<close>

text \<open>The state after the look-up: both dentries have one more reference and the directory is locked.\<close>

definition entry_held :: "nat \<Rightarrow> nat \<Rightarrow> fs \<Rightarrow> fs" where
  "entry_held p a t = (add_handles a 1 (add_handles p 1 t))\<lparr>locks := (quiet t)(Contents_lock p := Exclusive)\<rparr>"

lemma lookup_entry:
  assumes "tree u t" and "unlocked t" and "resolve_path u path t = Inr (Some p, a)" and "a \<noteq> p"
  shows "fs_path_lookup u path LOCK_PARENT_CONTENTS_W t = (0, Some a, entry_held p a t)"
proof -
  have w: "wants LOCK_PARENT_CONTENTS_W LOCK_PARENT_CONTENTS_W" "\<not> wants LOCK_PARENT_CONTENTS_W LOCK_DENTRY_META_W"
      "\<not> wants LOCK_PARENT_CONTENTS_W LOCK_DENTRY_META_R" "\<not> wants LOCK_PARENT_CONTENTS_W LOCK_DENTRY_CONTENTS_W"
      "\<not> wants LOCK_PARENT_CONTENTS_W LOCK_DENTRY_CONTENTS_R" "\<not> wants LOCK_PARENT_CONTENTS_W LOCK_PARENT_META_W"
      "\<not> wants LOCK_PARENT_CONTENTS_W LOCK_PARENT_META_R"
    by code_simp+
  have same: "(quiet t)(Contents_lock p := Exclusive, Meta_lock p := Nothing, Contents_lock a := Nothing,
      Meta_lock a := Nothing) = (quiet t)(Contents_lock p := Exclusive)" if "a \<noteq> p"
    using that by (auto simp: fun_eq_iff)
  show ?thesis
    using path_lookup [OF assms(1,2), of path LOCK_PARENT_CONTENTS_W] assms(3) w same [OF assms(4)]
    by (simp add: looked_up_def asked_locks_def grant_of_def entry_held_def wants_or)
qed

lemma entry_held_fields:
  assumes "heap t p = Some x" and "heap t a = Some c" and "a \<noteq> p"
  shows "heap (entry_held p a t) = (heap t)(p \<mapsto> x\<lparr>numhandles := numhandles x + 1\<rparr>, a \<mapsto> c\<lparr>numhandles := numhandles c + 1\<rparr>)"
    "locks (entry_held p a t) = (quiet t)(Contents_lock p := Exclusive)" "misuse (entry_held p a t) = misuse t"
    "fs_root (entry_held p a t) = fs_root t" "next_addr (entry_held p a t) = next_addr t" "file_count (entry_held p a t) = file_count t"
  using assms by (simp_all add: entry_held_def add_handles_def step_simps)

text \<open>Taking and releasing a free lock changes nothing.\<close>

lemma lock_and_release:
  "locks s l = Nothing \<Longrightarrow> lock_alive l s \<Longrightarrow> releaseread l (acquireread l s) = s"
  by (cases s) (auto simp: lock_steps set_lock_def lock_alive_def fun_upd_idem split: fs_lock.splits)

text \<open>A directory on the way to a dentry is in use.\<close>

lemma way_alive:
  assumes t: "tree u t"
  shows "resolve u d ws t = Inr (q, b) \<Longrightarrow> ws \<noteq> [] \<Longrightarrow> heap t d = Some y \<Longrightarrow> numhandles y \<noteq> 0 \<Longrightarrow>
    \<exists>x. heap t q = Some x \<and> numhandles x \<noteq> 0"
proof (induction ws arbitrary: d y)
  case (Cons w ws)
  obtain rc f where c: "child_of u d w t = (rc, Some f)"
    using Cons.prems(1) by (cases "child_of u d w t"; cases "snd (child_of u d w t)") auto
  show ?case
    using child_linked(3) [OF t Cons.prems(3) c] c Cons.IH [of f] Cons.prems by (cases "ws = []") auto
qed simp

text \<open>What a path leads to is an entry of its directory.\<close>

lemma resolved_entry:
  assumes t: "tree u t" and path: "resolve_path u path t = Inr (Some p, a)"
  shows "\<exists>x e. heap t p = Some x \<and> e \<in> set (child_list x) \<and> nl_d e = a"
proof -
  have walk: "resolve u d ws t = Inr (p, a) \<Longrightarrow> ws \<noteq> [] \<Longrightarrow> heap t d \<noteq> None \<Longrightarrow>
      \<exists>x e. heap t p = Some x \<and> e \<in> set (child_list x) \<and> nl_d e = a" for d ws
  proof (induction ws arbitrary: d)
    case (Cons w ws)
    obtain y where y: "heap t d = Some y" using Cons.prems(3) by blast
    obtain rc f where c: "child_of u d w t = (rc, Some f)"
      using Cons.prems(1) by (cases "child_of u d w t"; cases "snd (child_of u d w t)") auto
    show ?case
      using child_of_member [OF c] child_linked(3) [OF t y c] c y Cons.IH [of f] Cons.prems(1)
      by (cases "ws = []") (auto simp: get_def)
  qed simp
  have "resolve u (fs_root t) (components (tl path)) t = Inr (p, a)"
    using path by (auto simp: resolve_path_def split: if_splits sum.splits)
  moreover have "heap t (fs_root t) \<noteq> None" using tree_root [OF t] by (auto simp: root_ok_def)
  ultimately show ?thesis using walk components_nonempty by blast
qed

lemma unlink_in_ok:
  assumes t: "tree (unicode env) (dentries m)" "unlocked (dentries m)" "locks (dentries m) Volume_lock = Shared"
    and d: "resolve_path (unicode env) path (dentries m) = Inr (Some p, a)"
    and e: "heap (dentries m) p = Some x" "e \<in> set (child_list x)" "nl_d e = a"
    and c: "heap (dentries m) a = Some c" "child_list c = []"
  shows "\<exists>m' x'. unlink_in env path m = (0, id_of a (dentries m), m') \<and>
     child_gone (unicode env) (dentries m) (dentries m') p a x x' e \<and>
     locks (dentries m') = (\<lambda>_. Nothing) \<and> misuse (dentries m') = misuse (dentries m) \<and>
     (heap (dentries m') a = None \<longleftrightarrow> numhandles c = 1 \<and> \<not> out_of_sync c) \<and>
     file_count (dentries m') = file_count (dentries m) - (if isdir c then 0 else 1)"
proof -
  define t where "t = dentries m"
  define u where "u = unicode env"
  note defs = t_def [symmetric] u_def [symmetric]
  obtain n where n: "parent c = Some p" "platform_safe_name c = Some n" "numhandles c \<noteq> 0"
      "generate_hash_key_name u n = (0, Some (nl_name e))"
    using tree_child [OF t(1) e(1,2)] e(3) c(1) by (auto simp: child_ok_def defs)
  have "a \<noteq> p" using tree_no_loop [OF t(1) c(1)] n(1) by auto
  have "distinct (map nl_name (child_list x))" using t(1) e(1) by (simp add: tree_def)
  then have found: "find (\<lambda>e'. nl_name e' = nl_name e) (child_list x) = Some e" using e(2) by (rule find_key)
  note h = entry_held_fields [OF e(1) c(1) \<open>a \<noteq> p\<close>, folded t_def]
  let ?m = "m\<lparr>dentries := entry_held p a t\<rparr>"
  have "\<exists>m2 c2 x2. unlink_entry env p a ?m = (0, id_of a (dentries ?m), m2) \<and> cut_off (c\<lparr>numhandles := numhandles c + 1\<rparr>) c2 \<and>
     entry_gone e (x\<lparr>numhandles := numhandles x + 1\<rparr>) x2 \<and>
     heap (dentries m2) = (heap (dentries ?m))(a \<mapsto> c2, p \<mapsto> x2) \<and>
     locks (dentries m2) = (locks (dentries ?m))(Meta_lock p := Exclusive) \<and> fs_root (dentries m2) = fs_root (dentries ?m) \<and>
     next_addr (dentries m2) = next_addr (dentries ?m) \<and> misuse (dentries m2) = misuse (dentries ?m) \<and>
     file_count (dentries m2) = file_count (dentries ?m) - (if isdir (c\<lparr>numhandles := numhandles c + 1\<rparr>) then 0 else 1)"
    by (rule unlink_entry_ok) (use \<open>a \<noteq> p\<close> n found in \<open>simp_all add: h defs\<close>)
  then obtain m2 c2 x2 where run: "unlink_entry env p a ?m = (0, id_of a (entry_held p a t), m2)"
      and c2: "cut_off (c\<lparr>numhandles := numhandles c + 1\<rparr>) c2" and x2: "entry_gone e (x\<lparr>numhandles := numhandles x + 1\<rparr>) x2"
      and m2: "heap (dentries m2) = (heap (entry_held p a t))(a \<mapsto> c2, p \<mapsto> x2)"
        "locks (dentries m2) = (locks (entry_held p a t))(Meta_lock p := Exclusive)" "fs_root (dentries m2) = fs_root t"
        "next_addr (dentries m2) = next_addr t" "misuse (dentries m2) = misuse t"
        "file_count (dentries m2) = file_count t - (if isdir c then 0 else 1)"
    by (auto simp: h)
  have "\<exists>r. heap t (fs_root t) = Some r \<and> numhandles r \<noteq> 0"
    using tree_root [OF t(1)] by (auto simp: root_ok_def defs)
  moreover have "resolve u (fs_root t) (components (tl path)) t = Inr (p, a)"
    using d by (auto simp: resolve_path_def defs split: if_splits sum.splits)
  ultimately have "numhandles x \<noteq> 0"
    using way_alive [OF t(1), unfolded defs, OF _ components_nonempty] e(1) by (fastforce simp: defs)
  then have x2': "heap (dentries m2) p = Some x2" "numhandles x2 - 1 \<noteq> 0" "numhandles x2 = numhandles x + 1"
    using m2(1) x2 by (simp_all add: entry_gone_def)
  define s1 where "s1 = fs_release_dentry_unlocked u p (releasewrite (Contents_lock p) (dentries m2))"
  have "s1 = releasewrite (Meta_lock p) (change p (\<lambda>d. d\<lparr>numhandles := numhandles d - 1\<rparr>)
      (releasewrite (Contents_lock p) (dentries m2)))"
    using x2' by (simp add: s1_def fs_release_dentry_unlocked_def Let_def lock_steps step_simps)
  then have s1: "heap s1 = (heap (dentries m2))(p \<mapsto> x2\<lparr>numhandles := numhandles x\<rparr>)" "locks s1 = quiet t"
      "misuse s1 = misuse t" "fs_root s1 = fs_root t" "next_addr s1 = next_addr t" "file_count s1 = file_count (dentries m2)"
    using x2' m2 h by (auto simp: lock_steps step_simps fun_eq_iff)
  define s2 where "s2 = releaseread Volume_lock s1"
  have q: "quiet t Volume_lock = Shared" using t(3) by (simp add: quiet_def defs)
  have s2: "heap s2 = heap s1" "locks s2 = (\<lambda>_. Nothing)" "misuse s2 = misuse t" "fs_root s2 = fs_root t"
      "next_addr s2 = next_addr t" "file_count s2 = file_count (dentries m2)"
    using s1 q by (auto simp: s2_def lock_steps step_simps lock_alive_def quiet_def fun_eq_iff)
  have c2': "heap s2 a = Some c2" "child_list c2 = []" "parent c2 = None" "numhandles c2 = numhandles c"
      "out_of_sync c2 = out_of_sync c"
    using s2(1) s1(1) m2(1) \<open>a \<noteq> p\<close> c2 c(2) by (simp_all add: cut_off_def)
  define s3 where "s3 = fs_release_dentry u a s2"
  have s3: "heap s3 = (heap s2)(a := if numhandles c2 - 1 = 0 \<and> \<not> out_of_sync c2 then None
        else Some (c2\<lparr>numhandles := numhandles c2 - 1\<rparr>))"
      "locks s3 = locks s2" "misuse s3 = misuse s2" "fs_root s3 = fs_root s2" "next_addr s3 = next_addr s2"
      "file_count s3 = file_count s2"
    by (rule release_cut_off [OF c2'(1-3) _ _ s3_def]; simp add: s2(2))+
  let ?m = "on_tree (fs_release_dentry u a) (unlock_volume (on_tree (fs_release_dentry_unlocked u p \<circ>
      releasewrite (Contents_lock p)) m2))"
  have dir: "releaseread (Contents_lock a) (acquireread (Contents_lock a) (entry_held p a t)) = entry_held p a t"
    by (rule lock_and_release) (simp_all add: h \<open>a \<noteq> p\<close>)
  have "dentries ?m = s3" by (simp add: step_simps unlock_volume_def s3_def s2_def s1_def)
  moreover have "unlink_in env path m = (0, id_of a t, ?m)"
    using lookup_entry [OF t(1,2) d \<open>a \<noteq> p\<close>] run dir n(1) c(2) c(1) [folded t_def]
    by (simp add: unlink_in_def defs Let_def get_def h id_of_def step_simps) (simp add: on_tree_def)
  moreover have "child_gone u t s3 p a x (x2\<lparr>numhandles := numhandles x\<rparr>) e"
    unfolding child_gone_def
    using t(1) e c(1,2) s3 s2 s1 c2 c2' x2 x2' m2(1) h(1) \<open>a \<noteq> p\<close>
    by (auto simp: defs get_def entry_gone_def)
  moreover have "heap s3 a = None \<longleftrightarrow> numhandles c = 1 \<and> \<not> out_of_sync c"
    using s3(1) c2' by auto
  ultimately show ?thesis
    using s3 s2 m2(6) by (intro exI [of _ ?m] exI [of _ "x2\<lparr>numhandles := numhandles x\<rparr>"]) (simp add: defs)
qed

text \<open>
  C35: Unlinking removes exactly one entry. On a volume that is ready, \<open>ltfs_fsops_unlink\<close> of a file or of an empty directory in a
  well-formed tree returns 0 and the id of the dentry. The path leads nowhere any more, nor does any other path to
  that dentry, all other paths lead where they led, the tree stays well formed, no lock is left behind, the other dentries but
  the directory are untouched and the file count falls by one for a file. The dentry is freed exactly if
  nobody else holds a reference and it is not waiting to be synchronised.
\<close>

theorem unlink_exact:
  assumes "check_ready env [- LTFS_LESS_SPACE] m = Some (r0, m1)" and "0 \<le> r0"
    and "pathname_format (unicode env) path True True = (0, Some path_norm)" and "1 < length path_norm"
    and "lock_volume env m1 = (r1, m2)" and "0 \<le> r1"
    and "tree (unicode env) (dentries m)" and "unlocked (dentries m)" and "locks (dentries m) Volume_lock = Nothing"
    and "resolve_path (unicode env) path_norm (dentries m) = Inr (Some p, a)"
    and "heap (dentries m) a = Some d" and "child_list d = []"
  shows "\<exists>m'. ltfs_fsops_unlink env path m = Some (0, (uid d, ino d), m') \<and>
     tree (unicode env) (dentries m') \<and> unlocked (dentries m') \<and> locks (dentries m') = locks (dentries m) \<and>
     (\<forall>other q b. resolve_path (unicode env) other (dentries m) = Inr (q, b) \<longrightarrow>
        resolve_path (unicode env) other (dentries m') = (if b = a then Inl (- LTFS_NO_DENTRY) else Inr (q, b))) \<and>
     (\<forall>b. b \<noteq> a \<longrightarrow> b \<noteq> p \<longrightarrow> heap (dentries m') b = heap (dentries m) b) \<and>
     (heap (dentries m') a = None \<longleftrightarrow> numhandles d = 1 \<and> \<not> out_of_sync d) \<and>
     file_count (dentries m') = file_count (dentries m) - (if isdir d then 0 else 1)"
proof -
  have m1: "dentries m1 = dentries m" by (rule check_ready_tree [OF assms(1)])
  have t: "dentries m2 = acquireread Volume_lock (dentries m)" using lock_volume_tree [OF assms(5,6)] m1 by simp
  have held: "locks (dentries m2) = (locks (dentries m))(Volume_lock := Shared)" "misuse (dentries m2) = misuse (dentries m)"
      "file_count (dentries m2) = file_count (dentries m)" "heap (dentries m2) = heap (dentries m)"
      "fs_root (dentries m2) = fs_root (dentries m)" "next_addr (dentries m2) = next_addr (dentries m)"
    using assms(9) by (simp_all add: t lock_steps step_simps lock_alive_def)
  note shape = same_shape [of "dentries m2" "dentries m", OF held(4-6)]
  have u: "unlocked (dentries m2)" "locks (dentries m2) Volume_lock = Shared"
    using assms(8) held(1,2) by (simp_all add: unlocked_def quiet_def) (metis fun_upd_upd)
  obtain x e where e: "heap (dentries m2) p = Some x" "e \<in> set (child_list x)" "nl_d e = a"
    using resolved_entry [OF assms(7,10)] held(4) by auto
  note found = assms(7) [folded shape(1)] u assms(10) [folded shape(4)] e assms(11) [folded held(4)] assms(12)
  obtain m3 x' where c: "unlink_in env path_norm m2 = (0, id_of a (dentries m2), m3)"
      "child_gone (unicode env) (dentries m2) (dentries m3) p a x x' e" "locks (dentries m3) = (\<lambda>_. Nothing)"
      "misuse (dentries m3) = misuse (dentries m2)" "heap (dentries m3) a = None \<longleftrightarrow> numhandles d = 1 \<and> \<not> out_of_sync d"
      "file_count (dentries m3) = file_count (dentries m2) - (if isdir d then 0 else 1)"
    using unlink_in_ok [OF found] by - (elim exE conjE, rule that)
  have "ltfs_fsops_unlink env path m = Some (0, (uid d, ino d), m3)"
    using assms(1-6,11) c(1) held(4) by (simp add: ltfs_fsops_unlink_def id_of_def get_def)
  moreover have "locks (dentries m) = (\<lambda>_. Nothing)"
    using assms(8,9) by (metis unlocked_locks quiet_def fun_upd_triv)
  moreover have "unlocked (dentries m3)" using c(3,4) held(2) assms(8) by (auto simp: unlocked_def quiet_def)
  ultimately show ?thesis
    using gone_tree [OF c(2)] gone_path [OF c(2)] shape(4) c(3,5,6) held(3,4) child_goneD(9) [OF c(2)] by auto
qed

theorem unlink_exact_witness:
  "\<exists>m'. ltfs_fsops_unlink sample_ops ''/Docs/a.txt'' sample_fsys = Some (0, (3, 0), m') \<and> heap (dentries m') 2 = None \<and>
     resolve_path ascii_icu ''/Docs/a.txt'' (dentries m') = Inl (- LTFS_NO_DENTRY)"
proof -
  obtain r0 m1 where r0: "check_ready sample_ops [- LTFS_LESS_SPACE] sample_fsys = Some (r0, m1)" "0 \<le> r0" "reval (volume m1) = 0"
    using sample_check by blast
  obtain r1 m2 where r1: "lock_volume sample_ops m1 = (r1, m2)" "0 \<le> r1"
    using r0(3) by (auto simp: lock_volume_def ltfs_get_volume_lock_def Let_def)
  have path: "pathname_format ascii_icu ''/Docs/a.txt'' True True = (0, Some ''/Docs/a.txt'')"
      "resolve_path ascii_icu ''/Docs/a.txt'' small_fs = Inr (Some 1, 2)"
    by code_simp+
  have f: "unicode sample_ops = ascii_icu" "dentries sample_fsys = small_fs" "locks small_fs Volume_lock = Nothing"
      "heap small_fs 2 = Some small_file"
    by (simp_all add: sample_ops_def sample_fsys_def small_fs_def)
  have d: "child_list small_file = []" "uid small_file = 3" "ino small_file = 0" "numhandles small_file = 1"
      "\<not> out_of_sync small_file"
    by (simp_all add: small_file_def blank_dentry_def)
  show ?thesis
    using unlink_exact [OF r0(1,2) _ _ r1, of "''/Docs/a.txt''" "''/Docs/a.txt''" 1 2 small_file]
      path small_tree small_unlocked d by (auto simp: f)
qed

end
