(* ===== verification/FsRename.thy ===== *)
theory FsRename imports FsOps begin

text \<open>
  Renaming, \<open>ltfs_fsops_rename\<close>, without I/O scheduler and dentry cache. The mutex \<open>rename_lock\<close> lets one
  renaming run at a time and is left out.
\<close>

text \<open>A reference to a dentry that may be one of the two locked directories.\<close>

definition drop_reference :: "icu \<Rightarrow> nat \<Rightarrow> nat \<Rightarrow> fs \<Rightarrow> fs" where
  "drop_reference u locked_dir a t =
     (if a = locked_dir then change a (\<lambda>d. d\<lparr>numhandles := numhandles d - 1\<rparr>) t else fs_release_dentry u a t)"

definition lock_directory :: "nat \<Rightarrow> fs \<Rightarrow> fs" where
  "lock_directory a = acquirewrite (Meta_lock a) \<circ> acquirewrite (Contents_lock a)"

text \<open>
  The directories are locked from the top down, and the two dentries are looked up as soon as their directory is locked.
  The result has a return code and the dentries; with a negative code no reference to them is left.
\<close>

definition rename_lookup ::
    "icu \<Rightarrow> nat \<Rightarrow> string \<Rightarrow> nat \<Rightarrow> string \<Rightarrow> fs \<Rightarrow> int \<times> nat option \<times> nat option \<times> fs" where
  "rename_lookup u fromdir from_filename todir to_filename t =
     (if todir = fromdir \<or> fs_is_predecessor todir fromdir t then
        (case fs_directory_lookup u todir to_filename (lock_directory todir t) of (ret, todentry, t) \<Rightarrow>
           let t = (if fromdir \<noteq> todir then lock_directory fromdir t else t) in
           if ret < 0 then (ret, None, None, t)
           else case fs_directory_lookup u fromdir from_filename t of (ret, fromdentry, t) \<Rightarrow>
             if ret < 0 \<or> fromdentry = None then
               (if fromdentry = None then - LTFS_NO_DENTRY else ret, None, None,
                case todentry of None \<Rightarrow> t | Some a \<Rightarrow> drop_reference u fromdir a t)
             else (0, fromdentry, todentry, t))
      else
        (case fs_directory_lookup u fromdir from_filename (lock_directory fromdir t) of (ret, fromdentry, t) \<Rightarrow>
           let t = lock_directory todir t in
           if ret < 0 then (ret, None, None, t)
           else case fromdentry of
             None \<Rightarrow> (- LTFS_NO_DENTRY, None, None, t)
           | Some b \<Rightarrow>
               (case fs_directory_lookup u todir to_filename t of (ret, todentry, t) \<Rightarrow>
                  if ret < 0 then (ret, fromdentry, None, drop_reference u todir b t) else (0, fromdentry, todentry, t))))"

text \<open>A directory must not move below itself, nor a dentry onto a directory it is in.\<close>

definition rename_check :: "nat \<Rightarrow> nat \<Rightarrow> nat \<Rightarrow> nat option \<Rightarrow> fs \<Rightarrow> int" where
  "rename_check fromdir todir fromdentry todentry t =
     (if fromdentry = todir \<or> fs_is_predecessor fromdentry todir t then - LTFS_RENAMELOOP
      else case todentry of
        None \<Rightarrow> 0
      | Some a \<Rightarrow>
          if a = fromdir \<or> fs_is_predecessor a fromdir t
          then (if isdir (get fromdentry t) then - LTFS_DIRNOTEMPTY else - LTFS_ISFILE) else 0)"

text \<open>
  Unlinking what stands in the way. The flag says whether to go on. The file counter is left alone: the
  code asks whether the \<^emph>\<open>directory\<close> is a file.
\<close>

definition rename_replace :: "icu \<Rightarrow> nat \<Rightarrow> nat \<Rightarrow> nat \<Rightarrow> fs \<Rightarrow> bool \<times> int \<times> fs" where
  "rename_replace u todir fromdentry a t =
     (let dir = isdir (get a t);
          occupied = (dir \<and> child_list (get a t) \<noteq> []);
          t = (if dir then releaseread (Contents_lock a) (acquireread (Contents_lock a) t) else t)
      in if occupied then
           (False, - LTFS_DIRNOTEMPTY, fs_release_dentry u a (fs_release_dentry u fromdentry t))
         else
           let t = acquirewrite (Meta_lock a) t;
               t = (if dir then change todir (\<lambda>d. d\<lparr>link_count := link_count d - 1\<rparr>) t else t);
               t = change a (\<lambda>d. d\<lparr>numhandles := numhandles d - 1, link_count := link_count d - 1, parent := None,
                     deleted := True\<rparr>) t
           in case fs_find_key_from_hash_table u (child_list (get todir t)) (the (platform_safe_name (get a t))) of
                (ret, None) \<Rightarrow> (False, ret, releasewrite (Meta_lock a) t)
              | (ret, Some namelist) \<Rightarrow>
                  let t = change todir (\<lambda>d. d\<lparr>child_list := hash_del (child_list d) namelist\<rparr>) t;
                      t = (if isdir (get todir t) then t else fs_decrement_file_count t)
                  in (True, ret, fs_release_dentry_unlocked u a t))"

text \<open>Moving the dentry. The new name becomes the name on tape as it is.\<close>

definition rename_move :: "'b ops_env \<Rightarrow> nat \<Rightarrow> nat \<Rightarrow> string \<Rightarrow> nat \<Rightarrow> 'b fsys \<Rightarrow> int \<times> 'b fsys" where
  "rename_move env fromdir todir to_filename b m =
     (let u = unicode env; time = env_now (io env);
          m = on_tree (acquirewrite (Meta_lock b)) m;
          t = dentries m
      in case fs_find_key_from_hash_table u (child_list (get fromdir t)) (the (platform_safe_name (get b t))) of
           (ret, None) \<Rightarrow> (ret, on_tree (releasewrite (Meta_lock b)) m)
         | (ret, Some namelist) \<Rightarrow>
             let t = change fromdir (\<lambda>d. d\<lparr>child_list := hash_del (child_list d) namelist\<rparr>) t;
                 dir = isdir (get b t);
                 t = (if dir then change todir (\<lambda>d. d\<lparr>link_count := link_count d + 1\<rparr>)
                        (change fromdir (\<lambda>d. d\<lparr>link_count := link_count d - 1\<rparr>) t) else t);
                 t = change fromdir (\<lambda>d. d\<lparr>modify_time := time, change_time := time\<rparr>) t;
                 t = change todir (\<lambda>d. d\<lparr>modify_time := time, change_time := time\<rparr>) t;
                 t = change b (\<lambda>d. d\<lparr>change_time := time, parent := Some todir, d_name := Some to_filename,
                       platform_safe_name := Some to_filename\<rparr>) t;
                 m = match_criteria env b (m\<lparr>dentries := t\<rparr>);
                 (ret, table) = fs_add_key_to_hash_table u (child_list (get todir (dentries m))) b (get b (dentries m));
                 m = on_tree (change todir (\<lambda>d. d\<lparr>child_list := table\<rparr>)) m
             in if ret \<noteq> 0 then (ret, on_tree (releasewrite (Meta_lock b)) m)
                else (0, set_dirty False (on_tree (fs_release_dentry_unlocked u b) m)))"

text \<open>The label \<open>out_unlock\<close> and what follows: the directories are released.\<close>

definition rename_finish :: "icu \<Rightarrow> nat \<Rightarrow> nat \<Rightarrow> fs \<Rightarrow> fs" where
  "rename_finish u fromdir todir t =
     (let t = releasewrite (Contents_lock fromdir) t;
          t = (if fromdir \<noteq> todir then releasewrite (Contents_lock todir) t else t);
          t = fs_release_dentry_unlocked u fromdir t
      in if todir = fromdir then fs_release_dentry u todir t else fs_release_dentry_unlocked u todir t)"

definition rename_in ::
    "'b ops_env \<Rightarrow> string \<Rightarrow> string \<Rightarrow> 'b fsys \<Rightarrow> int \<times> nat option \<times> 'b fsys" where
  "rename_in env from_norm to_norm m =
     (let u = unicode env in
      case (the (fs_split_path from_norm), the (fs_split_path to_norm)) of
        ((from_path, from_filename), (to_path, to_filename)) \<Rightarrow>
      case fs_path_lookup u from_path 0 (dentries m) of (ret, fromdir, t) \<Rightarrow>
      if ret < 0 then (ret, None, m\<lparr>dentries := t\<rparr>)
      else case fs_path_lookup u to_path 0 t of (ret, todir, t) \<Rightarrow>
      if ret < 0 then (ret, None, m\<lparr>dentries := fs_release_dentry u (the fromdir) t\<rparr>)
      else case rename_lookup u (the fromdir) from_filename (the todir) to_filename t of (ret, fromdentry, todentry, t) \<Rightarrow>
      if ret < 0 then (ret, fromdentry, m\<lparr>dentries := rename_finish u (the fromdir) (the todir) t\<rparr>)
      else
        let b = the fromdentry;
            ret = rename_check (the fromdir) (the todir) b todentry t;
            (on, ret, t) =
              (if ret < 0 then
                 (False, ret,
                  (case todentry of None \<Rightarrow> id | Some a \<Rightarrow> drop_reference u (the fromdir) a)
                    (drop_reference u (the todir) b t))
               else case todentry of
                 None \<Rightarrow> (True, 0, t)
               | Some a \<Rightarrow> if a \<noteq> b then rename_replace u (the todir) b a t else (True, 0, fs_release_dentry u a t));
            m = m\<lparr>dentries := t\<rparr>;
            (ret, m) = (if on then rename_move env (the fromdir) (the todir) to_filename b m else (ret, m))
        in (ret, Some b, on_tree (rename_finish u (the fromdir) (the todir)) m))"

definition ltfs_fsops_rename ::
    "'b ops_env \<Rightarrow> string \<Rightarrow> string \<Rightarrow> 'b fsys \<Rightarrow> (int \<times> ltfs_file_id \<times> 'b fsys) option" where
  "ltfs_fsops_rename env from_path to_path m =
     Option.bind (check_ready env [- LTFS_LESS_SPACE] m) (\<lambda>(ret, m).
       if ret < 0 then Some (ret, no_id, m)
       else case pathname_format (unicode env) from_path True True of (ret, from_norm) \<Rightarrow>
       if ret < 0 then Some (source_error ret, no_id, m)
       else case pathname_format (unicode env) to_path True True of (ret, to_norm) \<Rightarrow>
       if ret < 0 then Some (ret, no_id, m)
       else if \<not> env_memory (io env) then Some (- LTFS_NO_MEMORY, no_id, m)
       else case lock_volume env m of (ret, m) \<Rightarrow>
       if ret < 0 then Some (ret, no_id, m)
       else case rename_in env (the from_norm) (the to_norm) m of (ret, fromdentry, m) \<Rightarrow>
         let m = unlock_volume m
         in Some (ret, case fromdentry of None \<Rightarrow> no_id | Some b \<Rightarrow> id_of b (dentries m), m))"

end
