(* ===== verification/FsMeta.thy ===== *)
theory FsMeta imports FsOps begin

unbundle bit_operations_syntax

text \<open>
  Attributes, directory listings, times, contents and symbolic links: the rest of \<open>ltfs_fsops.c\<close>, without I/O scheduler,
  dentry cache and LiveLink. The functions that take a path open it, work on the dentry and close it.
\<close>

section \<open>Attributes\<close>

record dentry_attr =
  at_size :: u64
  at_alloc_size :: u64
  at_blocksize :: u64
  at_uid :: u64
  at_nlink :: u32
  at_create_time :: ltfs_timespec
  at_access_time :: ltfs_timespec
  at_modify_time :: ltfs_timespec
  at_change_time :: ltfs_timespec
  at_backup_time :: ltfs_timespec
  at_readonly :: bool
  at_isdir :: bool
  at_isslink :: bool

definition ltfs_fsops_getattr :: "'b ops_env \<Rightarrow> nat \<Rightarrow> 'b fsys \<Rightarrow> int \<times> dentry_attr option \<times> 'b fsys" where
  "ltfs_fsops_getattr env a m =
     (case lock_volume env m of (ret, m) \<Rightarrow>
      if ret < 0 then (ret, None, m)
      else
        let m = on_tree (acquireread (Meta_lock a)) m;
            d = get a (dentries m);
            attr = \<lparr>at_size = (if isslink d then of_nat (length (the (target d))) else d_size d),
              at_alloc_size = realsize d, at_blocksize = ucast (lbl_blocksize (label (volume m))),
              at_uid = uid d, at_nlink = link_count d, at_create_time = creation_time d,
              at_access_time = access_time d, at_modify_time = modify_time d, at_change_time = change_time d,
              at_backup_time = backup_time d, at_readonly = d_readonly d, at_isdir = isdir d, at_isslink = isslink d\<rparr>
        in (0, Some attr, unlock_volume (on_tree (releaseread (Meta_lock a)) m)))"

text \<open>Opening a path, an operation on the dentry, closing it.\<close>

definition with_path ::
    "'b ops_env \<Rightarrow> string \<Rightarrow> bool \<Rightarrow> (nat \<Rightarrow> 'b fsys \<Rightarrow> int \<times> 'r \<times> 'b fsys) \<Rightarrow> 'r \<Rightarrow> 'b fsys \<Rightarrow>
     int \<times> 'r \<times> ltfs_file_id \<times> 'b fsys" where
  "with_path env path open_write f none m =
     (case ltfs_fsops_open env path open_write m of (ret, d, m) \<Rightarrow>
      if ret < 0 then (ret, none, no_id, m)
      else case f (the d) m of (ret, r, m) \<Rightarrow>
        (ret, r, id_of (the d) (dentries m), snd (ltfs_fsops_close env (the d) open_write m)))"

definition ltfs_fsops_getattr_path ::
    "'b ops_env \<Rightarrow> string \<Rightarrow> 'b fsys \<Rightarrow> int \<times> dentry_attr option \<times> ltfs_file_id \<times> 'b fsys" where
  "ltfs_fsops_getattr_path env path m = with_path env path False (ltfs_fsops_getattr env) None m"

section \<open>Directories\<close>

text \<open>\<open>HASH_SORT\<close>: bottom-up merging; the left element goes first unless it compares greater.\<close>

fun merge_runs :: "('a \<Rightarrow> 'a \<Rightarrow> int) \<Rightarrow> 'a list \<Rightarrow> 'a list \<Rightarrow> 'a list" where
  "merge_runs cmp [] q = q"
| "merge_runs cmp p [] = p"
| "merge_runs cmp (x # p) (y # q) =
     (if cmp x y \<le> 0 then x # merge_runs cmp p (y # q) else y # merge_runs cmp (x # p) q)"

fun merge_pass :: "('a \<Rightarrow> 'a \<Rightarrow> int) \<Rightarrow> nat \<Rightarrow> nat \<Rightarrow> 'a list \<Rightarrow> 'a list" where
  "merge_pass cmp insize 0 xs = []"
| "merge_pass cmp insize (Suc n) xs =
     (if xs = [] then []
      else merge_runs cmp (take insize xs) (take insize (drop insize xs)) @
           merge_pass cmp insize n (drop (2 * insize) xs))"

lemma merge_runs_length: "length (merge_runs cmp p q) = length p + length q"
  by (induction cmp p q rule: merge_runs.induct) auto

lemma merge_pass_length: "length (merge_pass cmp insize n xs) \<le> length xs"
proof (induction n arbitrary: xs)
  case (Suc n)
  show ?case using Suc.IH [of "drop (2 * insize) xs"] by (auto simp: merge_runs_length)
qed simp

text \<open>The length of the runs doubles until there is one.\<close>

function hash_sort :: "('a \<Rightarrow> 'a \<Rightarrow> int) \<Rightarrow> nat \<Rightarrow> 'a list \<Rightarrow> 'a list" where
  "hash_sort cmp insize xs =
     (let ys = merge_pass cmp insize (length xs) xs
      in if insize = 0 \<or> length xs \<le> 2 * insize then ys else hash_sort cmp (2 * insize) ys)"
  by pat_completeness auto
termination
proof (relation "measure (\<lambda>(cmp, insize, xs). length xs - insize)", goal_cases)
  case (2 cmp insize xs ys)
  then show ?case using merge_pass_length [of cmp insize "length xs" xs] by auto
qed simp

declare hash_sort.simps [simp del]

text \<open>The caller's function \<open>filler\<close> takes a name and works on the caller's buffer.\<close>

fun fill_names :: "('c \<Rightarrow> string \<Rightarrow> int \<times> 'c) \<Rightarrow> string list \<Rightarrow> 'c \<Rightarrow> int \<times> 'c" where
  "fill_names filler [] buf = (0, buf)"
| "fill_names filler [name] buf = filler buf name"
| "fill_names filler (name # names) buf =
     (case filler buf name of (ret, buf) \<Rightarrow> if ret < 0 then (ret, buf) else fill_names filler names buf)"

text \<open>Sorting puts the table itself into a new order, under a lock for reading.\<close>

definition ltfs_fsops_readdir ::
    "'b ops_env \<Rightarrow> ('c \<Rightarrow> string \<Rightarrow> int \<times> 'c) \<Rightarrow> nat \<Rightarrow> 'c \<Rightarrow> 'b fsys \<Rightarrow> int \<times> 'c \<times> 'b fsys" where
  "ltfs_fsops_readdir env filler a buf m =
     (if \<not> isdir (get a (dentries m)) then (- LTFS_ISFILE, buf, m)
      else case lock_volume env m of (ret, m) \<Rightarrow>
      if ret < 0 then (ret, buf, m)
      else
        let m = on_tree (acquireread (Contents_lock a)) m;
            m = on_tree (change a (\<lambda>d. d\<lparr>child_list := hash_sort fs_hash_sort_by_uid 1 (child_list d)\<rparr>)) m;
            names = map (\<lambda>e. the (platform_safe_name (get (nl_d e) (dentries m)))) (child_list (get a (dentries m)));
            (ret, buf) = fill_names filler names buf;
            m = on_tree (releaseread (Contents_lock a)) m;
            m = (if ret = 0 then
                   set_dirty True (on_tree (releasewrite (Meta_lock a) \<circ>
                     change a (\<lambda>d. d\<lparr>access_time := env_now (io env)\<rparr>) \<circ> acquirewrite (Meta_lock a)) m)
                 else m)
        in (ret, buf, unlock_volume m))"

record ltfs_direntry =
  de_creation_time :: ltfs_timespec
  de_access_time :: ltfs_timespec
  de_modify_time :: ltfs_timespec
  de_change_time :: ltfs_timespec
  de_isdir :: bool
  de_readonly :: bool
  de_isslink :: bool
  de_realsize :: u64
  de_size :: u64
  de_name :: "string option"
  de_platform_safe_name :: "string option"

definition direntry_of :: "fs_dentry \<Rightarrow> string option \<Rightarrow> ltfs_direntry" where
  "direntry_of d fixed =
    \<lparr>de_creation_time = creation_time d, de_access_time = access_time d, de_modify_time = modify_time d,
     de_change_time = change_time d, de_isdir = isdir d, de_readonly = d_readonly d, de_isslink = isslink d,
     de_realsize = realsize d, de_size = d_size d,
     de_name = (if fixed = None then d_name d else fixed),
     de_platform_safe_name = (if fixed = None then platform_safe_name d else fixed)\<rparr>"

text \<open>The child number \<open>index\<close>, counted from \<open>i\<close>.\<close>

fun direntry_loop :: "nat \<Rightarrow> nat \<Rightarrow> name_list list \<Rightarrow> fs \<Rightarrow> nat \<times> nat option" where
  "direntry_loop i idx [] t = (i, None)"
| "direntry_loop i idx (e # es) t =
     (if deleted (get (nl_d e) t) \<or> platform_safe_name (get (nl_d e) t) = None then direntry_loop i idx es t
      else if i = idx then (i, Some (nl_d e))
      else direntry_loop (i + 1) idx es t)"

text \<open>
  Number 0 is the directory itself and number 1 its parent, unless the root is listed with \<open>root\<close>. Where there is no parent,
  number 1 is the first child under the name of two dots.
\<close>

definition fsops_read_direntry :: "nat \<Rightarrow> nat \<Rightarrow> bool \<Rightarrow> 'b fsys \<Rightarrow> int \<times> ltfs_direntry option \<times> 'b fsys" where
  "fsops_read_direntry a idx root m =
     (let m = on_tree (acquireread (Contents_lock a)) m;
          d = get a (dentries m)
      in if \<not> isdir d then (- LTFS_ISFILE, None, on_tree (releaseread (Contents_lock a)) m)
         else
           let dots = (\<not> root \<or> parent d \<noteq> None);
               fixed = (if \<not> dots then None else if idx = 0 then Some ''.'' else if idx = 1 then Some ''..'' else None);
               chosen = (if \<not> dots then None else if idx = 0 then Some a else if idx = 1 then parent d else None);
               i = (if \<not> dots then 0 else if idx < 2 then idx else 2);
               (i, chosen) = (if chosen = None then direntry_loop i idx (child_list d) (dentries m) else (i, chosen));
               m = on_tree (releaseread (Contents_lock a)) m
           in if i \<noteq> idx then (- LTFS_NO_DENTRY, None, m)
              else case chosen of
                None \<Rightarrow> (- LTFS_NO_DENTRY, None, m)
              | Some b \<Rightarrow>
                  let m = on_tree (acquireread (Meta_lock b)) m;
                      entry = direntry_of (get b (dentries m)) fixed
                  in (0, Some entry, on_tree (releaseread (Meta_lock b)) m))"

definition ltfs_fsops_read_direntry :: "nat \<Rightarrow> nat \<Rightarrow> 'b fsys \<Rightarrow> int \<times> ltfs_direntry option \<times> 'b fsys" where
  "ltfs_fsops_read_direntry a idx m = fsops_read_direntry a idx True m"

definition ltfs_fsops_read_direntry_noroot :: "nat \<Rightarrow> nat \<Rightarrow> 'b fsys \<Rightarrow> int \<times> ltfs_direntry option \<times> 'b fsys" where
  "ltfs_fsops_read_direntry_noroot a idx m = fsops_read_direntry a idx False m"

section \<open>Times and the read-only flag\<close>

text \<open>An update of the metadata of a dentry, once the volume is known to be writable; the function says what becomes dirty.\<close>

definition update_metadata ::
    "'b ops_env \<Rightarrow> nat \<Rightarrow> ('b fsys \<Rightarrow> 'b fsys) \<Rightarrow> 'b fsys \<Rightarrow> (int \<times> 'b fsys) option" where
  "update_metadata env a f m =
     map_option (\<lambda>(ret, m).
       if ret < 0 then (ret, m)
       else case lock_volume env m of (ret, m) \<Rightarrow>
         if ret < 0 then (ret, m)
         else (0, unlock_volume (on_tree (releasewrite (Meta_lock a)) (f (on_tree (acquirewrite (Meta_lock a)) m)))))
       (check_ready env [- LTFS_LESS_SPACE] m)"

definition normalized :: "ltfs_timespec \<Rightarrow> ltfs_timespec" where
  "normalized t = snd (normalize_ltfs_time t)"

definition ltfs_fsops_utimens ::
    "'b ops_env \<Rightarrow> nat \<Rightarrow> ltfs_timespec \<times> ltfs_timespec \<Rightarrow> 'b fsys \<Rightarrow> (int \<times> 'b fsys) option" where
  "ltfs_fsops_utimens env a ts m =
     update_metadata env a (\<lambda>m.
       let time = env_now (io env);
           m = (if access_time (get a (dentries m)) \<noteq> fst ts then
                  set_dirty True (on_tree (change a (\<lambda>d. d\<lparr>access_time := normalized (fst ts), change_time := time\<rparr>)) m)
                else m)
       in if modify_time (get a (dentries m)) \<noteq> snd ts then
            set_dirty False (on_tree (change a (\<lambda>d. d\<lparr>modify_time := normalized (snd ts), change_time := time\<rparr>)) m)
          else m) m"

definition given :: "ltfs_timespec \<Rightarrow> bool" where
  "given t \<longleftrightarrow> tv_sec t \<noteq> 0 \<or> tv_nsec t \<noteq> 0"

text \<open>Access, modification, creation and change time; a time of zero is not set.\<close>

definition ltfs_fsops_utimens_all ::
    "'b ops_env \<Rightarrow> nat \<Rightarrow> ltfs_timespec \<times> ltfs_timespec \<times> ltfs_timespec \<times> ltfs_timespec \<Rightarrow> 'b fsys \<Rightarrow>
     (int \<times> 'b fsys) option" where
  "ltfs_fsops_utimens_all env a ts m =
     (case ts of (atime, mtime, crtime, ctime) \<Rightarrow>
      update_metadata env a (\<lambda>m.
        let time = env_now (io env);
            touch = (\<lambda>d. if given ctime then d else d\<lparr>change_time := time\<rparr>);
            m = (if given ctime then
                   set_dirty False (on_tree (change a (\<lambda>d. d\<lparr>change_time := normalized ctime\<rparr>)) m) else m);
            m = (if given atime then
                   set_dirty True (on_tree (change a (\<lambda>d. touch (d\<lparr>access_time := normalized atime\<rparr>))) m) else m);
            m = (if given mtime then
                   set_dirty False (on_tree (change a (\<lambda>d. touch (d\<lparr>modify_time := normalized mtime\<rparr>))) m) else m)
        in if given crtime then
             set_dirty False (on_tree (change a (\<lambda>d. touch (d\<lparr>creation_time := normalized crtime\<rparr>))) m) else m) m)"

definition ltfs_fsops_set_readonly :: "'b ops_env \<Rightarrow> nat \<Rightarrow> bool \<Rightarrow> 'b fsys \<Rightarrow> (int \<times> 'b fsys) option" where
  "ltfs_fsops_set_readonly env a ro m =
     update_metadata env a (\<lambda>m.
       if ro \<noteq> d_readonly (get a (dentries m)) then
         set_dirty False (on_tree (change a (\<lambda>d. d\<lparr>d_readonly := ro, change_time := env_now (io env)\<rparr>)) m)
       else m) m"

text \<open>The same for operations that may not return.\<close>

definition with_path_option ::
    "'b ops_env \<Rightarrow> string \<Rightarrow> bool \<Rightarrow> (nat \<Rightarrow> 'b fsys \<Rightarrow> (int \<times> 'b fsys) option) \<Rightarrow> 'b fsys \<Rightarrow>
     (int \<times> ltfs_file_id \<times> 'b fsys) option" where
  "with_path_option env path open_write f m =
     (case ltfs_fsops_open env path open_write m of (ret, d, m) \<Rightarrow>
      if ret < 0 then Some (ret, no_id, m)
      else map_option (\<lambda>(ret, m).
        (ret, id_of (the d) (dentries m), snd (ltfs_fsops_close env (the d) open_write m))) (f (the d) m))"

definition ltfs_fsops_utimens_path ::
    "'b ops_env \<Rightarrow> string \<Rightarrow> ltfs_timespec \<times> ltfs_timespec \<Rightarrow> 'b fsys \<Rightarrow> (int \<times> ltfs_file_id \<times> 'b fsys) option" where
  "ltfs_fsops_utimens_path env path ts m =
     with_path_option env path False (\<lambda>a. ltfs_fsops_utimens env a ts) m"

definition ltfs_fsops_set_readonly_path ::
    "'b ops_env \<Rightarrow> string \<Rightarrow> bool \<Rightarrow> 'b fsys \<Rightarrow> (int \<times> ltfs_file_id \<times> 'b fsys) option" where
  "ltfs_fsops_set_readonly_path env path ro m =
     with_path_option env path False (\<lambda>a. ltfs_fsops_set_readonly env a ro) m"

section \<open>Contents\<close>

text \<open>The part of a dentry that the functions on file data work on.\<close>

definition put_data :: "nat \<Rightarrow> dentry \<Rightarrow> 'b fsys \<Rightarrow> 'b fsys" where
  "put_data a d m = on_tree (change a (\<lambda>x. dentry.extend d (dentry.more x))) m"

definition ltfs_fsops_write ::
    "'b ops_env \<Rightarrow> bool \<Rightarrow> bool \<Rightarrow> nat \<Rightarrow> u8 list \<Rightarrow> int \<Rightarrow> bool \<Rightarrow> 'b fsys \<Rightarrow> (int \<times> 'b fsys) option" where
  "ltfs_fsops_write env copy_ok split_ok a buf offset isupdatetime m =
     (if isdir (get a (dentries m)) then Some (- LTFS_ISDIRECTORY, m)
      else map_option (\<lambda>(ret, d, vol).
        let m = put_data a d (m\<lparr>volume := vol\<rparr>);
            m = (if \<not> isupdatetime \<and> 0 \<le> ret
                 then on_tree (change a (\<lambda>d. d\<lparr>need_update_time := True\<rparr>)) m else m)
        in (if ret < 0 then ret else 0, m))
        (ltfs_fsraw_write (io env) copy_ok split_ok (dentry.truncate (get a (dentries m))) buf offset
           (ltfs_dp_id (volume m)) isupdatetime (volume m)))"

definition ltfs_fsops_read ::
    "'b ops_env \<Rightarrow> bool \<Rightarrow> nat \<Rightarrow> nat \<Rightarrow> int \<Rightarrow> 'b fsys \<Rightarrow> (int \<times> u8 list \<times> 'b fsys) option" where
  "ltfs_fsops_read env cache_ok a count offset m =
     (if isdir (get a (dentries m)) then Some (- LTFS_ISDIRECTORY, [], m)
      else map_option (\<lambda>(ret, out, d, vol). (ret, out, put_data a d (m\<lparr>volume := vol\<rparr>)))
        (ltfs_fsraw_read (io env) cache_ok (dentry.truncate (get a (dentries m))) count offset (volume m)))"

text \<open>The result of the truncation is overwritten by the one of the count.\<close>

definition ltfs_fsops_truncate :: "'b ops_env \<Rightarrow> nat \<Rightarrow> int \<Rightarrow> 'b fsys \<Rightarrow> (int \<times> 'b fsys) option" where
  "ltfs_fsops_truncate env a len m =
     (if len < 0 then Some (- LTFS_BAD_ARG, m)
      else if isdir (get a (dentries m)) then Some (- LTFS_ISDIRECTORY, m)
      else map_option (\<lambda>(ret, m).
        if ret < 0 then (ret, m)
        else case ltfs_get_volume_lock (env_others (io env)) (volume m) of (ret, vol) \<Rightarrow>
          (case ltfs_fsraw_truncate ret (env_now (io env)) (dentry.truncate (get a (dentries m))) len
                  (idx_flags (index vol)) of
             (ret, d, flags) \<Rightarrow>
               ltfs_fsops_update_used_blocks env a
                 (put_data a d (m\<lparr>volume := vol\<lparr>index := (index vol)\<lparr>idx_flags := flags\<rparr>\<rparr>\<rparr>))))
        (check_ready env [] m))"

definition ltfs_fsops_truncate_path ::
    "'b ops_env \<Rightarrow> string \<Rightarrow> int \<Rightarrow> 'b fsys \<Rightarrow> (int \<times> ltfs_file_id \<times> 'b fsys) option" where
  "ltfs_fsops_truncate_path env path len m =
     with_path_option env path True (\<lambda>a. ltfs_fsops_truncate env a len) m"

text \<open>There is nothing to flush without a scheduler and a cache.\<close>

definition ltfs_fsops_flush :: "nat option \<Rightarrow> 'b fsys \<Rightarrow> int" where
  "ltfs_fsops_flush d m =
     (case d of None \<Rightarrow> 0 | Some a \<Rightarrow> if isdir (get a (dentries m)) then - LTFS_ISDIRECTORY else 0)"

definition ltfs_fsops_set_write_protected :: "'b fsys \<Rightarrow> int \<times> 'b fsys" where
  "ltfs_fsops_set_write_protected m =
     (0, m\<lparr>volume := (volume m)\<lparr>device := (device (volume m))\<lparr>write_protect := True\<rparr>\<rparr>\<rparr>)"

section \<open>Symbolic links\<close>

abbreviation ENOENT :: int where "ENOENT \<equiv> 2"

text \<open>A buffer that is too small leaves the dentry open.\<close>

definition ltfs_fsops_readlink_path ::
    "'b ops_env \<Rightarrow> string \<Rightarrow> nat \<Rightarrow> 'b fsys \<Rightarrow> int \<times> string option \<times> ltfs_file_id \<times> 'b fsys" where
  "ltfs_fsops_readlink_path env path len m =
     (case ltfs_fsops_open env path False m of (ret, d, m) \<Rightarrow>
      if ret < 0 then (ret, None, no_id, m)
      else
        let a = the d; file_id = id_of a (dentries m) in
        case target (get a (dentries m)) of
          None \<Rightarrow> (- ENOENT, None, file_id, snd (ltfs_fsops_close env a False m))
        | Some link \<Rightarrow>
            if len < length link + 1 then (- LTFS_SMALL_BUFFER, None, file_id, m)
            else case ltfs_fsops_close env a False m of (ret, m) \<Rightarrow> (if ret < 0 then ret else 0, Some link, file_id, m))"

text \<open>The tokens of \<open>strtok\<close>, and a path before its last slash.\<close>

definition tokens :: "string \<Rightarrow> string list" where
  "tokens s = filter (\<lambda>w. w \<noteq> []) (components s)"

definition before_last_slash :: "string \<Rightarrow> string option" where
  "before_last_slash s = map_option fst (fs_split_path s)"

text \<open>The walk over the tokens; the last one is the file name. \<open>Inl\<close> is the empty result outside of the volume.\<close>

fun target_walk :: "string \<Rightarrow> string list \<Rightarrow> unit + string" where
  "target_walk work [] = Inr work"
| "target_walk work [file] = Inr (work @ ''/'' @ file)"
| "target_walk work (w # ws) =
     (if w = ''..'' then (case before_last_slash work of None \<Rightarrow> Inl () | Some up \<Rightarrow> target_walk up ws)
      else if w = ''.'' then target_walk work ws
      else target_walk (work @ ''/'' @ w) ws)"

text \<open>The text from the first place on where a word stands.\<close>

fun from_word :: "string \<Rightarrow> string \<Rightarrow> string option" where
  "from_word w [] = (if w = [] then Some [] else None)"
| "from_word w (c # s) = (if take (length w) (c # s) = w then Some (c # s) else from_word w s)"

text \<open>
  \<open>None\<close> stands for the two ways in which the code follows a null pointer: an absolute target with a name that ends
  in a dot before a slash but no name that begins with one, and a target without any name.
\<close>

definition ltfs_fsops_target_absolute_path :: "string \<Rightarrow> string \<Rightarrow> nat \<Rightarrow> (int \<times> string option) option" where
  "ltfs_fsops_target_absolute_path link t len =
     (if take 1 link \<noteq> ''/'' then Some (- LTFS_BAD_ARG, None)
      else if take 1 t = ''/'' \<and> from_word ''./'' t = None then
        Some (if len < length t + 1 then (- LTFS_SMALL_BUFFER, None) else (0, Some t))
      else case (if take 1 t = ''/''
                 then map_option (\<lambda>dot. (take (length t - length dot) t, tl dot)) (from_word ''/.'' t)
                 else map_option (\<lambda>work. (work, t)) (before_last_slash link)) of
        None \<Rightarrow> None
      | Some (work, rest) \<Rightarrow>
          if tokens rest = [] then None
          else case target_walk work (tokens rest) of
            Inl _ \<Rightarrow> Some (0, Some [])
          | Inr path \<Rightarrow> Some (if len < length path + 1 then (- LTFS_SMALL_BUFFER, None) else (0, Some path)))"

end
