(* ===== verification/Xattrs.thy ===== *)
theory Xattrs imports FsMeta begin

unbundle bit_operations_syntax

text \<open>
  Extended attributes that are stored with a dentry: \<open>xattr.c\<close>, and the operations on attributes and symbolic links of
  \<open>ltfs_fsops.c\<close>. The attributes that the program makes up when they are read are recognised (\<open>xattr_is_virtual\<close>) but
  not computed: there an operation has no result (\<open>None\<close>). On Windows names have no prefix and \<open>strcasestr\<close> is
  \<open>strstr\<close>. Memory is one flag.
\<close>

definition LTFS_LIVELINK_EA_NAME :: string where
  "LTFS_LIVELINK_EA_NAME = ''ltfs.vendor.IBM.prefixLength''"

section \<open>Names\<close>

text \<open>Reserved names, but for those that an application may set.\<close>

definition reserved_name :: "string \<Rightarrow> bool" where
  "reserved_name name \<longleftrightarrow>
     begins_with name ''ltfs'' \<and> name \<noteq> ''ltfs.spannedFileOffset'' \<and> \<not> begins_with name ''ltfs.permissions.'' \<and>
     \<not> begins_with name ''ltfs.hash.''"

definition virtual_everywhere :: "string list" where
  "virtual_everywhere = map (\<lambda>n. ''ltfs.'' @ n)
     [''createTime'', ''modifyTime'', ''accessTime'', ''changeTime'', ''backupTime'', ''fileUID'', ''volumeUUID'', ''volumeName'',
      ''driveCaptureDump'', ''softwareVersion'', ''softwareFormatSpec'', ''softwareVendor'', ''softwareProduct'',
      ''mamApplicationVendor'', ''mamApplicationName'', ''mamApplicationVersion'', ''mamApplicationFormatVersion'',
      ''mamVolumeName'', ''mamBarcode'', ''volumeLockState'']"

definition virtual_on_root :: "string list" where
  "virtual_on_root = map (\<lambda>n. ''ltfs.'' @ n)
     [''commitMessage'', ''indexVersion'', ''labelVersion'', ''sync'', ''indexGeneration'', ''indexTime'', ''policyExists'',
      ''policyAllowUpdate'', ''volumeFormatTime'', ''volumeBlocksize'', ''volumeCompression'', ''indexLocation'',
      ''indexPrevious'', ''indexCreator'', ''labelCreator'', ''partitionMap'', ''volumeSerial'', ''mediaLoads'',
      ''mediaRecoveredWriteErrors'', ''mediaPermanentWriteErrors'', ''mediaRecoveredReadErrors'',
      ''mediaPermanentReadErrors'', ''mediaPreviousPermanentWriteErrors'', ''mediaPreviousPermanentReadErrors'',
      ''mediaBeginningMediumPasses'', ''mediaMiddleMediumPasses'', ''mediaEfficiency'', ''mediaStorageAlert'',
      ''mediaDatasetsWritten'', ''mediaDatasetsRead'', ''mediaMBWritten'', ''mediaMBRead'',
      ''mediaDataPartitionTotalCapacity'', ''mediaDataPartitionAvailableSpace'', ''mediaIndexPartitionTotalCapacity'',
      ''mediaIndexPartitionAvailableSpace'', ''mediaEncrypted'', ''driveEncryptionState'', ''driveEncryptionMethod'']"

text \<open>The names of vendors are those that begin with \<open>ltfs.vendor\<close>; the code lists some of them as well.\<close>

definition xattr_is_virtual :: "nat \<Rightarrow> string \<Rightarrow> 'b fsys \<Rightarrow> bool" where
  "xattr_is_virtual a name m \<longleftrightarrow>
     (let d = get a (dentries m) in
      name \<in> set virtual_everywhere \<or>
      \<not> isdir d \<and> extentlist d \<noteq> [] \<and> name \<in> {''ltfs.partition'', ''ltfs.startblock''} \<or>
      a = fs_root (dentries m) \<and>
        (have_criteria (placement m) \<and> name = ''ltfs.policyMaxFileSize'' \<or> name \<in> set virtual_on_root \<or>
         begins_with name ''ltfs.vendor''))"

section \<open>The list of attributes\<close>

definition has_key :: "string \<Rightarrow> xattr_info \<Rightarrow> bool" where
  "has_key name x \<longleftrightarrow> xa_key x = Some name"

definition xattr_seek :: "string \<Rightarrow> xattr_info list \<Rightarrow> xattr_info option" where
  "xattr_seek name xs = find (has_key name) xs"

text \<open>The entry that was found, changed or taken out.\<close>

fun change_found :: "string \<Rightarrow> (xattr_info \<Rightarrow> xattr_info option) \<Rightarrow> xattr_info list \<Rightarrow> xattr_info list" where
  "change_found name f [] = []"
| "change_found name f (x # xs) =
     (if has_key name x then (case f x of None \<Rightarrow> xs | Some y \<Rightarrow> y # xs) else x # change_found name f xs)"

definition xattr_do_set :: "bool \<Rightarrow> string \<Rightarrow> u8 list \<Rightarrow> xattr_info option \<Rightarrow> xattr_info list \<Rightarrow> int \<times> xattr_info list" where
  "xattr_do_set mem name val xattr xs =
     (case xattr of
        Some x \<Rightarrow>
          if val \<noteq> [] \<and> \<not> mem then (- LTFS_NO_MEMORY, change_found name (\<lambda>x. None) xs)
          else (0, change_found name (\<lambda>x. Some (x\<lparr>xa_value := val\<rparr>)) xs)
      | None \<Rightarrow>
          if \<not> mem then (- LTFS_NO_MEMORY, xs)
          else (0, (perform_xattr_percent_encoding
                     \<lparr>xa_key = Some name, percent_encoded_key = None, xa_percentencoded = False, xa_value = []\<rparr>)
                     \<lparr>xa_value := val\<rparr> # xs))"

text \<open>Only two attributes look at the extents of a file.\<close>

definition xattr_lock_dentry :: "string \<Rightarrow> nat \<Rightarrow> fs \<Rightarrow> fs" where
  "xattr_lock_dentry name a t =
     (if name \<in> {''ltfs.startblock'', ''ltfs.partition''} then acquireread (Contents_lock a) t else t)"

definition xattr_unlock_dentry :: "string \<Rightarrow> nat \<Rightarrow> fs \<Rightarrow> fs" where
  "xattr_unlock_dentry name a t =
     (if name \<in> {''ltfs.startblock'', ''ltfs.partition''} then releaseread (Contents_lock a) t else t)"

definition set_xattrs :: "nat \<Rightarrow> xattr_info list \<Rightarrow> 'b fsys \<Rightarrow> 'b fsys" where
  "set_xattrs a xs m = on_tree (change a (\<lambda>d. d\<lparr>xattrlist := xs\<rparr>)) m"

section \<open>Setting, getting and removing\<close>

text \<open>The part of \<open>xattr_set\<close> for an attribute that is not virtual.\<close>

definition xattr_set_real ::
    "'b ops_env \<Rightarrow> nat \<Rightarrow> string \<Rightarrow> u8 list \<Rightarrow> bool \<Rightarrow> bool \<Rightarrow> 'b fsys \<Rightarrow> int \<times> 'b fsys" where
  "xattr_set_real env a name val replace create m =
     (if reserved_name name then (- LTFS_RDONLY_XATTR, m)
      else
        let m = on_tree (acquirewrite (Meta_lock a)) m;
            xs = xattrlist (get a (dentries m));
            xattr = xattr_seek name xs;
            unlock = on_tree (releasewrite (Meta_lock a))
        in if create \<and> xattr \<noteq> None then (- LTFS_XATTR_EXISTS, unlock m)
           else if replace \<and> xattr = None then (- LTFS_NO_XATTR, unlock m)
           else case xattr_do_set (env_memory (io env)) name val xattr xs of (ret, xs) \<Rightarrow>
             let m = set_xattrs a xs m in
             if ret < 0 then (ret, unlock m)
             else (0, set_dirty False (unlock (on_tree (change a (\<lambda>d. d\<lparr>change_time := env_now (io env)\<rparr>)) m))))"

text \<open>The part of \<open>xattr_get\<close> for a stored attribute; size 0 asks for the length.\<close>

definition xattr_get_real :: "nat \<Rightarrow> string \<Rightarrow> nat \<Rightarrow> 'b fsys \<Rightarrow> int \<times> u8 list \<times> 'b fsys" where
  "xattr_get_real a name len m =
     (let m = on_tree (acquireread (Meta_lock a)) m;
          (ret, out) =
            (case xattr_seek name (xattrlist (get a (dentries m))) of
               None \<Rightarrow> (- LTFS_NO_XATTR, [])
             | Some x \<Rightarrow>
                 if len \<noteq> 0 \<and> len < length (xa_value x) then (- LTFS_SMALL_BUFFER, [])
                 else (int (length (xa_value x)), if len \<noteq> 0 then xa_value x else []))
      in (ret, out, on_tree (releaseread (Meta_lock a)) m))"

definition xattr_do_remove :: "'b ops_env \<Rightarrow> nat \<Rightarrow> string \<Rightarrow> bool \<Rightarrow> 'b fsys \<Rightarrow> int \<times> 'b fsys" where
  "xattr_do_remove env a name force m =
     (let m = on_tree (acquirewrite (Meta_lock a)) m;
          xs = xattrlist (get a (dentries m));
          unlock = on_tree (releasewrite (Meta_lock a))
      in if xattr_seek name xs = None then (- LTFS_NO_XATTR, unlock m)
         else if \<not> force \<and> reserved_name name then (- LTFS_RDONLY_XATTR, unlock m)
         else (0, unlock (on_tree (change a (\<lambda>d. d\<lparr>change_time := env_now (io env)\<rparr>))
                   (set_xattrs a (change_found name (\<lambda>x. None) xs) m))))"

section \<open>The operations on a dentry\<close>

definition LTFS_MAX_XATTR_SIZE :: nat where "LTFS_MAX_XATTR_SIZE = 4096"

definition xattr_set ::
    "'b ops_env \<Rightarrow> nat \<Rightarrow> string \<Rightarrow> u8 list \<Rightarrow> bool \<Rightarrow> bool \<Rightarrow> 'b fsys \<Rightarrow> (int \<times> 'b fsys) option" where
  "xattr_set env a name val replace create m =
     (if LTFS_MAX_XATTR_SIZE < length val then Some (- LTFS_LARGE_XATTR, m)
      else
        let m = on_tree (xattr_lock_dentry name a) m in
        if xattr_is_virtual a name m then None
        else case xattr_set_real env a name val replace create m of
               (ret, m) \<Rightarrow> Some (ret, on_tree (xattr_unlock_dentry name a) m))"

definition xattr_get :: "nat \<Rightarrow> string \<Rightarrow> nat \<Rightarrow> 'b fsys \<Rightarrow> (int \<times> u8 list \<times> 'b fsys) option" where
  "xattr_get a name len m =
     (let m = on_tree (xattr_lock_dentry name a) m in
      if xattr_is_virtual a name m then None
      else case xattr_get_real a name len m of
             (ret, out, m) \<Rightarrow> Some (ret, out, on_tree (xattr_unlock_dentry name a) m))"

text \<open>The index is dirty afterwards even if nothing was removed.\<close>

definition xattr_remove :: "'b ops_env \<Rightarrow> nat \<Rightarrow> string \<Rightarrow> 'b fsys \<Rightarrow> (int \<times> 'b fsys) option" where
  "xattr_remove env a name m =
     (let m = on_tree (xattr_lock_dentry name a) m in
      if xattr_is_virtual a name m then None
      else case xattr_do_remove env a name False m of
             (ret, m) \<Rightarrow> Some (ret, on_tree (xattr_unlock_dentry name a) (set_dirty False m)))"

section \<open>The operations on a path\<close>

text \<open>The normalised path and name, both checked.\<close>

definition format_xattr :: "'b ops_env \<Rightarrow> string \<Rightarrow> string \<Rightarrow> int \<times> string \<times> string" where
  "format_xattr env path name =
     (case pathname_format (unicode env) path True True of (ret, new_path) \<Rightarrow>
      if ret < 0 then (source_error ret, [], [])
      else case pathname_format (unicode env) name True True of (ret, new_name) \<Rightarrow>
      if ret < 0 then (ret, [], [])
      else
        let ret = pathname_validate_xattr_name (unicode env) (the new_name) 0
        in (if ret < 0 then ret else 0, the new_path, the new_name))"

text \<open>An operation on the dentry of a path, with the volume lock taken for reading and a reference to the dentry.\<close>

definition on_dentry ::
    "'b ops_env \<Rightarrow> string \<Rightarrow> 'a \<Rightarrow> (nat \<Rightarrow> 'b fsys \<Rightarrow> (int \<times> 'a \<times> 'b fsys) option) \<Rightarrow> 'b fsys \<Rightarrow>
     (int \<times> 'a \<times> ltfs_file_id \<times> 'b fsys) option" where
  "on_dentry env path nothing f m =
     (case lock_volume env m of (ret, m) \<Rightarrow>
      if ret < 0 then Some (ret, nothing, no_id, m)
      else case fs_path_lookup (unicode env) path 0 (dentries m) of (ret, d, t) \<Rightarrow>
      let m = m\<lparr>dentries := t\<rparr> in
      if ret < 0 then Some (ret, nothing, no_id, unlock_volume m)
      else map_option (\<lambda>(ret, out, m').
             (ret, out, id_of (the d) (dentries m), unlock_volume (on_tree (fs_release_dentry (unicode env) (the d)) m')))
           (f (the d) m))"

text \<open>The lock state of a volume may also be set when the volume is locked, but not when the medium cannot be written.\<close>

definition lock_state_settable :: "'b ltfs_volume \<Rightarrow> int" where
  "lock_state_settable vol =
     (let ignored = {0, - LTFS_LESS_SPACE, - LTFS_NO_SPACE};
          ip = tape_read_only (ltfs_part_id2num (ltfs_ip_id vol) vol) (device vol);
          dp = tape_read_only (ltfs_part_id2num (ltfs_dp_id vol) vol) (device vol)
      in if ip \<notin> ignored then ip else if dp \<notin> ignored then dp else 0)"

definition check_settable :: "'b ops_env \<Rightarrow> string \<Rightarrow> 'b fsys \<Rightarrow> (int \<times> 'b fsys) option" where
  "check_settable env name m =
     (if begins_with name ''ltfs.volumeLockState'' \<or> begins_with name ''user.ltfs.volumeLockState'' then
        let ret = lock_state_settable (volume m) in
        if ret < 0 then Some (ret, m)
        else map_option (\<lambda>(ret, vol). (ret, m\<lparr>volume := vol\<rparr>)) (ltfs_test_unit_ready (io env) (volume m))
      else check_ready env [] m)"

text \<open>The old value is read first. The attribute \<open>ltfs.sync\<close> of the root is virtual.\<close>

definition ltfs_fsops_setxattr ::
    "'b ops_env \<Rightarrow> string \<Rightarrow> string \<Rightarrow> u8 list \<Rightarrow> bool \<Rightarrow> bool \<Rightarrow> 'b fsys \<Rightarrow> (int \<times> ltfs_file_id \<times> 'b fsys) option" where
  "ltfs_fsops_setxattr env path name val replace create m =
     (if LTFS_MAX_XATTR_SIZE < length val then Some (- LTFS_LARGE_XATTR, no_id, m)
      else Option.bind (check_settable env name m) (\<lambda>(ret, m).
        if ret < 0 then Some (ret, no_id, m)
        else case format_xattr env path name of (ret, new_path, new_name) \<Rightarrow>
        if ret < 0 then Some (ret, no_id, m)
        else if new_name = ''ltfs.sync'' \<and> path = ''/'' then None
        else map_option (\<lambda>(ret, out, file_id, m). (ret, file_id, m))
               (on_dentry env new_path () (\<lambda>a m.
                  Option.bind (xattr_get a new_name LTFS_MAX_XATTR_SIZE m) (\<lambda>(ret_restore, value_restore, m).
                    map_option (\<lambda>(ret, m). (ret, (), m)) (xattr_set env a new_name val replace create m))) m)))"

definition ltfs_fsops_getxattr ::
    "'b ops_env \<Rightarrow> string \<Rightarrow> string \<Rightarrow> nat \<Rightarrow> 'b fsys \<Rightarrow> (int \<times> u8 list \<times> ltfs_file_id \<times> 'b fsys) option" where
  "ltfs_fsops_getxattr env path name len m =
     (case format_xattr env path name of (ret, new_path, new_name) \<Rightarrow>
      if ret < 0 then Some (ret, [], no_id, m)
      else on_dentry env new_path [] (\<lambda>a. xattr_get a new_name len) m)"

definition ltfs_fsops_removexattr ::
    "'b ops_env \<Rightarrow> string \<Rightarrow> string \<Rightarrow> 'b fsys \<Rightarrow> (int \<times> ltfs_file_id \<times> 'b fsys) option" where
  "ltfs_fsops_removexattr env path name m =
     Option.bind (check_ready env [- LTFS_LESS_SPACE] m) (\<lambda>(ret, m).
       if ret < 0 then Some (ret, no_id, m)
       else case format_xattr env path name of (ret, new_path, new_name) \<Rightarrow>
       if ret < 0 then Some (ret, no_id, m)
       else map_option (\<lambda>(ret, out, file_id, m). (ret, file_id, m))
              (on_dentry env new_path () (\<lambda>a m. map_option (\<lambda>(ret, m). (ret, (), m)) (xattr_remove env a new_name m)) m))"

section \<open>Listing\<close>

text \<open>The attributes with their keys decoded again, the number of bytes needed and the bytes that fit.\<close>

fun list_loop :: "nat \<Rightarrow> nat \<Rightarrow> xattr_info list \<Rightarrow> xattr_info list \<times> nat \<times> string" where
  "list_loop len nbytes [] = ([], nbytes, [])"
| "list_loop len nbytes (x # xs) =
     (let x = update_xattr_safe_name x;
          new_name = the (snd (pathname_unformat (the (xa_key x))));
          listed = (new_name \<noteq> LTFS_LIVELINK_EA_NAME);
          nbytes = (if listed then nbytes + length new_name + 1 else nbytes)
      in case list_loop len nbytes xs of
        (xs, needed, out) \<Rightarrow>
          (x # xs, needed, (if listed \<and> len \<noteq> 0 \<and> nbytes \<le> len then new_name @ [char_of (0 :: nat)] else []) @ out))"

definition xattr_list :: "nat \<Rightarrow> nat \<Rightarrow> 'b fsys \<Rightarrow> int \<times> string \<times> 'b fsys" where
  "xattr_list a len m =
     (let m = on_tree (acquireread (Meta_lock a)) m in
      case list_loop len 0 (xattrlist (get a (dentries m))) of (xs, nbytes, out) \<Rightarrow>
        let m = on_tree (releaseread (Meta_lock a)) (set_xattrs a xs m)
        in (if len \<noteq> 0 \<and> len < nbytes then - LTFS_SMALL_BUFFER else int nbytes, out, m))"

definition ltfs_fsops_listxattr ::
    "'b ops_env \<Rightarrow> string \<Rightarrow> nat \<Rightarrow> 'b fsys \<Rightarrow> int \<times> string \<times> ltfs_file_id \<times> 'b fsys" where
  "ltfs_fsops_listxattr env path len m =
     (case pathname_format (unicode env) path True True of (ret, new_path) \<Rightarrow>
      if ret < 0 then (source_error ret, [], no_id, m)
      else case lock_volume env m of (ret, m) \<Rightarrow>
      if ret < 0 then (ret, [], no_id, m)
      else case fs_path_lookup (unicode env) (the new_path) 0 (dentries m) of (ret, d, t) \<Rightarrow>
      let m = m\<lparr>dentries := t\<rparr> in
      if ret < 0 then (ret, [], no_id, unlock_volume m)
      else case xattr_list (the d) len m of (ret, out, m) \<Rightarrow>
        (ret, out, id_of (the d) (dentries m), unlock_volume (on_tree (fs_release_dentry (unicode env) (the d)) m)))"

section \<open>Symbolic links\<close>

text \<open>The attribute is set under a lock for reading.\<close>

definition xattr_set_mountpoint_length :: "'b ops_env \<Rightarrow> nat \<Rightarrow> u8 list \<Rightarrow> 'b fsys \<Rightarrow> int \<times> 'b fsys" where
  "xattr_set_mountpoint_length env a val m =
     (let m = on_tree (acquireread (Meta_lock a)) m;
          xs = xattrlist (get a (dentries m))
      in case xattr_do_set (env_memory (io env)) LTFS_LIVELINK_EA_NAME val (xattr_seek LTFS_LIVELINK_EA_NAME xs) xs of
           (ret, xs) \<Rightarrow> (ret, on_tree (releaseread (Meta_lock a)) (set_xattrs a xs m)))"

definition mountpoint_length :: "string \<Rightarrow> string \<Rightarrow> u8 list" where
  "mountpoint_length mountpoint to_path =
     map of_char (if begins_with to_path (mountpoint @ ''/'') then decimal (length mountpoint) else ''0'')"

text \<open>\<open>mountpoint\<close> is where the volume is mounted.\<close>

definition ltfs_fsops_symlink_path ::
    "'b ops_env \<Rightarrow> string \<Rightarrow> string \<Rightarrow> string \<Rightarrow> 'b fsys \<Rightarrow> (int \<times> ltfs_file_id \<times> 'b fsys) option" where
  "ltfs_fsops_symlink_path env mountpoint to_path from_path m =
     map_option (\<lambda>(ret, d, m).
       if ret < 0 then (ret, no_id, m)
       else
         let a = the d;
             file_id = id_of a (dentries m);
             m = on_tree (change a (\<lambda>d. d\<lparr>target := Some to_path, isslink := True\<rparr>)) m
         in case xattr_set_mountpoint_length env a (mountpoint_length mountpoint to_path) m of (ret, m) \<Rightarrow>
            case ltfs_fsops_close env a True m of (ret2, m) \<Rightarrow> (if ret = 0 \<and> ret2 < 0 then ret2 else ret, file_id, m))
     (ltfs_fsops_create env from_path False True m)"

section \<open>What is set is found\<close>

lemma change_found_seek:
  "xattr_seek name xs \<noteq> None \<Longrightarrow> (\<And>x. has_key name x \<Longrightarrow> has_key name (f x)) \<Longrightarrow>
   xattr_seek name (change_found name (\<lambda>x. Some (f x)) xs) = map_option f (xattr_seek name xs)"
  by (induction xs) (auto simp: xattr_seek_def)

lemma change_found_other:
  "other \<noteq> name \<Longrightarrow> (\<And>x y. f x = Some y \<Longrightarrow> xa_key y = xa_key x) \<Longrightarrow>
   xattr_seek other (change_found name f xs) = xattr_seek other xs"
  by (induction xs) (auto simp: xattr_seek_def has_key_def split: option.splits)

text \<open>After a successful set the attribute has the value, and no other one has changed.\<close>

lemma do_set_seek:
  assumes "xattr_do_set mem name val (xattr_seek name xs) xs = (0, ys)"
  shows "map_option xa_value (xattr_seek name ys) = Some val"
    and "other \<noteq> name \<Longrightarrow> xattr_seek other ys = xattr_seek other xs"
proof -
  show "map_option xa_value (xattr_seek name ys) = Some val"
  proof (cases "xattr_seek name xs")
    case None
    then show ?thesis
      using assms by (auto simp: xattr_do_set_def xattr_seek_def has_key_def perform_xattr_percent_encoding_def
          split: if_splits prod.splits)
  next
    case (Some x)
    then show ?thesis
      using assms change_found_seek [of name xs "\<lambda>x. x\<lparr>xa_value := val\<rparr>"]
      by (auto simp: xattr_do_set_def has_key_def split: if_splits)
  qed
  show "xattr_seek other ys = xattr_seek other xs" if "other \<noteq> name"
    using assms that change_found_other [OF that, of "\<lambda>x. Some (x\<lparr>xa_value := val\<rparr>)" xs]
      change_found_other [OF that, of "\<lambda>x. None" xs]
    by (cases "xattr_seek name xs")
      (auto simp: xattr_do_set_def xattr_seek_def has_key_def perform_xattr_percent_encoding_def split: if_splits prod.splits)
qed

text \<open>A set attribute is read back with its value, by the operations on a dentry with all their locking.\<close>

lemma get_through_lock [simp]: "get b (set_lock l had has s) = get b s"
  by (simp add: get_def set_lock_def)

lemma do_set_result: "xattr_do_set mem name val x xs = (ret, ys) \<Longrightarrow> \<not> ret < 0 \<Longrightarrow> ret = 0"
  by (auto simp: xattr_do_set_def split: option.splits if_splits)

lemma set_real_stored:
  assumes "xattr_set_real env a name val replace create m = (0, m')" "heap (dentries m) a = Some d"
  shows "map_option xa_value (xattr_seek name (xattrlist (get a (dentries m')))) = Some val"
    and "other \<noteq> name \<Longrightarrow>
      xattr_seek other (xattrlist (get a (dentries m'))) = xattr_seek other (xattrlist (get a (dentries m)))"
proof -
  obtain ys where set: "xattr_do_set (env_memory (io env)) name val (xattr_seek name (xattrlist d)) (xattrlist d) = (0, ys)"
    and new: "xattrlist (get a (dentries m')) = ys" and old: "get a (dentries m) = d"
    using assms
    by (auto simp: xattr_set_real_def Let_def on_tree_def set_xattrs_def set_dirty_def acquirewrite_def releasewrite_def
        change_def set_dentry_def set_lock_def get_def dest: do_set_result split: if_splits prod.splits)
  show "map_option xa_value (xattr_seek name (xattrlist (get a (dentries m')))) = Some val"
    using do_set_seek(1) [OF set] new by simp
  show "other \<noteq> name \<Longrightarrow>
      xattr_seek other (xattrlist (get a (dentries m'))) = xattr_seek other (xattrlist (get a (dentries m)))"
    using do_set_seek(2) [OF set] new old by simp
qed

theorem get_after_set:
  assumes "xattr_set_real env a name val replace create m = (0, m')" "heap (dentries m) a = Some d"
    "length val \<le> len" "0 < len"
  shows "\<exists>m''. xattr_get_real a name len m' = (int (length val), val, m'')"
  using set_real_stored [OF assms(1,2)] assms(3,4)
  by (auto simp: xattr_get_real_def on_tree_def acquireread_def releaseread_def split: option.splits)

end
