(* ===== verification/Spec2Isabelle.thy ===== *)
theory Spec2Isabelle imports FileData ChecksumSpec ValuesSpec LockingSpec FileNamesSpec PathsSpec CriteriaSpec VolumeLocksSpec
    FsOpsSpec FsUnlinkSpec FsRename FsMeta Xattrs begin

text \<open>
  \<^bold>\<open>A verification development for the LTFS code of this repository\<close>

  LTFS makes a tape look like a disk. A cartridge has two partitions: the data partition holds
  the blocks of the files, each partition ends with an \<^emph>\<open>index\<close>, an XML document between two
  filemarks that lists every file with its extents (start block, offset in the block, length, place in
  the file). The program (\<open>src/ltfs/src\<close>) is a stack: a tape backend (\<open>tape_drivers\<close>) behind a table of operations
  (\<open>tape_ops.h\<close>), the tape layer (\<open>tape.c\<close>), the volume (\<open>ltfs.c\<close>, \<open>ltfs_internal.c\<close>), the file data
  (\<open>ltfs_fsops_raw.c\<close>), the dentry tree (\<open>fs.c\<close>), the file operations (\<open>ltfs_fsops.c\<close>), the I/O schedulers and the programs above them.
  The development follows that stack from the bottom: what is on the tape, how the layer above it
  keeps its promises, and that the bytes written through all of them are the bytes read back.

  \<^bold>\<open>Configuration.\<close> The code is read as it is compiled for Windows with \<open>x86_64-w64-mingw32\<close>:
  \<open>HPE_mingw_BUILD\<close>, \<open>mingw_PLATFORM\<close> and \<open>GENERIC_OEM_BUILD\<close> are defined, \<open>unsigned long\<close> has 32 bits and \<open>size_t\<close> 64.

  \<^bold>\<open>Conventions.\<close> A struct is a record with the fields of the code, an enum a datatype, \<open>uintN_t\<close> an
  \<open>N\<close> bit word whose arithmetic wraps. A function takes the state it works on and returns it
  beside its return code; what it writes through its pointers is part of the result. Return codes are
  \<open>int\<close>s, 0 or a negative constant of \<open>Errors\<close>. Log messages and pointer checks against \<open>NULL\<close> are
  left out. Allocation can fail wherever the model has an argument for it.

  \<^bold>\<open>The theories, and the code they model\<close>

  \<^item> \<open>Prelude\<close>: machine types, \<open>named_theorems\<close> collections and lemmas on words, maps and lists.
  \<^item> \<open>Errors\<close>: the return codes and classes of \<open>ltfs_error.h\<close> and \<open>tape.h\<close>.
  \<^item> \<open>Extents\<close>: the extent list of a file (\<open>struct extent_info\<close>, \<open>struct dentry\<close> of \<open>ltfs.h\<close>) with insertion and
    truncation from \<open>ltfs_fsops_raw.c\<close>. A list is understood as a map from file bytes to tape bytes; the
    lemmas show that insertion overrides that map, truncation restricts it, both keep the list
    sorted, disjoint and without wrap-around, and \<open>realsize\<close> is its exact total.
  \<^item> \<open>TapeOps\<close>: the data of the backend interface (\<open>tape_ops.h\<close>, \<open>ltfs_endian.h\<close>).
  \<^item> \<open>HostFiles\<close>, \<open>FileDrive\<close>, \<open>FileTape\<close>: the file backend \<open>filedebug_tc.c\<close>, which keeps a record, a filemark or the end
    of data mark per file of a host directory; every host call can fail.
  \<^item> \<open>TapeImage\<close>: the specification of a tape, two lists of items and a head. \<open>FileTapeSpec\<close>: the operations of the
    file backend refine it, whatever the directory held before.
  \<^item> \<open>TapeLayer\<close>, \<open>TapeDrive\<close>: \<open>tape.c\<close> over any drive: the drive is the record \<open>tape_ops\<close> of operations on a state type.
    \<open>TapeRules\<close> holds what the layer does for every drive: space and fence checks, append position.
    Loading a tape may call itself; the depth is an argument and 2 is enough.
  \<^item> \<open>FileBackend\<close>: the tape layer on the file backend (\<open>filedebug_handler\<close>, the table \<open>filedebug_ops\<close> of the code). The locales that
    state the tape contract are interpreted here on the model of the code.
  \<^item> \<open>Cartridge\<close>, \<open>Volume\<close>: the cartridge memory attributes and the volume record with its label and index (\<open>ltfs.h\<close>, \<open>ltfs.c\<close>).
  \<^item> \<open>IndexStream\<close>, \<open>IndexWrite\<close>, \<open>IndexRules\<close>, \<open>IndexSpec\<close>, \<open>FileVolume\<close>: the callbacks of \<open>xml_writer.c\<close> and \<open>xml_reader.c\<close> that stream
    an index to and from blocks, \<open>ltfs_write_index\<close> and what it changes, for any drive and on the file
    backend. The text of the document is a parameter.
  \<^item> \<open>FsRaw\<close>, \<open>FsRawSpec\<close>, \<open>FileData\<close>: \<open>ltfs_fsops_raw.c\<close>: writing a buffer in blocks, recording it as an extent, reading through the
    cache of the last block, with the retries after a revalidation.
  \<^item> \<open>Checksum\<close>, \<open>ChecksumSpec\<close>: \<open>reed_solomon_crc.c\<close> and \<open>crc32c_crc.c\<close>, the checksums of logical block protection. One locale
    treats both as registers of bytes: a damaged block of the size of the register is always rejected.
  \<^item> \<open>Times\<close>, \<open>TimesSpec\<close>, \<open>Values\<close>, \<open>ValuesSpec\<close>: the calendar of \<open>time_internal.c\<close> and the text of values in an index (\<open>xml_reader.c\<close>,
    \<open>xml_writer.c\<close>, \<open>base64.c\<close>), with round trips.
  \<^item> \<open>Locking\<close>, \<open>LockingSpec\<close>: the multi-reader single-writer lock of \<open>ltfs_locking.h\<close> as a system of threads; exclusion, soundness of its
    code and absence of deadlock, for every interleaving of fewer than \<open>2 ^ 32\<close> threads.

  \<^item> \<open>PathNames\<close>, \<open>FileNames\<close>, \<open>FileNamesSpec\<close>: \<open>pathname.c\<close> over ICU, whose functions are the fields of the record \<open>icu\<close>, and
    \<open>filename_handling.c\<close>: percent encoding of names on tape and names that Windows accepts.
  \<^item> \<open>Dentries\<close>, \<open>Paths\<close>, \<open>PathsSpec\<close>: \<open>fs.c\<close>. The dentries are a heap from addresses to \<open>struct dentry\<close>; every lock of a dentry is a
    field of the state, and a lock taken twice, released by mistake or on freed memory sets \<open>misuse\<close>. In a well-formed
    \<open>tree\<close> path look-up finds exactly what the names lead to and leaves exactly the locks that were asked for.
  \<^item> \<open>Criteria\<close>, \<open>CriteriaSpec\<close>: \<open>index_criteria.c\<close>, the rules for the index partition; its matcher decides exactly the glob patterns.
  \<^item> \<open>VolumeLocks\<close>, \<open>VolumeLocksSpec\<close>: the advisory lock of a volume (\<open>ltfs.c\<close>, the attribute \<open>ltfs.volumeLockState\<close> of \<open>xattr.c\<close>) as
    a step relation; a permanent lock and a write error are never forgotten.
  \<^item> \<open>FsOps\<close>, \<open>FsRename\<close>, \<open>FsMeta\<close>, \<open>FsOpsSpec\<close>, \<open>FsUnlinkSpec\<close>: \<open>ltfs_fsops.c\<close> on a mounted volume (\<open>fsys\<close>: the tree, the volume, its lock and the
    rules): opening, closing, creating, unlinking, renaming, attributes, directories, times, contents and symbolic links.
    Creating adds exactly one entry to the tree, unlinking removes exactly one.
  \<^item> \<open>Xattrs\<close>: the attributes stored with a dentry (\<open>xattr.c\<close>, their operations in \<open>ltfs_fsops.c\<close>) and making symbolic links. What is set
    is read back and leaves the other attributes alone; for a virtual attribute the operations have no result.

  \<^bold>\<open>Bounds.\<close> Loops over lists are structural. The search for the end of data in the file backend runs
  for at most \<open>2 ^ 64\<close> steps, the number of block numbers; a reader that may be sent back by a revalidation gets the
  number of its retries as an argument. A walk through the dentry tree, up or down, takes at most as many steps as there are addresses;
  the search for a name that is free ends after one candidate more than the directory has children. The
  glob matcher terminates by a measure on its stack and the rest of the name. A unit that is asked forever whether it is ready gives \<open>None\<close>.

  \<^bold>\<open>Not modelled.\<close> The XML document of an index as libxml2 builds and parses it (\<open>xml_writer_libltfs.c\<close>, \<open>xml_reader_libltfs.c\<close>
  but for the functions named above): its text is a parameter. The SCSI backend \<open>ltotape\<close>, the FUSE interface, the programs
  \<open>ltfsck\<close>, \<open>mkltfs\<close> and \<open>unltfs\<close>, plugins, tracing, logging, SNMP and the configuration file talk to the host or the drive and
  hold no state that the promises above rest on. The dentry cache (\<open>dcache.c\<close>) only dispatches to a plugin that is
  not in the repository; the file operations are those of a mount without it and without an I/O scheduler. Of
  the virtual attributes of \<open>xattr.c\<close> only the lock state is modelled: the others print fields of the records. LiveLink, the labels
  (\<open>label.c\<close>) and the formatting and mounting in \<open>ltfs.c\<close> work on documents of libxml2 or host paths.
\<close>

end
